(* ===== verification/SL_Prelude.thy ===== *)
theory SL_Prelude
  imports Main
    "HOL-Library.Word"
    "HOL-Library.AList"
    "HOL-Library.Multiset"
    "HOL-Library.Sublist"
    "HOL-Library.Char_ord"
    "HOL-Library.List_Lexorder"
begin

text \<open>
  What the theories of the development share: Go's errors and panics as values, Go's maps
  as association lists, decimal and hexadecimal numbers as strings (package
  \<^verbatim>\<open>strconv\<close> and the \<^verbatim>\<open>%d\<close> and \<^verbatim>\<open>%016x\<close> verbs of package \<^verbatim>\<open>fmt\<close>), the string
  functions of package \<^verbatim>\<open>strings\<close> that the sources call, and generic lemmas on lists,
  sums over lists and sorting.
\<close>

section \<open>Collections\<close>

named_theorems go_simps \<open>evaluation of the Go library functions\<close>
named_theorems inv_defs \<open>definitions of the invariants\<close>

section \<open>Errors and panics\<close>

text \<open>
  A Go function that returns an \<^verbatim>\<open>error\<close> has a result of type \<open>'a result\<close>: \<open>Inr\<close> the
  value when the error is \<^verbatim>\<open>nil\<close>, \<open>Inl (Fail e)\<close> the error otherwise. \<open>Inl (Panic m)\<close>
  is a run-time panic (index out of range, nil dereference, failed type assertion), which
  no caller of the sources recovers from. \<open>Errorf\<close> is \<^verbatim>\<open>fmt.Errorf\<close> and
  \<^verbatim>\<open>errors.New\<close>, \<open>Wrapf\<close> is \<^verbatim>\<open>errors.Wrapf\<close> on an error that is not nil, \<open>ExtError\<close>
  an error that a library or the operating system returns.
\<close>

datatype go_error =
    Errorf string
  | Wrapf go_error string
  | ExtError string
  | ErrNoRows
  | ErrNoManager

datatype failure = Fail go_error | Panic string

type_synonym byte = "8 word"

type_synonym 'a result = "failure + 'a"

fun wrap :: "string \<Rightarrow> failure \<Rightarrow> failure" where
  "wrap msg (Fail e) = Fail (Wrapf e msg)"
| "wrap msg (Panic p) = Panic p"

lemma wrap_eq_Panic [simp]: "wrap msg f = Panic p \<longleftrightarrow> f = Panic p"
  by (cases f) auto

definition is_ok :: "'a result \<Rightarrow> bool" where
  "is_ok r = (case r of Inl _ \<Rightarrow> False | Inr _ \<Rightarrow> True)"

lemma is_ok_simps [simp]: "is_ok (Inr x)" "\<not> is_ok (Inl e)"
  by (simp_all add: is_ok_def)

text \<open>A loop whose body may return early with an error: the state of the loop is threaded.\<close>

fun fold_result :: "('a \<Rightarrow> 's \<Rightarrow> 's result) \<Rightarrow> 'a list \<Rightarrow> 's \<Rightarrow> 's result" where
  "fold_result f [] s = Inr s"
| "fold_result f (x # xs) s = (case f x s of Inl e \<Rightarrow> Inl e | Inr s' \<Rightarrow> fold_result f xs s')"

lemma fold_result_append:
  "fold_result f (xs @ ys) s =
    (case fold_result f xs s of Inl e \<Rightarrow> Inl e | Inr s' \<Rightarrow> fold_result f ys s')"
  by (induction xs arbitrary: s) (auto split: sum.splits)

lemma fold_result_invariant:
  assumes "fold_result f xs s = Inr s'" and "P s"
    and "\<And>x s s'. x \<in> set xs \<Longrightarrow> P s \<Longrightarrow> f x s = Inr s' \<Longrightarrow> P s'"
  shows "P s'"
  using assms
proof (induction xs arbitrary: s)
  case Nil
  then show ?case by simp
next
  case (Cons x xs)
  then obtain t where t: "f x s = Inr t" "fold_result f xs t = Inr s'"
    by (auto split: sum.splits)
  have "P t" using Cons.prems(3) [OF _ Cons.prems(2) t(1)] by simp
  then show ?case using Cons.IH [OF t(2)] Cons.prems(3) by (meson list.set_intros(2))
qed

lemma fold_result_map:
  "(\<And>x acc. x \<in> set xs \<Longrightarrow> step x acc = Inr (acc @ [g x])) \<Longrightarrow>
   fold_result step xs acc = Inr (acc @ map g xs)"
  by (induction xs arbitrary: acc) auto

section \<open>Tables\<close>

lemma find_SomeD: "find P xs = Some x \<Longrightarrow> x \<in> set xs \<and> P x"
  by (induction xs) (auto split: if_splits)

lemma find_NoneD: "find P xs = None \<Longrightarrow> x \<in> set xs \<Longrightarrow> \<not> P x"
  by (induction xs) (auto split: if_splits)

text \<open>
  A table with a serial id and a unique key: ids are positive, below the next value of the
  sequence, and neither ids nor keys repeat.
\<close>

definition table_ok :: "('r \<Rightarrow> int) \<Rightarrow> ('r \<Rightarrow> 'k) \<Rightarrow> 'r list \<Rightarrow> int \<Rightarrow> bool" where
  "table_ok rid key rows nxt \<longleftrightarrow>
     0 < nxt \<and> distinct (map rid rows) \<and> distinct (map key rows) \<and> (\<forall>r \<in> set rows. 0 < rid r \<and> rid r < nxt)"

lemma table_ok_Nil [simp]: "table_ok rid key [] nxt \<longleftrightarrow> 0 < nxt"
  by (simp add: table_ok_def)

lemma table_ok_next: "table_ok rid key rows nxt \<Longrightarrow> nxt \<le> nxt' \<Longrightarrow> table_ok rid key rows nxt'"
  by (force simp: table_ok_def)

lemma table_ok_append:
  "table_ok rid key rows nxt \<Longrightarrow> rid r = nxt \<Longrightarrow> key r \<notin> key ` set rows \<Longrightarrow>
   table_ok rid key (rows @ [r]) (nxt + 1)"
  by (force simp: table_ok_def)

lemma table_ok_map:
  assumes "table_ok rid key rows nxt" "\<And>r. rid (f r) = rid r" "\<And>r. key (f r) = key r"
  shows "table_ok rid key (map f rows) nxt"
proof -
  have "rid \<circ> f = rid" "key \<circ> f = key"
    using assms(2,3) by auto
  then show ?thesis using assms by (auto simp: table_ok_def)
qed

lemma table_ok_filter: "table_ok rid key rows nxt \<Longrightarrow> table_ok rid key (filter P rows) nxt"
  by (auto simp: table_ok_def distinct_map_filter)

lemma table_ok_unique:
  "table_ok rid key rows nxt \<Longrightarrow> r \<in> set rows \<Longrightarrow> r' \<in> set rows \<Longrightarrow> rid r = rid r' \<or> key r = key r' \<Longrightarrow> r = r'"
  by (auto simp: table_ok_def distinct_map dest: inj_onD)

lemma table_ok_pos: "table_ok rid key rows nxt \<Longrightarrow> r \<in> set rows \<Longrightarrow> 0 < rid r"
  by (simp add: table_ok_def)

section \<open>Go maps that are iterated over: association lists\<close>

text \<open>
  A Go map that some loop ranges over is an association list with distinct keys; its order
  stands for the order in which \<^verbatim>\<open>range\<close> visits the entries, which Go leaves open.
\<close>

definition keys :: "('k \<times> 'v) list \<Rightarrow> 'k list" where
  "keys m = map fst m"

lemma keys_simps [simp]: "keys [] = []" "keys ((k, v) # m) = k # keys m"
  by (simp_all add: keys_def)

lemma set_keys: "set (keys m) = dom (map_of m)"
  by (simp add: keys_def dom_map_of_conv_image_fst)

lemma distinct_keys_update [simp]: "distinct (keys m) \<Longrightarrow> distinct (keys (AList.update k v m))"
  unfolding keys_def by (rule distinct_update)

lemma keys_update_iff [simp]: "x \<in> set (keys (AList.update k v m)) \<longleftrightarrow> x = k \<or> x \<in> set (keys m)"
  by (auto simp: set_keys update_conv)

lemma set_alist_update: "p \<in> set (AList.update k v m) \<Longrightarrow> p = (k, v) \<or> p \<in> set m"
  by (induction m) (auto split: if_splits)

lemma distinct_keys_map_of:
  "distinct (keys m) \<Longrightarrow> (k, v) \<in> set m \<longleftrightarrow> map_of m k = Some v"
  by (simp add: keys_def)

section \<open>Numbers as strings\<close>

text \<open>
  The digits of base at most 36, as \<^verbatim>\<open>strconv\<close> writes and reads them: written in lower
  case, read in either case.
\<close>

definition digit_char :: "nat \<Rightarrow> char" where
  "digit_char d = (if d < 10 then char_of (48 + d) else char_of (87 + d))"

definition digit_val :: "char \<Rightarrow> nat option" where
  "digit_val c = (let n = (of_char c :: nat) in
     if 48 \<le> n \<and> n \<le> 57 then Some (n - 48)
     else if 97 \<le> n \<and> n \<le> 122 then Some (n - 87)
     else if 65 \<le> n \<and> n \<le> 90 then Some (n - 55)
     else None)"

lemma digit_val_char [simp]: "d < 36 \<Longrightarrow> digit_val (digit_char d) = Some d"
  by (simp add: digit_val_def digit_char_def Let_def of_char_of)

function digits :: "nat \<Rightarrow> nat \<Rightarrow> string" where
  "digits b n = (if b < 2 \<or> n < b then [digit_char n]
                 else digits b (n div b) @ [digit_char (n mod b)])"
  by pat_completeness auto
termination
  by (relation "measure (\<lambda>(b, n). n)") auto

declare digits.simps [simp del]

lemma digits_nonempty [simp]: "digits b n \<noteq> []"
  by (subst digits.simps) simp

text \<open>Reading: the value of a digit string in base \<open>b\<close>, nothing if some digit is not one.\<close>

fun parse_digits :: "nat \<Rightarrow> string \<Rightarrow> nat \<Rightarrow> nat option" where
  "parse_digits b [] acc = Some acc"
| "parse_digits b (c # cs) acc =
     (case digit_val c of None \<Rightarrow> None
      | Some d \<Rightarrow> if d < b then parse_digits b cs (acc * b + d) else None)"

lemma parse_digits_append:
  "parse_digits b (xs @ ys) acc =
    (case parse_digits b xs acc of None \<Rightarrow> None | Some a \<Rightarrow> parse_digits b ys a)"
  by (induction xs arbitrary: acc) (auto split: option.splits)

lemma parse_digits_digits:
  assumes "2 \<le> b" "b \<le> 36"
  shows "parse_digits b (digits b n) 0 = Some n"
  using assms
proof (induction b n rule: digits.induct)
  case (1 b n)
  show ?case
  proof (cases "n < b")
    case True
    then show ?thesis using 1 by (subst digits.simps) simp
  next
    case False
    then have IH: "parse_digits b (digits b (n div b)) 0 = Some (n div b)"
      using 1 by simp
    have lt: "n mod b < b" using 1 by simp
    then have lt36: "n mod b < 36" using 1 by linarith
    have split: "digits b n = digits b (n div b) @ [digit_char (n mod b)]"
      using False 1 by (subst digits.simps) simp
    have "digit_val (digit_char (n mod b)) = Some (n mod b)"
      using lt36 by simp
    then show ?thesis
      using IH lt by (simp add: split parse_digits_append)
  qed
qed

text \<open>
  \<^verbatim>\<open>strconv.ParseInt(s, base, 64)\<close> for an explicit base: an optional sign, at least one
  digit, and the range of int64.
\<close>

definition parse_int :: "nat \<Rightarrow> string \<Rightarrow> int option" where
  "parse_int b s =
    (let (neg, u) = (case s of CHR ''-'' # r \<Rightarrow> (True, r) | CHR ''+'' # r \<Rightarrow> (False, r) | _ \<Rightarrow> (False, s))
     in if u = [] then None else
       (case parse_digits b u 0 of None \<Rightarrow> None
        | Some n \<Rightarrow> if neg then (if n \<le> 2 ^ 63 then Some (- int n) else None)
                   else (if n < 2 ^ 63 then Some (int n) else None)))"

lemma parse_int_code [code]:
  "parse_int b s =
    (let (neg, u) = (case s of CHR ''-'' # r \<Rightarrow> (True, r) | CHR ''+'' # r \<Rightarrow> (False, r) | _ \<Rightarrow> (False, s))
     in if u = [] then None else
       (case parse_digits b u 0 of None \<Rightarrow> None
        | Some n \<Rightarrow> if neg then (if int n \<le> 2 ^ 63 then Some (- int n) else None)
                   else (if int n < 2 ^ 63 then Some (int n) else None)))"
proof -
  have "int n \<le> 2 ^ 63 \<longleftrightarrow> n \<le> 2 ^ 63" "int n < 2 ^ 63 \<longleftrightarrow> n < 2 ^ 63" for n by simp_all
  then show ?thesis unfolding parse_int_def by (simp only:)
qed

definition itoa :: "int \<Rightarrow> string" where
  "itoa i = (if i < 0 then CHR ''-'' # digits 10 (nat (- i)) else digits 10 (nat i))"

definition int64 :: "int \<Rightarrow> bool" where
  "int64 i \<longleftrightarrow> - (2 ^ 63) \<le> i \<and> i < 2 ^ 63"

lemma digit_char_not_sign:
  "d < 36 \<Longrightarrow> digit_char d \<noteq> CHR ''-'' \<and> digit_char d \<noteq> CHR ''+''"
  using digit_val_char [of d] by (auto simp: digit_val_def)

lemma hd_digits:
  assumes "2 \<le> b" "b \<le> 36"
  shows "\<exists>d r. digits b n = digit_char d # r \<and> d < 36"
  using assms
proof (induction b n rule: digits.induct)
  case (1 b n)
  show ?case
  proof (cases "n < b")
    case True
    then show ?thesis using 1 by (subst digits.simps) fastforce
  next
    case False
    then obtain d r where "digits b (n div b) = digit_char d # r \<and> d < 36"
      using 1 by auto
    then show ?thesis using False 1 by (subst digits.simps) simp
  qed
qed

lemma parse_int_digits:
  assumes b: "2 \<le> b" "b \<le> 36" and n: "n < 2 ^ 63"
  shows "parse_int b (digits b n) = Some (int n)"
proof -
  obtain d r where d: "digits b n = digit_char d # r" "d < 36"
    using hd_digits [OF b, of n] by blast
  then have sign: "(case digits b n of CHR ''-'' # r \<Rightarrow> (True, r) | CHR ''+'' # r \<Rightarrow> (False, r)
       | _ \<Rightarrow> (False, digits b n)) = (False, digits b n)"
    using digit_char_not_sign [OF d(2)] by (auto split: char.splits bool.splits)
  show ?thesis
    using parse_digits_digits [OF b, of n] n by (simp add: parse_int_def sign)
qed

lemma parse_int_itoa: "int64 i \<Longrightarrow> parse_int 10 (itoa i) = Some i"
proof (cases "i < 0")
  case True
  assume "int64 i"
  then have "nat (- i) \<le> nat (2 ^ 63)"
    unfolding int64_def by (intro nat_mono) simp
  then have "nat (- i) \<le> 2 ^ 63"
    by simp
  then show ?thesis
    using parse_digits_digits [of 10 "nat (- i)"] True by (simp add: parse_int_def itoa_def)
next
  case False
  assume "int64 i"
  then have "nat i < 2 ^ 63"
    using False by (simp add: int64_def)
  then show ?thesis
    using parse_int_digits [of 10 "nat i"] False by (simp add: itoa_def)
qed

lemma itoa_nonempty [simp]: "itoa i \<noteq> []"
  by (simp add: itoa_def)

lemma digits_inject: "digits 10 m = digits 10 n \<longleftrightarrow> m = n"
proof
  assume "digits 10 m = digits 10 n"
  then have "parse_digits 10 (digits 10 m) 0 = parse_digits 10 (digits 10 n) 0"
    by (rule arg_cong)
  moreover have "parse_digits 10 (digits 10 k) 0 = Some k" for k
    by (rule parse_digits_digits) simp_all
  ultimately show "m = n" by simp
qed simp

lemma digits_no_sign: "digits 10 n \<noteq> CHR ''-'' # r"
  using hd_digits [of 10 n] digit_char_not_sign by fastforce

lemma itoa_inject: "itoa i = itoa j \<longleftrightarrow> i = j"
  using digits_no_sign [of "nat i"] digits_no_sign [of "nat j", symmetric]
  by (auto simp: itoa_def digits_inject split: if_splits)

section \<open>Strings\<close>

definition trim_prefix :: "string \<Rightarrow> string \<Rightarrow> string" where
  "trim_prefix p s = (if prefix p s then drop (length p) s else s)"

definition trim_suffix :: "string \<Rightarrow> string \<Rightarrow> string" where
  "trim_suffix p s = (if suffix p s then take (length s - length p) s else s)"

text \<open>\<^verbatim>\<open>strings.Split(s, sep)\<close> for a separator of one character.\<close>

fun split_on :: "char \<Rightarrow> string \<Rightarrow> string list" where
  "split_on c [] = [[]]"
| "split_on c (x # xs) =
     (if x = c then [] # split_on c xs
      else (case split_on c xs of [] \<Rightarrow> [[x]] | y # ys \<Rightarrow> (x # y) # ys))"

fun join_with :: "string \<Rightarrow> string list \<Rightarrow> string" where
  "join_with sep [] = []"
| "join_with sep [x] = x"
| "join_with sep (x # xs) = x @ sep @ join_with sep xs"

lemma split_on_nonempty [simp]: "split_on c s \<noteq> []"
  by (induction s) (auto split: list.splits)

lemma split_on_no_sep: "c \<notin> set s \<Longrightarrow> split_on c s = [s]"
  by (induction s) auto

lemma split_on_elem: "x \<in> set (split_on c s) \<Longrightarrow> c \<notin> set x"
  by (induction s arbitrary: x) (auto split: list.splits if_splits)

lemma split_on_Cons_append:
  "c \<notin> set x \<Longrightarrow> split_on c (x @ c # s) = x # split_on c s"
  by (induction x) auto

lemma split_on_join:
  "xs \<noteq> [] \<Longrightarrow> (\<forall>x \<in> set xs. c \<notin> set x) \<Longrightarrow> split_on c (join_with [c] xs) = xs"
  by (induction "[c]" xs rule: join_with.induct) (auto simp: split_on_no_sep split_on_Cons_append)

lemma join_split_on: "join_with [c] (split_on c s) = s"
proof (induction s)
  case Nil
  show ?case by simp
next
  case (Cons x s)
  obtain y ys where y: "split_on c s = y # ys"
    using split_on_nonempty [of c s] by (cases "split_on c s") auto
  show ?case
    using Cons y by (cases ys) auto
qed

section \<open>Sums and prefixes of lists\<close>

lemma sum_list_take_Suc:
  "i < length xs \<Longrightarrow> sum_list (take (Suc i) xs) = sum_list (take i xs) + xs ! i"
  for xs :: "int list"
  by (simp add: take_Suc_conv_app_nth)

lemma sum_list_nonneg_take_le:
  "(\<forall>x \<in> set xs. 0 \<le> x) \<Longrightarrow> sum_list (take i xs) \<le> sum_list xs"
  for xs :: "int list"
proof -
  assume nonneg: "\<forall>x \<in> set xs. 0 \<le> x"
  have "sum_list xs = sum_list (take i xs) + sum_list (drop i xs)"
    by (metis append_take_drop_id sum_list_append)
  moreover have "0 \<le> sum_list (drop i xs)"
    using nonneg by (intro sum_list_nonneg) (auto dest: in_set_dropD)
  ultimately show ?thesis by simp
qed

lemma Min_list_le:
  "x \<in> set xs \<Longrightarrow> Min (set xs) \<le> x" for xs :: "'a :: linorder list"
  by simp

section \<open>Sorting by a comparison\<close>

text \<open>
  Package \<^verbatim>\<open>sort\<close> sorts by a method \<^verbatim>\<open>Less\<close>; the result is a permutation in which no element
  is less than one before it, as long as \<^verbatim>\<open>Less\<close> is a strict weak order. The locale states
  that contract and what follows from it; every \<^verbatim>\<open>Less\<close> method of the sources interprets
  it. The order of elements that compare equal is left open by \<^verbatim>\<open>sort.Sort\<close>: the model uses
  insertion, which keeps it.
\<close>

fun insert_less :: "('a \<Rightarrow> 'a \<Rightarrow> bool) \<Rightarrow> 'a \<Rightarrow> 'a list \<Rightarrow> 'a list" where
  "insert_less lt x [] = [x]"
| "insert_less lt x (y # ys) = (if lt y x then y # insert_less lt x ys else x # y # ys)"

fun sort_less :: "('a \<Rightarrow> 'a \<Rightarrow> bool) \<Rightarrow> 'a list \<Rightarrow> 'a list" where
  "sort_less lt [] = []"
| "sort_less lt (x # xs) = insert_less lt x (sort_less lt xs)"

lemma mset_insert_less [simp]: "mset (insert_less lt x xs) = add_mset x (mset xs)"
  by (induction xs) auto

lemma mset_sort_less [simp]: "mset (sort_less lt xs) = mset xs"
  by (induction xs) auto

lemma set_sort_less [simp]: "set (sort_less lt xs) = set xs"
  by (metis mset_sort_less set_mset_mset)

lemma length_sort_less [simp]: "length (sort_less lt xs) = length xs"
  by (metis mset_sort_less size_mset)

lemma distinct_sort_less [simp]: "distinct (sort_less lt xs) = distinct xs"
  by (metis mset_sort_less mset_eq_imp_distinct_iff)

locale weak_order =
  fixes lt :: "'a \<Rightarrow> 'a \<Rightarrow> bool"
  assumes lt_irrefl: "\<not> lt x x"
    and lt_asym: "lt x y \<Longrightarrow> \<not> lt y x"
    and not_lt_trans: "\<not> lt y x \<Longrightarrow> \<not> lt z y \<Longrightarrow> \<not> lt z x"
begin

definition ordered :: "'a list \<Rightarrow> bool" where
  "ordered xs \<longleftrightarrow> sorted_wrt (\<lambda>x y. \<not> lt y x) xs"

lemma ordered_insert: "ordered xs \<Longrightarrow> ordered (insert_less lt x xs)"
proof (induction xs)
  case Nil
  then show ?case by (simp add: ordered_def)
next
  case (Cons y ys)
  have mem: "set (insert_less lt x ys) = insert x (set ys)"
    by (metis mset_insert_less set_mset_mset set_mset_add_mset_insert)
  have y: "\<not> lt z y" if "z \<in> set ys" for z
    using Cons.prems that by (simp add: ordered_def)
  show ?case
  proof (cases "lt y x")
    case True
    then have "\<not> lt x y" by (rule lt_asym)
    then show ?thesis
      using Cons True mem y by (simp add: ordered_def)
  next
    case False
    have "\<not> lt z x" if "z \<in> set ys" for z
      using not_lt_trans [OF False y [OF that]] .
    then show ?thesis
      using Cons.prems False by (simp add: ordered_def)
  qed
qed

lemma ordered_sort: "ordered (sort_less lt xs)"
  by (induction xs) (simp_all add: ordered_insert, simp add: ordered_def)

lemma sort_not_lt:
  assumes "i < j" "j < length xs"
  shows "\<not> lt (sort_less lt xs ! j) (sort_less lt xs ! i)"
  using ordered_sort [of xs] assms by (auto simp: ordered_def sorted_wrt_iff_nth_less)

end

text \<open>The order of a numeric or string field is such a comparison.\<close>

lemma weak_order_key: "weak_order (\<lambda>x y. f x < (f y :: 'b :: linorder))"
  by unfold_locales auto

section \<open>Bytes and error texts\<close>

definition bytes_of :: "string \<Rightarrow> byte list" where
  "bytes_of s = map (\<lambda>c. word_of_nat (of_char c)) s"

definition string_of :: "byte list \<Rightarrow> string" where
  "string_of bs = map (\<lambda>b. char_of (unat b)) bs"

lemma string_of_bytes_of [simp]: "string_of (bytes_of s) = s"
proof -
  have "char_of (unat (word_of_nat (of_char c) :: byte)) = c" for c :: char
  proof -
    have "unat (word_of_nat (of_char c) :: byte) = take_bit 8 (of_char c)" by (simp add: unat_of_nat take_bit_eq_mod)
    then show ?thesis by (simp add: take_bit_eq_mod)
  qed
  then show ?thesis by (simp add: string_of_def bytes_of_def comp_def)
qed

lemma length_bytes_of [simp]: "length (bytes_of s) = length s"
  by (simp add: bytes_of_def)

text \<open>\<^verbatim>\<open>err.Error()\<close>.\<close>

fun go_error_string :: "go_error \<Rightarrow> string" where
  "go_error_string (Errorf s) = s"
| "go_error_string (Wrapf e s) = s @ '': '' @ go_error_string e"
| "go_error_string (ExtError s) = s"
| "go_error_string ErrNoRows = ''sql: no rows in result set''"
| "go_error_string ErrNoManager = ''no manager found''"

end
