(* ===== verification/Go_Path.thy ===== *)
theory Go_Path
  imports SL_Prelude
begin

text \<open>
  The functions of Go's packages \<^verbatim>\<open>path\<close> and \<^verbatim>\<open>path/filepath\<close> (on Unix they agree) that the
  sources call: \<open>path_clean\<close>, \<open>path_join\<close>, \<open>path_split\<close>, \<open>path_dir\<close>, \<open>path_base\<close> and
  \<open>path_ext\<close>; and the two functions of util/common/stargz.go that are built on them,
  \<open>cleanEntryName\<close> and \<open>parentDir\<close>. A path is taken apart into its components; the
  lemmas say that a cleaned entry name is a canonical relative path.
\<close>

section \<open>Package path\<close>

abbreviation slash :: char where "slash \<equiv> CHR ''/''"

abbreviation dotdot :: string where "dotdot \<equiv> ''..''"

text \<open>
  \<^verbatim>\<open>path.Clean\<close> works through the components of the path; the result so far is a stack.
\<close>

fun clean_step :: "bool \<Rightarrow> string list \<Rightarrow> string \<Rightarrow> string list" where
  "clean_step rooted st c =
     (if c = '''' \<or> c = ''.'' then st
      else if c = dotdot then
        (case st of [] \<Rightarrow> (if rooted then [] else [dotdot])
         | x # xs \<Rightarrow> (if x = dotdot then dotdot # st else xs))
      else c # st)"

definition clean_comps :: "bool \<Rightarrow> string list \<Rightarrow> string list" where
  "clean_comps rooted cs = rev (foldl (clean_step rooted) [] cs)"

definition path_clean :: "string \<Rightarrow> string" where
  "path_clean s =
     (if s = [] then ''.''
      else if hd s = slash then slash # join_with [slash] (clean_comps True (split_on slash (tl s)))
      else (case clean_comps False (split_on slash s) of
              [] \<Rightarrow> ''.'' | cs \<Rightarrow> join_with [slash] cs))"

text \<open>\<^verbatim>\<open>path.Join\<close> ignores empty elements and cleans the rest.\<close>

definition path_join :: "string list \<Rightarrow> string" where
  "path_join es =
     (case filter (\<lambda>e. e \<noteq> []) es of [] \<Rightarrow> [] | es' \<Rightarrow> path_clean (join_with [slash] es'))"

text \<open>\<^verbatim>\<open>path.Split\<close>: directory up to and including the last slash, and the rest.\<close>

fun path_split :: "string \<Rightarrow> string \<times> string" where
  "path_split s =
     (let cs = split_on slash s
      in (concat (map (\<lambda>c. c @ [slash]) (butlast cs)), last cs))"

definition path_dir :: "string \<Rightarrow> string" where
  "path_dir s = path_clean (fst (path_split s))"

fun drop_trailing :: "char \<Rightarrow> string \<Rightarrow> string" where
  "drop_trailing c s = rev (dropWhile (\<lambda>x. x = c) (rev s))"

definition path_base :: "string \<Rightarrow> string" where
  "path_base s =
     (if s = [] then ''.''
      else (let t = drop_trailing slash s
            in if t = [] then [slash] else last (split_on slash t)))"

text \<open>\<^verbatim>\<open>path.Ext\<close>: from the last dot of the last component on.\<close>

definition path_ext :: "string \<Rightarrow> string" where
  "path_ext s =
     (let b = last (split_on slash s); ds = split_on CHR ''.'' b
      in if length ds < 2 then [] else CHR ''.'' # last ds)"

section \<open>Entry names of a layer\<close>

text \<open>\<^verbatim>\<open>cleanEntryName\<close> and \<^verbatim>\<open>parentDir\<close> of util/common/stargz.go.\<close>

definition cleanEntryName :: "string \<Rightarrow> string" where
  "cleanEntryName name = trim_prefix [slash] (path_clean (slash # name))"

definition parentDir :: "string \<Rightarrow> string" where
  "parentDir p = trim_suffix [slash] (fst (path_split p))"

text \<open>
  A component is normal when it is neither empty nor a dot nor a double dot. The canonical
  names are the joins of normal components: no leading slash, no way out of the layer.
\<close>

definition normal_comp :: "string \<Rightarrow> bool" where
  "normal_comp c \<longleftrightarrow> c \<noteq> [] \<and> c \<noteq> ''.'' \<and> c \<noteq> dotdot \<and> slash \<notin> set c"

definition canonical :: "string \<Rightarrow> bool" where
  "canonical s \<longleftrightarrow> s = [] \<or> (\<forall>c \<in> set (split_on slash s). normal_comp c)"

lemma clean_step_normal:
  "\<forall>x \<in> set st. normal_comp x \<Longrightarrow> slash \<notin> set c \<Longrightarrow> \<forall>x \<in> set (clean_step True st c). normal_comp x"
  by (cases st) (simp_all add: normal_comp_def)

lemma foldl_clean_normal:
  "\<forall>x \<in> set st. normal_comp x \<Longrightarrow> \<forall>c \<in> set cs. slash \<notin> set c \<Longrightarrow>
   \<forall>x \<in> set (foldl (clean_step True) st cs). normal_comp x"
proof (induction cs arbitrary: st)
  case Nil
  then show ?case by simp
next
  case (Cons c cs)
  have "\<forall>x \<in> set (clean_step True st c). normal_comp x"
    using Cons.prems by (intro clean_step_normal) auto
  moreover have "\<forall>c \<in> set cs. slash \<notin> set c"
    using Cons.prems by simp
  ultimately have "\<forall>x \<in> set (foldl (clean_step True) (clean_step True st c) cs). normal_comp x"
    by (rule Cons.IH)
  then show ?case by (simp only: foldl_Cons)
qed

lemma clean_comps_normal:
  "\<forall>c \<in> set (clean_comps True (split_on slash s)). normal_comp c"
  unfolding clean_comps_def set_rev
  by (rule foldl_clean_normal) (auto dest: split_on_elem)

lemma foldl_clean_id:
  "\<forall>c \<in> set cs. normal_comp c \<Longrightarrow> foldl (clean_step r) st cs = rev cs @ st"
  by (induction cs arbitrary: st) (auto simp: normal_comp_def)

lemma clean_comps_id: "\<forall>c \<in> set cs. normal_comp c \<Longrightarrow> clean_comps r cs = cs"
  by (simp add: clean_comps_def foldl_clean_id)

lemma cleanEntryName_comps:
  "cleanEntryName name = join_with [slash] (clean_comps True (split_on slash name))"
  by (simp add: cleanEntryName_def path_clean_def trim_prefix_def)

lemma canonical_join:
  "\<forall>c \<in> set cs. normal_comp c \<Longrightarrow> canonical (join_with [slash] cs)"
  by (cases "cs = []") (auto simp: canonical_def split_on_join normal_comp_def)

lemma cleanEntryName_canonical: "canonical (cleanEntryName name)"
  unfolding cleanEntryName_comps by (rule canonical_join) (rule clean_comps_normal)

lemma cleanEntryName_id: "canonical s \<Longrightarrow> cleanEntryName s = s"
  by (auto simp: canonical_def cleanEntryName_comps clean_comps_id join_split_on)
     (simp add: clean_comps_def)

lemma canonical_comps:
  assumes "canonical s" "s \<noteq> []"
  obtains cs c where "split_on slash s = cs @ [c]" "\<forall>x \<in> set (cs @ [c]). normal_comp x"
    "s = join_with [slash] (cs @ [c])"
proof -
  obtain cs c where cs: "split_on slash s = cs @ [c]"
    by (metis append_butlast_last_id split_on_nonempty)
  then show thesis
    using that [OF cs] assms join_split_on [of slash s] by (simp add: canonical_def)
qed

section \<open>Parents of canonical names\<close>

lemma join_with_snoc:
  "cs \<noteq> [] \<Longrightarrow> join_with [c] (cs @ [x]) = join_with [c] cs @ c # x"
  by (induction "[c]" cs rule: join_with.induct) (auto simp: neq_Nil_conv)

lemma concat_slash: "cs \<noteq> [] \<Longrightarrow> concat (map (\<lambda>c. c @ [slash]) cs) = join_with [slash] cs @ [slash]"
  by (induction "[slash]" cs rule: join_with.induct) auto

lemma parentDir_join:
  assumes "\<forall>x \<in> set (cs @ [c]). normal_comp x"
  shows "parentDir (join_with [slash] (cs @ [c])) = join_with [slash] cs"
proof -
  have "split_on slash (join_with [slash] (cs @ [c])) = cs @ [c]"
    using assms by (intro split_on_join) (auto simp: normal_comp_def)
  then show ?thesis
    by (cases "cs = []") (simp_all add: parentDir_def concat_slash trim_suffix_def)
qed

lemma path_base_join:
  assumes "\<forall>x \<in> set (cs @ [c]). normal_comp x"
  shows "path_base (join_with [slash] (cs @ [c])) = c"
proof -
  let ?s = "join_with [slash] (cs @ [c])"
  have c: "c \<noteq> []" "slash \<notin> set c"
    using assms by (auto simp: normal_comp_def)
  have last: "last ?s = last c" "?s \<noteq> []"
    using c by (cases "cs = []"; simp add: join_with_snoc)+
  then have "drop_trailing slash ?s = ?s"
    using c by (cases ?s rule: rev_cases) (auto dest: last_in_set)
  moreover have "split_on slash ?s = cs @ [c]"
    using assms by (intro split_on_join) (auto simp: normal_comp_def)
  ultimately show ?thesis
    using last by (simp add: path_base_def)
qed

lemma parentDir_canonical: "canonical s \<Longrightarrow> canonical (parentDir s)"
proof (cases "s = []")
  case True
  then show ?thesis by (simp add: parentDir_def trim_suffix_def canonical_def)
next
  case False
  assume "canonical s"
  then obtain cs c where s: "\<forall>x \<in> set (cs @ [c]). normal_comp x" "s = join_with [slash] (cs @ [c])"
    using False by (rule canonical_comps)
  then show ?thesis
    using parentDir_join [OF s(1)] by (simp add: canonical_join)
qed

lemma length_parentDir:
  assumes "s \<noteq> []"
  shows "length (parentDir s) < length s"
proof -
  obtain cs c where cs: "split_on slash s = cs @ [c]"
    by (metis append_butlast_last_id split_on_nonempty)
  then have s: "s = join_with [slash] (cs @ [c])"
    using join_split_on [of slash s] by simp
  show ?thesis
  proof (cases "cs = []")
    case True
    then show ?thesis using assms cs by (simp add: parentDir_def trim_suffix_def)
  next
    case False
    then have "parentDir s = join_with [slash] cs"
      using cs by (simp add: parentDir_def concat_slash trim_suffix_def)
    then show ?thesis
      using False s by (simp add: join_with_snoc)
  qed
qed

lemma parentDir_Nil [simp]: "parentDir [] = []"
  by (simp add: parentDir_def trim_suffix_def)

lemma parentDir_neq: "s \<noteq> [] \<Longrightarrow> parentDir s \<noteq> s"
  using length_parentDir by fastforce

end
