(* ===== verification/Toc.thy ===== *)
theory Toc
  imports Complex_Main Go_Path
begin

text \<open>
  util/common/toc.go: the entries of a layer's table of contents and their operations, the
  traceable entries that the proxy stores in its database, and the comparisons that sort
  them. Entries refer to each other by pointers, so they live in a store: a list of
  entries, an address being an index. The modification time is what
  \<^verbatim>\<open>time.Parse\<close> returns, a number of seconds; the parser is a parameter.
\<close>

unbundle bit_operations_syntax

section \<open>The entry\<close>

type_synonym addr = nat

record toc_entry =
  e_Name :: string
  e_Type :: string
  e_Size :: int
  e_ModTime3339 :: string
  e_modTime :: int
  e_LinkName :: string
  e_Mode :: int
  e_UID :: int
  e_GID :: int
  e_Uname :: string
  e_Gname :: string
  e_Offset :: int
  e_nextOffset :: int
  e_DevMajor :: int
  e_DevMinor :: int
  e_NumLink :: int
  e_Xattrs :: "(string \<times> string) list"
  e_Digest :: string
  e_ChunkOffset :: int
  e_ChunkSize :: int
  e_ChunkDigest :: string
  e_CompressedSize :: int
  e_sourceLayer :: int
  e_landmark :: int
  e_children :: "(string \<times> addr) list"

text \<open>The zero value of the struct.\<close>

definition zero_entry :: toc_entry where
  "zero_entry = \<lparr>e_Name = [], e_Type = [], e_Size = 0, e_ModTime3339 = [], e_modTime = 0,
     e_LinkName = [], e_Mode = 0, e_UID = 0, e_GID = 0, e_Uname = [], e_Gname = [],
     e_Offset = 0, e_nextOffset = 0, e_DevMajor = 0, e_DevMinor = 0, e_NumLink = 0,
     e_Xattrs = [], e_Digest = [], e_ChunkOffset = 0, e_ChunkSize = 0, e_ChunkDigest = [],
     e_CompressedSize = 0, e_sourceLayer = 0, e_landmark = 0, e_children = []\<rparr>"

definition PrefetchLandmark :: string where "PrefetchLandmark = ''.prefetch.landmark''"

definition NoPrefetchLandmark :: string where "NoPrefetchLandmark = ''.no.prefetch.landmark''"

definition TOCTarName :: string where "TOCTarName = ''stargz.index.json''"

definition EmptyFileHash :: string where
  "EmptyFileHash = ''sha256:e3b0c44298fc1c149afbf4c8996fb92427ae41e4649b934ca495991b7852b855''"

definition InitModTime :: "(string \<Rightarrow> int) \<Rightarrow> toc_entry \<Rightarrow> toc_entry" where
  "InitModTime ptime e = e\<lparr>e_modTime := ptime (e_ModTime3339 e)\<rparr>"

section \<open>Predicates\<close>

definition IsDataType :: "toc_entry \<Rightarrow> bool" where
  "IsDataType e \<longleftrightarrow> e_Type e = ''reg'' \<or> e_Type e = ''chunk''"

definition IsDir :: "toc_entry \<Rightarrow> bool" where
  "IsDir e \<longleftrightarrow> e_Type e = ''dir''"

definition IsMeta :: "toc_entry \<Rightarrow> bool" where
  "IsMeta e \<longleftrightarrow> e_Type e = ''meta''"

definition IsLandmark :: "toc_entry \<Rightarrow> bool" where
  "IsLandmark e \<longleftrightarrow> e_Name e = PrefetchLandmark \<or> e_Name e = NoPrefetchLandmark"

definition IsRoot :: "toc_entry \<Rightarrow> bool" where
  "IsRoot e \<longleftrightarrow> e_Name e = ''.''"

definition HasChunk :: "toc_entry \<Rightarrow> bool" where
  "HasChunk e \<longleftrightarrow> e_Type e = ''reg'' \<and> 0 < e_ChunkSize e \<and> e_ChunkSize e < e_Size e"

definition IsWhiteoutFile :: "toc_entry \<Rightarrow> bool" where
  "IsWhiteoutFile e \<longleftrightarrow> prefix ''.wh.'' (path_base (e_Name e))"

section \<open>Children\<close>

text \<open>
  \<^verbatim>\<open>AddChild\<close>, \<^verbatim>\<open>GetChild\<close>, \<^verbatim>\<open>RemoveChild\<close> and \<^verbatim>\<open>RemoveAllChildren\<close>; the receiver of the
  last three may be nil (\<open>None\<close>). An empty association list stands for a nil map as well:
  no operation tells them apart.
\<close>

type_synonym store = "toc_entry list"

definition AddChild :: "store \<Rightarrow> addr \<Rightarrow> string \<Rightarrow> addr \<Rightarrow> store" where
  "AddChild st e baseName child =
     (let ent = st ! e;
          ent1 = (if e_Type (st ! child) = ''dir'' then ent\<lparr>e_NumLink := e_NumLink ent + 1\<rparr> else ent)
      in st[e := ent1\<lparr>e_children := AList.update baseName child (e_children ent1)\<rparr>])"

definition LookupChild :: "store \<Rightarrow> addr \<Rightarrow> string \<Rightarrow> addr option" where
  "LookupChild st e baseName = map_of (e_children (st ! e)) baseName"

definition GetChild :: "store \<Rightarrow> addr option \<Rightarrow> string \<Rightarrow> addr option" where
  "GetChild st oe baseName =
     (case oe of None \<Rightarrow> None | Some e \<Rightarrow> map_of (e_children (st ! e)) baseName)"

definition HasChild :: "store \<Rightarrow> addr option \<Rightarrow> string \<Rightarrow> bool" where
  "HasChild st oe baseName = (GetChild st oe baseName \<noteq> None)"

definition RemoveChild :: "store \<Rightarrow> addr option \<Rightarrow> string \<Rightarrow> store" where
  "RemoveChild st oe baseName =
     (case oe of None \<Rightarrow> st
      | Some e \<Rightarrow>
          (let ent = st ! e in
           case map_of (e_children ent) baseName of None \<Rightarrow> st
           | Some item \<Rightarrow>
               (let ent1 = (if e_Type (st ! item) = ''dir'' then ent\<lparr>e_NumLink := e_NumLink ent - 1\<rparr> else ent)
                in st[e := ent1\<lparr>e_children := AList.delete baseName (e_children ent1)\<rparr>])))"

fun count_dirs :: "store \<Rightarrow> (string \<times> addr) list \<Rightarrow> int" where
  "count_dirs st [] = 0"
| "count_dirs st ((_, a) # cs) = (if e_Type (st ! a) = ''dir'' then 1 else 0) + count_dirs st cs"

definition RemoveAllChildren :: "store \<Rightarrow> addr option \<Rightarrow> store" where
  "RemoveAllChildren st oe =
     (case oe of None \<Rightarrow> st
      | Some e \<Rightarrow> st[e := (st ! e)\<lparr>e_NumLink := e_NumLink (st ! e) - count_dirs st (e_children (st ! e)),
                                   e_children := []\<rparr>])"

text \<open>\<^verbatim>\<open>ForeachChild\<close> calls \<open>f\<close>, which threads a state, until it returns false.\<close>

fun ForeachChild :: "(string \<Rightarrow> addr \<Rightarrow> 's \<Rightarrow> bool \<times> 's) \<Rightarrow> (string \<times> addr) list \<Rightarrow> 's \<Rightarrow> 's" where
  "ForeachChild f [] s = s"
| "ForeachChild f ((name, ent) # cs) s =
     (let (go, s') = f name ent s in if go then ForeachChild f cs s' else s')"

text \<open>
  The links of a directory: itself, its parent, and one for each child directory. The
  number of links that are not accounted for by child directories never changes.
\<close>

definition own_links :: "store \<Rightarrow> addr \<Rightarrow> int" where
  "own_links st e = e_NumLink (st ! e) - count_dirs st (e_children (st ! e))"

lemma count_dirs_delete:
  "distinct (keys cs) \<Longrightarrow> map_of cs b = Some a \<Longrightarrow>
   count_dirs st cs = count_dirs st (AList.delete b cs) + (if e_Type (st ! a) = ''dir'' then 1 else 0)"
proof (induction cs)
  case Nil
  then show ?case by simp
next
  case (Cons p cs)
  obtain k c where p: "p = (k, c)" by (cases p)
  show ?case
  proof (cases "k = b")
    case True
    then have "AList.delete b cs = cs"
      using Cons.prems p by (intro delete_id) (auto simp: keys_def)
    then show ?thesis using Cons.prems True p by simp
  next
    case False
    then show ?thesis using Cons p by simp
  qed
qed

lemma count_dirs_update_new:
  "b \<notin> set (keys cs) \<Longrightarrow>
   count_dirs st (AList.update b a cs) = count_dirs st cs + (if e_Type (st ! a) = ''dir'' then 1 else 0)"
  by (induction cs) auto

lemma count_dirs_cong:
  "(\<And>a. e_Type (st ! a) = e_Type (st' ! a)) \<Longrightarrow> count_dirs st cs = count_dirs st' cs"
  by (induction cs) auto

lemma type_update_same: "e < length st \<Longrightarrow> e_Type x = e_Type (st ! e) \<Longrightarrow> e_Type (st[e := x] ! a) = e_Type (st ! a)"
  by (cases "a = e") auto

lemma AddChild_lookup:
  "e < length st \<Longrightarrow> LookupChild (AddChild st e b c) e b' = (if b' = b then Some c else LookupChild st e b')"
  by (simp add: LookupChild_def AddChild_def Let_def update_conv)

lemma AddChild_own_links:
  assumes "e < length st" "LookupChild st e b = None"
  shows "own_links (AddChild st e b c) e = own_links st e"
proof -
  have b: "b \<notin> set (keys (e_children (st ! e)))"
    using assms(2) by (auto simp: LookupChild_def set_keys)
  have ty: "e_Type (AddChild st e b c ! a) = e_Type (st ! a)" for a
    using assms(1) by (auto simp: AddChild_def Let_def type_update_same)
  have kids: "e_children (AddChild st e b c ! e) = AList.update b c (e_children (st ! e))"
    using assms(1) by (simp add: AddChild_def Let_def)
  have links: "e_NumLink (AddChild st e b c ! e) = e_NumLink (st ! e) + (if e_Type (st ! c) = ''dir'' then 1 else 0)"
    using assms(1) by (simp add: AddChild_def Let_def)
  have "count_dirs (AddChild st e b c) (AList.update b c (e_children (st ! e)))
      = count_dirs st (AList.update b c (e_children (st ! e)))"
    by (rule count_dirs_cong) (rule ty)
  then show ?thesis
    by (simp add: own_links_def kids links count_dirs_update_new [OF b])
qed

lemma RemoveChild_own_links:
  assumes "e < length st" "distinct (keys (e_children (st ! e)))"
  shows "own_links (RemoveChild st (Some e) b) e = own_links st e"
proof (cases "map_of (e_children (st ! e)) b")
  case None
  then show ?thesis by (simp add: RemoveChild_def Let_def)
next
  case (Some item)
  let ?t = "RemoveChild st (Some e) b"
  have ty: "e_Type (?t ! a) = e_Type (st ! a)" for a
    using assms(1) Some by (auto simp: RemoveChild_def Let_def type_update_same)
  have kids: "e_children (?t ! e) = AList.delete b (e_children (st ! e))"
    using assms(1) Some by (simp add: RemoveChild_def Let_def)
  have links: "e_NumLink (?t ! e) = e_NumLink (st ! e) - (if e_Type (st ! item) = ''dir'' then 1 else 0)"
    using assms(1) Some by (simp add: RemoveChild_def Let_def)
  have "count_dirs ?t (AList.delete b (e_children (st ! e))) = count_dirs st (AList.delete b (e_children (st ! e)))"
    by (rule count_dirs_cong) (rule ty)
  then show ?thesis
    using count_dirs_delete [OF assms(2) Some, of st] by (simp add: own_links_def kids links)
qed

lemma RemoveAllChildren_own_links:
  "e < length st \<Longrightarrow> own_links (RemoveAllChildren st (Some e)) e = own_links st e"
  by (simp add: RemoveAllChildren_def own_links_def)

section \<open>Copies\<close>

text \<open>\<^verbatim>\<open>CopyEntry\<close> copies every field but \<^verbatim>\<open>ChunkDigest\<close> and the children.\<close>

definition CopyEntry :: "toc_entry \<Rightarrow> toc_entry" where
  "CopyEntry e = zero_entry\<lparr>
     e_Name := e_Name e, e_Type := e_Type e, e_Size := e_Size e,
     e_ModTime3339 := e_ModTime3339 e, e_modTime := e_modTime e,
     e_LinkName := e_LinkName e, e_Mode := e_Mode e, e_UID := e_UID e, e_GID := e_GID e,
     e_Uname := e_Uname e, e_Gname := e_Gname e, e_Offset := e_Offset e,
     e_nextOffset := e_nextOffset e, e_DevMajor := e_DevMajor e, e_DevMinor := e_DevMinor e,
     e_NumLink := e_NumLink e, e_Xattrs := e_Xattrs e, e_Digest := e_Digest e,
     e_ChunkOffset := e_ChunkOffset e, e_ChunkSize := e_ChunkSize e,
     e_CompressedSize := e_CompressedSize e, e_sourceLayer := e_sourceLayer e,
     e_landmark := e_landmark e\<rparr>"

text \<open>\<^verbatim>\<open>e.UpdateMetadataFrom(s)\<close>: offsets, compressed size and source layer stay.\<close>

definition UpdateMetadataFrom :: "toc_entry \<Rightarrow> toc_entry \<Rightarrow> toc_entry" where
  "UpdateMetadataFrom e s = e\<lparr>
     e_Name := e_Name s, e_Type := e_Type s, e_Size := e_Size s,
     e_ModTime3339 := e_ModTime3339 s, e_modTime := e_modTime s,
     e_LinkName := e_LinkName s, e_Mode := e_Mode s, e_UID := e_UID s, e_GID := e_GID s,
     e_Uname := e_Uname s, e_Gname := e_Gname s,
     e_DevMajor := e_DevMajor s, e_DevMinor := e_DevMinor s,
     e_NumLink := e_NumLink s, e_Xattrs := e_Xattrs s, e_Digest := e_Digest s,
     e_ChunkOffset := e_ChunkOffset s, e_ChunkSize := e_ChunkSize s,
     e_landmark := (if e_landmark e > e_landmark s then e_landmark s else e_landmark e)\<rparr>"

lemma UpdateMetadataFrom_keeps:
  "e_Offset (UpdateMetadataFrom e s) = e_Offset e"
  "e_CompressedSize (UpdateMetadataFrom e s) = e_CompressedSize e"
  "e_sourceLayer (UpdateMetadataFrom e s) = e_sourceLayer e"
  "e_landmark (UpdateMetadataFrom e s) \<le> e_landmark e"
  by (simp_all add: UpdateMetadataFrom_def)

section \<open>Made-up entries\<close>

definition MakeEmptyFile :: "string \<Rightarrow> toc_entry" where
  "MakeEmptyFile fileName = zero_entry\<lparr>e_Name := fileName, e_Type := ''reg'', e_NumLink := 1,
     e_Digest := EmptyFileHash\<rparr>"

definition MakeWhiteoutFile :: "string \<Rightarrow> string \<Rightarrow> toc_entry" where
  "MakeWhiteoutFile baseName parent = MakeEmptyFile (path_join [parent, ''.wh.'' @ baseName])"

definition MakeOpaqueWhiteoutFile :: "string \<Rightarrow> toc_entry" where
  "MakeOpaqueWhiteoutFile parent = MakeEmptyFile (path_join [parent, ''.wh..wh..opq''])"

definition MakeDir :: "string \<Rightarrow> toc_entry" where
  "MakeDir dirName = zero_entry\<lparr>e_Name := dirName, e_Type := ''dir'', e_Mode := 493, e_NumLink := 2\<rparr>"

section \<open>File modes\<close>

text \<open>
  \<^verbatim>\<open>fileInfo.Mode\<close>: the permission bits and the type bit of \<^verbatim>\<open>os.FileMode\<close>, a 32-bit word.
\<close>

type_synonym file_mode = "32 word"

definition ModePerm :: file_mode where "ModePerm = 511"
definition ModeDir :: file_mode where "ModeDir = push_bit 31 1"
definition ModeSymlink :: file_mode where "ModeSymlink = push_bit 27 1"
definition ModeDevice :: file_mode where "ModeDevice = push_bit 26 1"
definition ModeNamedPipe :: file_mode where "ModeNamedPipe = push_bit 25 1"
definition ModeSocket :: file_mode where "ModeSocket = push_bit 24 1"
definition ModeCharDevice :: file_mode where "ModeCharDevice = push_bit 21 1"
definition ModeIrregular :: file_mode where "ModeIrregular = push_bit 19 1"

definition type_bits :: "string \<Rightarrow> file_mode" where
  "type_bits ty =
     (if ty = ''dir'' then ModeDir
      else if ty = ''symlink'' then ModeSymlink
      else if ty = ''char'' then ModeDevice OR ModeCharDevice
      else if ty = ''block'' then ModeDevice
      else if ty = ''fifo'' then ModeNamedPipe
      else 0)"

definition fileInfo_Mode :: "toc_entry \<Rightarrow> file_mode" where
  "fileInfo_Mode e = (word_of_int (e_Mode e) AND ModePerm) OR type_bits (e_Type e)"

definition fileInfo_Name :: "toc_entry \<Rightarrow> string" where
  "fileInfo_Name e = path_base (e_Name e)"

section \<open>Tar headers\<close>

text \<open>
  \<^verbatim>\<open>ToTarHeader\<close>. The header that it fills is fresh, so its map \<^verbatim>\<open>PAXRecords\<close> is nil, and
  storing an extended attribute there panics.
\<close>

datatype tar_type = TypeReg | TypeLink | TypeSymlink | TypeChar | TypeBlock | TypeDir | TypeFifo | TypeOther nat

record tar_header =
  h_Typeflag :: tar_type
  h_Name :: string
  h_Linkname :: string
  h_Size :: int
  h_Mode :: int
  h_Uid :: int
  h_Gid :: int
  h_Uname :: string
  h_Gname :: string
  h_ModTime :: int
  h_Devmajor :: int
  h_Devminor :: int
  h_PAXRecords :: "(string \<times> string) list"

definition zero_header :: tar_header where
  "zero_header = \<lparr>h_Typeflag = TypeOther 0, h_Name = [], h_Linkname = [], h_Size = 0, h_Mode = 0,
     h_Uid = 0, h_Gid = 0, h_Uname = [], h_Gname = [], h_ModTime = 0, h_Devmajor = 0,
     h_Devminor = 0, h_PAXRecords = []\<rparr>"

definition header_type :: "toc_entry \<Rightarrow> tar_header" where
  "header_type e =
     (if e_Type e = ''hardlink'' then zero_header\<lparr>h_Typeflag := TypeLink, h_Linkname := e_LinkName e\<rparr>
      else if e_Type e = ''symlink'' then zero_header\<lparr>h_Typeflag := TypeSymlink, h_Linkname := e_LinkName e\<rparr>
      else if e_Type e = ''dir'' then zero_header\<lparr>h_Typeflag := TypeDir\<rparr>
      else if e_Type e = ''reg'' then zero_header\<lparr>h_Typeflag := TypeReg, h_Size := e_Size e\<rparr>
      else if e_Type e = ''char'' then zero_header\<lparr>h_Typeflag := TypeChar,
          h_Devmajor := e_DevMajor e, h_Devminor := e_DevMinor e\<rparr>
      else if e_Type e = ''block'' then zero_header\<lparr>h_Typeflag := TypeBlock,
          h_Devmajor := e_DevMajor e, h_Devminor := e_DevMinor e\<rparr>
      else if e_Type e = ''fifo'' then zero_header\<lparr>h_Typeflag := TypeFifo\<rparr>
      else if e_Type e = ''chunk'' then zero_header\<lparr>h_Typeflag := TypeReg\<rparr>
      else zero_header)"

definition ToTarHeader :: "toc_entry \<Rightarrow> tar_header result" where
  "ToTarHeader e =
     (let h = (header_type e)\<lparr>h_Name := e_Name e, h_Mode := e_Mode e, h_Uid := e_UID e,
                h_Gid := e_GID e, h_Uname := e_Uname e, h_Gname := e_Gname e, h_ModTime := e_modTime e\<rparr>
      in if e_Xattrs e \<noteq> [] then Inl (Panic ''assignment to entry in nil map'') else Inr h)"

lemma ToTarHeader_panics: "(\<exists>m. ToTarHeader e = Inl (Panic m)) \<longleftrightarrow> e_Xattrs e \<noteq> []"
  by (simp add: ToTarHeader_def Let_def)

text \<open>
  The fields of an entry that JSON carries: the exported ones.
\<close>

definition json_entry :: "toc_entry \<Rightarrow> toc_entry" where
  "json_entry e = e\<lparr>e_modTime := 0, e_nextOffset := 0, e_sourceLayer := 0, e_landmark := 0,
     e_children := []\<rparr>"

section \<open>Traceable entries\<close>

record traceable_entry =
  t_TOCEntry :: toc_entry
  t_Landmark :: int
  t_Source :: int
  t_ConsolidatedSource :: int
  t_Chunks :: "toc_entry list"
  t_DeltaOffset :: "int list option"
  t_UpdateMeta :: int

definition traceable :: "toc_entry \<Rightarrow> traceable_entry" where
  "traceable e = \<lparr>t_TOCEntry = e, t_Landmark = 0, t_Source = 0, t_ConsolidatedSource = 0,
     t_Chunks = [], t_DeltaOffset = None, t_UpdateMeta = 0\<rparr>"

definition GetRootNode :: traceable_entry where
  "GetRootNode = traceable (zero_entry\<lparr>e_Name := ''.'', e_Type := ''dir'', e_Mode := 493, e_NumLink := 1\<rparr>)"

definition DeepCopy :: "traceable_entry \<Rightarrow> traceable_entry" where
  "DeepCopy t = (traceable (CopyEntry (t_TOCEntry t)))\<lparr>t_Landmark := t_Landmark t,
     t_Source := e_sourceLayer (t_TOCEntry t), t_Chunks := t_Chunks t\<rparr>"

definition ExtendEntry :: "toc_entry \<Rightarrow> traceable_entry" where
  "ExtendEntry t = (traceable (CopyEntry t))\<lparr>t_Source := e_sourceLayer t\<rparr>"

definition SetSourceLayer :: "traceable_entry \<Rightarrow> int \<Rightarrow> traceable_entry" where
  "SetSourceLayer t d = t\<lparr>t_TOCEntry := (t_TOCEntry t)\<lparr>e_sourceLayer := d\<rparr>, t_Source := d\<rparr>"

definition ShiftSource :: "traceable_entry \<Rightarrow> int \<Rightarrow> traceable_entry" where
  "ShiftSource t offset = SetSourceLayer t (e_sourceLayer (t_TOCEntry t) + offset)"

definition GetSourceLayer :: "traceable_entry \<Rightarrow> int \<times> traceable_entry" where
  "GetSourceLayer t = (e_sourceLayer (t_TOCEntry t), t\<lparr>t_Source := e_sourceLayer (t_TOCEntry t)\<rparr>)"

definition SetDeltaOffset :: "traceable_entry \<Rightarrow> int list option \<Rightarrow> traceable_entry" where
  "SetDeltaOffset t offsets = t\<lparr>t_DeltaOffset := offsets\<rparr>"

lemma DeepCopy_DeepCopy: "DeepCopy (DeepCopy t) = DeepCopy t"
  by (simp add: DeepCopy_def traceable_def CopyEntry_def)

section \<open>Ranked entries\<close>

text \<open>
  A 64-bit float, with the values that a quotient of two integers can have; a finite value
  is the rational number, without its rounding.
\<close>

datatype f64 = NaN | NegInf | PosInf | Num rat

fun less_f64 :: "f64 \<Rightarrow> f64 \<Rightarrow> bool" where
  "less_f64 NaN _ = False"
| "less_f64 _ NaN = False"
| "less_f64 NegInf y = (y \<noteq> NegInf)"
| "less_f64 _ NegInf = False"
| "less_f64 PosInf _ = False"
| "less_f64 (Num x) PosInf = True"
| "less_f64 (Num x) (Num y) = (x < y)"

definition div_f64 :: "int \<Rightarrow> int \<Rightarrow> f64" where
  "div_f64 a b =
     (if b = 0 then (if a = 0 then NaN else if a < 0 then NegInf else PosInf)
      else Num (rat_of_int a / rat_of_int b))"

record optimized_entry =
  o_Entry :: traceable_entry
  o_SourceImage :: int
  o_AccessCount :: int
  o_SumRank :: int
  o_SumSquaredRank :: int

definition ote_Key :: "optimized_entry \<Rightarrow> string" where
  "ote_Key o1 = itoa (o_SourceImage o1) @ ''|'' @ e_Name (t_TOCEntry (o_Entry o1))"

definition AddRanking :: "optimized_entry \<Rightarrow> int \<Rightarrow> optimized_entry" where
  "AddRanking o1 ranking = o1\<lparr>o_AccessCount := o_AccessCount o1 + 1, o_SumRank := o_SumRank o1 + ranking,
     o_SumSquaredRank := o_SumSquaredRank o1 + ranking * ranking\<rparr>"

definition ComputeRank :: "optimized_entry \<Rightarrow> f64" where
  "ComputeRank o1 = div_f64 (o_SumRank o1) (o_AccessCount o1)"

record optimized_entries =
  os_List :: "optimized_entry list"
  os_Ranking :: f64

text \<open>The comparisons \<^verbatim>\<open>ByRanking\<close>, \<^verbatim>\<open>ByHashSize\<close> and \<^verbatim>\<open>ByFilename\<close>, on elements.\<close>

definition ByRanking_Less :: "optimized_entries \<Rightarrow> optimized_entries \<Rightarrow> bool" where
  "ByRanking_Less x y =
     (let nani = (os_Ranking x = NaN); nanj = (os_Ranking y = NaN)
      in if nani \<and> nanj then False else if nani then False else if nanj then True
         else less_f64 (os_Ranking x) (os_Ranking y))"

abbreviation ote_toc :: "optimized_entry \<Rightarrow> toc_entry" where
  "ote_toc o1 \<equiv> t_TOCEntry (o_Entry o1)"

definition ByHashSize_Less :: "optimized_entry \<Rightarrow> optimized_entry \<Rightarrow> bool" where
  "ByHashSize_Less x y =
     (if e_Digest (ote_toc x) \<noteq> e_Digest (ote_toc y) then e_Digest (ote_toc x) < e_Digest (ote_toc y)
      else e_Size (ote_toc x) < e_Size (ote_toc y))"

definition ByFilename_Less :: "optimized_entry \<Rightarrow> optimized_entry \<Rightarrow> bool" where
  "ByFilename_Less x y =
     (if e_Name (ote_toc x) \<noteq> e_Name (ote_toc y) then e_Name (ote_toc x) < e_Name (ote_toc y)
      else o_SourceImage x < o_SourceImage y)"

definition CompareByFilename :: "optimized_entry \<Rightarrow> optimized_entry \<Rightarrow> int" where
  "CompareByFilename a b =
     (if e_Name (ote_toc a) \<noteq> e_Name (ote_toc b)
      then (if e_Name (ote_toc a) < e_Name (ote_toc b) then 1 else -1)
      else if o_SourceImage a \<noteq> o_SourceImage b
      then (if o_SourceImage a < o_SourceImage b then 1 else -1)
      else 0)"

lemma less_f64_total: "x \<noteq> NaN \<Longrightarrow> y \<noteq> NaN \<Longrightarrow> less_f64 x y \<or> x = y \<or> less_f64 y x"
  by (cases x; cases y) auto

lemma less_f64_irrefl [simp]: "\<not> less_f64 x x"
  by (cases x) auto

lemma less_f64_asym: "less_f64 x y \<Longrightarrow> \<not> less_f64 y x"
  by (cases x; cases y) auto

lemma less_f64_trans: "less_f64 x y \<Longrightarrow> less_f64 y z \<Longrightarrow> less_f64 x z"
  by (cases x; cases y; cases z) auto

interpretation by_ranking: weak_order ByRanking_Less
proof
  show "\<not> ByRanking_Less x x" for x
    by (simp add: ByRanking_Less_def)
  show "ByRanking_Less x y \<Longrightarrow> \<not> ByRanking_Less y x" for x y
    by (auto simp: ByRanking_Less_def Let_def less_f64_asym split: if_splits)
  show "\<not> ByRanking_Less y x \<Longrightarrow> \<not> ByRanking_Less z y \<Longrightarrow> \<not> ByRanking_Less z x" for x y z
    by (auto simp: ByRanking_Less_def Let_def split: if_splits)
       (metis less_f64_total less_f64_trans)+
qed

interpretation by_hash_size: weak_order ByHashSize_Less
  by unfold_locales (auto simp: ByHashSize_Less_def split: if_splits)

interpretation by_filename: weak_order ByFilename_Less
  by unfold_locales (auto simp: ByFilename_Less_def split: if_splits)

text \<open>\<^verbatim>\<open>CompareByFilename\<close> is the opposite order: 1 when the first comes first.\<close>

lemma CompareByFilename_Less:
  "CompareByFilename a b = 1 \<longleftrightarrow> ByFilename_Less a b"
  "CompareByFilename a b = -1 \<longleftrightarrow> ByFilename_Less b a"
  by (auto simp: CompareByFilename_def ByFilename_Less_def)

text \<open>Entries without a rank come last.\<close>

lemma nan_last:
  assumes "i < j" "j < length xs" "os_Ranking (sort_less ByRanking_Less xs ! i) = NaN"
  shows "os_Ranking (sort_less ByRanking_Less xs ! j) = NaN"
  using by_ranking.sort_not_lt [OF assms(1,2)] assms(3)
  by (auto simp: ByRanking_Less_def Let_def split: if_splits)

end
