(* ===== verification/Layer_Cache.thy ===== *)
theory Layer_Cache
  imports Go_Path
begin

text \<open>
  util/common/cache.go, the cached layers of the proxy, with \<^verbatim>\<open>Builder.fetchLayers\<close> of
  proxy/builder.go and \<^verbatim>\<open>Server.cacheTimeoutValidator\<close> of proxy/server.go, which share them.
  The first part has the operations on one cached layer. The second part is a step relation
  in which any number of requests for layers run concurrently: a step is what one request does
  under one of the two locks. A subscriber's channel is named by its request.
\<close>

section \<open>One cached layer\<close>

record layer_cache =
  lc_Buffer :: "byte list option"
  lc_Ready :: bool
  lc_UseCounter :: int
  lc_LastUsed :: int
  lc_subscribers :: "nat list"
  lc_digest :: string
  lc_size :: int

definition NewLayerCache :: "string \<Rightarrow> int \<Rightarrow> int \<Rightarrow> layer_cache" where
  "NewLayerCache digest sz now = \<lparr>lc_Buffer = None, lc_Ready = False, lc_UseCounter = 0,
     lc_LastUsed = now, lc_subscribers = [], lc_digest = digest, lc_size = sz\<rparr>"

text \<open>
  \<^verbatim>\<open>notify\<close> sends the error, if there is one, to each subscriber and closes its channel. What
  a subscriber receives is that error, or the zero value \<^verbatim>\<open>nil\<close> of a closed channel.
\<close>

definition lc_notify :: "go_error option \<Rightarrow> layer_cache \<Rightarrow> (nat \<times> go_error option) list" where
  "lc_notify err lc = map (\<lambda>s. (s, err)) (lc_subscribers lc)"

definition SetReady :: "go_error option \<Rightarrow> layer_cache \<Rightarrow> layer_cache \<times> (nat \<times> go_error option) list" where
  "SetReady err lc = (lc\<lparr>lc_Ready := True\<rparr>, lc_notify err (lc\<lparr>lc_Ready := True\<rparr>))"

text \<open>\<^verbatim>\<open>Subscribe\<close>: on a layer that is ready the channel is closed at once.\<close>

definition Subscribe :: "nat \<Rightarrow> layer_cache \<Rightarrow> layer_cache \<times> (nat \<times> go_error option) list" where
  "Subscribe ch lc =
     (if lc_Ready lc then (lc, [(ch, None)])
      else (lc\<lparr>lc_subscribers := lc_subscribers lc @ [ch]\<rparr>, []))"

text \<open>What the registry answers for a layer.\<close>

datatype registry_answer =
    NoLayer go_error
  | NoCompressed go_error
  | CopyFailed go_error
  | Blob "byte list"

text \<open>
  \<^verbatim>\<open>Load\<close> up to its deferred call: the buffer that it stores, and the error that it returns.
\<close>

definition load_body :: "registry_answer \<Rightarrow> layer_cache \<Rightarrow> layer_cache \<times> go_error option" where
  "load_body ans lc =
     (case ans of
        NoLayer e \<Rightarrow> (lc, Some e)
      | NoCompressed e \<Rightarrow> (lc, Some e)
      | CopyFailed e \<Rightarrow> (lc, Some e)
      | Blob bs \<Rightarrow>
          (if int (length bs) \<noteq> lc_size lc
           then (lc, Some (Errorf (''size unmatch expected '' @ itoa (lc_size lc) @ '', but got '' @ itoa (int (length bs)))))
           else (lc\<lparr>lc_Buffer := Some bs\<rparr>, None)))"

text \<open>
  \<^verbatim>\<open>defer lc.SetReady(err)\<close> evaluates its argument when the \<^verbatim>\<open>defer\<close> statement runs, at the
  start of \<^verbatim>\<open>Load\<close>, where \<^verbatim>\<open>err\<close> is \<^verbatim>\<open>nil\<close>: the deferred call gets \<open>None\<close>.
\<close>

definition Load :: "registry_answer \<Rightarrow> layer_cache \<Rightarrow> layer_cache \<times> (nat \<times> go_error option) list \<times> go_error option" where
  "Load ans lc =
     (let deferred_err = None;
          (lc1, err) = load_body ans lc;
          (lc2, sent) = SetReady deferred_err lc1
      in (lc2, sent, err))"

lemma Load_ready: "lc_Ready (fst (Load ans lc))"
  by (simp add: Load_def SetReady_def Let_def split: prod.splits)

lemma load_body_frame:
  "lc_subscribers (fst (load_body ans lc)) = lc_subscribers lc"
  "lc_size (fst (load_body ans lc)) = lc_size lc"
  "lc_digest (fst (load_body ans lc)) = lc_digest lc"
  by (auto simp: load_body_def split: registry_answer.splits)

text \<open>Every subscriber is told that the layer is there, whether or not it was loaded.\<close>

lemma Load_notifies_nil:
  "fst (snd (Load ans lc)) = map (\<lambda>s. (s, None)) (lc_subscribers lc)"
  by (simp add: Load_def SetReady_def lc_notify_def Let_def load_body_frame split: prod.splits)
     (metis fst_conv load_body_frame(1))

lemma Load_error:
  "snd (snd (Load ans lc)) = snd (load_body ans lc)"
  "lc_Buffer (fst (Load ans lc)) = lc_Buffer (fst (load_body ans lc))"
  by (simp_all add: Load_def SetReady_def Let_def split: prod.splits)

lemma load_body_ok:
  "snd (load_body ans lc) = None \<longleftrightarrow> (\<exists>bs. ans = Blob bs \<and> int (length bs) = lc_size lc)"
  "snd (load_body ans lc) = None \<Longrightarrow> ans = Blob bs \<Longrightarrow> lc_Buffer (fst (load_body ans lc)) = Some bs"
  "snd (load_body ans lc) \<noteq> None \<Longrightarrow> lc_Buffer (fst (load_body ans lc)) = lc_Buffer lc"
  by (auto simp: load_body_def split: registry_answer.splits if_splits)

section \<open>Eviction\<close>

text \<open>
  One pass of \<^verbatim>\<open>cacheTimeoutValidator\<close>: the map of the cache is an association list from the
  layer's hash to its address in the store. Times are seconds.
\<close>

definition expired :: "int \<Rightarrow> int \<Rightarrow> layer_cache \<Rightarrow> bool" where
  "expired now timeout v \<longleftrightarrow> lc_UseCounter v \<le> 0 \<and> now + timeout < lc_LastUsed v"

definition cacheTimeoutValidator :: "int \<Rightarrow> int \<Rightarrow> layer_cache list \<Rightarrow> (string \<times> nat) list \<Rightarrow> (string \<times> nat) list" where
  "cacheTimeoutValidator now timeout st cache =
     filter (\<lambda>(k, a). \<not> expired now timeout (st ! a)) cache"

lemma validator_keeps_all:
  assumes "0 \<le> timeout" "\<forall>(k, a) \<in> set cache. lc_LastUsed (st ! a) \<le> now"
  shows "cacheTimeoutValidator now timeout st cache = cache"
  using assms by (auto simp: cacheTimeoutValidator_def expired_def intro!: filter_True)

section \<open>Concurrent requests\<close>

text \<open>
  The program counter of a request for the layer of some hash: \<open>Found\<close> after the lookup hit
  and \<^verbatim>\<open>cacheMutex\<close> was released, \<open>Waiting\<close> on its channel, \<open>Loading\<close> when it is the one
  that downloads, \<open>Done\<close> with \<^verbatim>\<open>cache.Blob\<close> set to the layer at an address, \<open>Failed\<close> with an
  error.
\<close>

datatype request_pc =
    Start string int
  | Found nat
  | Waiting nat
  | Loading nat
  | Done nat
  | Failed go_error

record cache_sys =
  cs_store :: "layer_cache list"
  cs_cache :: "(string \<times> nat) list"
  cs_pc :: "nat \<Rightarrow> request_pc"

text \<open>What a request does when its channel delivers a value.\<close>

definition received :: "nat \<Rightarrow> go_error option \<Rightarrow> request_pc" where
  "received a err = (case err of None \<Rightarrow> Done a | Some e \<Rightarrow> Failed e)"

definition deliver :: "nat \<Rightarrow> (nat \<times> go_error option) list \<Rightarrow> (nat \<Rightarrow> request_pc) \<Rightarrow> (nat \<Rightarrow> request_pc)" where
  "deliver a sent pc = (\<lambda>t. case map_of sent t of None \<Rightarrow> pc t | Some err \<Rightarrow> received a err)"

text \<open>The three critical sections of \<^verbatim>\<open>fetchLayers\<close>.\<close>

definition fetch_lookup :: "nat \<Rightarrow> int \<Rightarrow> string \<Rightarrow> int \<Rightarrow> cache_sys \<Rightarrow> cache_sys" where
  "fetch_lookup t now hash sz s =
     (case map_of (cs_cache s) hash of
        Some a \<Rightarrow> s\<lparr>cs_pc := (cs_pc s)(t := Found a)\<rparr>
      | None \<Rightarrow> s\<lparr>cs_store := cs_store s @ [NewLayerCache hash sz now],
                  cs_cache := AList.update hash (length (cs_store s)) (cs_cache s),
                  cs_pc := (cs_pc s)(t := Loading (length (cs_store s)))\<rparr>)"

definition fetch_subscribe :: "nat \<Rightarrow> nat \<Rightarrow> cache_sys \<Rightarrow> cache_sys" where
  "fetch_subscribe t a s =
     (let (lc, sent) = Subscribe t (cs_store s ! a)
      in s\<lparr>cs_store := (cs_store s)[a := lc], cs_pc := deliver a sent ((cs_pc s)(t := Waiting a))\<rparr>)"

definition fetch_load :: "nat \<Rightarrow> nat \<Rightarrow> registry_answer \<Rightarrow> cache_sys \<Rightarrow> cache_sys" where
  "fetch_load t a ans s =
     (let (lc, sent, err) = Load ans (cs_store s ! a)
      in s\<lparr>cs_store := (cs_store s)[a := lc],
           cs_pc := (deliver a sent (cs_pc s))(t := received a err)\<rparr>)"

inductive fetch_step :: "cache_sys \<Rightarrow> cache_sys \<Rightarrow> bool" where
  lookup: "cs_pc s t = Start hash sz \<Longrightarrow> fetch_step s (fetch_lookup t now hash sz s)"
| subscribe: "cs_pc s t = Found a \<Longrightarrow> fetch_step s (fetch_subscribe t a s)"
| load: "cs_pc s t = Loading a \<Longrightarrow> fetch_step s (fetch_load t a ans s)"
| evict: "fetch_step s (s\<lparr>cs_cache := cacheTimeoutValidator now timeout (cs_store s) (cs_cache s)\<rparr>)"

inductive fetch_reachable :: "cache_sys \<Rightarrow> bool" where
  start: "(\<And>t. \<exists>hash sz. cs_pc s t = Start hash sz) \<Longrightarrow> cs_store s = [] \<Longrightarrow> cs_cache s = [] \<Longrightarrow>
     fetch_reachable s"
| step: "fetch_reachable s \<Longrightarrow> fetch_step s s' \<Longrightarrow> fetch_reachable s'"

inductive_simps fetch_step_iff: "fetch_step s s'"

text \<open>
  The invariant. Addresses are in range; the requests that wait for a layer are its
  subscribers, each once; a layer that is not ready is loaded by exactly one request.
\<close>

definition pc_addr :: "request_pc \<Rightarrow> nat option" where
  "pc_addr p = (case p of Found a \<Rightarrow> Some a | Waiting a \<Rightarrow> Some a | Loading a \<Rightarrow> Some a | Done a \<Rightarrow> Some a | _ \<Rightarrow> None)"

definition inv_addr :: "cache_sys \<Rightarrow> bool" where
  "inv_addr s \<longleftrightarrow> (\<forall>ka \<in> set (cs_cache s). snd ka < length (cs_store s)) \<and>
     (\<forall>t a. pc_addr (cs_pc s t) = Some a \<longrightarrow> a < length (cs_store s))"

definition inv_wait :: "cache_sys \<Rightarrow> bool" where
  "inv_wait s \<longleftrightarrow> (\<forall>t a. cs_pc s t = Waiting a \<longrightarrow>
     t \<in> set (lc_subscribers (cs_store s ! a)) \<and> \<not> lc_Ready (cs_store s ! a))"

definition inv_subs :: "cache_sys \<Rightarrow> bool" where
  "inv_subs s \<longleftrightarrow> (\<forall>a < length (cs_store s). \<not> lc_Ready (cs_store s ! a) \<longrightarrow>
     distinct (lc_subscribers (cs_store s ! a)) \<and>
     (\<forall>t \<in> set (lc_subscribers (cs_store s ! a)). cs_pc s t = Waiting a))"

definition inv_load :: "cache_sys \<Rightarrow> bool" where
  "inv_load s \<longleftrightarrow>
     (\<forall>a < length (cs_store s). \<not> lc_Ready (cs_store s ! a) \<longrightarrow> (\<exists>t. cs_pc s t = Loading a)) \<and>
     (\<forall>t a. cs_pc s t = Loading a \<longrightarrow> \<not> lc_Ready (cs_store s ! a)) \<and>
     (\<forall>t t' a. cs_pc s t = Loading a \<and> cs_pc s t' = Loading a \<longrightarrow> t = t')"

definition fetch_inv :: "cache_sys \<Rightarrow> bool" where
  "fetch_inv s \<longleftrightarrow> inv_addr s \<and> inv_wait s \<and> inv_subs s \<and> inv_load s"

lemmas fetch_inv_defs = fetch_inv_def inv_addr_def inv_wait_def inv_subs_def inv_load_def

lemma deliver_all: "deliver a (map (\<lambda>s. (s, err)) xs) pc t = (if t \<in> set xs then received a err else pc t)"
proof -
  have "map_of (map (\<lambda>s. (s, err)) xs) t = (if t \<in> set xs then Some err else None)"
    by (induction xs) auto
  then show ?thesis by (simp add: deliver_def)
qed

lemma pc_addr_simps [simp]:
  "pc_addr (Found a) = Some a" "pc_addr (Waiting a) = Some a" "pc_addr (Loading a) = Some a"
  "pc_addr (Done a) = Some a" "pc_addr (Start h z) = None" "pc_addr (Failed e) = None"
  by (simp_all add: pc_addr_def)

text \<open>The effect of each critical section, field by field.\<close>

lemma lookup_hit:
  "map_of (cs_cache s) hash = Some a \<Longrightarrow>
   fetch_lookup t now hash sz s = s\<lparr>cs_pc := (cs_pc s)(t := Found a)\<rparr>"
  by (simp add: fetch_lookup_def)

lemma lookup_miss:
  "map_of (cs_cache s) hash = None \<Longrightarrow>
   fetch_lookup t now hash sz s = s\<lparr>cs_store := cs_store s @ [NewLayerCache hash sz now],
                  cs_cache := AList.update hash (length (cs_store s)) (cs_cache s),
                  cs_pc := (cs_pc s)(t := Loading (length (cs_store s)))\<rparr>"
  by (simp add: fetch_lookup_def)

lemma subscribe_ready:
  "lc_Ready (cs_store s ! a) \<Longrightarrow>
   fetch_subscribe t a s = s\<lparr>cs_pc := (cs_pc s)(t := Done a)\<rparr>"
  by (auto simp: fetch_subscribe_def Subscribe_def Let_def deliver_def received_def fun_eq_iff)

lemma subscribe_pending:
  "\<not> lc_Ready (cs_store s ! a) \<Longrightarrow>
   fetch_subscribe t a s = s\<lparr>cs_store := (cs_store s)[a := (cs_store s ! a)
        \<lparr>lc_subscribers := lc_subscribers (cs_store s ! a) @ [t]\<rparr>],
      cs_pc := (cs_pc s)(t := Waiting a)\<rparr>"
  by (simp add: fetch_subscribe_def Subscribe_def Let_def deliver_def fun_upd_def)

lemma load_effect:
  "cs_store (fetch_load t a ans s) = (cs_store s)[a := fst (Load ans (cs_store s ! a))]"
  "cs_cache (fetch_load t a ans s) = cs_cache s"
  "cs_pc (fetch_load t a ans s) u =
     (if u = t then received a (snd (load_body ans (cs_store s ! a)))
      else if u \<in> set (lc_subscribers (cs_store s ! a)) then Done a else cs_pc s u)"
proof -
  obtain lc sent err where L: "Load ans (cs_store s ! a) = (lc, sent, err)"
    by (cases "Load ans (cs_store s ! a)") auto
  have sent: "sent = map (\<lambda>s. (s, None)) (lc_subscribers (cs_store s ! a))"
    using Load_notifies_nil [of ans "cs_store s ! a"] L by simp
  have err: "err = snd (load_body ans (cs_store s ! a))"
    using Load_error(1) [of ans "cs_store s ! a"] L by simp
  show "cs_store (fetch_load t a ans s) = (cs_store s)[a := fst (Load ans (cs_store s ! a))]"
    "cs_cache (fetch_load t a ans s) = cs_cache s"
    by (simp_all add: fetch_load_def L)
  show "cs_pc (fetch_load t a ans s) u =
     (if u = t then received a (snd (load_body ans (cs_store s ! a)))
      else if u \<in> set (lc_subscribers (cs_store s ! a)) then Done a else cs_pc s u)"
    by (simp add: fetch_load_def L sent err deliver_all) (simp add: received_def)
qed

lemma inv_load_unchanged:
  assumes "inv_load s" and len: "length (cs_store s') = length (cs_store s)"
    and rdy: "\<And>a. a < length (cs_store s) \<Longrightarrow> lc_Ready (cs_store s' ! a) = lc_Ready (cs_store s ! a)"
    and rng: "\<And>t a. cs_pc s t = Loading a \<Longrightarrow> a < length (cs_store s)"
    and pc: "\<And>t a. cs_pc s' t = Loading a \<longleftrightarrow> cs_pc s t = Loading a"
  shows "inv_load s'"
  using assms(1) rng unfolding inv_load_def len pc by (simp add: rdy)

text \<open>A step that only moves the program counter of a request that does not load.\<close>

lemma fetch_inv_move:
  assumes inv: "fetch_inv s" and old: "\<forall>b. cs_pc s t \<noteq> Waiting b \<and> cs_pc s t \<noteq> Loading b"
    and new: "p = Found a \<or> p = Done a" and a: "a < length (cs_store s)"
  shows "fetch_inv (s\<lparr>cs_pc := (cs_pc s)(t := p)\<rparr>)"
proof -
  let ?s = "s\<lparr>cs_pc := (cs_pc s)(t := p)\<rparr>"
  have p: "pc_addr p = Some a" "p \<noteq> Waiting b" "p \<noteq> Loading b" for b
    using new by auto
  have "inv_addr ?s"
    using inv p(1) a by (simp add: fetch_inv_def inv_addr_def)
  moreover have "inv_wait ?s"
    using inv p(2) by (simp add: fetch_inv_def inv_wait_def)
  moreover have "inv_subs ?s"
    unfolding inv_subs_def
  proof (intro allI impI)
    fix b assume b: "b < length (cs_store ?s)" "\<not> lc_Ready (cs_store ?s ! b)"
    then have "\<forall>u \<in> set (lc_subscribers (cs_store s ! b)). cs_pc s u = Waiting b"
        "distinct (lc_subscribers (cs_store s ! b))"
      using inv by (simp_all add: fetch_inv_def inv_subs_def)
    then show "distinct (lc_subscribers (cs_store ?s ! b)) \<and>
        (\<forall>u \<in> set (lc_subscribers (cs_store ?s ! b)). cs_pc ?s u = Waiting b)"
      using old by auto
  qed
  moreover have "inv_load ?s"
  proof (rule inv_load_unchanged)
    show "inv_load s" using inv by (simp add: fetch_inv_def)
    show "cs_pc s u = Loading b \<Longrightarrow> b < length (cs_store s)" for u b
      using inv pc_addr_simps(3) [of b] unfolding fetch_inv_def inv_addr_def by metis
    show "cs_pc ?s u = Loading b \<longleftrightarrow> cs_pc s u = Loading b" for u b
      using old new by auto
  qed simp_all
  ultimately show ?thesis by (simp add: fetch_inv_def)
qed

lemma inv_lookup:
  assumes inv: "fetch_inv s" and pc: "cs_pc s t = Start h z"
  shows "fetch_inv (fetch_lookup t now hash sz s)"
proof (cases "map_of (cs_cache s) hash")
  case None
  let ?s = "fetch_lookup t now hash sz s" and ?n = "length (cs_store s)"
  have range: "a < ?n" if "pc_addr (cs_pc s u) = Some a" for u a
    using inv that by (auto simp: fetch_inv_def inv_addr_def)
  have st: "cs_store ?s ! a = (if a = ?n then NewLayerCache hash sz now else cs_store s ! a)" if "a < Suc ?n" for a
    using that by (auto simp: lookup_miss [OF None] nth_append)
  have len: "length (cs_store ?s) = Suc ?n"
    by (simp add: lookup_miss [OF None])
  have pcs: "cs_pc ?s u = (if u = t then Loading ?n else cs_pc s u)" for u
    by (simp add: lookup_miss [OF None])
  have fresh: "\<not> lc_Ready (NewLayerCache hash sz now)" "lc_subscribers (NewLayerCache hash sz now) = []"
    by (simp_all add: NewLayerCache_def)
  have "inv_addr ?s"
    using inv by (auto simp: lookup_miss [OF None] fetch_inv_def inv_addr_def less_Suc_eq
        dest!: set_alist_update)
  moreover have "inv_wait ?s"
    unfolding inv_wait_def
  proof (intro allI impI)
    fix u a assume "cs_pc ?s u = Waiting a"
    then have u: "cs_pc s u = Waiting a" by (auto simp: pcs split: if_splits)
    then have "a < ?n" using range [of u a] by simp
    then show "u \<in> set (lc_subscribers (cs_store ?s ! a)) \<and> \<not> lc_Ready (cs_store ?s ! a)"
      using inv u by (simp add: st fetch_inv_def inv_wait_def)
  qed
  moreover have "inv_subs ?s"
    unfolding inv_subs_def len
  proof (intro allI impI)
    fix a assume a: "a < Suc ?n" "\<not> lc_Ready (cs_store ?s ! a)"
    show "distinct (lc_subscribers (cs_store ?s ! a)) \<and> (\<forall>u\<in>set (lc_subscribers (cs_store ?s ! a)). cs_pc ?s u = Waiting a)"
    proof (cases "a = ?n")
      case True
      then show ?thesis by (simp add: st fresh)
    next
      case False
      then have "distinct (lc_subscribers (cs_store s ! a))"
          "\<forall>u\<in>set (lc_subscribers (cs_store s ! a)). cs_pc s u = Waiting a"
        using inv a by (simp_all add: st fetch_inv_def inv_subs_def)
      then show ?thesis
        using False a pc by (auto simp: st pcs)
    qed
  qed
  moreover have "inv_load ?s"
  proof -
    have loading: "cs_pc ?s u = Loading a \<longleftrightarrow> (u = t \<and> a = ?n) \<or> (a < ?n \<and> cs_pc s u = Loading a)" for u a
      using range [of u a] pc by (auto simp: pcs)
    have old: "\<exists>u. cs_pc s u = Loading a" if "a < ?n" "\<not> lc_Ready (cs_store s ! a)" for a
      using inv that by (simp add: fetch_inv_def inv_load_def)
    have busy: "\<not> lc_Ready (cs_store s ! a)" if "cs_pc s u = Loading a" for u a
      using inv that by (simp add: fetch_inv_def inv_load_def)
    have one: "u = u'" if "cs_pc s u = Loading a" "cs_pc s u' = Loading a" for u u' a
      using inv that unfolding fetch_inv_def inv_load_def by blast
    show ?thesis
      unfolding inv_load_def len loading
    proof (intro conjI allI impI)
      fix a assume "a < Suc ?n" "\<not> lc_Ready (cs_store ?s ! a)"
      then show "\<exists>u. u = t \<and> a = ?n \<or> a < ?n \<and> cs_pc s u = Loading a"
        using old [of a] by (cases "a = ?n") (auto simp: st)
    next
      fix u a assume "u = t \<and> a = ?n \<or> a < ?n \<and> cs_pc s u = Loading a"
      then show "\<not> lc_Ready (cs_store ?s ! a)"
        using busy by (auto simp: st fresh)
    next
      fix u u' a assume "(u = t \<and> a = ?n \<or> a < ?n \<and> cs_pc s u = Loading a) \<and>
          (u' = t \<and> a = ?n \<or> a < ?n \<and> cs_pc s u' = Loading a)"
      then show "u = u'" using one by blast
    qed
  qed
  ultimately show ?thesis by (simp add: fetch_inv_def)
next
  case (Some a)
  have "a < length (cs_store s)"
    using Some inv by (auto simp: fetch_inv_def inv_addr_def dest!: map_of_SomeD)
  then show ?thesis
    unfolding lookup_hit [OF Some] using assms by (intro fetch_inv_move) auto
qed

text \<open>The invariant in the form in which the proofs use it.\<close>

lemma fetch_inv_in_range:
  "fetch_inv s \<Longrightarrow> pc_addr (cs_pc s t) = Some a \<Longrightarrow> a < length (cs_store s)"
  by (simp add: fetch_inv_def inv_addr_def)

lemma fetch_inv_loading:
  "fetch_inv s \<Longrightarrow> cs_pc s t = Loading a \<Longrightarrow> a < length (cs_store s) \<and> \<not> lc_Ready (cs_store s ! a)"
  using fetch_inv_in_range [of s t a] by (simp add: fetch_inv_def inv_load_def)

lemma fetch_inv_one_loader:
  "fetch_inv s \<Longrightarrow> cs_pc s t = Loading a \<Longrightarrow> cs_pc s t' = Loading a \<Longrightarrow> t = t'"
  by (auto simp: fetch_inv_def inv_load_def)

lemma fetch_inv_loader:
  "fetch_inv s \<Longrightarrow> a < length (cs_store s) \<Longrightarrow> \<not> lc_Ready (cs_store s ! a) \<Longrightarrow> \<exists>t. cs_pc s t = Loading a"
  by (simp add: fetch_inv_def inv_load_def)

lemma fetch_inv_waiting:
  "fetch_inv s \<Longrightarrow> cs_pc s t = Waiting a \<Longrightarrow>
   t \<in> set (lc_subscribers (cs_store s ! a)) \<and> \<not> lc_Ready (cs_store s ! a)"
  by (simp add: fetch_inv_def inv_wait_def)

lemma fetch_inv_subscriber:
  "fetch_inv s \<Longrightarrow> a < length (cs_store s) \<Longrightarrow> \<not> lc_Ready (cs_store s ! a) \<Longrightarrow>
   t \<in> set (lc_subscribers (cs_store s ! a)) \<Longrightarrow> cs_pc s t = Waiting a"
  by (simp add: fetch_inv_def inv_subs_def)

lemma inv_subscribe:
  assumes inv: "fetch_inv s" and pc: "cs_pc s t = Found a"
  shows "fetch_inv (fetch_subscribe t a s)"
proof (cases "lc_Ready (cs_store s ! a)")
  case True
  have "a < length (cs_store s)"
    using fetch_inv_in_range [OF inv, of t a] pc by simp
  then show ?thesis
    unfolding subscribe_ready [OF True] using inv pc by (intro fetch_inv_move) auto
next
  case False
  have a: "a < length (cs_store s)"
    using fetch_inv_in_range [OF inv, of t a] pc by simp
  have new: "t \<notin> set (lc_subscribers (cs_store s ! a))"
    using fetch_inv_subscriber [OF inv a False, of t] pc by auto
  have "inv_addr (fetch_subscribe t a s)" "inv_wait (fetch_subscribe t a s)"
    using assms a False by (auto simp: subscribe_pending fetch_inv_def inv_addr_def inv_wait_def nth_list_update)
  moreover have "inv_subs (fetch_subscribe t a s)"
    using assms a False new
    by (auto simp: subscribe_pending fetch_inv_def inv_subs_def nth_list_update)
  moreover have "inv_load (fetch_subscribe t a s)"
  proof (rule inv_load_unchanged)
    show "inv_load s" using inv by (simp add: fetch_inv_def)
    show "cs_pc s u = Loading b \<Longrightarrow> b < length (cs_store s)" for u b
      using fetch_inv_loading [OF inv] by blast
    show "lc_Ready (cs_store (fetch_subscribe t a s) ! b) = lc_Ready (cs_store s ! b)" for b
      using False a by (cases "b = a") (simp_all add: subscribe_pending)
  qed (use False pc in \<open>auto simp: subscribe_pending\<close>)
  ultimately show ?thesis by (simp add: fetch_inv_def)
qed

lemma inv_loaded:
  assumes inv: "fetch_inv s" and pc: "cs_pc s t = Loading a"
  shows "fetch_inv (fetch_load t a ans s)"
proof -
  let ?s = "fetch_load t a ans s"
  let ?subs = "set (lc_subscribers (cs_store s ! a))"
  have a: "a < length (cs_store s)" "\<not> lc_Ready (cs_store s ! a)"
    using fetch_inv_loading [OF inv pc] by auto
  have waiting: "cs_pc s u = Waiting a" if "u \<in> ?subs" for u
    using fetch_inv_subscriber [OF inv a that] .
  obtain p where p: "received a (snd (load_body ans (cs_store s ! a))) = p" "p = Done a \<or> (\<exists>x. p = Failed x)"
    by (cases "snd (load_body ans (cs_store s ! a))") (auto simp: received_def)
  have pcs: "cs_pc ?s u = (if u = t then p else if u \<in> ?subs then Done a else cs_pc s u)" for u
    by (simp add: load_effect p(1))
  have st: "cs_store ?s ! b = (if b = a then fst (Load ans (cs_store s ! a)) else cs_store s ! b)" for b
    using a(1) by (simp add: load_effect nth_list_update)
  have len: "length (cs_store ?s) = length (cs_store s)"
    by (simp add: load_effect)
  have "inv_addr ?s"
    using inv a(1) p(2) unfolding inv_addr_def len pcs load_effect(2)
    by (auto simp: fetch_inv_def inv_addr_def)
  moreover have "inv_wait ?s"
    unfolding inv_wait_def
  proof (intro allI impI)
    fix u b assume "cs_pc ?s u = Waiting b"
    then have u: "u \<noteq> t" "u \<notin> ?subs" "cs_pc s u = Waiting b"
      using p(2) by (auto simp: pcs split: if_splits)
    then have "b \<noteq> a" using fetch_inv_waiting [OF inv u(3)] by auto
    then show "u \<in> set (lc_subscribers (cs_store ?s ! b)) \<and> \<not> lc_Ready (cs_store ?s ! b)"
      using fetch_inv_waiting [OF inv u(3)] by (simp add: st)
  qed
  moreover have "inv_subs ?s"
    unfolding inv_subs_def len
  proof (intro allI impI)
    fix b assume b: "b < length (cs_store s)" "\<not> lc_Ready (cs_store ?s ! b)"
    then have ba: "b \<noteq> a" "\<not> lc_Ready (cs_store s ! b)"
      using Load_ready by (auto simp: st split: if_splits)
    have "cs_pc ?s u = Waiting b" if "u \<in> set (lc_subscribers (cs_store s ! b))" for u
      using fetch_inv_subscriber [OF inv b(1) ba(2) that] waiting [of u] pc ba(1)
      by (auto simp: pcs)
    then show "distinct (lc_subscribers (cs_store ?s ! b)) \<and>
        (\<forall>u \<in> set (lc_subscribers (cs_store ?s ! b)). cs_pc ?s u = Waiting b)"
      using inv b(1) ba by (simp add: st fetch_inv_def inv_subs_def)
  qed
  moreover have "inv_load ?s"
  proof -
    have loading: "cs_pc ?s u = Loading b \<longleftrightarrow> b \<noteq> a \<and> cs_pc s u = Loading b" for u b
    proof (cases "u = t")
      case True
      then show ?thesis using p(2) pc by (auto simp: pcs)
    next
      case False
      then have "cs_pc s u \<noteq> Loading a"
        using fetch_inv_one_loader [OF inv pc, of u] by auto
      then show ?thesis
        using False waiting [of u] by (cases "u \<in> ?subs") (auto simp: pcs)
    qed
    show ?thesis
      unfolding inv_load_def len loading
    proof (intro conjI allI impI)
      fix b assume "b < length (cs_store s)" "\<not> lc_Ready (cs_store ?s ! b)"
      then show "\<exists>u. b \<noteq> a \<and> cs_pc s u = Loading b"
        using fetch_inv_loader [OF inv, of b] Load_ready by (auto simp: st split: if_splits)
    next
      fix u b assume "b \<noteq> a \<and> cs_pc s u = Loading b"
      then show "\<not> lc_Ready (cs_store ?s ! b)"
        using fetch_inv_loading [OF inv] by (auto simp: st)
    next
      fix u u' b assume "(b \<noteq> a \<and> cs_pc s u = Loading b) \<and> (b \<noteq> a \<and> cs_pc s u' = Loading b)"
      then show "u = u'"
        using fetch_inv_one_loader [OF inv] by blast
    qed
  qed
  ultimately show ?thesis by (simp add: fetch_inv_def)
qed

lemma inv_evict:
  assumes "fetch_inv s"
  shows "fetch_inv (s\<lparr>cs_cache := cacheTimeoutValidator now timeout (cs_store s) (cs_cache s)\<rparr>)"
proof -
  let ?s = "s\<lparr>cs_cache := cacheTimeoutValidator now timeout (cs_store s) (cs_cache s)\<rparr>"
  have "inv_wait ?s = inv_wait s" "inv_subs ?s = inv_subs s" "inv_load ?s = inv_load s"
    by (simp_all add: inv_wait_def inv_subs_def inv_load_def)
  moreover have "inv_addr s \<Longrightarrow> inv_addr ?s"
    by (simp add: inv_addr_def cacheTimeoutValidator_def)
  ultimately show ?thesis
    using assms by (simp add: fetch_inv_def)
qed

lemma fetch_step_inv: "fetch_step s s' \<Longrightarrow> fetch_inv s \<Longrightarrow> fetch_inv s'"
  by (induction rule: fetch_step.induct) (auto intro: inv_lookup inv_subscribe inv_loaded inv_evict)

lemma fetch_reachable_inv: "fetch_reachable s \<Longrightarrow> fetch_inv s"
proof (induction rule: fetch_reachable.induct)
  case (start s)
  have pcs: "\<exists>hash sz. cs_pc s t = Start hash sz" for t
    using start(1) .
  have "cs_pc s t \<noteq> Waiting a" "cs_pc s t \<noteq> Loading a" "pc_addr (cs_pc s t) \<noteq> Some a" for t a
    using pcs [of t] by auto
  then show ?case
    using start(2,3) by (simp add: fetch_inv_defs)
next
  case (step s s')
  then show ?case by (blast intro: fetch_step_inv)
qed

end
