(* ===== verification/Delta_Data.thy ===== *)
theory Delta_Data
  imports Toc Layer_Cache
begin

text \<open>
  The delta bundle that travels from the proxy to the client: the types of util/send/image.go,
  the types and methods of util/receive (image.go, helper.go, types_linux.go), and the JSON
  encoding between the two, which drops the fields that are not exported or are tagged
  \<^verbatim>\<open>json:"-"\<close>.
\<close>

section \<open>What the proxy builds: util/send/image.go\<close>

record file_chunk =
  fc_Offset :: int
  fc_ChunkOffset :: int
  fc_ChunkSize :: int
  fc_CompressedSize :: int

text \<open>\<^verbatim>\<open>ImageLayer\<close>; the blob is the address of a cached layer.\<close>

record image_layer =
  il_StackIndex :: int
  il_UncompressedSize :: int
  il_Serial :: int
  il_Hash :: string
  il_digest :: string
  il_Available :: bool
  il_Blob :: "nat option"

definition zero_layer :: image_layer where
  "zero_layer = \<lparr>il_StackIndex = 0, il_UncompressedSize = 0, il_Serial = 0, il_Hash = [],
     il_digest = [], il_Available = False, il_Blob = None\<rparr>"

definition SetDigest :: "string \<Rightarrow> image_layer \<Rightarrow> image_layer" where
  "SetDigest d il = il\<lparr>il_digest := d\<rparr>"

text \<open>\<^verbatim>\<open>File\<close> and \<^verbatim>\<open>RankedFile\<close>.\<close>

record sfile =
  sf_TOC :: toc_entry
  sf_ParsingChunks :: "file_chunk list"
  sf_FsId :: int

record ranked_file =
  rf_File :: sfile
  rf_Rank :: rat
  rf_Stack :: int
  rf_ReferenceFsId :: int
  rf_ReferenceStack :: int
  rf_PayloadOrder :: int

abbreviation rf_Digest :: "ranked_file \<Rightarrow> string" where "rf_Digest f \<equiv> e_Digest (sf_TOC (rf_File f))"
abbreviation rf_Size :: "ranked_file \<Rightarrow> int" where "rf_Size f \<equiv> e_Size (sf_TOC (rf_File f))"
abbreviation rf_FsId :: "ranked_file \<Rightarrow> int" where "rf_FsId f \<equiv> sf_FsId (rf_File f)"

text \<open>
  \<^verbatim>\<open>Content\<close>; its files are pointers into the requested files of the bundle, here indices.
\<close>

record content =
  ct_Files :: "nat list"
  ct_Rank :: rat
  ct_Stack :: int
  ct_Offset :: int
  ct_Size :: int
  ct_Chunks :: "file_chunk list"
  ct_Digest :: string

definition zero_content :: content where
  "zero_content = \<lparr>ct_Files = [], ct_Rank = 0, ct_Stack = 0, ct_Offset = 0, ct_Size = 0,
     ct_Chunks = [], ct_Digest = []\<rparr>"

definition ByRank_Less :: "content \<Rightarrow> content \<Rightarrow> bool" where
  "ByRank_Less a b = (ct_Rank a < ct_Rank b)"

interpretation by_rank: weak_order ByRank_Less
  by unfold_locales (auto simp: ByRank_Less_def)

record simage =
  im_Ref :: string
  im_Serial :: int
  im_Layers :: "image_layer list"

text \<open>\<^verbatim>\<open>LayerSource\<close>: \<^verbatim>\<open>FromDestination\<close> is false, \<^verbatim>\<open>FromSource\<close> true.\<close>

type_synonym layer_source = bool

definition FromDestination :: layer_source where "FromDestination = False"
definition FromSource :: layer_source where "FromSource = True"

record delta_bundle =
  db_Source :: "simage option"
  db_Destination :: simage
  db_Contents :: "content list"
  db_BodyLength :: int
  db_RequestedFiles :: "ranked_file list"

section \<open>What the client reads: util/receive/image.go\<close>

record rlayer =
  rl_Size :: int
  rl_Serial :: int
  rl_Hash :: string
  rl_Local :: string

text \<open>A channel that is only ever closed: nil, made by \<^verbatim>\<open>make\<close>, closed.\<close>

datatype signal = NilChan | OpenChan | ClosedChan

record rcontent =
  rc_Signal :: signal
  rc_Stack :: int
  rc_Offset :: int
  rc_Size :: int
  rc_Chunks :: "file_chunk list"
  rc_Digest :: string

text \<open>
  \<^verbatim>\<open>ReferencedFile\<close>: \<^verbatim>\<open>Ready\<close> is nil (\<open>None\<close>) or names the channel of a content; the stable
  attributes and the children, which are other files, are set on the client.
\<close>

record referenced_file =
  r_TOC :: toc_entry
  r_Chunks :: "file_chunk list"
  r_FsId :: int
  r_Stack :: int
  r_ReferenceFsId :: int
  r_ReferenceStack :: int
  r_PayloadOrder :: int
  r_Ready :: "nat option"
  r_Ino :: "64 word"
  r_Gen :: "64 word"
  r_Mode :: "32 word"
  r_children :: "nat list"

record rimage =
  ri_Serial :: int
  ri_Layers :: "rlayer list"

record rbundle =
  rb_Source :: "rimage option"
  rb_Destination :: rimage
  rb_Contents :: "rcontent list"
  rb_BodyLength :: int
  rb_RequestedFiles :: "referenced_file list"

subsection \<open>Where a content is stored\<close>

text \<open>
  \<^verbatim>\<open>s[i:j]\<close> panics when \<^verbatim>\<open>j\<close> is beyond the end.
\<close>

definition slice :: "nat \<Rightarrow> nat \<Rightarrow> string \<Rightarrow> string result" where
  "slice i j s = (if j \<le> length s \<and> i \<le> j then Inr (take (j - i) (drop i s)) else Inl (Panic ''slice bounds out of range''))"

definition digest_base_dir :: "string \<Rightarrow> string result" where
  "digest_base_dir d =
     (case slice 7 8 d of Inl e \<Rightarrow> Inl e
      | Inr a \<Rightarrow> (case slice 8 10 d of Inl e \<Rightarrow> Inl e
      | Inr b \<Rightarrow> (case slice 10 12 d of Inl e \<Rightarrow> Inl e
      | Inr c \<Rightarrow> Inr (path_join [a, b, c]))))"

definition digest_path :: "string \<Rightarrow> string result" where
  "digest_path d =
     (case digest_base_dir d of Inl e \<Rightarrow> Inl e
      | Inr base \<Rightarrow> (case slice 12 (length d) d of Inl e \<Rightarrow> Inl e
      | Inr rest \<Rightarrow> Inr (path_join [base, rest])))"

definition Content_GetBaseDir :: "rcontent \<Rightarrow> string result" where
  "Content_GetBaseDir c = digest_base_dir (rc_Digest c)"

definition Content_GetPath :: "rcontent \<Rightarrow> string result" where
  "Content_GetPath c = digest_path (rc_Digest c)"

definition File_GetBaseDir :: "referenced_file \<Rightarrow> string result" where
  "File_GetBaseDir r = digest_base_dir (e_Digest (r_TOC r))"

definition GetRealPath :: "referenced_file \<Rightarrow> string result" where
  "GetRealPath r = digest_path (e_Digest (r_TOC r))"

subsection \<open>Where the content of a file comes from\<close>

definition IsReferencingRequestedImage :: "referenced_file \<Rightarrow> int \<times> bool" where
  "IsReferencingRequestedImage r =
     (if r_ReferenceFsId r \<noteq> 0 then (0, False)
      else if r_ReferenceStack r \<noteq> 0 then (r_ReferenceStack r, True)
      else (r_Stack r, True))"

definition IsReferencingLocalFilesystem :: "referenced_file \<Rightarrow> int \<times> bool" where
  "IsReferencingLocalFilesystem r =
     (if r_ReferenceFsId r \<noteq> 0 then (r_ReferenceFsId r, True) else (0, False))"

definition InPayload :: "referenced_file \<Rightarrow> bool" where
  "InPayload r \<longleftrightarrow> r_PayloadOrder r > 0"

definition IsReady :: "referenced_file \<Rightarrow> bool" where
  "IsReady r \<longleftrightarrow> r_Ready r = None"

definition AppendChild :: "referenced_file \<Rightarrow> nat \<Rightarrow> referenced_file" where
  "AppendChild r child = r\<lparr>r_children := r_children r @ [child]\<rparr>"

definition GetXAttrs :: "referenced_file \<Rightarrow> (string \<times> string) list" where
  "GetXAttrs r = e_Xattrs (r_TOC r)"

lemma reference_exclusive:
  "snd (IsReferencingRequestedImage r) \<longleftrightarrow> \<not> snd (IsReferencingLocalFilesystem r)"
  by (simp add: IsReferencingRequestedImage_def IsReferencingLocalFilesystem_def)

subsection \<open>Attributes\<close>

text \<open>
  \<^verbatim>\<open>modeOfEntry\<close>: the mode bits of the kernel. The permission and type bits come from the
  entry's own file info, the setuid, setgid and sticky bits from that of a tar header with
  the entry's mode.
\<close>

definition ModeType :: file_mode where
  "ModeType = ModeDir OR ModeSymlink OR ModeNamedPipe OR ModeSocket OR ModeDevice OR ModeCharDevice OR ModeIrregular"

definition S_IFBLK :: "32 word" where "S_IFBLK = 0x6000"
definition S_IFCHR :: "32 word" where "S_IFCHR = 0x2000"
definition S_IFDIR :: "32 word" where "S_IFDIR = 0x4000"
definition S_IFIFO :: "32 word" where "S_IFIFO = 0x1000"
definition S_IFLNK :: "32 word" where "S_IFLNK = 0xa000"
definition S_IFSOCK :: "32 word" where "S_IFSOCK = 0xc000"
definition S_IFREG :: "32 word" where "S_IFREG = 0x8000"
definition S_ISUID :: "32 word" where "S_ISUID = 0x800"
definition S_ISGID :: "32 word" where "S_ISGID = 0x400"
definition S_ISVTX :: "32 word" where "S_ISVTX = 0x200"

definition kernel_type :: "file_mode \<Rightarrow> 32 word" where
  "kernel_type m =
     (if m = ModeDevice then S_IFBLK
      else if m = ModeDevice OR ModeCharDevice then S_IFCHR
      else if m = ModeDir then S_IFDIR
      else if m = ModeNamedPipe then S_IFIFO
      else if m = ModeSymlink then S_IFLNK
      else if m = ModeSocket then S_IFSOCK
      else S_IFREG)"

text \<open>The bits 04000, 02000 and 01000 of a tar header's mode, which \<^verbatim>\<open>FileInfo().Mode()\<close> maps to its own.\<close>

definition tar_special :: "int \<Rightarrow> 32 word" where
  "tar_special mode =
     (if bit mode 11 then S_ISUID else 0) OR (if bit mode 10 then S_ISGID else 0)
     OR (if bit mode 9 then S_ISVTX else 0)"

definition modeOfEntry :: "toc_entry \<Rightarrow> 32 word" where
  "modeOfEntry e =
     (fileInfo_Mode e AND ModePerm) OR kernel_type (fileInfo_Mode e AND ModeType) OR tar_special (e_Mode e)"

text \<open>\<^verbatim>\<open>InitFuseStableAttr\<close>; the inode number is the address of the file.\<close>

definition InitFuseStableAttr :: "64 word \<Rightarrow> referenced_file \<Rightarrow> referenced_file" where
  "InitFuseStableAttr address r = r\<lparr>r_Ino := address, r_Gen := 0, r_Mode := modeOfEntry (r_TOC r)\<rparr>"

record fuse_attr =
  a_Ino :: "64 word"
  a_Size :: "64 word"
  a_Blocks :: "64 word"
  a_Mtime :: int
  a_Mode :: "32 word"
  a_Nlink :: "32 word"
  a_Uid :: "32 word"
  a_Gid :: "32 word"
  a_Rdev :: "32 word"
  a_Blksize :: "32 word"

text \<open>\<^verbatim>\<open>SetBlockSize\<close> divides by the block size, a 32-bit word that may wrap around to zero.\<close>

definition SetBlockSize :: "referenced_file \<Rightarrow> fuse_attr \<Rightarrow> fuse_attr result" where
  "SetBlockSize r out =
     (let blk = (if e_ChunkSize (r_TOC r) = 0 then 4096 else word_of_int (e_ChunkSize (r_TOC r)))
      in if blk = 0 then Inl (Panic ''integer divide by zero'')
         else let b = ucast blk;
                  n = a_Size out div b
              in Inr (out\<lparr>a_Blksize := blk,
                          a_Blocks := (if a_Size out mod b > 0 then n + 1 else n)\<rparr>))"

text \<open>\<^verbatim>\<open>GetAttr\<close>; \<open>mkdev\<close> stands for \<^verbatim>\<open>unix.Mkdev\<close>.\<close>

definition GetAttr :: "(32 word \<Rightarrow> 32 word \<Rightarrow> 64 word) \<Rightarrow> referenced_file \<Rightarrow> fuse_attr \<Rightarrow> fuse_attr result" where
  "GetAttr mkdev r out =
     (let e = r_TOC r;
          sz = (if IsDir e then 4096
                else if e_Type e = ''symlink'' then word_of_nat (length (e_LinkName e))
                else word_of_int (e_Size e))
      in case SetBlockSize r (out\<lparr>a_Ino := r_Ino r, a_Size := sz\<rparr>) of
           Inl f \<Rightarrow> Inl f
         | Inr out1 \<Rightarrow>
             Inr (out1\<lparr>a_Mtime := e_modTime e, a_Mode := r_Mode r,
                       a_Uid := word_of_int (e_UID e), a_Gid := word_of_int (e_GID e),
                       a_Rdev := ucast (mkdev (word_of_int (e_DevMajor e)) (word_of_int (e_DevMinor e))),
                       a_Nlink := (if (word_of_int (e_NumLink e) :: 32 word) = 0 then 1
                                   else word_of_int (e_NumLink e))\<rparr>))"

section \<open>From the proxy to the client\<close>

text \<open>
  A requested file, a content, a layer and a bundle after \<^verbatim>\<open>json.Marshal\<close> of the types of
  util/send and \<^verbatim>\<open>json.Unmarshal\<close> to those of util/receive. The chunks of a file travel under
  the name \<^verbatim>\<open>chunks\<close>, but the client reads \<^verbatim>\<open>c\<close>.
\<close>

definition receive_file :: "ranked_file \<Rightarrow> referenced_file" where
  "receive_file f = \<lparr>r_TOC = json_entry (sf_TOC (rf_File f)), r_Chunks = [], r_FsId = 0,
     r_Stack = rf_Stack f, r_ReferenceFsId = rf_ReferenceFsId f, r_ReferenceStack = rf_ReferenceStack f,
     r_PayloadOrder = rf_PayloadOrder f, r_Ready = None, r_Ino = 0, r_Gen = 0, r_Mode = 0, r_children = []\<rparr>"

definition receive_content :: "content \<Rightarrow> rcontent" where
  "receive_content c = \<lparr>rc_Signal = NilChan, rc_Stack = ct_Stack c, rc_Offset = ct_Offset c,
     rc_Size = ct_Size c, rc_Chunks = ct_Chunks c, rc_Digest = ct_Digest c\<rparr>"

definition receive_layer :: "image_layer \<Rightarrow> rlayer" where
  "receive_layer l = \<lparr>rl_Size = il_UncompressedSize l, rl_Serial = il_Serial l, rl_Hash = il_Hash l, rl_Local = []\<rparr>"

definition receive_image :: "simage \<Rightarrow> rimage" where
  "receive_image i = \<lparr>ri_Serial = im_Serial i, ri_Layers = map receive_layer (im_Layers i)\<rparr>"

definition receive_bundle :: "delta_bundle \<Rightarrow> rbundle" where
  "receive_bundle b = \<lparr>rb_Source = map_option receive_image (db_Source b),
     rb_Destination = receive_image (db_Destination b),
     rb_Contents = map receive_content (db_Contents b), rb_BodyLength = db_BodyLength b,
     rb_RequestedFiles = map receive_file (db_RequestedFiles b)\<rparr>"

end
