(* ===== verification/Local_Disk.thy ===== *)
theory Local_Disk
  imports Go_Path
begin

text \<open>
  What the client and the snapshotter use of Go's standard library: names joined by \<^verbatim>\<open>filepath.Join\<close>, and the part of
  Go's packages \<^verbatim>\<open>os\<close> and \<^verbatim>\<open>io\<close> that reads and writes: a disk is a map from
  paths to the bytes of regular files, and the list of the directories that exist. Every call may also fail:
  the parameter \<open>os\<close> gives the error of a call on a path, if it has one. A stream is what a reader has left, and
  the error that follows it instead of EOF.
\<close>

section \<open>Joining names\<close>

lemma split_join_slash:
  "cs \<noteq> [] \<Longrightarrow> \<forall>c \<in> set cs. slash \<notin> set c \<Longrightarrow> split_on slash (join_with [slash] cs) = cs"
  by (rule split_on_join) auto

lemma hd_join_normal: "cs \<noteq> [] \<Longrightarrow> \<forall>c \<in> set cs. normal_comp c \<Longrightarrow> join_with [slash] cs \<noteq> [] \<and> hd (join_with [slash] cs) \<noteq> slash"
  by (cases cs; cases "tl cs"; cases "hd cs") (auto simp: normal_comp_def)

lemma path_clean_join:
  assumes "cs \<noteq> []" "\<forall>c \<in> set cs. normal_comp c"
  shows "path_clean (join_with [slash] cs) = join_with [slash] cs"
proof -
  have "split_on slash (join_with [slash] cs) = cs" using assms by (intro split_join_slash) (auto simp: normal_comp_def)
  then show ?thesis using hd_join_normal [OF assms] assms by (simp add: path_clean_def clean_comps_id split: list.splits)
qed

lemma path_dir_join:
  assumes "\<forall>x \<in> set (cs @ [c]). normal_comp x"
  shows "path_dir (join_with [slash] (cs @ [c])) = (if cs = [] then ''.'' else join_with [slash] cs)"
proof -
  have split: "split_on slash (join_with [slash] (cs @ [c])) = cs @ [c]"
    using assms by (intro split_join_slash) (auto simp: normal_comp_def)
  show ?thesis
  proof (cases "cs = []")
    case True
    then show ?thesis using split by (simp add: path_dir_def path_clean_def)
  next
    case False
    have eq: "join_with [slash] (cs @ [[]]) = join_with [slash] cs @ [slash]" using False by (simp add: join_with_snoc)
    have "split_on slash (join_with [slash] cs @ [slash]) = cs @ [[]]"
      unfolding eq [symmetric] using assms by (intro split_join_slash) (auto simp: normal_comp_def)
    moreover have "clean_comps False (cs @ [[]]) = cs"
      using assms clean_comps_id [of cs False] by (simp add: clean_comps_def)
    moreover have "join_with [slash] cs @ [slash] \<noteq> []" "hd (join_with [slash] cs @ [slash]) \<noteq> slash"
      using hd_join_normal [OF False] assms by auto
    ultimately have "path_clean (join_with [slash] cs @ [slash]) = join_with [slash] cs"
      using False by (simp add: path_clean_def split: list.splits)
    then show ?thesis using False split by (simp add: path_dir_def concat_slash)
  qed
qed

lemma path_join_dot: "normal_comp c \<Longrightarrow> path_join [''.'', c] = c"
  using split_on_no_sep [of slash c]
  by (auto simp: path_join_def path_clean_def normal_comp_def clean_comps_def)

lemma path_join_comps:
  assumes "cs \<noteq> []" "\<forall>x \<in> set (cs @ [c]). normal_comp x"
  shows "path_join [join_with [slash] cs, c] = join_with [slash] (cs @ [c])"
proof -
  have "join_with [slash] [join_with [slash] cs, c] = join_with [slash] (cs @ [c])" using assms(1) by (simp add: join_with_snoc)
  moreover have "join_with [slash] cs \<noteq> []" using hd_join_normal [OF assms(1)] assms(2) by simp
  moreover have "c \<noteq> []" using assms(2) by (auto simp: normal_comp_def)
  ultimately show ?thesis using path_clean_join [of "cs @ [c]"] assms(2) by (simp add: path_join_def)
qed

text \<open>A canonical name is its directory joined with its base.\<close>

lemma join_dir_base: "canonical s \<Longrightarrow> s \<noteq> [] \<Longrightarrow> path_join [path_dir s, path_base s] = s"
proof (erule (1) canonical_comps)
  fix cs c assume s: "\<forall>x \<in> set (cs @ [c]). normal_comp x" "s = join_with [slash] (cs @ [c])"
  show ?thesis
    unfolding s(2) path_dir_join [OF s(1)] path_base_join [OF s(1)]
    using s(1) path_join_dot path_join_comps by auto
qed

lemma normal_path_base: "canonical s \<Longrightarrow> s \<noteq> [] \<Longrightarrow> normal_comp (path_base s)"
  by (erule (1) canonical_comps) (simp add: path_base_join)

text \<open>Absolute paths are taken apart the same way.\<close>

definition abs_path :: "string list \<Rightarrow> string" where
  "abs_path cs = slash # join_with [slash] cs"

lemma abs_path_inject:
  assumes "cs \<noteq> []" "ds \<noteq> []" "\<forall>c \<in> set cs. slash \<notin> set c" "\<forall>c \<in> set ds. slash \<notin> set c"
  shows "abs_path cs = abs_path ds \<longleftrightarrow> cs = ds"
  using split_join_slash [OF assms(1,3)] split_join_slash [OF assms(2,4)] unfolding abs_path_def by (metis list.inject)

lemma path_clean_abs:
  "cs \<noteq> [] \<Longrightarrow> \<forall>c \<in> set cs. normal_comp c \<Longrightarrow> path_clean (abs_path cs) = abs_path cs"
  using split_join_slash [of cs] by (auto simp: path_clean_def abs_path_def clean_comps_id normal_comp_def)

lemma join_with_append:
  "cs \<noteq> [] \<Longrightarrow> ds \<noteq> [] \<Longrightarrow> join_with s (cs @ ds) = join_with s cs @ s @ join_with s ds"
  by (induction s cs rule: join_with.induct) (auto simp: neq_Nil_conv)

lemma path_join_abs:
  assumes "cs \<noteq> []" "ds \<noteq> []" "\<forall>c \<in> set (cs @ ds). normal_comp c"
  shows "path_join [abs_path cs, join_with [slash] ds] = abs_path (cs @ ds)"
proof -
  have "join_with [slash] [abs_path cs, join_with [slash] ds] = abs_path (cs @ ds)"
    using assms(1,2) by (simp add: abs_path_def join_with_append)
  moreover have "abs_path cs \<noteq> []" by (simp add: abs_path_def)
  moreover have "join_with [slash] ds \<noteq> []" using hd_join_normal [OF assms(2)] assms(3) by simp
  ultimately show ?thesis using path_clean_abs [of "cs @ ds"] assms by (simp add: path_join_def)
qed

lemma abs_path_snoc: "cs \<noteq> [] \<Longrightarrow> abs_path (cs @ [c]) = abs_path cs @ slash # c"
  by (simp add: abs_path_def join_with_snoc)

lemma path_dir_abs:
  assumes "cs \<noteq> []" "\<forall>x \<in> set (cs @ [c]). normal_comp x"
  shows "path_dir (abs_path (cs @ [c])) = abs_path cs"
proof -
  have split: "split_on slash (abs_path (cs @ [c])) = [] # cs @ [c]"
    using assms split_join_slash [of "cs @ [c]"] by (auto simp: abs_path_def normal_comp_def)
  have "split_on slash (join_with [slash] (cs @ [[]])) = cs @ [[]]" using assms by (intro split_join_slash) (auto simp: normal_comp_def)
  then have "split_on slash (join_with [slash] cs @ [slash]) = cs @ [[]]" using assms(1) by (simp add: join_with_snoc)
  moreover have "clean_comps True (cs @ [[]]) = cs" using assms clean_comps_id [of cs True] by (simp add: clean_comps_def)
  ultimately have "path_clean (abs_path cs @ [slash]) = abs_path cs"
    by (simp add: path_clean_def abs_path_def)
  then show ?thesis using assms(1) split concat_slash [OF assms(1)] by (simp add: path_dir_def abs_path_def)
qed

section \<open>Streams\<close>

type_synonym stream = "byte list \<times> go_error option"

text \<open>\<^verbatim>\<open>io.CopyN\<close>: what is copied, what is left, and the error; a negative count copies nothing and is no error.\<close>

definition CopyN :: "int \<Rightarrow> stream \<Rightarrow> byte list \<times> stream \<times> go_error option" where
  "CopyN n s = (take (nat n) (fst s), (drop (nat n) (fst s), snd s),
     (if n \<le> int (length (fst s)) then None
      else Some (case snd s of None \<Rightarrow> ExtError ''EOF'' | Some e \<Rightarrow> e)))"

lemma CopyN_ok: "0 \<le> n \<Longrightarrow> CopyN n s = (bs, s', None) \<longleftrightarrow>
    nat n \<le> length (fst s) \<and> bs = take (nat n) (fst s) \<and> s' = (drop (nat n) (fst s), snd s)"
  by (auto simp: CopyN_def)

section \<open>Files and directories\<close>

type_synonym os = "string \<Rightarrow> string \<Rightarrow> go_error option"

record disk =
  dk_files :: "(string \<times> byte list) list"
  dk_dirs :: "string list"

definition file_at :: "disk \<Rightarrow> string \<Rightarrow> byte list option" where
  "file_at d p = map_of (dk_files d) p"

text \<open>The directories on the way to a path, itself included.\<close>

definition ancestors :: "string \<Rightarrow> string list" where
  "ancestors p = p # map (\<lambda>k. take k p) (filter (\<lambda>k. p ! k = slash) [1..<length p])"

lemma ancestors_snoc:
  assumes "p \<noteq> []" "slash \<notin> set c"
  shows "set (ancestors (p @ slash # c)) = insert (p @ slash # c) (set (ancestors p))"
proof -
  let ?q = "p @ slash # c"
  have pos: "{k. 1 \<le> k \<and> k < length ?q \<and> ?q ! k = slash} = insert (length p) {k. 1 \<le> k \<and> k < length p \<and> p ! k = slash}"
  proof (intro set_eqI iffI)
    fix k assume k: "k \<in> {k. 1 \<le> k \<and> k < length ?q \<and> ?q ! k = slash}"
    consider "k < length p" | "k = length p" | "length p < k" by linarith
    then show "k \<in> insert (length p) {k. 1 \<le> k \<and> k < length p \<and> p ! k = slash}"
    proof cases
      case 3
      then have "?q ! k = c ! (k - Suc (length p))" by (simp add: nth_append nth_Cons')
      moreover have "k - Suc (length p) < length c" using k 3 by auto
      ultimately show ?thesis using k assms(2) nth_mem [of "k - Suc (length p)" c] by simp
    qed (use k in \<open>auto simp: nth_append\<close>)
  next
    fix k assume "k \<in> insert (length p) {k. 1 \<le> k \<and> k < length p \<and> p ! k = slash}"
    then show "k \<in> {k. 1 \<le> k \<and> k < length ?q \<and> ?q ! k = slash}"
      using assms(1) by (auto simp: nth_append Suc_le_eq)
  qed
  have "set (ancestors ?q) = insert ?q ((\<lambda>k. take k ?q) ` {k. 1 \<le> k \<and> k < length ?q \<and> ?q ! k = slash})"
    by (auto simp: ancestors_def)
  also have "\<dots> = insert ?q (insert p ((\<lambda>k. take k p) ` {k. 1 \<le> k \<and> k < length p \<and> p ! k = slash}))"
    unfolding pos by (auto simp: image_iff)
  also have "\<dots> = insert ?q (set (ancestors p))" by (auto simp: ancestors_def)
  finally show ?thesis .
qed

lemma ancestors_abs:
  "cs \<noteq> [] \<Longrightarrow> \<forall>c \<in> set cs. slash \<notin> set c \<Longrightarrow> set (ancestors (abs_path cs)) = (\<lambda>k. abs_path (take k cs)) ` {1..length cs}"
proof (induction cs rule: rev_nonempty_induct)
  case (single c)
  have "ancestors (abs_path [c]) = [abs_path [c]]"
    using single by (auto simp: ancestors_def abs_path_def nth_Cons' filter_empty_conv in_set_conv_nth)
  then show ?case by (simp add: image_iff)
next
  case (snoc c cs)
  have "{1..length (cs @ [c])} = insert (length cs + 1) {1..length cs}" by auto
  moreover have "(\<lambda>k. abs_path (take k (cs @ [c]))) ` {1..length cs} = (\<lambda>k. abs_path (take k cs)) ` {1..length cs}" by (intro image_cong) auto
  moreover have "abs_path cs \<noteq> []" by (simp add: abs_path_def)
  ultimately show ?case
    using snoc ancestors_snoc [of "abs_path cs" c] abs_path_snoc [OF snoc(1), of c] by simp
qed

definition MkdirAll :: "os \<Rightarrow> string \<Rightarrow> disk \<Rightarrow> disk \<times> go_error option" where
  "MkdirAll os p d =
     (case os ''mkdir'' p of Some e \<Rightarrow> (d, Some e) | None \<Rightarrow>
        if list_ex (\<lambda>q. file_at d q \<noteq> None) (ancestors p) then (d, Some (ExtError ''ENOTDIR''))
        else (d\<lparr>dk_dirs := List.union (ancestors p) (dk_dirs d)\<rparr>, None))"

definition Create :: "os \<Rightarrow> string \<Rightarrow> disk \<Rightarrow> disk \<times> go_error option" where
  "Create os p d =
     (case os ''open'' p of Some e \<Rightarrow> (d, Some e) | None \<Rightarrow>
        if p \<in> set (dk_dirs d) then (d, Some (ExtError ''EISDIR''))
        else if path_dir p \<notin> set (dk_dirs d) then (d, Some (ExtError ''ENOENT''))
        else (d\<lparr>dk_files := AList.update p [] (dk_files d)\<rparr>, None))"

text \<open>Writing at the end of an open file.\<close>

definition write_file_at :: "string \<Rightarrow> byte list \<Rightarrow> disk \<Rightarrow> disk" where
  "write_file_at p bs d = d\<lparr>dk_files := AList.map_entry p (\<lambda>old. old @ bs) (dk_files d)\<rparr>"

definition WriteFile :: "os \<Rightarrow> string \<Rightarrow> byte list \<Rightarrow> disk \<Rightarrow> disk \<times> go_error option" where
  "WriteFile os p bs d =
     (case Create os p d of (d1, Some e) \<Rightarrow> (d1, Some e) | (d1, None) \<Rightarrow>
        (case os ''write'' p of Some e \<Rightarrow> (d1, Some e) | None \<Rightarrow> (write_file_at p bs d1, None)))"

definition ReadFile :: "os \<Rightarrow> string \<Rightarrow> disk \<Rightarrow> byte list result" where
  "ReadFile os p d =
     (case os ''open'' p of Some e \<Rightarrow> Inl (Fail e) | None \<Rightarrow>
        (case file_at d p of None \<Rightarrow> Inl (Fail (ExtError ''ENOENT'')) | Some bs \<Rightarrow> Inr bs))"

section \<open>What the operations leave\<close>

lemma MkdirAll_files [simp]: "file_at (fst (MkdirAll os p d)) q = file_at d q"
  by (auto simp: MkdirAll_def file_at_def split: option.splits)

lemma MkdirAll_Some: "MkdirAll os p d = (d', r) \<Longrightarrow> file_at d' q = file_at d q \<and> set (dk_dirs d) \<subseteq> set (dk_dirs d')"
  by (auto simp: MkdirAll_def file_at_def split: option.splits if_splits)

lemma MkdirAll_dirs: "MkdirAll os p d = (d', None) \<Longrightarrow> set (dk_dirs d') = set (ancestors p) \<union> set (dk_dirs d)"
  by (auto simp: MkdirAll_def split: option.splits if_splits)

lemma Create_files: "Create os p d = (d', None) \<Longrightarrow> file_at d' q = (if q = p then Some [] else file_at d q)"
  by (auto simp: Create_def file_at_def update_conv' split: option.splits if_splits)

lemma Create_other: "Create os p d = (d', r) \<Longrightarrow> q \<noteq> p \<Longrightarrow> file_at d' q = file_at d q"
  by (auto simp: Create_def file_at_def update_conv' split: option.splits if_splits)

lemma Create_dirs: "Create os p d = (d', r) \<Longrightarrow> dk_dirs d' = dk_dirs d"
  by (auto simp: Create_def split: option.splits if_splits)

lemma file_at_write [simp]:
  "file_at (write_file_at p bs d) q = (if q = p then map_option (\<lambda>old. old @ bs) (file_at d p) else file_at d q)"
  by (simp add: write_file_at_def file_at_def map_of_map_entry split: option.split)

lemma write_dirs [simp]: "dk_dirs (write_file_at p bs d) = dk_dirs d"
  by (simp add: write_file_at_def)

lemma WriteFile_dirs: "WriteFile os p bs d = (d', r) \<Longrightarrow> dk_dirs d' = dk_dirs d"
  by (auto simp: WriteFile_def dest: Create_dirs split: prod.splits option.splits)

lemma WriteFile_other: "WriteFile os p bs d = (d', r) \<Longrightarrow> q \<noteq> p \<Longrightarrow> file_at d' q = file_at d q"
  by (auto simp: WriteFile_def dest: Create_other split: prod.splits option.splits)

lemma WriteFile_file: "WriteFile os p bs d = (d', None) \<Longrightarrow> file_at d' p = Some bs"
  by (auto simp: WriteFile_def Create_files split: prod.splits option.splits)

end
