(* ===== verification/Fs_Node.thy ===== *)
theory Fs_Node
  imports Delta_Data Local_Disk
begin

text \<open>
  The FUSE file system of the client: the nodes of client/fs/fs.go and the instances of
  client/fs/instance.go. A file of the image (\<^verbatim>\<open>ReceivedFile\<close>) is an index of a requested file of the bundle; a
  node is such a file and the instance it belongs to. What a node asks of its manager, Go's interface
  \<^verbatim>\<open>ImageManager\<close>, is a record of functions, and the laws that a manager promises are a locale, which the theory of
  the manager interprets. The kernel, go-fuse and \<^verbatim>\<open>unix.Mkdev\<close> are parameters.
\<close>

section \<open>The interface to the manager\<close>

record image_manager =
  mi_file :: "nat \<Rightarrow> referenced_file"
  mi_signal :: "nat \<Rightarrow> signal"
  mi_GetPathByStack :: "int \<Rightarrow> string result"
  mi_GetPathBySerial :: "int \<Rightarrow> string result"
  mi_LookUpFile :: "int \<Rightarrow> string \<Rightarrow> nat option result"

section \<open>Instances\<close>

record fs_instance =
  in_rootInode :: "nat option"
  in_stack :: int
  in_mountPoint :: string

text \<open>
  What the kernel says: the error of \<^verbatim>\<open>os.Stat\<close> on a directory, of \<^verbatim>\<open>syscall.Unmount\<close> and of
  \<^verbatim>\<open>fuse.NewServer\<close>. The mounts are the list of directories that are mounted.
\<close>

record fuse_env =
  fe_stat :: "string \<Rightarrow> go_error option"
  fe_unmount :: "string \<Rightarrow> go_error option"
  fe_server :: "string \<Rightarrow> go_error option"

definition kernel_unmount :: "fuse_env \<Rightarrow> string \<Rightarrow> string list \<Rightarrow> string list \<times> unit result" where
  "kernel_unmount fe dir mounts =
     (case fe_unmount fe dir of Some e \<Rightarrow> (mounts, Inl (Fail e)) | None \<Rightarrow> (remove1 dir mounts, Inr ()))"

definition Instance_Teardown :: "fuse_env \<Rightarrow> fs_instance \<Rightarrow> string list \<Rightarrow> string list \<times> unit result" where
  "Instance_Teardown fe fi mounts = kernel_unmount fe (in_mountPoint fi) mounts"

text \<open>The error of the unmount of a disconnected directory is logged and dropped.\<close>

definition NewInstance :: "fuse_env \<Rightarrow> nat option \<Rightarrow> int \<Rightarrow> string \<Rightarrow> string list \<Rightarrow> string list \<times> fs_instance result" where
  "NewInstance fe rt stack dir mounts =
     (let mounts1 = (if fe_stat fe dir = Some (ExtError ''ENOTCONN'') then fst (kernel_unmount fe dir mounts) else mounts)
      in case fe_server fe dir of
           Some e \<Rightarrow> (mounts1, Inl (Fail e))
         | None \<Rightarrow> (dir # mounts1, Inr \<lparr>in_rootInode = rt, in_stack = stack, in_mountPoint = dir\<rparr>))"

section \<open>Nodes\<close>

record fs_node =
  nd_File :: nat
  nd_instance :: fs_instance

text \<open>An errno of the kernel is an error; a panic goes through.\<close>

definition errno :: "string \<Rightarrow> failure" where
  "errno name = Fail (ExtError name)"

definition GetName :: "referenced_file \<Rightarrow> string" where
  "GetName r = e_Name (r_TOC r)"

definition GetLinkName :: "referenced_file \<Rightarrow> string" where
  "GetLinkName r = e_LinkName (r_TOC r)"

definition nd_Name :: "image_manager \<Rightarrow> fs_node \<Rightarrow> string" where
  "nd_Name mi n = GetName (mi_file mi (nd_File n))"

definition getFile :: "image_manager \<Rightarrow> fs_node \<Rightarrow> string \<Rightarrow> nat option result" where
  "getFile mi n p = mi_LookUpFile mi (in_stack (nd_instance n)) p"

definition getRealPath :: "image_manager \<Rightarrow> fs_node \<Rightarrow> string result" where
  "getRealPath mi n =
     (let r = mi_file mi (nd_File n)
      in case GetRealPath r of Inl e \<Rightarrow> Inl e | Inr pp \<Rightarrow>
        (case IsReferencingRequestedImage r of
           (stack, True) \<Rightarrow> (case mi_GetPathByStack mi stack of Inl e \<Rightarrow> Inl e | Inr p \<Rightarrow> Inr (path_join [p, pp]))
         | (_, False) \<Rightarrow>
            (case IsReferencingLocalFilesystem r of
               (serial, True) \<Rightarrow> (case mi_GetPathBySerial mi serial of Inl e \<Rightarrow> Inl e | Inr p \<Rightarrow> Inr (path_join [p, pp]))
             | (_, False) \<Rightarrow> Inl (Fail (Errorf ''fsnode: unknown file reference'')))))"

definition zero_attr :: fuse_attr where
  "zero_attr = \<lparr>a_Ino = 0, a_Size = 0, a_Blocks = 0, a_Mtime = 0, a_Mode = 0, a_Nlink = 0, a_Uid = 0, a_Gid = 0, a_Rdev = 0, a_Blksize = 0\<rparr>"

text \<open>\<^verbatim>\<open>Lookup\<close>: the node of the child, its attributes and its stable attributes (inode and mode).\<close>

definition Node_Lookup :: "(32 word \<Rightarrow> 32 word \<Rightarrow> 64 word) \<Rightarrow> image_manager \<Rightarrow> fs_node \<Rightarrow> string
    \<Rightarrow> (fs_node \<times> fuse_attr \<times> 64 word \<times> 32 word) result" where
  "Node_Lookup mkdev mi n name =
     (case getFile mi n (path_join [nd_Name mi n, name]) of
        Inl e \<Rightarrow> Inl e
      | Inr None \<Rightarrow> Inl (errno ''ENOENT'')
      | Inr (Some f) \<Rightarrow>
         (case GetAttr mkdev (mi_file mi f) zero_attr of
            Inl e \<Rightarrow> Inl e
          | Inr attr \<Rightarrow> Inr (\<lparr>nd_File = f, nd_instance = nd_instance n\<rparr>, attr, r_Ino (mi_file mi f), r_Mode (mi_file mi f))))"

definition Node_Getattr :: "(32 word \<Rightarrow> 32 word \<Rightarrow> 64 word) \<Rightarrow> image_manager \<Rightarrow> fs_node \<Rightarrow> fuse_attr result" where
  "Node_Getattr mkdev mi n = GetAttr mkdev (mi_file mi (nd_File n)) zero_attr"

text \<open>
  \<^verbatim>\<open>Getxattr\<close> and \<^verbatim>\<open>Listxattr\<close> assign to their parameter \<^verbatim>\<open>dest\<close>: the buffer of the caller, the first component
  of the result here, keeps its bytes. \<^verbatim>\<open>Listxattr\<close> joins as many empty names as there are attributes with the names.
\<close>

definition Node_Getxattr :: "image_manager \<Rightarrow> fs_node \<Rightarrow> string \<Rightarrow> string \<Rightarrow> string \<times> 32 word result" where
  "Node_Getxattr mi n attr dest =
     (case map_of (GetXAttrs (mi_file mi (nd_File n))) attr of
        Some val \<Rightarrow> (dest, Inr (word_of_nat (length val)))
      | None \<Rightarrow> (dest, Inl (errno ''ENOATTR'')))"

definition Node_Listxattr :: "(string list \<Rightarrow> string list) \<Rightarrow> image_manager \<Rightarrow> fs_node \<Rightarrow> string \<Rightarrow> string \<times> 32 word result" where
  "Node_Listxattr iter mi n dest =
     (let xattrs = GetXAttrs (mi_file mi (nd_File n));
          kl = replicate (length xattrs) [] @ iter (map fst xattrs);
          res = join_with [CHR 0x00] kl
      in (dest, Inr (word_of_nat (length res))))"

record dir_entry =
  de_Mode :: "32 word"
  de_Name :: string
  de_Ino :: "64 word"

fun read_children :: "(32 word \<Rightarrow> 32 word \<Rightarrow> 64 word) \<Rightarrow> image_manager \<Rightarrow> nat list \<Rightarrow> dir_entry list \<Rightarrow> dir_entry list result" where
  "read_children mkdev mi [] cl = Inr cl"
| "read_children mkdev mi (c # cs) cl =
     (case GetAttr mkdev (mi_file mi c) zero_attr of
        Inl e \<Rightarrow> Inl e
      | Inr attr \<Rightarrow> read_children mkdev mi cs
          (cl @ [\<lparr>de_Mode = a_Mode attr, de_Name = path_base (GetName (mi_file mi c)), de_Ino = a_Ino attr\<rparr>]))"

definition Node_Readdir :: "(32 word \<Rightarrow> 32 word \<Rightarrow> 64 word) \<Rightarrow> image_manager \<Rightarrow> fs_node \<Rightarrow> dir_entry list result" where
  "Node_Readdir mkdev mi n =
     (let r = mi_file mi (nd_File n)
      in case read_children mkdev mi (r_children r) [] of
           Inl e \<Rightarrow> Inl e
         | Inr cl \<Rightarrow>
            (case getFile mi n (path_join [nd_Name mi n, ''..'']) of
               Inl e \<Rightarrow> Inl e
             | Inr up \<Rightarrow>
                (let parent = (case up of None \<Rightarrow> r | Some f \<Rightarrow> mi_file mi f)
                 in Inr (cl @ [\<lparr>de_Mode = r_Mode r, de_Name = ''.'', de_Ino = r_Ino r\<rparr>,
                              \<lparr>de_Mode = r_Mode parent, de_Name = ''..'', de_Ino = r_Ino parent\<rparr>]))))"

text \<open>\<^verbatim>\<open>ByteSliceFromString\<close> fails on a NUL byte and ends its result with one.\<close>

definition Node_Readlink :: "image_manager \<Rightarrow> fs_node \<Rightarrow> string result" where
  "Node_Readlink mi n =
     (let l = GetLinkName (mi_file mi (nd_File n))
      in if CHR 0x00 \<in> set l then Inl (errno ''EINVAL'') else Inr (l @ [CHR 0x00]))"

lemma GetAttr_stable: "GetAttr mkdev r out = Inr attr \<Longrightarrow> a_Ino attr = r_Ino r \<and> a_Mode attr = r_Mode r"
  by (auto simp: GetAttr_def SetBlockSize_def Let_def split: if_splits)

lemma read_children_Inr:
  "read_children mkdev mi cs cl = Inr es \<Longrightarrow>
     es = cl @ map (\<lambda>i. \<lparr>de_Mode = r_Mode (mi_file mi i), de_Name = path_base (GetName (mi_file mi i)), de_Ino = r_Ino (mi_file mi i)\<rparr>) cs"
proof (induction cs arbitrary: cl)
  case (Cons c cs)
  then obtain attr where "GetAttr mkdev (mi_file mi c) zero_attr = Inr attr"
    and rest: "read_children mkdev mi cs (cl @ [\<lparr>de_Mode = a_Mode attr, de_Name = path_base (GetName (mi_file mi c)), de_Ino = a_Ino attr\<rparr>]) = Inr es"
    by (auto split: sum.splits)
  then have "a_Ino attr = r_Ino (mi_file mi c)" "a_Mode attr = r_Mode (mi_file mi c)" by (auto dest: GetAttr_stable)
  then show ?case using Cons.IH [OF rest] by simp
qed simp

lemma read_children_attr: "read_children mkdev mi cs cl = Inr es \<Longrightarrow> c \<in> set cs \<Longrightarrow> \<exists>attr. GetAttr mkdev (mi_file mi c) zero_attr = Inr attr"
  by (induction cs arbitrary: cl) (auto split: sum.splits)

section \<open>Opening files\<close>

text \<open>
  \<^verbatim>\<open>Open\<close> waits for the signal of the content of the file. Until the signal is closed the call does not return
  (\<open>Blocks\<close>); after that, the path is opened on the local disk. The access is logged once the wait is over, with the
  name of the file.
\<close>

datatype open_outcome = Blocks | Opened string | OpenFails failure

definition sys_open :: "os \<Rightarrow> string \<Rightarrow> disk \<Rightarrow> open_outcome" where
  "sys_open os p d =
     (case os ''open'' p of Some e \<Rightarrow> OpenFails (Fail e) | None \<Rightarrow>
        if file_at d p = None \<and> p \<notin> set (dk_dirs d) then OpenFails (errno ''ENOENT'') else Opened p)"

definition waits :: "image_manager \<Rightarrow> referenced_file \<Rightarrow> bool" where
  "waits mi r \<longleftrightarrow> (case r_Ready r of None \<Rightarrow> False | Some c \<Rightarrow> mi_signal mi c \<noteq> ClosedChan)"

definition Node_Open :: "os \<Rightarrow> image_manager \<Rightarrow> fs_node \<Rightarrow> disk \<Rightarrow> open_outcome \<times> string list" where
  "Node_Open os mi n d =
     (case getRealPath mi n of
        Inl (Panic m) \<Rightarrow> (OpenFails (Panic m), [])
      | Inl (Fail e) \<Rightarrow> (OpenFails (errno ''ENODATA''), [])
      | Inr p \<Rightarrow> (if waits mi (mi_file mi (nd_File n)) then (Blocks, [])
                 else (sys_open os p d, [nd_Name mi n])))"

text \<open>\<^verbatim>\<open>Fsync\<close> opens the file in the same way and syncs the handle it gets; the result of the sync is the parameter.\<close>

definition Node_Fsync :: "os \<Rightarrow> (string \<Rightarrow> unit result) \<Rightarrow> image_manager \<Rightarrow> fs_node \<Rightarrow> disk \<Rightarrow> unit result option \<times> string list" where
  "Node_Fsync os sync mi n d =
     (case Node_Open os mi n d of
        (Blocks, l) \<Rightarrow> (None, l)
      | (OpenFails e, l) \<Rightarrow> (Some (Inl e), l)
      | (Opened p, l) \<Rightarrow> (Some (sync p), l))"

section \<open>What a manager promises\<close>

text \<open>
  Names of whiteouts and opaque markers; the files that are linked below a directory are those whose directory it is, but for
  the root and the markers.
\<close>

definition opaque_name :: string where "opaque_name = ''.wh..wh..opq''"

definition whiteout_prefix :: string where "whiteout_prefix = ''.wh.''"

definition child_name :: "string \<Rightarrow> string \<Rightarrow> bool" where
  "child_name d fn \<longleftrightarrow> fn \<noteq> ''.'' \<and> path_dir fn = d \<and> path_base fn \<noteq> opaque_name"

definition is_whiteout :: "string \<Rightarrow> bool" where
  "is_whiteout fn \<longleftrightarrow> prefix whiteout_prefix (path_base fn)"

text \<open>
  The laws of \<^verbatim>\<open>ImageManager\<close> for a layer that is \<open>valid\<close>: looking up never panics, the root is found, names are canonical and
  files carry the name they are found under unless they are whiteouts, and the children of a directory are the files linked below it.
\<close>

locale image_tree =
  fixes mi :: "'s \<Rightarrow> image_manager" and valid :: "'s \<Rightarrow> int \<Rightarrow> bool"
  assumes lookup_total: "valid s k \<Longrightarrow> is_ok (mi_LookUpFile (mi s) k fn)"
    and lookup_root: "valid s k \<Longrightarrow> \<exists>i. mi_LookUpFile (mi s) k ''.'' = Inr (Some i) \<and> GetName (mi_file (mi s) i) = ''.''"
    and lookup_canonical: "valid s k \<Longrightarrow> mi_LookUpFile (mi s) k fn = Inr (Some i) \<Longrightarrow> fn \<noteq> ''.'' \<Longrightarrow> canonical fn \<and> fn \<noteq> []"
    and lookup_name: "valid s k \<Longrightarrow> mi_LookUpFile (mi s) k fn = Inr (Some i) \<Longrightarrow> \<not> is_whiteout fn \<Longrightarrow> GetName (mi_file (mi s) i) = fn"
    and lookup_children: "valid s k \<Longrightarrow> mi_LookUpFile (mi s) k d = Inr (Some p) \<Longrightarrow>
      set (r_children (mi_file (mi s) p)) = {i. \<exists>fn. child_name d fn \<and> mi_LookUpFile (mi s) k fn = Inr (Some i)}"
begin

text \<open>A file that is not a whiteout is found from the node of its directory by its last component.\<close>

lemma Node_Lookup_child:
  assumes v: "valid s (in_stack (nd_instance n))" and d: "mi_LookUpFile (mi s) (in_stack (nd_instance n)) d = Inr (Some (nd_File n))" "\<not> is_whiteout d"
    and c: "child_name d fn" "mi_LookUpFile (mi s) (in_stack (nd_instance n)) fn = Inr (Some i)"
    and attr: "GetAttr mkdev (mi_file (mi s) i) zero_attr = Inr attr"
  shows "Node_Lookup mkdev (mi s) n (path_base fn) = Inr (\<lparr>nd_File = i, nd_instance = nd_instance n\<rparr>, attr, r_Ino (mi_file (mi s) i), r_Mode (mi_file (mi s) i))"
proof -
  have "canonical fn" "fn \<noteq> []" using lookup_canonical [OF v c(2)] c(1) by (auto simp: child_name_def)
  then have "path_join [d, path_base fn] = fn" using join_dir_base [of fn] c(1) by (simp add: child_name_def)
  moreover have "nd_Name (mi s) n = d" using lookup_name [OF v d] by (simp add: nd_Name_def)
  ultimately show ?thesis using c(2) attr by (simp add: Node_Lookup_def getFile_def)
qed

text \<open>A directory lists its children, and itself and its parent.\<close>

lemma Node_Readdir_entries:
  assumes v: "valid s (in_stack (nd_instance n))" and d: "mi_LookUpFile (mi s) (in_stack (nd_instance n)) d = Inr (Some (nd_File n))"
    and run: "Node_Readdir mkdev (mi s) n = Inr es"
  shows "set es \<supseteq> {\<lparr>de_Mode = r_Mode (mi_file (mi s) i), de_Name = path_base (GetName (mi_file (mi s) i)), de_Ino = r_Ino (mi_file (mi s) i)\<rparr> |i fn.
      child_name d fn \<and> mi_LookUpFile (mi s) (in_stack (nd_instance n)) fn = Inr (Some i)}"
    "length es = length (r_children (mi_file (mi s) (nd_File n))) + 2"
    "e \<in> set es \<Longrightarrow> de_Name e = ''.'' \<or> de_Name e = ''..'' \<or> (\<exists>i fn. child_name d fn \<and> mi_LookUpFile (mi s) (in_stack (nd_instance n)) fn = Inr (Some i) \<and>
       e = \<lparr>de_Mode = r_Mode (mi_file (mi s) i), de_Name = path_base (GetName (mi_file (mi s) i)), de_Ino = r_Ino (mi_file (mi s) i)\<rparr>)"
proof -
  let ?entry = "\<lambda>i. \<lparr>de_Mode = r_Mode (mi_file (mi s) i), de_Name = path_base (GetName (mi_file (mi s) i)), de_Ino = r_Ino (mi_file (mi s) i)\<rparr>"
  let ?r = "mi_file (mi s) (nd_File n)"
  obtain a b where es: "es = map ?entry (r_children ?r) @ [a, b]" "de_Name a = ''.''" "de_Name b = ''..''"
    using run by (auto simp: Node_Readdir_def Let_def dest!: read_children_Inr split: sum.splits)
  note ch = lookup_children [OF v d]
  show "set es \<supseteq> {?entry i |i fn. child_name d fn \<and> mi_LookUpFile (mi s) (in_stack (nd_instance n)) fn = Inr (Some i)}"
    using ch es(1) by auto
  show "length es = length (r_children ?r) + 2" by (simp add: es(1))
  assume "e \<in> set es"
  then have "e = a \<or> e = b \<or> e \<in> ?entry ` set (r_children ?r)" by (auto simp: es(1))
  then show "de_Name e = ''.'' \<or> de_Name e = ''..'' \<or> (\<exists>i fn. child_name d fn \<and> mi_LookUpFile (mi s) (in_stack (nd_instance n)) fn = Inr (Some i) \<and> e = ?entry i)"
    unfolding ch using es(2,3) by blast
qed

end

end
