(* ===== verification/Snapshotter.thy ===== *)
theory Snapshotter
  imports Fs_Node
begin

text \<open>
  client/snapshotter: the snapshotter plugin that containerd calls (plugin.go) and the operator that adds snapshots through
  containerd (operator.go). The metadata store is a package of containerd: its transactions are functions on
  a store \<open>'m\<close>, a record of parameters. What the plugin asks of the client is Go's interface \<^verbatim>\<open>PluginClient\<close>, a record of
  functions on the state of the client and the host, with its laws as a locale. The store is a Bolt database, which has one
  writable transaction at a time: a second one waits, so an operation is an option, and \<open>None\<close> is a
  call that does not return.
\<close>

section \<open>Snapshots\<close>

datatype sn_kind = KindUnknown | KindView | KindActive | KindCommitted

record sn_info =
  sn_Kind :: sn_kind
  sn_Name :: string
  sn_Parent :: string
  sn_Labels :: "(string \<times> string) list"

definition zero_info :: sn_info where
  "zero_info = \<lparr>sn_Kind = KindUnknown, sn_Name = [], sn_Parent = [], sn_Labels = []\<rparr>"

type_synonym usage = "int \<times> int"

text \<open>An option of \<^verbatim>\<open>snapshots\<close> changes an info, or fails.\<close>

type_synonym sn_opt = "sn_info \<Rightarrow> sn_info result"

record sn_mount =
  mt_Type :: string
  mt_Source :: string
  mt_Options :: "string list"

definition SnapshotLabelRefImage :: string where
  "SnapshotLabelRefImage = ''containerd.io/snapshot/starlight.ref.image''"

definition SnapshotLabelRefUncompressed :: string where
  "SnapshotLabelRefUncompressed = ''containerd.io/snapshot/starlight.ref.uncompressed''"

definition SnapshotLabelRefLayer :: string where
  "SnapshotLabelRefLayer = ''containerd.io/snapshot/starlight.ref.layer''"

text \<open>A Go map of strings gives the empty string for a key that is not there.\<close>

definition label :: "sn_info \<Rightarrow> string \<Rightarrow> string" where
  "label i k = (case map_of (sn_Labels i) k of Some v \<Rightarrow> v | None \<Rightarrow> [])"

definition has_label :: "sn_info \<Rightarrow> string \<Rightarrow> bool" where
  "has_label i k \<longleftrightarrow> map_of (sn_Labels i) k \<noteq> None"

section \<open>What the plugin calls\<close>

text \<open>The host: the local disk and the directories that are mounted. \<open>en_usage\<close> is \<^verbatim>\<open>fs.DiskUsage\<close>.\<close>

record host =
  ho_disk :: disk
  ho_mounts :: "string list"

record environment =
  en_os :: os
  en_fuse :: fuse_env
  en_usage :: "disk \<Rightarrow> string \<Rightarrow> usage result"

definition below :: "string \<Rightarrow> string \<Rightarrow> bool" where
  "below p q \<longleftrightarrow> q = p \<or> prefix (p @ [slash]) q"

definition RemoveAll :: "os \<Rightarrow> string \<Rightarrow> disk \<Rightarrow> disk \<times> go_error option" where
  "RemoveAll os p d =
     (case os ''remove'' p of Some e \<Rightarrow> (d, Some e) | None \<Rightarrow>
        (d\<lparr>dk_files := filter (\<lambda>(q, _). \<not> below p q) (dk_files d), dk_dirs := filter (\<lambda>q. \<not> below p q) (dk_dirs d)\<rparr>, None))"

record 'm meta_store =
  ms_begin :: "bool \<Rightarrow> go_error option"
  ms_commit :: "'m \<Rightarrow> go_error option"
  ms_GetInfo :: "'m \<Rightarrow> string \<Rightarrow> (string \<times> sn_info \<times> usage) result"
  ms_CreateSnapshot :: "'m \<Rightarrow> sn_kind \<Rightarrow> string \<Rightarrow> string \<Rightarrow> sn_opt list \<Rightarrow> ('m \<times> string) result"
  ms_CommitActive :: "'m \<Rightarrow> string \<Rightarrow> string \<Rightarrow> usage \<Rightarrow> sn_opt list \<Rightarrow> 'm result"
  ms_Remove :: "'m \<Rightarrow> string \<Rightarrow> 'm \<times> unit result"
  ms_UpdateInfo :: "'m \<Rightarrow> sn_info \<Rightarrow> string list \<Rightarrow> ('m \<times> sn_info) result"
  ms_WalkInfo :: "'m \<Rightarrow> string list \<Rightarrow> sn_info list result"

record 'c plugin_client =
  pc_GetFilesystemPath :: "'c \<Rightarrow> string \<Rightarrow> string result"
  pc_GetMountingPoint :: "'c \<Rightarrow> string \<Rightarrow> string"
  pc_PrepareManager :: "string \<Rightarrow> string \<Rightarrow> 'c \<times> host \<Rightarrow> ('c \<times> host) \<times> unit result"
  pc_Unmount :: "string \<Rightarrow> string \<Rightarrow> 'c \<times> host \<Rightarrow> ('c \<times> host) \<times> unit result"
  pc_Mount :: "string \<Rightarrow> string \<Rightarrow> sn_info \<Rightarrow> 'c \<times> host \<Rightarrow> ('c \<times> host) \<times> string result"

text \<open>The plugin: the committed database, whether a writable transaction is open, the client and the host.\<close>

record ('m, 'c) plugin =
  pg_db :: 'm
  pg_writing :: bool
  pg_client :: 'c
  pg_host :: host

definition getUpper :: "'c plugin_client \<Rightarrow> 'c \<Rightarrow> string \<Rightarrow> string" where
  "getUpper pc c ssId = path_join [pc_GetMountingPoint pc c ssId, ''upper'']"

definition getWork :: "'c plugin_client \<Rightarrow> 'c \<Rightarrow> string \<Rightarrow> string" where
  "getWork pc c ssId = path_join [pc_GetMountingPoint pc c ssId, ''work'']"

definition getStarlightFS :: "'c plugin_client \<Rightarrow> 'c \<Rightarrow> string \<Rightarrow> string" where
  "getStarlightFS pc c ssId = path_join [pc_GetMountingPoint pc c ssId, ''slfs'']"

definition getMountingPoint :: "'c plugin_client \<Rightarrow> 'c \<Rightarrow> string \<Rightarrow> string" where
  "getMountingPoint pc c ssId = pc_GetMountingPoint pc c ssId"

text \<open>\<^verbatim>\<open>NewPlugin\<close>: \<open>open_store\<close> is the database that \<^verbatim>\<open>NewMetaStore\<close> opens.\<close>

definition NewPlugin :: "os \<Rightarrow> (string \<Rightarrow> 'm result) \<Rightarrow> 'c \<Rightarrow> host \<Rightarrow> string \<Rightarrow> host \<times> ('m, 'c) plugin result" where
  "NewPlugin os open_store c h metadataDB =
     (case MkdirAll os (path_dir metadataDB) (ho_disk h) of
        (d, Some e) \<Rightarrow> (h\<lparr>ho_disk := d\<rparr>, Inl (Fail e))
      | (d, None) \<Rightarrow>
         (case open_store metadataDB of
            Inl e \<Rightarrow> (h\<lparr>ho_disk := d\<rparr>, Inl e)
          | Inr m \<Rightarrow> (h\<lparr>ho_disk := d\<rparr>, Inr \<lparr>pg_db = m, pg_writing = False, pg_client = c, pg_host = h\<lparr>ho_disk := d\<rparr>\<rparr>)))"

section \<open>Transactions\<close>

text \<open>A commit that fails ends the transaction; so does a rollback.\<close>

definition begin_write :: "'m meta_store \<Rightarrow> ('m, 'c) plugin \<Rightarrow> ('m, 'c) plugin result option" where
  "begin_write ms pg =
     (if pg_writing pg then None
      else Some (case ms_begin ms True of Some e \<Rightarrow> Inl (Fail e) | None \<Rightarrow> Inr (pg\<lparr>pg_writing := True\<rparr>)))"

definition commit_tx :: "'m meta_store \<Rightarrow> 'm \<Rightarrow> ('m, 'c) plugin \<Rightarrow> ('m, 'c) plugin \<times> unit result" where
  "commit_tx ms m pg =
     (case ms_commit ms m of
        Some e \<Rightarrow> (pg\<lparr>pg_writing := False\<rparr>, Inl (Fail e))
      | None \<Rightarrow> (pg\<lparr>pg_db := m, pg_writing := False\<rparr>, Inr ()))"

definition rollback_tx :: "('m, 'c) plugin \<Rightarrow> ('m, 'c) plugin" where
  "rollback_tx pg = pg\<lparr>pg_writing := False\<rparr>"

text \<open>A deferred rollback runs on an error, not on a panic.\<close>

definition on_error :: "failure \<Rightarrow> ('m, 'c) plugin \<Rightarrow> ('m, 'c) plugin" where
  "on_error e pg = (case e of Fail _ \<Rightarrow> rollback_tx pg | Panic _ \<Rightarrow> pg)"

fun apply_opts :: "sn_opt list \<Rightarrow> sn_info \<Rightarrow> sn_info result" where
  "apply_opts [] i = Inr i"
| "apply_opts (f # fs) i = (case f i of Inl e \<Rightarrow> Inl e | Inr i' \<Rightarrow> apply_opts fs i')"

section \<open>Features of a snapshot\<close>

record snapshot_item =
  si_ssId :: string
  si_inf :: sn_info

definition IsStarlightFS :: "snapshot_item \<Rightarrow> bool" where
  "IsStarlightFS si \<longleftrightarrow> has_label (si_inf si) SnapshotLabelRefUncompressed \<and> label (si_inf si) SnapshotLabelRefUncompressed \<noteq> []"

text \<open>The stack is never set.\<close>

definition item_GetStarlightFeature :: "snapshot_item \<Rightarrow> string \<times> string \<times> int" where
  "item_GetStarlightFeature si = (label (si_inf si) SnapshotLabelRefImage, label (si_inf si) SnapshotLabelRefUncompressed, 0)"

definition getStarlightFeature :: "sn_info \<Rightarrow> (string \<times> string \<times> int) result" where
  "getStarlightFeature i =
     (case parse_int 10 (label i SnapshotLabelRefLayer) of
        None \<Rightarrow> Inl (Fail (ExtError ''invalid syntax''))
      | Some stack \<Rightarrow>
         if label i SnapshotLabelRefImage = [] \<or> label i SnapshotLabelRefUncompressed = [] then Inr ([], [], 0)
         else Inr (label i SnapshotLabelRefImage, label i SnapshotLabelRefUncompressed, stack))"

text \<open>The snapshots below one, from the upper to the lower; \<open>None\<close> when the parents never end.\<close>

partial_function (option) getFsStack ::
  "(string \<Rightarrow> (string \<times> sn_info \<times> usage) result) \<Rightarrow> sn_info \<Rightarrow> snapshot_item list \<Rightarrow> snapshot_item list result option" where
  "getFsStack get cur pSi =
     (if sn_Parent cur = [] then Some (Inr pSi)
      else case get (sn_Parent cur) of
             Inl e \<Rightarrow> Some (Inl e)
           | Inr r \<Rightarrow> getFsStack get (fst (snd r)) (pSi @ [\<lparr>si_ssId = fst r, si_inf = fst (snd r)\<rparr>]))"

section \<open>Mounts\<close>

text \<open>The digests of the manifests of a stack, each once, in their order.\<close>

fun manager_digests :: "snapshot_item list \<Rightarrow> string list \<Rightarrow> string list" where
  "manager_digests [] seen = []"
| "manager_digests (si # sis) seen =
     (let md = fst (item_GetStarlightFeature si)
      in if md \<in> set seen then manager_digests sis seen else md # manager_digests sis (md # seen))"

text \<open>
  The loops of \<^verbatim>\<open>mounts\<close>. \<open>mds\<close> are the digests from \<^verbatim>\<open>mdsidx\<close> on: a manager that cannot be
  prepared is passed over, one that can is tried again the next time.
\<close>

fun prepare_next :: "'c plugin_client \<Rightarrow> string \<Rightarrow> string \<Rightarrow> go_error \<Rightarrow> string list \<Rightarrow> 'c \<times> host
    \<Rightarrow> ('c \<times> host) \<times> string list \<times> unit result" where
  "prepare_next pc namespace und err [] cs = (cs, [], Inl (Fail (Wrapf err (''no manager for '' @ und))))"
| "prepare_next pc namespace und err (md # mds) cs =
     (case pc_PrepareManager pc namespace md cs of
        (cs1, Inr u) \<Rightarrow> (cs1, md # mds, Inr u)
      | (cs1, Inl (Panic p)) \<Rightarrow> (cs1, md # mds, Inl (Panic p))
      | (cs1, Inl (Fail e)) \<Rightarrow> prepare_next pc namespace und e mds cs1)"

partial_function (option) mount_layer :: "'c plugin_client \<Rightarrow> string \<Rightarrow> string \<Rightarrow> snapshot_item \<Rightarrow> string list \<Rightarrow> 'c \<times> host
    \<Rightarrow> (('c \<times> host) \<times> string list \<times> string result) option" where
  "mount_layer pc namespace und si mds cs =
     (case pc_Mount pc und (si_ssId si) (si_inf si) cs of
        (cs1, r) \<Rightarrow>
          if r = Inl (Fail ErrNoManager) then
            (case prepare_next pc namespace und ErrNoManager mds cs1 of
               (cs2, mds2, r2) \<Rightarrow>
                 (case r2 of Inl e \<Rightarrow> Some (cs2, mds2, Inl e) | Inr u \<Rightarrow> mount_layer pc namespace und si mds2 cs2))
          else Some (cs1, mds, r))"

fun mount_lower :: "'c plugin_client \<Rightarrow> string \<Rightarrow> snapshot_item list \<Rightarrow> string list \<Rightarrow> string list \<Rightarrow> 'c \<times> host
    \<Rightarrow> (('c \<times> host) \<times> string list result) option" where
  "mount_lower pc namespace [] mds lower cs = Some (cs, Inr lower)"
| "mount_lower pc namespace (si # sis) mds lower cs =
     (if IsStarlightFS si then
        (case mount_layer pc namespace (fst (snd (item_GetStarlightFeature si))) si mds cs of
           None \<Rightarrow> None
         | Some (cs1, mds1, Inl e) \<Rightarrow> Some (cs1, Inl e)
         | Some (cs1, mds1, Inr m) \<Rightarrow> mount_lower pc namespace sis mds1 (lower @ [m]) cs1)
      else mount_lower pc namespace sis mds (lower @ [getUpper pc (fst cs) (si_ssId si)]) cs)"

declare getFsStack.simps [code] mount_layer.simps [code]

text \<open>The mount of a snapshot without a parent.\<close>

definition base_mount :: "'c plugin_client \<Rightarrow> string \<Rightarrow> string \<Rightarrow> sn_info \<Rightarrow> 'c \<times> host \<Rightarrow> ('c \<times> host) \<times> sn_mount list result" where
  "base_mount pc namespace ssId info cs =
     (let current = \<lparr>si_ssId = ssId, si_inf = info\<rparr>
      in if IsStarlightFS current then
           (case item_GetStarlightFeature current of (md, und, _) \<Rightarrow>
              (case pc_PrepareManager pc namespace md cs of
                 (cs1, Inl e) \<Rightarrow> (cs1, Inl e)
               | (cs1, Inr u) \<Rightarrow>
                  (case pc_Mount pc und ssId info cs1 of
                     (cs2, Inl e) \<Rightarrow> (cs2, Inl e)
                   | (cs2, Inr m) \<Rightarrow> (cs2, Inr [\<lparr>mt_Type = ''bind'', mt_Source = m, mt_Options = [''rbind'', ''ro'']\<rparr>]))))
         else (cs, Inr [\<lparr>mt_Type = ''bind'', mt_Source = getUpper pc (fst cs) ssId,
                         mt_Options = [''rbind'', if sn_Kind info = KindActive then ''rw'' else ''ro'']\<rparr>]))"

definition overlay_mount :: "'c plugin_client \<Rightarrow> string \<Rightarrow> sn_info \<Rightarrow> string list \<Rightarrow> 'c \<Rightarrow> sn_mount" where
  "overlay_mount pc ssId info lower c =
     \<lparr>mt_Type = ''overlay'', mt_Source = ''overlay'',
      mt_Options = (if sn_Kind info = KindActive
                    then [''workdir='' @ getWork pc c ssId, ''upperdir='' @ getUpper pc c ssId] else [])
                   @ [''lowerdir='' @ join_with '':'' lower]\<rparr>"

definition plugin_mounts :: "'c plugin_client \<Rightarrow> (string \<Rightarrow> (string \<times> sn_info \<times> usage) result) \<Rightarrow> string \<Rightarrow> string \<Rightarrow> sn_info
    \<Rightarrow> 'c \<times> host \<Rightarrow> (('c \<times> host) \<times> sn_mount list result) option" where
  "plugin_mounts pc get namespace ssId info cs =
     (case getFsStack get info [] of
        None \<Rightarrow> None
      | Some (Inl e) \<Rightarrow> Some (cs, Inl e)
      | Some (Inr stack) \<Rightarrow>
         if stack = [] then Some (base_mount pc namespace ssId info cs)
         else (case mount_lower pc namespace (rev stack) (manager_digests stack []) [] cs of
                 None \<Rightarrow> None
               | Some (cs1, Inl e) \<Rightarrow> Some (cs1, Inl e)
               | Some (cs1, Inr lower) \<Rightarrow> Some (cs1, Inr [overlay_mount pc ssId info lower (fst cs1)])))"

section \<open>The snapshotter\<close>

definition plugin_Stat :: "'m meta_store \<Rightarrow> string \<Rightarrow> ('m, 'c) plugin \<Rightarrow> sn_info result" where
  "plugin_Stat ms key pg =
     (case ms_begin ms False of Some e \<Rightarrow> Inl (Fail e) | None \<Rightarrow>
        (case ms_GetInfo ms (pg_db pg) key of Inl e \<Rightarrow> Inl e | Inr r \<Rightarrow> Inr (fst (snd r))))"

definition plugin_Update :: "'m meta_store \<Rightarrow> sn_info \<Rightarrow> string list \<Rightarrow> ('m, 'c) plugin \<Rightarrow> (('m, 'c) plugin \<times> sn_info result) option" where
  "plugin_Update ms info fieldpaths pg =
     (case begin_write ms pg of None \<Rightarrow> None | Some (Inl e) \<Rightarrow> Some (pg, Inl e) | Some (Inr pg1) \<Rightarrow>
        (case ms_UpdateInfo ms (pg_db pg1) info fieldpaths of
           Inl e \<Rightarrow> Some (rollback_tx pg1, Inl e)
         | Inr r \<Rightarrow>
            (case commit_tx ms (fst r) pg1 of
               (pg2, Inl e) \<Rightarrow> Some (pg2, Inl e)
             | (pg2, Inr u) \<Rightarrow> Some (pg2, Inr (snd r)))))"

definition plugin_Usage :: "'m meta_store \<Rightarrow> 'c plugin_client \<Rightarrow> environment \<Rightarrow> string \<Rightarrow> ('m, 'c) plugin \<Rightarrow> usage result" where
  "plugin_Usage ms pc en key pg =
     (case ms_begin ms False of Some e \<Rightarrow> Inl (Fail e) | None \<Rightarrow>
        (case ms_GetInfo ms (pg_db pg) key of Inl e \<Rightarrow> Inl e | Inr r \<Rightarrow>
           (case r of (snId, info, usage) \<Rightarrow>
              if \<not> has_label info SnapshotLabelRefUncompressed \<and> sn_Kind info = KindActive
              then (case en_usage en (ho_disk (pg_host pg)) (getUpper pc (pg_client pg) snId) of
                      Inl (Panic p) \<Rightarrow> Inl (Panic p)
                    | Inl (Fail e) \<Rightarrow> Inr (0, 0)
                    | Inr du \<Rightarrow> Inr du)
              else Inr usage)))"

definition plugin_Mounts :: "'m meta_store \<Rightarrow> 'c plugin_client \<Rightarrow> string \<Rightarrow> ('m, 'c) plugin \<Rightarrow> (('m, 'c) plugin \<times> sn_mount list result) option" where
  "plugin_Mounts ms pc key pg =
     (case ms_begin ms False of Some e \<Rightarrow> Some (pg, Inl (Fail e)) | None \<Rightarrow>
        (case ms_GetInfo ms (pg_db pg) key of Inl e \<Rightarrow> Some (pg, Inl e) | Inr r \<Rightarrow>
           (case plugin_mounts pc (ms_GetInfo ms (pg_db pg)) (hd (split_on slash key)) (fst r) (fst (snd r)) (pg_client pg, pg_host pg) of
              None \<Rightarrow> None
            | Some (cs, res) \<Rightarrow> Some (pg\<lparr>pg_client := fst cs, pg_host := snd cs\<rparr>, res))))"

text \<open>The directories of a new snapshot.\<close>

fun make_all :: "os \<Rightarrow> (string \<times> string) list \<Rightarrow> disk \<Rightarrow> disk \<times> unit result" where
  "make_all os [] d = (d, Inr ())"
| "make_all os ((what, p) # ps) d =
     (case MkdirAll os p d of
        (d1, Some e) \<Rightarrow> (d1, Inl (Fail (Wrapf e (what @ p))))
      | (d1, None) \<Rightarrow> make_all os ps d1)"

definition make_dirs :: "'c plugin_client \<Rightarrow> environment \<Rightarrow> string \<Rightarrow> ('m, 'c) plugin \<Rightarrow> ('m, 'c) plugin \<times> unit result" where
  "make_dirs pc en ssId pg =
     (let c = pg_client pg; h = pg_host pg; slfsdir = getStarlightFS pc c ssId;
          mounts1 = (if fe_stat (en_fuse en) slfsdir = Some (ExtError ''ENOTCONN'')
                     then fst (kernel_unmount (en_fuse en) slfsdir (ho_mounts h)) else ho_mounts h)
      in case make_all (en_os en)
           [(''failed to create slfs directory '', slfsdir), (''failed to upper directory '', getUpper pc c ssId),
            (''failed to work directory '', getWork pc c ssId)] (ho_disk h) of
           (d, r) \<Rightarrow> (pg\<lparr>pg_host := \<lparr>ho_disk = d, ho_mounts = mounts1\<rparr>\<rparr>, r))"

text \<open>After the transaction has begun, every early return but that of \<^verbatim>\<open>CreateSnapshot\<close> leaves it open.\<close>

definition newSnapshot :: "'m meta_store \<Rightarrow> 'c plugin_client \<Rightarrow> environment \<Rightarrow> string \<Rightarrow> string \<Rightarrow> bool \<Rightarrow> sn_opt list
    \<Rightarrow> ('m, 'c) plugin \<Rightarrow> (('m, 'c) plugin \<times> sn_mount list result) option" where
  "newSnapshot ms pc en key parent readonly opts pg =
     (case begin_write ms pg of None \<Rightarrow> None | Some (Inl e) \<Rightarrow> Some (pg, Inl e) | Some (Inr pg1) \<Rightarrow>
      (case apply_opts opts zero_info of Inl e \<Rightarrow> Some (pg1, Inl e) | Inr i \<Rightarrow>
       (case ms_CreateSnapshot ms (pg_db pg1) (if readonly then KindView else KindActive) key parent opts of
          Inl (Panic p) \<Rightarrow> Some (pg1, Inl (Panic p))
        | Inl (Fail e) \<Rightarrow> Some (rollback_tx pg1, Inl (Fail (Wrapf e ''failed to create snapshot'')))
        | Inr (m, ssId) \<Rightarrow>
           (case make_dirs pc en ssId pg1 of (pg2, Inl e) \<Rightarrow> Some (pg2, Inl e) | (pg2, Inr u) \<Rightarrow>
            (case ms_GetInfo ms m key of Inl e \<Rightarrow> Some (pg2, Inl e) | Inr r \<Rightarrow>
             (case plugin_mounts pc (ms_GetInfo ms m) (hd (split_on slash key)) ssId (fst (snd r)) (pg_client pg2, pg_host pg2) of
                None \<Rightarrow> None
              | Some (cs, Inl e) \<Rightarrow> Some (pg2\<lparr>pg_client := fst cs, pg_host := snd cs\<rparr>, Inl e)
              | Some (cs, Inr mnt) \<Rightarrow>
                 (case commit_tx ms m (pg2\<lparr>pg_client := fst cs, pg_host := snd cs\<rparr>) of
                    (pg3, Inl e) \<Rightarrow> Some (pg3, Inl (wrap ''commit failed'' e))
                  | (pg3, Inr v) \<Rightarrow> Some (pg3, Inr mnt))))))))"

definition plugin_Prepare :: "'m meta_store \<Rightarrow> 'c plugin_client \<Rightarrow> environment \<Rightarrow> string \<Rightarrow> string \<Rightarrow> sn_opt list
    \<Rightarrow> ('m, 'c) plugin \<Rightarrow> (('m, 'c) plugin \<times> sn_mount list result) option" where
  "plugin_Prepare ms pc en key parent opts pg = newSnapshot ms pc en key parent False opts pg"

definition plugin_View :: "'m meta_store \<Rightarrow> 'c plugin_client \<Rightarrow> environment \<Rightarrow> string \<Rightarrow> string \<Rightarrow> sn_opt list
    \<Rightarrow> ('m, 'c) plugin \<Rightarrow> (('m, 'c) plugin \<times> sn_mount list result) option" where
  "plugin_View ms pc en key parent opts pg = newSnapshot ms pc en key parent True opts pg"

text \<open>The usage of a snapshot that is committed: its layer's directory, or its upper directory.\<close>

definition commit_usage :: "'c plugin_client \<Rightarrow> environment \<Rightarrow> string \<Rightarrow> sn_info \<Rightarrow> ('m, 'c) plugin \<Rightarrow> usage result" where
  "commit_usage pc en snId info pg =
     (if has_label info SnapshotLabelRefUncompressed then
        (case pc_GetFilesystemPath pc (pg_client pg) (label info SnapshotLabelRefUncompressed) of
           Inl e \<Rightarrow> Inl e | Inr p \<Rightarrow> en_usage en (ho_disk (pg_host pg)) p)
      else en_usage en (ho_disk (pg_host pg)) (getUpper pc (pg_client pg) snId))"

definition plugin_Commit :: "'m meta_store \<Rightarrow> 'c plugin_client \<Rightarrow> environment \<Rightarrow> string \<Rightarrow> string \<Rightarrow> sn_opt list
    \<Rightarrow> ('m, 'c) plugin \<Rightarrow> (('m, 'c) plugin \<times> unit result) option" where
  "plugin_Commit ms pc en nam key opts pg =
     (case begin_write ms pg of None \<Rightarrow> None | Some (Inl e) \<Rightarrow> Some (pg, Inl e) | Some (Inr pg1) \<Rightarrow>
      (case ms_GetInfo ms (pg_db pg1) key of Inl e \<Rightarrow> Some (on_error e pg1, Inl e) | Inr (snId, info0, u0) \<Rightarrow>
       (case apply_opts opts info0 of Inl e \<Rightarrow> Some (on_error e pg1, Inl e) | Inr info \<Rightarrow>
        (case commit_usage pc en snId info pg1 of Inl e \<Rightarrow> Some (on_error e pg1, Inl e) | Inr usage \<Rightarrow>
         (case ms_CommitActive ms (pg_db pg1) key nam usage opts of
            Inl e \<Rightarrow> Some (on_error e pg1, Inl (wrap ''failed to commit snapshot'' e))
          | Inr m \<Rightarrow> Some (commit_tx ms m pg1))))))"

text \<open>The error of \<^verbatim>\<open>storage.Remove\<close> is overwritten by that of the commit.\<close>

definition plugin_Remove :: "'m meta_store \<Rightarrow> 'c plugin_client \<Rightarrow> environment \<Rightarrow> string \<Rightarrow> ('m, 'c) plugin
    \<Rightarrow> (('m, 'c) plugin \<times> unit result) option" where
  "plugin_Remove ms pc en key pg =
     (case begin_write ms pg of None \<Rightarrow> None | Some (Inl e) \<Rightarrow> Some (pg, Inl e) | Some (Inr pg1) \<Rightarrow>
      (case ms_GetInfo ms (pg_db pg1) key of Inl e \<Rightarrow> Some (on_error e pg1, Inl e) | Inr (snId, info, u) \<Rightarrow>
       (case commit_tx ms (fst (ms_Remove ms (pg_db pg1) key)) pg1 of
          (pg2, Inl e) \<Rightarrow> Some (pg2, Inl e)
        | (pg2, Inr v) \<Rightarrow>
           if has_label info SnapshotLabelRefUncompressed then
             (case pc_Unmount pc (label info SnapshotLabelRefUncompressed) key (pg_client pg2, pg_host pg2) of
                (cs, r) \<Rightarrow> Some (pg2\<lparr>pg_client := fst cs, pg_host := snd cs\<rparr>, r))
           else
             (case RemoveAll (en_os en) (getMountingPoint pc (pg_client pg2) snId) (ho_disk (pg_host pg2)) of
                (d, None) \<Rightarrow> Some (pg2\<lparr>pg_host := (pg_host pg2)\<lparr>ho_disk := d\<rparr>\<rparr>, Inr ())
              | (d, Some e) \<Rightarrow> Some (pg2\<lparr>pg_host := (pg_host pg2)\<lparr>ho_disk := d\<rparr>\<rparr>, Inl (Fail e))))))"

definition plugin_Walk :: "'m meta_store \<Rightarrow> (sn_info \<Rightarrow> 's \<Rightarrow> 's result) \<Rightarrow> string list \<Rightarrow> ('m, 'c) plugin \<Rightarrow> 's \<Rightarrow> 's result" where
  "plugin_Walk ms fn fs pg s =
     (case ms_begin ms False of Some e \<Rightarrow> Inl (Fail e) | None \<Rightarrow>
        (case ms_WalkInfo ms (pg_db pg) fs of Inl e \<Rightarrow> Inl e | Inr infos \<Rightarrow> fold_result fn infos s))"

section \<open>The operator\<close>

text \<open>
  The snapshot service of containerd, on a state \<open>'s\<close> that the plugin and the client are a part of. The labels are the
  option \<^verbatim>\<open>WithLabels\<close>.
\<close>

record 's snapshot_service =
  ss_Stat :: "string \<Rightarrow> 's \<Rightarrow> 's \<times> sn_info result"
  ss_Prepare :: "string \<Rightarrow> string \<Rightarrow> (string \<times> string) list \<Rightarrow> 's \<Rightarrow> 's \<times> unit result"
  ss_Commit :: "string \<Rightarrow> string \<Rightarrow> (string \<times> string) list \<Rightarrow> 's \<Rightarrow> 's \<times> unit result"

definition snapshot_labels :: "string \<Rightarrow> string \<Rightarrow> int \<Rightarrow> (string \<times> string) list" where
  "snapshot_labels imageDigest uncompressedDigest stack =
     [(SnapshotLabelRefImage, imageDigest), (SnapshotLabelRefLayer, itoa stack), (SnapshotLabelRefUncompressed, uncompressedDigest)]"

definition AddSnapshot :: "'s snapshot_service \<Rightarrow> string \<Rightarrow> string \<Rightarrow> string \<Rightarrow> string \<Rightarrow> string \<Rightarrow> int \<Rightarrow> 's \<Rightarrow> 's \<times> sn_info result" where
  "AddSnapshot sn randId nam parent imageDigest uncompressedDigest stack s =
     (case ss_Stat sn nam s of
        (s1, Inr i) \<Rightarrow> (s1, Inr i)
      | (s1, Inl (Panic p)) \<Rightarrow> (s1, Inl (Panic p))
      | (s1, Inl (Fail e0)) \<Rightarrow>
         (let labels = snapshot_labels imageDigest uncompressedDigest stack
          in case ss_Prepare sn randId parent labels s1 of
               (s2, Inl e) \<Rightarrow> (s2, Inl (wrap ''failed to create snapshot'' e))
             | (s2, Inr u) \<Rightarrow>
                (case ss_Commit sn nam randId labels s2 of
                   (s3, Inl e) \<Rightarrow> (s3, Inl (wrap ''failed to commit snapshot'' e))
                 | (s3, Inr v) \<Rightarrow>
                    (case ss_Stat sn nam s3 of
                       (s4, Inl e) \<Rightarrow> (s4, Inl (wrap ''failed to stat snapshot'' e))
                     | (s4, Inr i) \<Rightarrow> (s4, Inr i)))))"

end
