(* ===== verification/Tracer.thy ===== *)
theory Tracer
  imports Go_Path
begin

text \<open>
  client/fs/tracer.go: the tracer that records which file of an image is opened when, and the
  trace collection that a report sends to the proxy. A time and a duration are numbers of
  nanoseconds. The directory of trace files is a list of names with what reading the file
  gives; the collection is built group by group, in the order in which \<^verbatim>\<open>range\<close> visits
  the map of tracers.
\<close>

section \<open>Recording\<close>

record trace_item =
  ti_FileName :: string
  ti_Stack :: int
  ti_Access :: int
  ti_Wait :: int

record tracer =
  tr_OptimizeGroup :: string
  tr_Image :: string
  tr_StartTime :: int
  tr_EndTime :: int
  tr_Seq :: "trace_item list"

definition ByAccessTime_Less :: "trace_item \<Rightarrow> trace_item \<Rightarrow> bool" where
  "ByAccessTime_Less x y \<longleftrightarrow> ti_Access x < ti_Access y"

interpretation by_access: weak_order ByAccessTime_Less
  by unfold_locales (auto simp: ByAccessTime_Less_def)

definition NewTracer :: "string \<Rightarrow> string \<Rightarrow> int \<Rightarrow> tracer" where
  "NewTracer optimizeGroup digest now = \<lparr>tr_OptimizeGroup = optimizeGroup, tr_Image = digest,
     tr_StartTime = now, tr_EndTime = 0, tr_Seq = []\<rparr>"

definition Tracer_Log :: "tracer \<Rightarrow> string \<Rightarrow> int \<Rightarrow> int \<Rightarrow> int \<Rightarrow> tracer" where
  "Tracer_Log t fileName stack accessTime completeTime =
     t\<lparr>tr_Seq := tr_Seq t @ [\<lparr>ti_FileName = fileName, ti_Stack = stack,
        ti_Access = accessTime - tr_StartTime t, ti_Wait = completeTime - accessTime\<rparr>]\<rparr>"

text \<open>
  \<^verbatim>\<open>Close\<close> sorts the sequence, writes the tracer to its log file and returns how long it
  ran. The result is the duration and what the log file then holds.
\<close>

definition Tracer_Close :: "tracer \<Rightarrow> int \<Rightarrow> int \<times> tracer" where
  "Tracer_Close t now =
     (let t' = t\<lparr>tr_Seq := sort_less ByAccessTime_Less (tr_Seq t), tr_EndTime := now\<rparr>
      in (now - tr_StartTime t, t'))"

lemma Tracer_Close_seq:
  "mset (tr_Seq (snd (Tracer_Close t now))) = mset (tr_Seq t)"
  "by_access.ordered (tr_Seq (snd (Tracer_Close t now)))"
  by (simp_all add: Tracer_Close_def Let_def by_access.ordered_sort)

section \<open>Collections\<close>

record optimized_item =
  oi_Item :: trace_item
  oi_Rank :: int
  oi_SourceImage :: nat

record optimized_group =
  og_History :: "optimized_item list"
  og_Images :: "string list"

record trace_collection =
  tc_tracerMap :: "(string \<times> tracer list) list"
  tc_Groups :: "optimized_group list"

definition oti_Key :: "optimized_item \<Rightarrow> string" where
  "oti_Key oi = itoa (int (oi_SourceImage oi)) @ ''|'' @ ti_FileName (oi_Item oi)"

definition ByAccessTimeOptimized_Less :: "optimized_item \<Rightarrow> optimized_item \<Rightarrow> bool" where
  "ByAccessTimeOptimized_Less x y \<longleftrightarrow> ti_Access (oi_Item x) < ti_Access (oi_Item y)"

interpretation by_access_opt: weak_order ByAccessTimeOptimized_Less
  by unfold_locales (auto simp: ByAccessTimeOptimized_Less_def)

text \<open>Reading the directory: a file that cannot be read or parsed is skipped and stays.\<close>

datatype trace_file = Unreadable | Unparsable | Parsed tracer

definition add_tracer :: "tracer \<Rightarrow> (string \<times> tracer list) list \<Rightarrow> (string \<times> tracer list) list" where
  "add_tracer t m =
     (case map_of m (tr_OptimizeGroup t) of
        Some ts \<Rightarrow> AList.update (tr_OptimizeGroup t) (ts @ [t]) m
      | None \<Rightarrow> AList.update (tr_OptimizeGroup t) [t] m)"

fun load_traces :: "(string \<times> trace_file) list \<Rightarrow> (string \<times> tracer list) list \<times> string list
    \<Rightarrow> (string \<times> tracer list) list \<times> string list" where
  "load_traces [] (m, removed) = (m, removed)"
| "load_traces ((name, f) # fs) (m, removed) =
     (if path_ext name = ''.json'' then
        (case f of Unreadable \<Rightarrow> load_traces fs (m, removed)
         | Unparsable \<Rightarrow> load_traces fs (m, removed)
         | Parsed t \<Rightarrow> load_traces fs (add_tracer t m, removed @ [name]))
      else load_traces fs (m, removed))"

text \<open>The first access of each file of one trace; \<open>mk\<close> makes the item of the history.\<close>

fun first_accesses :: "(trace_item \<Rightarrow> optimized_item) \<Rightarrow> trace_item list \<Rightarrow> string list \<Rightarrow> optimized_item list" where
  "first_accesses mk [] visited = []"
| "first_accesses mk (t # ts) visited =
     (if ti_FileName t \<in> set visited then first_accesses mk ts visited
      else mk t # first_accesses mk ts (ti_FileName t # visited))"

fun assign_ranks :: "optimized_item list \<Rightarrow> int \<Rightarrow> optimized_item list" where
  "assign_ranks [] i = []"
| "assign_ranks (h # hs) i = h\<lparr>oi_Rank := i\<rparr> # assign_ranks hs (i + 1)"

text \<open>
  The default group: one optimized group for each trace. The item that the code makes here
  has no \<^verbatim>\<open>Stack\<close>, so the stack of every item is the zero value.
\<close>

definition default_item :: "trace_item \<Rightarrow> optimized_item" where
  "default_item t = \<lparr>oi_Item = \<lparr>ti_FileName = ti_FileName t, ti_Stack = 0, ti_Access = ti_Access t,
      ti_Wait = ti_Wait t\<rparr>, oi_Rank = 0, oi_SourceImage = 0\<rparr>"

definition default_group :: "tracer \<Rightarrow> optimized_group" where
  "default_group trace =
     \<lparr>og_History = assign_ranks (first_accesses default_item (tr_Seq trace) []) 0,
      og_Images = [tr_Image trace]\<rparr>"

text \<open>
  A named group: the traces are merged on one time line that starts with the earliest
  trace. An image's index is that of its last occurrence in the sorted list of images.
\<close>

fun earliest :: "tracer list \<Rightarrow> int" where
  "earliest [] = 0"
| "earliest (t # ts) = foldl (\<lambda>s u. if tr_StartTime u < s then tr_StartTime u else s) (tr_StartTime t) ts"

definition image_index :: "string list \<Rightarrow> string \<Rightarrow> nat" where
  "image_index imgs img =
     (case map_of (rev (zip imgs [0..<length imgs])) img of Some i \<Rightarrow> i | None \<Rightarrow> 0)"

definition group_item :: "nat \<Rightarrow> int \<Rightarrow> trace_item \<Rightarrow> optimized_item" where
  "group_item idx traceOffset t = \<lparr>oi_Item = \<lparr>ti_FileName = ti_FileName t, ti_Stack = ti_Stack t,
      ti_Access = ti_Access t + traceOffset, ti_Wait = ti_Wait t\<rparr>, oi_Rank = 0, oi_SourceImage = idx\<rparr>"

definition named_group :: "tracer list \<Rightarrow> optimized_group" where
  "named_group arr =
     (let starTime = earliest arr;
          images = sort_less (<) (map tr_Image arr);
          history = concat (map (\<lambda>trace. first_accesses
             (group_item (image_index images (tr_Image trace)) (tr_StartTime trace - starTime))
             (tr_Seq trace) []) arr)
      in \<lparr>og_History = assign_ranks (sort_less ByAccessTimeOptimized_Less history) 0,
          og_Images = images\<rparr>)"

definition group_of :: "string \<times> tracer list \<Rightarrow> optimized_group list" where
  "group_of ka = (if fst ka = ''default'' then map default_group (snd ka) else [named_group (snd ka)])"

text \<open>
  \<^verbatim>\<open>NewTraceCollection\<close>: \<open>dir\<close> is what \<^verbatim>\<open>ReadDir\<close> returns. The second component of the result
  lists the trace files that were removed.
\<close>

definition NewTraceCollection :: "(string \<times> trace_file) list result \<Rightarrow> (trace_collection \<times> string list) result" where
  "NewTraceCollection dir =
     (case dir of Inl e \<Rightarrow> Inl e
      | Inr files \<Rightarrow>
          (let (m, removed) = load_traces files ([], [])
           in Inr (\<lparr>tc_tracerMap = m, tc_Groups = concat (map group_of m)\<rparr>, removed)))"

section \<open>What a collection holds\<close>

lemma assign_ranks_nth:
  "i < length hs \<Longrightarrow> assign_ranks hs k ! i = (hs ! i)\<lparr>oi_Rank := k + int i\<rparr>"
  by (induction hs arbitrary: k i) (auto simp: nth_Cons split: nat.splits)

lemma length_assign_ranks [simp]: "length (assign_ranks hs k) = length hs"
  by (induction hs arbitrary: k) auto

lemma map_item_assign_ranks [simp]: "map oi_Item (assign_ranks hs k) = map oi_Item hs"
  by (induction hs arbitrary: k) auto

lemma first_accesses_names:
  assumes "\<And>t. ti_FileName (oi_Item (mk t)) = ti_FileName t"
  shows "set (map (ti_FileName \<circ> oi_Item) (first_accesses mk ts visited)) = ti_FileName ` set ts - set visited
    \<and> distinct (map (ti_FileName \<circ> oi_Item) (first_accesses mk ts visited))"
  by (induction ts arbitrary: visited) (auto simp: assms image_iff)

lemma group_rank_index:
  assumes "g \<in> set (group_of ka)" "i < length (og_History g)"
  shows "oi_Rank (og_History g ! i) = int i"
  using assms
  by (auto simp: group_of_def default_group_def named_group_def Let_def assign_ranks_nth split: if_splits)

lemma assign_ranks_ordered:
  "by_access_opt.ordered hs \<Longrightarrow> by_access_opt.ordered (assign_ranks hs k)"
  by (simp add: by_access_opt.ordered_def sorted_wrt_iff_nth_less assign_ranks_nth ByAccessTimeOptimized_Less_def)

lemma named_group_ordered: "by_access_opt.ordered (og_History (named_group arr))"
  by (simp add: named_group_def Let_def assign_ranks_ordered by_access_opt.ordered_sort)

lemma earliest_fold_le:
  "foldl (\<lambda>s u. if tr_StartTime u < s then tr_StartTime u else s) a ts \<le> a \<and>
   (\<forall>t \<in> set ts. foldl (\<lambda>s u. if tr_StartTime u < s then tr_StartTime u else s) a ts \<le> tr_StartTime t)"
proof (induction ts arbitrary: a)
  case Nil
  then show ?case by simp
next
  case (Cons t ts)
  show ?case
    using Cons [of "if tr_StartTime t < a then tr_StartTime t else a"]
    by (auto split: if_splits)
qed

lemma earliest_le: "t \<in> set arr \<Longrightarrow> earliest arr \<le> tr_StartTime t"
  by (cases arr) (use earliest_fold_le in auto)

text \<open>No trace is lost: what is removed from the directory is in the map.\<close>

fun parsed_traces :: "(string \<times> trace_file) list \<Rightarrow> tracer list" where
  "parsed_traces [] = []"
| "parsed_traces ((name, f) # fs) =
     (case f of Parsed t \<Rightarrow> (if path_ext name = ''.json'' then [t] else []) @ parsed_traces fs
      | _ \<Rightarrow> parsed_traces fs)"

definition map_traces :: "(string \<times> tracer list) list \<Rightarrow> tracer multiset" where
  "map_traces m = mset (concat (map snd m))"

lemma map_traces_update_new:
  "k \<notin> set (keys m) \<Longrightarrow> map_traces (AList.update k v m) = map_traces m + mset v"
  by (induction m) (auto simp: map_traces_def)

lemma map_traces_update_old:
  "map_of m k = Some v \<Longrightarrow> distinct (keys m) \<Longrightarrow>
   map_traces (AList.update k (v @ [t]) m) = add_mset t (map_traces m)"
  by (induction m) (auto simp: map_traces_def split: if_splits)

lemma map_traces_add:
  assumes "distinct (keys m)"
  shows "map_traces (add_tracer t m) = add_mset t (map_traces m)"
proof (cases "map_of m (tr_OptimizeGroup t)")
  case None
  then have "tr_OptimizeGroup t \<notin> set (keys m)"
    by (auto simp: set_keys)
  then show ?thesis
    using None by (simp add: add_tracer_def map_traces_update_new)
next
  case (Some ts)
  then show ?thesis
    using assms by (simp add: add_tracer_def map_traces_update_old)
qed

lemma distinct_keys_add_tracer: "distinct (keys m) \<Longrightarrow> distinct (keys (add_tracer t m))"
  by (simp add: add_tracer_def split: option.splits)

lemma load_traces_map:
  "distinct (keys m) \<Longrightarrow>
   map_traces (fst (load_traces fs (m, r))) = map_traces m + mset (parsed_traces fs)
   \<and> distinct (keys (fst (load_traces fs (m, r))))"
  by (induction fs "(m, r)" arbitrary: m r rule: load_traces.induct)
     (auto simp: map_traces_add distinct_keys_add_tracer split: trace_file.splits)

end
