(* ===== verification/Manager.thy ===== *)
theory Manager
  imports Fs_Node Tracer
begin

text \<open>
  client/manager.go: the manager of one image on the client. It is the delta bundle that the proxy sent together with what
  \<^verbatim>\<open>Init\<close> makes of it: the layers by their serial, the serials by their stack, the files of every layer by name, linked to
  a tree. \<^verbatim>\<open>Extract\<close> reads the contents from the body of the bundle, writes them into the layers' directories and closes
  their signals. A pointer to a requested file is its index in the bundle, and the channel of a content is the
  content's field. Go visits a map in any order, which the parameters \<open>iter\<close> stand for; the disk and the calls of the
  operating system are those of the theory of the disk.
\<close>

section \<open>The state\<close>

text \<open>The configuration and the image's description are kept as far as the methods read them.\<close>

record manager =
  mg_bundle :: rbundle
  mg_FileSystemRoot :: string
  mg_TracesDir :: string
  mg_layers :: "(int \<times> rlayer) list"
  mg_stackSerialMap :: "int list"
  mg_completedStack :: "bool list"
  mg_DiffIDs :: "string list"
  mg_manifestDigest :: string
  mg_fileLookUpMap :: "(string \<times> nat) list list"
  mg_tracer :: "tracer option"
  mg_fs :: "(int \<times> fs_instance) list"

abbreviation mg_files :: "manager \<Rightarrow> referenced_file list" where "mg_files m \<equiv> rb_RequestedFiles (mg_bundle m)"
abbreviation mg_contents :: "manager \<Rightarrow> rcontent list" where "mg_contents m \<equiv> rb_Contents (mg_bundle m)"
abbreviation mg_dest_layers :: "manager \<Rightarrow> rlayer list" where "mg_dest_layers m \<equiv> ri_Layers (rb_Destination (mg_bundle m))"

text \<open>\<^verbatim>\<open>json.Unmarshal\<close> fills the bundle only.\<close>

definition unmarshal_manager :: "rbundle \<Rightarrow> manager" where
  "unmarshal_manager b = \<lparr>mg_bundle = b, mg_FileSystemRoot = [], mg_TracesDir = [], mg_layers = [], mg_stackSerialMap = [],
     mg_completedStack = [], mg_DiffIDs = [], mg_manifestDigest = [], mg_fileLookUpMap = [], mg_tracer = None, mg_fs = []\<rparr>"

section \<open>Paths and look up\<close>

text \<open>An index into a slice, which panics out of range.\<close>

definition at_index :: "'a list \<Rightarrow> int \<Rightarrow> 'a result" where
  "at_index xs i = (if 0 \<le> i \<and> i < int (length xs) then Inr (xs ! nat i) else Inl (Panic ''index out of range''))"

definition layer_directory :: "string \<Rightarrow> string \<Rightarrow> string result" where
  "layer_directory fsroot layerHash =
     (case slice 7 8 layerHash of Inl e \<Rightarrow> Inl e
      | Inr a \<Rightarrow> (case slice 8 10 layerHash of Inl e \<Rightarrow> Inl e
      | Inr b \<Rightarrow> (case slice 10 12 layerHash of Inl e \<Rightarrow> Inl e
      | Inr c \<Rightarrow> (case slice 12 (length layerHash) layerHash of Inl e \<Rightarrow> Inl e
      | Inr d \<Rightarrow> Inr (path_join [fsroot, ''layers'', a, b, c, d])))))"

definition getDirectory :: "manager \<Rightarrow> string \<Rightarrow> string result" where
  "getDirectory m layerHash = layer_directory (mg_FileSystemRoot m) layerHash"

definition ignoreStack :: "manager \<Rightarrow> int \<Rightarrow> bool result" where
  "ignoreStack m stack = at_index (mg_completedStack m) stack"

text \<open>A serial that is not there gives a nil layer.\<close>

definition GetPathBySerial :: "manager \<Rightarrow> int \<Rightarrow> string result" where
  "GetPathBySerial m serial =
     (case map_of (mg_layers m) serial of None \<Rightarrow> Inl (Panic ''nil pointer dereference'') | Some l \<Rightarrow> Inr (rl_Local l))"

definition GetPathByStack :: "manager \<Rightarrow> int \<Rightarrow> string result" where
  "GetPathByStack m stack =
     (case at_index (mg_stackSerialMap m) stack of Inl e \<Rightarrow> Inl e | Inr serial \<Rightarrow> GetPathBySerial m serial)"

definition getPathBySerial :: "manager \<Rightarrow> int \<Rightarrow> string result" where
  "getPathBySerial m serial =
     (case map_of (mg_layers m) serial of Some l \<Rightarrow> Inr (rl_Local l) | None \<Rightarrow> Inl (Panic ''layer not found''))"

definition LookUpFile :: "manager \<Rightarrow> int \<Rightarrow> string \<Rightarrow> nat option result" where
  "LookUpFile m stack filename =
     (case at_index (mg_fileLookUpMap m) stack of Inl e \<Rightarrow> Inl e | Inr layer \<Rightarrow> Inr (map_of layer filename))"

definition LogTrace :: "manager \<Rightarrow> int \<Rightarrow> string \<Rightarrow> int \<Rightarrow> int \<Rightarrow> manager" where
  "LogTrace m stack filename access done_at =
     m\<lparr>mg_tracer := map_option (\<lambda>t. Tracer_Log t filename stack access done_at) (mg_tracer m)\<rparr>"

definition manager_interface :: "manager \<Rightarrow> image_manager" where
  "manager_interface m = \<lparr>mi_file = (\<lambda>i. mg_files m ! i), mi_signal = (\<lambda>c. rc_Signal (mg_contents m ! c)),
     mi_GetPathByStack = GetPathByStack m, mi_GetPathBySerial = GetPathBySerial m, mi_LookUpFile = LookUpFile m\<rparr>"

section \<open>Init\<close>

text \<open>The layers get their directory, and are found by their serial; the destination's serials are the stack.\<close>

fun init_locals :: "string \<Rightarrow> rlayer list \<Rightarrow> rlayer list result" where
  "init_locals fsroot [] = Inr []"
| "init_locals fsroot (l # ls) =
     (case layer_directory fsroot (rl_Hash l) of Inl e \<Rightarrow> Inl e
      | Inr d \<Rightarrow> (case init_locals fsroot ls of Inl e \<Rightarrow> Inl e | Inr ls' \<Rightarrow> Inr (l\<lparr>rl_Local := d\<rparr> # ls')))"

definition init_layers :: "manager \<Rightarrow> manager result" where
  "init_layers m =
     (let b = mg_bundle m
      in case init_locals (mg_FileSystemRoot m) (ri_Layers (rb_Destination b)) of Inl e \<Rightarrow> Inl e
       | Inr ds \<Rightarrow>
          (let b1 = b\<lparr>rb_Destination := (rb_Destination b)\<lparr>ri_Layers := ds\<rparr>\<rparr>;
               ls = fold (\<lambda>l. AList.update (rl_Serial l) l) ds []
           in case rb_Source b of
                None \<Rightarrow> Inr (m\<lparr>mg_bundle := b1, mg_layers := ls, mg_stackSerialMap := map rl_Serial ds\<rparr>)
              | Some src \<Rightarrow>
                 (case init_locals (mg_FileSystemRoot m) (ri_Layers src) of Inl e \<Rightarrow> Inl e
                  | Inr ss \<Rightarrow> Inr (m\<lparr>mg_bundle := b1\<lparr>rb_Source := Some (src\<lparr>ri_Layers := ss\<rparr>)\<rparr>,
                        mg_layers := fold (\<lambda>l. AList.update (rl_Serial l) l) ss ls, mg_stackSerialMap := map rl_Serial ds\<rparr>))))"

text \<open>Unless the image is ready, every content gets a channel, and the files of the payload wait for theirs.\<close>

definition link_signal :: "nat \<Rightarrow> referenced_file \<Rightarrow> referenced_file result" where
  "link_signal n f =
     (if InPayload f then
        (if r_PayloadOrder f < int n then Inr (f\<lparr>r_Ready := Some (nat (r_PayloadOrder f))\<rparr>)
         else Inl (Panic ''index out of range''))
      else Inr (f\<lparr>r_Ready := None\<rparr>))"

fun link_signals :: "nat \<Rightarrow> referenced_file list \<Rightarrow> referenced_file list result" where
  "link_signals n [] = Inr []"
| "link_signals n (f # fs) =
     (case link_signal n f of Inl e \<Rightarrow> Inl e
      | Inr f' \<Rightarrow> (case link_signals n fs of Inl e \<Rightarrow> Inl e | Inr fs' \<Rightarrow> Inr (f' # fs')))"

definition init_signals :: "bool \<Rightarrow> rbundle \<Rightarrow> rbundle result" where
  "init_signals ready b =
     (if ready then Inr b
      else (case link_signals (length (rb_Contents b)) (rb_RequestedFiles b) of Inl e \<Rightarrow> Inl e
            | Inr fs \<Rightarrow> Inr (b\<lparr>rb_Contents := map (\<lambda>c. c\<lparr>rc_Signal := OpenChan\<rparr>) (rb_Contents b), rb_RequestedFiles := fs\<rparr>)))"

text \<open>
  The files by stack and name. \<open>address\<close> gives the address of a file and \<open>ptime\<close> parses its time. A file whose stack is not one of the image panics.
\<close>

definition init_attrs :: "(nat \<Rightarrow> 64 word) \<Rightarrow> (string \<Rightarrow> int) \<Rightarrow> nat \<Rightarrow> referenced_file \<Rightarrow> referenced_file" where
  "init_attrs address ptime i f =
     (let f1 = InitFuseStableAttr (address i) f in f1\<lparr>r_TOC := InitModTime ptime (r_TOC f1)\<rparr>)"

fun build_lookup :: "referenced_file list \<Rightarrow> nat \<Rightarrow> (string \<times> nat) list list \<Rightarrow> (string \<times> nat) list list result" where
  "build_lookup [] i tables = Inr tables"
| "build_lookup (f # fs) i tables =
     (if 0 \<le> r_Stack f \<and> r_Stack f < int (length tables) then
        build_lookup fs (i + 1) (tables[nat (r_Stack f) := AList.update (GetName f) i (tables ! nat (r_Stack f))])
      else Inl (Panic ''index out of range''))"

text \<open>
  The root of a layer is moved from the empty name to the dot; when the layer has none, the type assertion on a nil
  interface panics.
\<close>

definition move_root :: "(string \<times> nat) list \<Rightarrow> referenced_file list \<Rightarrow> ((string \<times> nat) list \<times> referenced_file list) result" where
  "move_root layer files =
     (case map_of layer [] of
        None \<Rightarrow> Inl (Panic ''interface conversion: interface is nil'')
      | Some r \<Rightarrow> Inr (AList.delete [] (AList.update ''.'' r layer),
           files[r := (files ! r)\<lparr>r_TOC := (r_TOC (files ! r))\<lparr>e_Name := ''.''\<rparr>\<rparr>]))"

definition set_opaque :: "referenced_file \<Rightarrow> referenced_file" where
  "set_opaque p = p\<lparr>r_TOC := (r_TOC p)\<lparr>e_Xattrs := AList.update ''trusted.overlay.opaque'' ''y'' (e_Xattrs (r_TOC p))\<rparr>\<rparr>"

definition make_whiteout :: "string \<Rightarrow> string \<Rightarrow> referenced_file \<Rightarrow> referenced_file" where
  "make_whiteout d base f = f\<lparr>r_TOC := (r_TOC f)\<lparr>e_Name := path_join [d, trim_prefix whiteout_prefix base],
     e_DevMinor := 0, e_DevMajor := 0, e_GID := 0, e_UID := 0, e_Mode := 0x2000\<rparr>\<rparr>"

text \<open>The body of the loop over the files of a layer.\<close>

definition link_file :: "string \<Rightarrow> (string \<times> nat) list \<times> referenced_file list \<Rightarrow> (string \<times> nat) list \<times> referenced_file list" where
  "link_file fn s =
     (case s of (layer, files) \<Rightarrow>
        if fn = ''.'' then s
        else (case map_of layer fn of None \<Rightarrow> s | Some i \<Rightarrow>
          (let base = path_base fn; d = path_dir fn
           in case map_of layer d of
                None \<Rightarrow> s
              | Some p \<Rightarrow>
                 if base = opaque_name then (AList.delete fn layer, files[p := set_opaque (files ! p)])
                 else (let files1 = files[p := AppendChild (files ! p) i]
                       in if prefix whiteout_prefix base
                          then (layer, files1[i := make_whiteout d base (files1 ! i)])
                          else (layer, files1)))))"

definition link_layer :: "(string list \<Rightarrow> string list) \<Rightarrow> (string \<times> nat) list \<Rightarrow> referenced_file list
    \<Rightarrow> ((string \<times> nat) list \<times> referenced_file list) result" where
  "link_layer iter layer files =
     (case move_root layer files of Inl e \<Rightarrow> Inl e
      | Inr (layer1, files1) \<Rightarrow> Inr (fold link_file (iter (keys layer1)) (layer1, files1)))"

fun link_all :: "(string list \<Rightarrow> string list) \<Rightarrow> (string \<times> nat) list list \<Rightarrow> referenced_file list
    \<Rightarrow> ((string \<times> nat) list list \<times> referenced_file list) result" where
  "link_all iter [] files = Inr ([], files)"
| "link_all iter (t # ts) files =
     (case link_layer iter t files of Inl e \<Rightarrow> Inl e
      | Inr (t', files1) \<Rightarrow>
         (case link_all iter ts files1 of Inl e \<Rightarrow> Inl e | Inr (ts', files2) \<Rightarrow> Inr (t' # ts', files2)))"

definition Init :: "(nat \<Rightarrow> 64 word) \<Rightarrow> (string \<Rightarrow> int) \<Rightarrow> (string list \<Rightarrow> string list) \<Rightarrow> string \<Rightarrow> string \<Rightarrow> bool
    \<Rightarrow> string list \<Rightarrow> string \<Rightarrow> manager \<Rightarrow> manager result" where
  "Init address ptime iter fsroot tracesDir ready diffIDs manifestDigest m =
     (let m1 = m\<lparr>mg_FileSystemRoot := fsroot, mg_TracesDir := tracesDir, mg_layers := [], mg_stackSerialMap := [], mg_fs := [],
                 mg_DiffIDs := diffIDs, mg_manifestDigest := manifestDigest\<rparr>
      in case init_layers m1 of Inl e \<Rightarrow> Inl e | Inr m2 \<Rightarrow>
        (case init_signals ready (mg_bundle m2) of Inl e \<Rightarrow> Inl e | Inr b \<Rightarrow>
          (let files = map (\<lambda>(i, f). init_attrs address ptime i f) (List.enumerate 0 (rb_RequestedFiles b))
           in case build_lookup files 0 (replicate (length (ri_Layers (rb_Destination b))) []) of Inl e \<Rightarrow> Inl e | Inr tables \<Rightarrow>
             (case link_all iter tables files of Inl e \<Rightarrow> Inl e | Inr (tables', files') \<Rightarrow>
                Inr (m2\<lparr>mg_bundle := b\<lparr>rb_RequestedFiles := files'\<rparr>, mg_fileLookUpMap := tables'\<rparr>)))))"

section \<open>Extracting the contents\<close>

text \<open>
  The manager, the disk and what is left of the body. An operation returns the new state, and \<open>Some r\<close> when the
  call of \<^verbatim>\<open>Extract\<close> ends there with the error \<open>r\<close>; \<^verbatim>\<open>errors.Wrapf\<close> of a nil error is nil.
\<close>

record pull =
  pl_manager :: manager
  pl_disk :: disk
  pl_stream :: stream

type_synonym gunzip = "byte list \<Rightarrow> go_error + stream"

definition total_compressed :: "rcontent \<Rightarrow> int" where
  "total_compressed c = sum_list (map fc_CompressedSize (rc_Chunks c))"

text \<open>The content of a layer that exists already is read and dropped.\<close>

definition skip_content :: "rcontent \<Rightarrow> pull \<Rightarrow> pull \<times> unit result option" where
  "skip_content c p =
     (case CopyN (total_compressed c) (pl_stream p) of (got, s, err) \<Rightarrow>
        (p\<lparr>pl_stream := s\<rparr>,
         (case err of Some e \<Rightarrow> Some (Inl (Fail (Wrapf e ''failed to discard'')))
          | None \<Rightarrow> (if int (length got) \<noteq> total_compressed c then Some (Inr ()) else None))))"

text \<open>The path of a content, once its directory is made and the file is created.\<close>

definition open_content :: "os \<Rightarrow> rcontent \<Rightarrow> pull \<Rightarrow> pull \<times> string result" where
  "open_content os c p =
     (case GetPathByStack (pl_manager p) (rc_Stack c) of Inl e \<Rightarrow> (p, Inl e) | Inr dir \<Rightarrow>
      (case Content_GetBaseDir c of Inl e \<Rightarrow> (p, Inl e) | Inr base \<Rightarrow>
       (case MkdirAll os (path_join [dir, base]) (pl_disk p) of
          (d1, Some e) \<Rightarrow> (p\<lparr>pl_disk := d1\<rparr>, Inl (Fail (Wrapf e ''failed to create directory'')))
        | (d1, None) \<Rightarrow>
           (case Content_GetPath c of Inl e \<Rightarrow> (p\<lparr>pl_disk := d1\<rparr>, Inl e) | Inr pp \<Rightarrow>
             (case Create os (path_join [dir, pp]) d1 of
                (d2, Some e) \<Rightarrow> (p\<lparr>pl_disk := d2\<rparr>, Inl (Fail (Wrapf e ''failed to create file'')))
              | (d2, None) \<Rightarrow> (p\<lparr>pl_disk := d2\<rparr>, Inr (path_join [dir, pp])))))))"

text \<open>One chunk: its gzip member is read from the body, and what it holds is written to the file.\<close>

definition extract_chunk :: "os \<Rightarrow> gunzip \<Rightarrow> string \<Rightarrow> file_chunk \<Rightarrow> pull \<Rightarrow> pull \<times> unit result option" where
  "extract_chunk os gz path ch p =
     (if fc_CompressedSize ch < 0 then (p, Some (Inl (Panic ''makeslice: cap out of range'')))
      else case CopyN (fc_CompressedSize ch) (pl_stream p) of
        (b, s, Some e) \<Rightarrow> (p\<lparr>pl_stream := s\<rparr>, Some (Inl (Fail (Wrapf e ''failed to read content''))))
      | (b, s, None) \<Rightarrow>
         (case gz b of
            Inl e \<Rightarrow> (p\<lparr>pl_stream := s\<rparr>, Some (Inl (Fail (Wrapf e ''failed to create gzip reader for content''))))
          | Inr zs \<Rightarrow>
             (case os ''write'' path of
                Some e \<Rightarrow> (p\<lparr>pl_stream := s\<rparr>, Some (Inl (Fail (Wrapf e ''failed to write content''))))
              | None \<Rightarrow>
                 (case CopyN (fc_ChunkSize ch) zs of (out, _, err) \<Rightarrow>
                    (p\<lparr>pl_stream := s, pl_disk := write_file_at path out (pl_disk p)\<rparr>,
                     map_option (\<lambda>e. Inl (Fail (Wrapf e ''failed to write content''))) err)))))"

fun extract_chunks :: "os \<Rightarrow> gunzip \<Rightarrow> string \<Rightarrow> file_chunk list \<Rightarrow> pull \<Rightarrow> pull \<times> unit result option" where
  "extract_chunks os gz path [] p = (p, None)"
| "extract_chunks os gz path (ch # chs) p =
     (case extract_chunk os gz path ch p of
        (p1, Some r) \<Rightarrow> (p1, Some r)
      | (p1, None) \<Rightarrow> extract_chunks os gz path chs p1)"

text \<open>\<^verbatim>\<open>close\<close> panics on a nil channel and on a closed one.\<close>

definition close_signal :: "nat \<Rightarrow> pull \<Rightarrow> pull \<times> unit result option" where
  "close_signal i p =
     (let m = pl_manager p; cs = mg_contents m
      in case rc_Signal (cs ! i) of
           NilChan \<Rightarrow> (p, Some (Inl (Panic ''close of nil channel'')))
         | ClosedChan \<Rightarrow> (p, Some (Inl (Panic ''close of closed channel'')))
         | OpenChan \<Rightarrow>
             (p\<lparr>pl_manager := m\<lparr>mg_bundle := (mg_bundle m)\<lparr>rb_Contents := cs[i := (cs ! i)\<lparr>rc_Signal := ClosedChan\<rparr>]\<rparr>\<rparr>\<rparr>, None))"

definition extract_content :: "os \<Rightarrow> gunzip \<Rightarrow> nat \<Rightarrow> pull \<Rightarrow> pull \<times> unit result option" where
  "extract_content os gz i p =
     (let c = mg_contents (pl_manager p) ! i
      in case ignoreStack (pl_manager p) (rc_Stack c) of
           Inl e \<Rightarrow> (p, Some (Inl e))
         | Inr True \<Rightarrow> skip_content c p
         | Inr False \<Rightarrow>
            (case open_content os c p of
               (p1, Inl e) \<Rightarrow> (p1, Some (Inl e))
             | (p1, Inr path) \<Rightarrow>
                (case extract_chunks os gz path (rc_Chunks c) p1 of
                   (p2, Some r) \<Rightarrow> (p2, Some r)
                 | (p2, None) \<Rightarrow> close_signal i p2)))"

fun extract_from :: "os \<Rightarrow> gunzip \<Rightarrow> nat list \<Rightarrow> pull \<Rightarrow> pull \<times> unit result option" where
  "extract_from os gz [] p = (p, None)"
| "extract_from os gz (i # is) p =
     (case extract_content os gz i p of
        (p1, Some r) \<Rightarrow> (p1, Some r)
      | (p1, None) \<Rightarrow> extract_from os gz is p1)"

text \<open>Every layer of the image, also one that existed before, is marked as complete; \<open>msg\<close> is the JSON of the times.\<close>

fun complete_layers :: "os \<Rightarrow> byte list \<Rightarrow> nat \<Rightarrow> rlayer list \<Rightarrow> pull \<Rightarrow> pull \<times> unit result" where
  "complete_layers os msg idx [] p = (p, Inr ())"
| "complete_layers os msg idx (l # ls) p =
     (case WriteFile os (path_join [rl_Local l, ''completed.json'']) msg (pl_disk p) of
        (d, Some e) \<Rightarrow> (p\<lparr>pl_disk := d\<rparr>, Inl (Fail (Wrapf e ''failed to mark layer as completed'')))
      | (d, None) \<Rightarrow>
         (let m = pl_manager p; p1 = p\<lparr>pl_disk := d\<rparr>
          in if idx < length (mg_completedStack m)
             then complete_layers os msg (idx + 1) ls (p1\<lparr>pl_manager := m\<lparr>mg_completedStack := (mg_completedStack m)[idx := True]\<rparr>\<rparr>)
             else (p1, Inl (Panic ''index out of range''))))"

definition Extract :: "os \<Rightarrow> gunzip \<Rightarrow> byte list \<Rightarrow> manager \<Rightarrow> disk \<Rightarrow> stream option \<Rightarrow> (manager \<times> disk \<times> stream) \<times> unit result" where
  "Extract os gz msg m d r =
     (case r of
        None \<Rightarrow> ((m, d, [], None), Inl (Fail (Errorf ''cannot call extract if it has completed'')))
      | Some s \<Rightarrow>
         (let p = \<lparr>pl_manager = m, pl_disk = d, pl_stream = s\<rparr>;
              res = (case extract_from os gz [0..<length (mg_contents m)] p of
                       (p1, Some e) \<Rightarrow> (p1, e)
                     | (p1, None) \<Rightarrow> complete_layers os msg 0 (mg_dest_layers (pl_manager p1)) p1)
          in ((pl_manager (fst res), pl_disk (fst res), pl_stream (fst res)), snd res)))"

section \<open>Directories, tracing and file systems\<close>

text \<open>
  \<^verbatim>\<open>PrepareDirectories\<close>: a layer that the client's layer map has counts as complete. Nothing is set when a directory
  cannot be made, past the layers before it.
\<close>

fun prepare_layers :: "os \<Rightarrow> (string \<rightharpoonup> 'mp) \<Rightarrow> nat \<Rightarrow> rlayer list \<Rightarrow> manager \<Rightarrow> disk \<Rightarrow> (manager \<times> disk) \<times> unit result" where
  "prepare_layers os layerMap idx [] m d = ((m, d), Inr ())"
| "prepare_layers os layerMap idx (l # ls) m d =
     (if idx < length (mg_completedStack m) then
        (let present = layerMap (rl_Hash l) \<noteq> None;
             m1 = m\<lparr>mg_completedStack := (mg_completedStack m)[idx := present]\<rparr>
         in if present then prepare_layers os layerMap (idx + 1) ls m1 d
            else case MkdirAll os (rl_Local l) d of
                   (d1, Some e) \<Rightarrow> ((m1, d1), Inl (Fail e))
                 | (d1, None) \<Rightarrow> prepare_layers os layerMap (idx + 1) ls m1 d1)
      else ((m, d), Inl (Panic ''index out of range'')))"

definition PrepareDirectories :: "os \<Rightarrow> (string \<rightharpoonup> 'mp) \<Rightarrow> manager \<Rightarrow> disk \<Rightarrow> (manager \<times> disk) \<times> unit result" where
  "PrepareDirectories os layerMap m d =
     prepare_layers os layerMap 0 (mg_dest_layers m) (m\<lparr>mg_completedStack := replicate (length (mg_stackSerialMap m)) False\<rparr>) d"

text \<open>The optimizer; \<open>open_log\<close> is the error of making the log file, \<open>close_log\<close> that of writing it.\<close>

definition SetOptimizerOn :: "go_error option \<Rightarrow> int \<Rightarrow> string \<Rightarrow> manager \<Rightarrow> manager \<times> int result" where
  "SetOptimizerOn open_log now optimizeGroup m =
     (case mg_tracer m of
        Some t \<Rightarrow> (m, Inr (tr_StartTime t))
      | None \<Rightarrow>
         (case open_log of
            Some e \<Rightarrow> (m, Inl (Fail e))
          | None \<Rightarrow> (let t = NewTracer optimizeGroup (mg_manifestDigest m) now in (m\<lparr>mg_tracer := Some t\<rparr>, Inr (tr_StartTime t)))))"

definition SetOptimizerOff :: "go_error option \<Rightarrow> int \<Rightarrow> manager \<Rightarrow> manager \<times> int result" where
  "SetOptimizerOff close_log now m =
     (case mg_tracer m of
        None \<Rightarrow> (m, Inr 0)
      | Some t \<Rightarrow>
         (case close_log of
            Some e \<Rightarrow> (m\<lparr>mg_tracer := Some (snd (Tracer_Close t now))\<rparr>, Inl (Fail e))
          | None \<Rightarrow> (m\<lparr>mg_tracer := None\<rparr>, Inr (fst (Tracer_Close t now)))))"

text \<open>\<^verbatim>\<open>Teardown\<close> drops the errors of closing the trace and of every unmount.\<close>

definition Manager_Teardown :: "fuse_env \<Rightarrow> int \<Rightarrow> manager \<Rightarrow> string list \<Rightarrow> manager \<times> string list" where
  "Manager_Teardown fe now m mounts =
     (m\<lparr>mg_tracer := map_option (\<lambda>t. snd (Tracer_Close t now)) (mg_tracer m)\<rparr>,
      fold (\<lambda>fi ms. fst (Instance_Teardown fe fi ms)) (map snd (mg_fs m)) mounts)"

definition NewStarlightFS :: "fuse_env \<Rightarrow> string \<Rightarrow> int \<Rightarrow> manager \<Rightarrow> string list \<Rightarrow> (manager \<times> string list) \<times> fs_instance result" where
  "NewStarlightFS fe mount stack m mounts =
     (let mounts1 = (case map_of (mg_fs m) stack of Some f \<Rightarrow> fst (Instance_Teardown fe f mounts) | None \<Rightarrow> mounts)
      in case LookUpFile m stack ''.'' of
           Inl e \<Rightarrow> ((m, mounts1), Inl e)
         | Inr rt \<Rightarrow>
            (case NewInstance fe rt stack mount mounts1 of
               (mounts2, Inl e) \<Rightarrow> ((m, mounts2), Inl (wrap ''failed to create new filesystem instance'' e))
             | (mounts2, Inr f) \<Rightarrow> ((m\<lparr>mg_fs := AList.update stack f (mg_fs m)\<rparr>, mounts2), Inr f)))"

end
