(* ===== verification/Client_Config.thy ===== *)
theory Client_Config
  imports Local_Disk
begin

text \<open>
  client/config.go: the configuration of the daemon, its proxies, and the parser of a proxy given on the command line. The JSON
  encoding and the random identifier of the client are parameters; files are those of the local disk. The path of the
  configuration folder (util/config.go) is found in the file system, and is a parameter too.
\<close>

record proxy_settings =
  px_Protocol :: string
  px_Address :: string
  px_Username :: string
  px_Password :: string

record configuration =
  cf_LogLevel :: string
  cf_ClientId :: string
  cf_Metadata :: string
  cf_Socket :: string
  cf_DaemonType :: string
  cf_Daemon :: string
  cf_Containerd :: string
  cf_Namespace :: string
  cf_TracesDir :: string
  cf_DefaultProxy :: string
  cf_FileSystemRoot :: string
  cf_Proxies :: "(string \<times> proxy_settings) list"

definition client_NewConfig :: "string \<Rightarrow> configuration" where
  "client_NewConfig uuid = \<lparr>cf_LogLevel = ''info'', cf_ClientId = uuid, cf_Metadata = ''/var/lib/starlight/metadata.db'',
     cf_Socket = ''/run/starlight/starlight-snapshotter.sock'', cf_DaemonType = ''unix'',
     cf_Daemon = ''/run/starlight/starlight-daemon.sock'', cf_Containerd = ''/run/containerd/containerd.sock'',
     cf_Namespace = ''default'', cf_TracesDir = ''/var/lib/starlight/traces'', cf_DefaultProxy = ''starlight-shared'',
     cf_FileSystemRoot = ''/var/lib/starlight'',
     cf_Proxies = [(''starlight-shared'', \<lparr>px_Protocol = ''https'', px_Address = ''starlight.yuri.moe'', px_Username = [], px_Password = []\<rparr>)]\<rparr>"

text \<open>The profile is a nil pointer when neither the name nor the default is there.\<close>

definition getProxy :: "configuration \<Rightarrow> string \<Rightarrow> proxy_settings option \<times> string" where
  "getProxy c nam =
     (let n1 = (if nam = [] then cf_DefaultProxy c else nam)
      in case map_of (cf_Proxies c) n1 of
           Some p \<Rightarrow> (Some p, n1)
         | None \<Rightarrow> (map_of (cf_Proxies c) (cf_DefaultProxy c), cf_DefaultProxy c))"

text \<open>With five fields, the fourth is dropped.\<close>

definition ParseProxyStrings :: "string \<Rightarrow> (string \<times> proxy_settings) result" where
  "ParseProxyStrings v =
     (let sp = split_on (CHR '','') v
      in if length sp < 3 then Inl (Fail (Errorf (''failed to parse '' @ [CHR 0x27] @ v @ [CHR 0x27])))
         else Inr (sp ! 0, \<lparr>px_Protocol = sp ! 1, px_Address = sp ! 2,
                     px_Username = (if length sp = 4 then sp ! 3 else []), px_Password = (if length sp = 5 then sp ! 4 else [])\<rparr>))"

text \<open>The JSON encoder and decoder; the decoder sets the fields that it finds.\<close>

record config_json =
  cj_marshal :: "configuration \<Rightarrow> byte list"
  cj_unmarshal :: "byte list \<Rightarrow> configuration \<Rightarrow> configuration \<times> go_error option"

text \<open>
  The result is the configuration, its path, whether there was no file, and the error. When the default cannot be
  written, decoding goes on with no bytes.
\<close>

definition client_LoadConfig :: "os \<Rightarrow> config_json \<Rightarrow> string \<Rightarrow> string \<Rightarrow> string \<Rightarrow> disk
    \<Rightarrow> disk \<times> configuration \<times> string \<times> bool \<times> go_error option" where
  "client_LoadConfig os js etcPath uuid cfgPath d0 =
     (let c = client_NewConfig uuid;
          (d, mk) = (if cfgPath = [] then MkdirAll os etcPath d0 else (d0, None))
      in case mk of
           Some e \<Rightarrow> (d, c, [], False, Some (Wrapf e ''cannot create config folder''))
         | None \<Rightarrow>
            (let p = (if cfgPath = [] then path_join [etcPath, ''starlight-daemon.json''] else cfgPath);
                 parse = (\<lambda>d1 b n err. case cj_unmarshal js b c of
                            (c1, Some e) \<Rightarrow> (d1, c1, p, n, Some (Wrapf e ''cannot parse config file''))
                          | (c1, None) \<Rightarrow> (d1, c1, p, n, err))
             in case ReadFile os p d of
                  Inr b \<Rightarrow> parse d b False None
                | Inl _ \<Rightarrow>
                    (case WriteFile os p (cj_marshal js c) d of
                       (d1, None) \<Rightarrow> (d1, c, p, True, None)
                     | (d1, Some e) \<Rightarrow> parse d1 [] True (Some (Wrapf e ''cannot create config file'')))))"

text \<open>Both branches after the write return nil.\<close>

definition client_SaveConfig :: "os \<Rightarrow> config_json \<Rightarrow> string \<Rightarrow> configuration \<Rightarrow> disk \<Rightarrow> disk \<times> unit result" where
  "client_SaveConfig os js etcPath c d =
     (case MkdirAll os etcPath d of
        (d1, Some e) \<Rightarrow> (d1, Inl (Fail (Wrapf e ''cannot create config folder'')))
      | (d1, None) \<Rightarrow> (fst (WriteFile os (path_join [etcPath, ''starlight-daemon.json'']) (cj_marshal js c) d1), Inr ()))"

end
