(* ===== verification/Meta_DB.thy ===== *)
theory Meta_DB
  imports Delta_Data Tracer
begin

text \<open>
  proxy/database.go: the metadata database of the proxy. A table is a list of rows with its
  sequence of ids; an operation is the effect of its SQL statements on the tables, with the
  constraints of the schema that \<^verbatim>\<open>InitDatabase\<close> creates. Rows come in the order of the table
  where a query leaves the order open, and the order of equal keys is that of the table.

  A statement can fail, and the connection can break while rows are read: the first argument
  of an operation, a record \<open>faults\<close>, says which statement fails with which error, and after
  how many rows the rows of a query end early.
\<close>

section \<open>The tables\<close>

record image_row =
  ir_id :: int
  ir_image :: string
  ir_hash :: string
  ir_config :: string
  ir_manifest :: string
  ir_ready :: "int option"
  ir_nlayer :: int

record layer_row =
  lr_id :: int
  lr_size :: int
  lr_image :: int
  lr_stackIndex :: int
  lr_layer :: int

record fs_row =
  fr_id :: int
  fr_digest :: string
  fr_size :: int
  fr_ready :: int

text \<open>
  The metadata of a file is the JSON encoding of a traceable entry, of which the program reads
  the entry and the chunks.
\<close>

type_synonym metadata = "toc_entry \<times> file_chunk list"

record file_row =
  xr_id :: int
  xr_hash :: string
  xr_size :: int
  xr_file :: string
  xr_offset :: int
  xr_fs :: int
  xr_order :: "int list"
  xr_metadata :: metadata

record tag_row =
  tg_name :: string
  tg_tag :: string
  tg_platform :: string
  tg_imageId :: int

record meta_db =
  md_images :: "image_row list"
  md_layers :: "layer_row list"
  md_fs :: "fs_row list"
  md_files :: "file_row list"
  md_tags :: "tag_row list"
  md_seq_image :: int
  md_seq_layer :: int
  md_seq_fs :: int
  md_seq_file :: int

text \<open>\<^verbatim>\<open>InitDatabase\<close> on an empty database.\<close>

definition InitDatabase :: meta_db where
  "InitDatabase = \<lparr>md_images = [], md_layers = [], md_fs = [], md_files = [], md_tags = [],
     md_seq_image = 1, md_seq_layer = 1, md_seq_fs = 1, md_seq_file = 1\<rparr>"

record faults =
  f_stmt :: "string \<Rightarrow> go_error option"
  f_rows :: "string \<Rightarrow> nat option"

definition no_faults :: faults where
  "no_faults = \<lparr>f_stmt = (\<lambda>_. None), f_rows = (\<lambda>_. None)\<rparr>"

definition sql :: "faults \<Rightarrow> string \<Rightarrow> 'a result \<Rightarrow> 'a result" where
  "sql flt stmt r = (case f_stmt flt stmt of Some e \<Rightarrow> Inl (Fail e) | None \<Rightarrow> r)"

lemma sql_Inr [simp]: "sql flt stmt r = Inr x \<longleftrightarrow> f_stmt flt stmt = None \<and> r = Inr x"
  by (simp add: sql_def split: option.splits)

lemma sql_no_faults [simp]: "sql no_faults stmt r = r"
  by (simp add: sql_def no_faults_def)

text \<open>The rows that a cursor delivers, and whether \<^verbatim>\<open>rows.Err()\<close> is set at the end.\<close>

definition cursor :: "faults \<Rightarrow> string \<Rightarrow> 'r list \<Rightarrow> 'r list" where
  "cursor flt stmt rows = (case f_rows flt stmt of None \<Rightarrow> rows | Some n \<Rightarrow> take n rows)"

definition cursor_broke :: "faults \<Rightarrow> string \<Rightarrow> 'r list \<Rightarrow> bool" where
  "cursor_broke flt stmt rows = (case f_rows flt stmt of None \<Rightarrow> False | Some n \<Rightarrow> n < length rows)"

lemma cursor_subset: "set (cursor flt stmt rows) \<subseteq> set rows"
  by (auto simp: cursor_def dest: in_set_takeD split: option.splits)

lemma cursor_whole: "\<not> cursor_broke flt stmt rows \<Longrightarrow> cursor flt stmt rows = rows"
  by (simp add: cursor_def cursor_broke_def split: option.splits)

lemma sorted_cursor: "sorted (map g rows) \<Longrightarrow> sorted (map g (cursor flt stmt rows))"
  by (simp add: cursor_def sorted_wrt_take take_map [symmetric] split: option.splits)

lemma cursor_no_faults [simp]: "cursor no_faults stmt rows = rows"
  by (simp add: cursor_def no_faults_def)

section \<open>Images and tags\<close>

definition SetImageReady :: "faults \<Rightarrow> int \<Rightarrow> bool \<Rightarrow> int \<Rightarrow> meta_db \<Rightarrow> meta_db result" where
  "SetImageReady flt now ready serial db =
     sql flt ''update image''
       (if \<exists>r \<in> set (md_images db). ir_id r = serial
        then Inr (db\<lparr>md_images := map (\<lambda>r. if ir_id r = serial
               then r\<lparr>ir_ready := (if ready then Some now else None)\<rparr> else r) (md_images db)\<rparr>)
        else Inl (Fail ErrNoRows))"

definition tag_key :: "tag_row \<Rightarrow> string \<times> string \<times> string" where
  "tag_key r = (tg_name r, tg_tag r, tg_platform r)"

definition SetImageTag :: "faults \<Rightarrow> string \<Rightarrow> string \<Rightarrow> string \<Rightarrow> int \<Rightarrow> meta_db \<Rightarrow> meta_db result" where
  "SetImageTag flt name tag platform serial db =
     sql flt ''begin'' (sql flt ''insert tag'' (sql flt ''commit''
       (if (name, tag, platform) \<in> set (map tag_key (md_tags db))
        then Inr (db\<lparr>md_tags := map (\<lambda>r. if tag_key r = (name, tag, platform)
               then r\<lparr>tg_imageId := serial\<rparr> else r) (md_tags db)\<rparr>)
        else Inr (db\<lparr>md_tags := md_tags db @
               [\<lparr>tg_name = name, tg_tag = tag, tg_platform = platform, tg_imageId = serial\<rparr>]\<rparr>))))"

text \<open>
  \<^verbatim>\<open>InsertImage\<close> looks for the image first, then inserts it. The first part returns the serial
  of an image that is ready, \<open>None\<close> when there is no such row.
\<close>

definition image_key :: "image_row \<Rightarrow> string \<times> string" where
  "image_key r = (ir_image r, ir_hash r)"

definition InsertImage_select :: "faults \<Rightarrow> string \<Rightarrow> string \<Rightarrow> meta_db \<Rightarrow> int option result" where
  "InsertImage_select flt img hash db =
     sql flt ''select image''
       (let row = find (\<lambda>r. image_key r = (img, hash)) (md_images db);
            serial = (case row of None \<Rightarrow> 0 | Some r \<Rightarrow> ir_id r);
            ts = (case row of None \<Rightarrow> None | Some r \<Rightarrow> ir_ready r)
        in if serial \<noteq> 0 \<and> ts = None
           then Inl (Fail (Errorf (''caching is in progress or unfinished, plrease remove: image['' @ img
                  @ ''] digest['' @ hash @ ''] serial['' @ itoa serial @ '']'')))
           else if serial \<noteq> 0 \<and> ts \<noteq> None then Inr (Some serial)
           else Inr None)"

definition InsertImage_insert :: "faults \<Rightarrow> string \<Rightarrow> string \<Rightarrow> string \<Rightarrow> string \<Rightarrow> int \<Rightarrow> meta_db
    \<Rightarrow> meta_db \<times> int result" where
  "InsertImage_insert flt img hash c m layerCount db =
     (case f_stmt flt ''insert image'' of
        Some e \<Rightarrow> (db, Inl (Fail e))
      | None \<Rightarrow>
          (let serial = md_seq_image db; db1 = db\<lparr>md_seq_image := serial + 1\<rparr>
           in if (img, hash) \<in> set (map image_key (md_images db)) then (db1, Inl (Fail ErrNoRows))
              else (db1\<lparr>md_images := md_images db @
                      [\<lparr>ir_id = serial, ir_image = img, ir_hash = hash, ir_config = c, ir_manifest = m,
                        ir_ready = None, ir_nlayer = layerCount\<rparr>]\<rparr>, Inr serial)))"

text \<open>
  \<open>config\<close> and \<open>manifest\<close> are what \<^verbatim>\<open>json.Marshal\<close> returns for the arguments. The result is the
  serial and whether the image was there.
\<close>

definition InsertImage :: "faults \<Rightarrow> string \<Rightarrow> string \<Rightarrow> string result \<Rightarrow> string result \<Rightarrow> int \<Rightarrow> meta_db
    \<Rightarrow> meta_db \<times> (int \<times> bool) result" where
  "InsertImage flt img hash config manifest layerCount db =
     (case InsertImage_select flt img hash db of
        Inl e \<Rightarrow> (db, Inl e)
      | Inr (Some serial) \<Rightarrow> (db, Inr (serial, True))
      | Inr None \<Rightarrow>
          (case config of Inl e \<Rightarrow> (db, Inl e) | Inr c \<Rightarrow>
          (case manifest of Inl e \<Rightarrow> (db, Inl e) | Inr m \<Rightarrow>
          (case InsertImage_insert flt img hash c m layerCount db of
             (db1, Inl e) \<Rightarrow> (db1, Inl e)
           | (db1, Inr serial) \<Rightarrow> (db1, Inr (serial, False))))))"

definition GetImage :: "faults \<Rightarrow> string \<Rightarrow> string \<Rightarrow> string \<Rightarrow> meta_db \<Rightarrow> int result" where
  "GetImage flt img identifier platform db =
     sql flt ''select tag''
       (case find (\<lambda>r. tag_key r = (img, identifier, platform)) (md_tags db) of
          Some r \<Rightarrow> Inr (tg_imageId r)
        | None \<Rightarrow> sql flt ''select image''
            (case find (\<lambda>r. ir_ready r \<noteq> None \<and> image_key r = (img, identifier)) (md_images db) of
               Some r \<Rightarrow> Inr (ir_id r)
             | None \<Rightarrow> Inl (Fail ErrNoRows)))"

definition GetImageByDigest :: "faults \<Rightarrow> string \<Rightarrow> string \<Rightarrow> meta_db \<Rightarrow> int result" where
  "GetImageByDigest flt img digest db =
     sql flt ''select image''
       (case find (\<lambda>r. ir_ready r \<noteq> None \<and> image_key r = (img, digest)) (md_images db) of
          Some r \<Rightarrow> Inr (ir_id r)
        | None \<Rightarrow> Inl (Fail ErrNoRows))"

definition GetManifestAndConfig :: "faults \<Rightarrow> int \<Rightarrow> meta_db \<Rightarrow> (string \<times> string \<times> string) result" where
  "GetManifestAndConfig flt serial db =
     sql flt ''select config''
       (case find (\<lambda>r. ir_id r = serial) (md_images db) of
          Some r \<Rightarrow> Inr (ir_config r, ir_manifest r, ir_hash r)
        | None \<Rightarrow> Inl (Fail ErrNoRows))"

section \<open>Layers\<close>

definition fs_key :: "fs_row \<Rightarrow> string \<times> int" where
  "fs_key r = (fr_digest r, fr_size r)"

definition layer_key :: "layer_row \<Rightarrow> int \<times> int" where
  "layer_key r = (lr_image r, lr_stackIndex r)"

text \<open>
  The two inserts of \<^verbatim>\<open>InsertLayer\<close>, in the transaction: the filesystem, and the reference
  to it from the image.
\<close>

definition insert_fs :: "faults \<Rightarrow> int \<Rightarrow> string \<Rightarrow> int \<Rightarrow> meta_db \<Rightarrow> meta_db \<times> int result" where
  "insert_fs flt now digest sz db =
     (case f_stmt flt ''insert filesystem'' of
        Some e \<Rightarrow> (db, Inl (Fail e))
      | None \<Rightarrow>
          (let fsId = md_seq_fs db; db1 = db\<lparr>md_seq_fs := fsId + 1\<rparr>
           in if (digest, sz) \<in> set (map fs_key (md_fs db))
              then (db1, Inl (Fail (ExtError ''unique constraint layer_digest_size'')))
              else (db1\<lparr>md_fs := md_fs db @ [\<lparr>fr_id = fsId, fr_digest = digest, fr_size = sz, fr_ready = now\<rparr>]\<rparr>,
                    Inr fsId)))"

definition upsert_layer :: "faults \<Rightarrow> int \<Rightarrow> int \<Rightarrow> int \<Rightarrow> int \<Rightarrow> meta_db \<Rightarrow> meta_db \<times> unit result" where
  "upsert_layer flt sz imageSerial stackIndex fsId db =
     (case f_stmt flt ''insert layer'' of
        Some e \<Rightarrow> (db, Inl (Fail e))
      | None \<Rightarrow>
          (let i = md_seq_layer db; db1 = db\<lparr>md_seq_layer := i + 1\<rparr>
           in if imageSerial \<notin> set (map ir_id (md_images db))
              then (db1, Inl (Fail (ExtError ''foreign key constraint image'')))
              else if (imageSerial, stackIndex) \<in> set (map layer_key (md_layers db))
              then (db1\<lparr>md_layers := map (\<lambda>r. if layer_key r = (imageSerial, stackIndex)
                      then r\<lparr>lr_size := sz, lr_layer := fsId\<rparr> else r) (md_layers db)\<rparr>, Inr ())
              else (db1\<lparr>md_layers := md_layers db @ [\<lparr>lr_id = i, lr_size = sz, lr_image = imageSerial,
                      lr_stackIndex = stackIndex, lr_layer = fsId\<rparr>]\<rparr>, Inr ())))"

text \<open>
  \<^verbatim>\<open>InsertLayer\<close>: the lookup runs outside the transaction, on the committed tables \<open>dbc\<close>. Its last
  line returns false for \<open>existing\<close>, whatever the lookup found.
\<close>

definition resolve_fs :: "faults \<Rightarrow> int \<Rightarrow> meta_db \<Rightarrow> string \<Rightarrow> int \<Rightarrow> meta_db \<Rightarrow> meta_db \<times> int result" where
  "resolve_fs flt now dbc layerDigest sz db =
     (case f_stmt flt ''select filesystem'' of
        Some e \<Rightarrow> (db, Inl (Fail e))
      | None \<Rightarrow>
          (let fsId = (case find (\<lambda>r. fs_key r = (layerDigest, sz)) (md_fs dbc) of None \<Rightarrow> 0 | Some r \<Rightarrow> fr_id r);
               existing = (fsId \<noteq> 0)
           in if existing then (db, Inr fsId) else insert_fs flt now layerDigest sz db))"

definition InsertLayer :: "faults \<Rightarrow> int \<Rightarrow> meta_db \<Rightarrow> int \<Rightarrow> int \<Rightarrow> int \<Rightarrow> string \<Rightarrow> meta_db
    \<Rightarrow> meta_db \<times> (int \<times> bool) result" where
  "InsertLayer flt now dbc sz imageSerial stackIndex layerDigest db =
     (case resolve_fs flt now dbc layerDigest sz db of
        (db1, Inl e) \<Rightarrow> (db1, Inl e)
      | (db1, Inr fsId) \<Rightarrow>
          (case upsert_layer flt sz imageSerial stackIndex fsId db1 of
             (db2, Inl e) \<Rightarrow> (db2, Inl e)
           | (db2, Inr _) \<Rightarrow> (db2, Inr (fsId, False))))"

definition GetLayers :: "faults \<Rightarrow> int \<Rightarrow> meta_db \<Rightarrow> image_layer list result" where
  "GetLayers flt imageSerial db =
     sql flt ''select layers''
       (let rows = sort_key lr_stackIndex (filter (\<lambda>l. lr_image l = imageSerial) (md_layers db))
        in case fold_result (\<lambda>l r.
                  (case find (\<lambda>f. fr_id f = lr_layer l) (md_fs db) of
                     None \<Rightarrow> Inl (wrap ''failed to scan file'' (Fail (ExtError ''converting NULL'')))
                   | Some f \<Rightarrow> Inr (r @ [zero_layer\<lparr>il_Serial := fr_id f, il_StackIndex := lr_stackIndex l,
                                  il_Hash := fr_digest f, il_UncompressedSize := fr_size f\<rparr>])))
                (cursor flt ''select layers'' rows) [] of
             Inl e \<Rightarrow> Inl e
           | Inr r \<Rightarrow> (if cursor_broke flt ''select layers'' rows
                       then Inl (wrap ''failed to load layers'' (Fail (ExtError ''connection''))) else Inr r))"

section \<open>Files\<close>

definition chunk_of_entry :: "toc_entry \<Rightarrow> file_chunk" where
  "chunk_of_entry e = \<lparr>fc_Offset = e_Offset e, fc_ChunkOffset = e_ChunkOffset e,
     fc_ChunkSize = e_ChunkSize e, fc_CompressedSize = e_CompressedSize e\<rparr>"

definition marshal_entry :: "traceable_entry \<Rightarrow> metadata" where
  "marshal_entry v = (json_entry (t_TOCEntry v), map chunk_of_entry (t_Chunks v))"

fun file_rows :: "int \<Rightarrow> int \<Rightarrow> (string \<times> traceable_entry) list \<Rightarrow> file_row list" where
  "file_rows i fsId [] = []"
| "file_rows i fsId ((k, v) # es) =
     \<lparr>xr_id = i, xr_hash = e_Digest (t_TOCEntry v), xr_size = e_Size (t_TOCEntry v), xr_file = k,
      xr_offset = e_Offset (t_TOCEntry v), xr_fs = fsId, xr_order = [], xr_metadata = marshal_entry v\<rparr>
     # file_rows (i + 1) fsId es"

text \<open>\<^verbatim>\<open>InsertFiles\<close> deletes the files of the filesystem and copies the entries in; \<open>entries\<close> is a map.\<close>

definition InsertFiles :: "faults \<Rightarrow> int \<Rightarrow> (string \<times> traceable_entry) list \<Rightarrow> meta_db \<Rightarrow> meta_db \<times> unit result" where
  "InsertFiles flt fsId entries db =
     (case f_stmt flt ''delete file'' of
        Some e \<Rightarrow> (db, Inl (Fail e))
      | None \<Rightarrow>
          (let db1 = db\<lparr>md_files := filter (\<lambda>r. xr_fs r \<noteq> fsId) (md_files db)\<rparr>
           in case f_stmt flt ''copy file'' of
                Some e \<Rightarrow> (db1, Inl (Fail e))
              | None \<Rightarrow>
                  (let db2 = db1\<lparr>md_seq_file := md_seq_file db + int (length entries)\<rparr>
                   in if entries \<noteq> [] \<and> fsId \<notin> set (map fr_id (md_fs db))
                      then (db2, Inl (Fail (ExtError ''foreign key constraint filesystem_fk'')))
                      else (db2\<lparr>md_files := md_files db1 @ file_rows (md_seq_file db) fsId entries\<rparr>, Inr ()))))"

definition GetUniqueFiles :: "faults \<Rightarrow> image_layer list \<Rightarrow> meta_db \<Rightarrow> sfile list result" where
  "GetUniqueFiles flt layers db =
     sql flt ''select unique files''
       (let lids = map il_Serial layers;
            rows = filter (\<lambda>x. xr_fs x \<in> set lids \<and> xr_hash x \<noteq> []) (md_files db)
        in Inr (map (\<lambda>x. \<lparr>sf_TOC = fst (xr_metadata x), sf_ParsingChunks = [], sf_FsId = xr_fs x\<rparr>)
                    (cursor flt ''select unique files'' rows)))"

text \<open>The average rank of a file, when it has one.\<close>

definition max_float64 :: rat where "max_float64 = 2 ^ 1024 - 2 ^ 971"

lemma max_float64_code [code]:
  "max_float64 = rat_of_int 179769313486231570814527423731704356798070567525844996598917476803157260780028538760589558632766878171540458953514382464234321326889464182768467546703537516986049910576551282076245490090389328944075868508455133942304583236903222948165808559332123348274797826204144723168738177180919299881250404026184124858368"
  by (simp add: max_float64_def)

definition avg_order :: "int list \<Rightarrow> rat option" where
  "avg_order os = (if os = [] then None else Some (rat_of_int (sum_list os) / rat_of_nat (length os)))"

text \<open>
  The rows of \<^verbatim>\<open>GetFilesWithRanks\<close> and \<^verbatim>\<open>GetFilesWithoutRanks\<close>: the outer joins with the condition
  on the image leave the files of the filesystems of the image's layers.
\<close>

definition layer_files :: "int \<Rightarrow> meta_db \<Rightarrow> (layer_row \<times> file_row) list" where
  "layer_files imageSerial db =
     concat (map (\<lambda>l. map (Pair l) (filter (\<lambda>x. xr_fs x = lr_layer l) (md_files db)))
       (sort_key lr_stackIndex (filter (\<lambda>l. lr_image l = imageSerial \<and> lr_layer l \<in> set (map fr_id (md_fs db))) (md_layers db))))"

definition ranked_of :: "(file_row \<Rightarrow> rat) \<Rightarrow> layer_row \<times> file_row \<Rightarrow> ranked_file" where
  "ranked_of rk lx =
     \<lparr>rf_File = \<lparr>sf_TOC = fst (xr_metadata (snd lx)), sf_ParsingChunks = snd (xr_metadata (snd lx)),
                 sf_FsId = xr_fs (snd lx)\<rparr>,
      rf_Rank = rk (snd lx), rf_Stack = lr_stackIndex (fst lx),
      rf_ReferenceFsId = 0, rf_ReferenceStack = 0, rf_PayloadOrder = 0\<rparr>"

definition GetFilesWithRanks :: "faults \<Rightarrow> int \<Rightarrow> meta_db \<Rightarrow> ranked_file list result" where
  "GetFilesWithRanks flt imageSerial db =
     sql flt ''select ranked files''
       (Inr (map (ranked_of (\<lambda>x. case avg_order (xr_order x) of Some q \<Rightarrow> q | None \<Rightarrow> max_float64))
          (cursor flt ''select ranked files'' (layer_files imageSerial db))))"

definition GetFilesWithoutRanks :: "faults \<Rightarrow> int \<Rightarrow> meta_db \<Rightarrow> ranked_file list result" where
  "GetFilesWithoutRanks flt imageSerial db =
     sql flt ''select files''
       (Inr (map (ranked_of (\<lambda>x. max_float64)) (cursor flt ''select files'' (layer_files imageSerial db))))"

text \<open>
  \<^verbatim>\<open>GetRoughDeduplicatedLayers\<close>: the layers of the second image that hold a (hash, size) which
  the first image does not have, taking for each (hash, size) the lowest stack that holds it.
\<close>

definition hashed_files :: "int \<Rightarrow> meta_db \<Rightarrow> (layer_row \<times> file_row) list" where
  "hashed_files imageSerial db = filter (\<lambda>(l, x). xr_hash x \<noteq> []) (layer_files imageSerial db)"

definition content_key :: "layer_row \<times> file_row \<Rightarrow> string \<times> int" where
  "content_key lx = (xr_hash (snd lx), xr_size (snd lx))"

definition is_min_layer :: "(layer_row \<times> file_row) list \<Rightarrow> layer_row \<times> file_row \<Rightarrow> bool" where
  "is_min_layer rows lx \<longleftrightarrow>
     (\<forall>ly \<in> set rows. content_key ly = content_key lx \<longrightarrow> lr_stackIndex (fst lx) \<le> lr_stackIndex (fst ly))"

definition GetRoughDeduplicatedLayers :: "faults \<Rightarrow> int \<Rightarrow> int \<Rightarrow> meta_db \<Rightarrow> image_layer list result" where
  "GetRoughDeduplicatedLayers flt fromSerial toSerial db =
     sql flt ''select rough layers''
       (let alpha = hashed_files fromSerial db;
            beta = hashed_files toSerial db;
            src = filter (\<lambda>lx. is_min_layer beta lx \<and> content_key lx \<notin> content_key ` set alpha) beta;
            rows = remdups (concat (map (\<lambda>lx. map (\<lambda>f. (lr_stackIndex (fst lx), fr_digest f, fr_size f))
                     (filter (\<lambda>f. fr_id f = lr_layer (fst lx)) (md_fs db))) src))
        in if cursor_broke flt ''select rough layers'' rows
           then Inl (wrap ''failed to load layers'' (Fail (ExtError ''connection'')))
           else Inr (map (\<lambda>(k, d, sz). zero_layer\<lparr>il_StackIndex := k, il_Hash := d, il_UncompressedSize := sz\<rparr>) rows))"

section \<open>Ranks\<close>

text \<open>
  \<^verbatim>\<open>UpdateFileRanks\<close>. The layers of an image are scanned into a slice of length \<^verbatim>\<open>nlayer\<close>; a row
  beyond its end panics. Every item of the history then appends its rank to the rows of its
  file; the updates made before an error stay.
\<close>

fun fill_layers :: "int list \<Rightarrow> nat \<Rightarrow> int list \<Rightarrow> int list result" where
  "fill_layers [] i xs = Inr xs"
| "fill_layers (l # ls) i xs =
     (if i < length xs then fill_layers ls (i + 1) (xs[i := l]) else Inl (Panic ''index out of range''))"

definition image_layer_ids :: "faults \<Rightarrow> meta_db \<Rightarrow> string \<Rightarrow> int list result" where
  "image_layer_ids flt db img =
     sql flt ''select image layers''
       (case find (\<lambda>r. ir_ready r \<noteq> None \<and> ir_hash r = img) (md_images db) of
          None \<Rightarrow> Inl (Fail ErrNoRows)
        | Some r \<Rightarrow> fill_layers
            (cursor flt ''select image layers''
              (map lr_layer (sort_key lr_stackIndex (filter (\<lambda>l. lr_image l = ir_id r) (md_layers db)))))
            0 (replicate (nat (ir_nlayer r)) 0))"

definition append_rank :: "int \<Rightarrow> int \<Rightarrow> string \<Rightarrow> meta_db \<Rightarrow> meta_db" where
  "append_rank rk fsId file db =
     db\<lparr>md_files := map (\<lambda>x. if xr_fs x = fsId \<and> xr_file x = file then x\<lparr>xr_order := xr_order x @ [rk]\<rparr> else x)
                       (md_files db)\<rparr>"

definition history_target :: "int list list \<Rightarrow> optimized_item \<Rightarrow> int result" where
  "history_target layersImageMap f =
     (if oi_SourceImage f < length layersImageMap \<and> 0 \<le> ti_Stack (oi_Item f) \<and>
         nat (ti_Stack (oi_Item f)) < length (layersImageMap ! oi_SourceImage f)
      then Inr (layersImageMap ! oi_SourceImage f ! nat (ti_Stack (oi_Item f)))
      else Inl (Panic ''index out of range''))"

fun update_history :: "faults \<Rightarrow> int list list \<Rightarrow> optimized_item list \<Rightarrow> meta_db \<Rightarrow> meta_db \<times> unit result" where
  "update_history flt m [] db = (db, Inr ())"
| "update_history flt m (f # fs) db =
     (case history_target m f of
        Inl e \<Rightarrow> (db, Inl e)
      | Inr fsId \<Rightarrow>
          (case f_stmt flt ''update file'' of
             Some e \<Rightarrow> (db, Inl (Fail e))
           | None \<Rightarrow> update_history flt m fs (append_rank (oi_Rank f) fsId (ti_FileName (oi_Item f)) db)))"

fun UpdateFileRanks :: "faults \<Rightarrow> optimized_group list \<Rightarrow> meta_db \<Rightarrow> meta_db \<times> int list list list result" where
  "UpdateFileRanks flt [] db = (db, Inr [])"
| "UpdateFileRanks flt (g # gs) db =
     (case fold_result (\<lambda>img acc. case image_layer_ids flt db img of Inl e \<Rightarrow> Inl e | Inr ls \<Rightarrow> Inr (acc @ [ls]))
             (og_Images g) [] of
        Inl e \<Rightarrow> (db, Inl e)
      | Inr m \<Rightarrow>
          (case update_history flt m (og_History g) db of
             (db1, Inl e) \<Rightarrow> (db1, Inl e)
           | (db1, Inr _) \<Rightarrow>
               (case UpdateFileRanks flt gs db1 of
                  (db2, Inl e) \<Rightarrow> (db2, Inl e)
                | (db2, Inr res) \<Rightarrow> (db2, Inr (m # res)))))"

section \<open>Image references and connecting\<close>

text \<open>
  The observers of a reference that \<^verbatim>\<open>name.ParseReference\<close> returns.
\<close>

record reference =
  ref_Registry :: string
  ref_Repository :: string
  ref_Identifier :: string
  ref_Name :: string

definition ParseImageReference :: "reference \<Rightarrow> string \<Rightarrow> string list \<Rightarrow> string \<times> string" where
  "ParseImageReference ref defaultRegistry registryAlias =
     (let appendRegistry = (ref_Registry ref \<noteq> defaultRegistry \<and> ref_Registry ref \<notin> set registryAlias)
      in (if appendRegistry then path_join [ref_Registry ref, ref_Repository ref] else ref_Repository ref,
          ref_Identifier ref))"

text \<open>
  \<^verbatim>\<open>NewDatabase\<close> opens the database, \<open>tries\<close> being the outcomes of \<^verbatim>\<open>sql.Open\<close>, and gives up when
  the attempt with a number above 10 fails.
\<close>

fun connect :: "nat \<Rightarrow> (nat \<Rightarrow> go_error option) \<Rightarrow> nat \<Rightarrow> nat result" where
  "connect 0 tries i = (case tries i of None \<Rightarrow> Inr i | Some e \<Rightarrow> Inl (Fail e))"
| "connect (Suc n) tries i = (case tries i of None \<Rightarrow> Inr i | Some e \<Rightarrow> connect n tries (i + 1))"

definition NewDatabase :: "(nat \<Rightarrow> go_error option) \<Rightarrow> nat result" where
  "NewDatabase tries = connect 10 tries 1"

section \<open>The invariant of the tables\<close>

text \<open>
  The constraints of the schema, and one that the schema does not state: the column
  \<^verbatim>\<open>layer.layer\<close> refers to a row of \<^verbatim>\<open>filesystem\<close>; the columns hash and size of a file are those
  of its metadata.
\<close>

definition file_key :: "file_row \<Rightarrow> int \<times> string" where
  "file_key x = (xr_fs x, xr_file x)"

definition meta_matches :: "file_row \<Rightarrow> bool" where
  "meta_matches x \<longleftrightarrow> xr_hash x = e_Digest (fst (xr_metadata x)) \<and> xr_size x = e_Size (fst (xr_metadata x))"

definition db_inv :: "meta_db \<Rightarrow> bool" where
  "db_inv db \<longleftrightarrow>
     table_ok ir_id image_key (md_images db) (md_seq_image db) \<and>
     table_ok lr_id layer_key (md_layers db) (md_seq_layer db) \<and>
     table_ok fr_id fs_key (md_fs db) (md_seq_fs db) \<and>
     table_ok xr_id file_key (md_files db) (md_seq_file db) \<and>
     distinct (map tag_key (md_tags db)) \<and>
     (\<forall>l \<in> set (md_layers db). lr_image l \<in> ir_id ` set (md_images db) \<and> lr_layer l \<in> fr_id ` set (md_fs db)) \<and>
     (\<forall>x \<in> set (md_files db). xr_fs x \<in> fr_id ` set (md_fs db) \<and> meta_matches x)"

lemma db_inv_parts:
  assumes "db_inv db"
  shows "table_ok ir_id image_key (md_images db) (md_seq_image db)"
    "table_ok lr_id layer_key (md_layers db) (md_seq_layer db)"
    "table_ok fr_id fs_key (md_fs db) (md_seq_fs db)"
    "table_ok xr_id file_key (md_files db) (md_seq_file db)"
    "l \<in> set (md_layers db) \<Longrightarrow> lr_image l \<in> ir_id ` set (md_images db)"
    "l \<in> set (md_layers db) \<Longrightarrow> lr_layer l \<in> fr_id ` set (md_fs db)"
    "x \<in> set (md_files db) \<Longrightarrow> xr_fs x \<in> fr_id ` set (md_fs db)"
    "x \<in> set (md_files db) \<Longrightarrow> meta_matches x"
  using assms by (auto simp: db_inv_def)

lemma InitDatabase_inv: "db_inv InitDatabase"
  by (simp add: db_inv_def InitDatabase_def)

lemma image_map_keep: "(\<And>r. g (f r) = g r) \<Longrightarrow> g ` set (map f rows) = g ` set rows"
  by (simp add: image_image)

lemma SetImageReady_inv:
  assumes "db_inv db" "SetImageReady flt now ready serial db = Inr db'"
  shows "db_inv db'"
proof -
  let ?f = "\<lambda>r. if ir_id r = serial then r\<lparr>ir_ready := (if ready then Some now else None)\<rparr> else r"
  have db': "db' = db\<lparr>md_images := map ?f (md_images db)\<rparr>"
    using assms(2) by (auto simp: SetImageReady_def split: if_splits)
  have "table_ok ir_id image_key (map ?f (md_images db)) (md_seq_image db)"
    by (rule table_ok_map [OF db_inv_parts(1) [OF assms(1)]]) (auto simp: image_key_def)
  moreover have "ir_id ` set (map ?f (md_images db)) = ir_id ` set (md_images db)"
    by (rule image_map_keep) simp
  ultimately show ?thesis using assms(1) by (simp add: db' db_inv_def)
qed

lemma SetImageTag_inv:
  assumes "db_inv db" "SetImageTag flt n t p serial db = Inr db'"
  shows "db_inv db'"
proof -
  have keys: "tag_key \<circ> (\<lambda>r. if tag_key r = (n, t, p) then r\<lparr>tg_imageId := serial\<rparr> else r) = tag_key"
    by (auto simp: tag_key_def)
  have new: "tag_key \<lparr>tg_name = n, tg_tag = t, tg_platform = p, tg_imageId = serial\<rparr> = (n, t, p)"
    by (simp add: tag_key_def)
  show ?thesis
    using assms unfolding SetImageTag_def sql_Inr
    by (elim conjE, split if_split_asm) (auto simp: db_inv_def keys new simp del: set_map)
qed

lemma InsertImage_insert_inv:
  assumes "db_inv db" "InsertImage_insert flt img hash c m n db = (db', r)"
  shows "db_inv db'"
proof -
  have t: "table_ok ir_id image_key (md_images db) (md_seq_image db)" by (rule db_inv_parts [OF assms(1)])
  show ?thesis
    using assms table_ok_next [OF t, of "md_seq_image db + 1"] table_ok_append [OF t]
    by (auto simp: InsertImage_insert_def db_inv_def Let_def image_key_def split: option.splits if_splits)
qed

lemma InsertImage_inv:
  assumes "db_inv db" "InsertImage flt img hash c m n db = (db', r)"
  shows "db_inv db'"
  using assms InsertImage_insert_inv [OF assms(1)]
  by (auto simp: InsertImage_def split: sum.splits option.splits prod.splits)

lemma insert_fs_inv:
  assumes "db_inv db" "insert_fs flt now dg sz db = (db', r)"
  shows "db_inv db'" and "r = Inr i \<Longrightarrow> i \<in> fr_id ` set (md_fs db')"
    and "set (md_fs db) \<subseteq> set (md_fs db')"
proof -
  have t: "table_ok fr_id fs_key (md_fs db) (md_seq_fs db)" by (rule db_inv_parts [OF assms(1)])
  show "db_inv db'"
    using assms table_ok_next [OF t, of "md_seq_fs db + 1"] table_ok_append [OF t]
    by (auto simp: insert_fs_def db_inv_def Let_def fs_key_def split: option.splits if_splits)
  show "r = Inr i \<Longrightarrow> i \<in> fr_id ` set (md_fs db')"
    using assms by (auto simp: insert_fs_def Let_def split: option.splits if_splits)
  show "set (md_fs db) \<subseteq> set (md_fs db')"
    using assms by (auto simp: insert_fs_def Let_def split: option.splits if_splits)
qed

lemma upsert_layer_inv:
  assumes "db_inv db" "fsId \<in> fr_id ` set (md_fs db)"
    and "upsert_layer flt sz img k fsId db = (db', r)"
  shows "db_inv db'"
proof -
  let ?f = "\<lambda>x. if layer_key x = (img, k) then x\<lparr>lr_size := sz, lr_layer := fsId\<rparr> else x"
  have t: "table_ok lr_id layer_key (md_layers db) (md_seq_layer db)" by (rule db_inv_parts [OF assms(1)])
  have t1: "table_ok lr_id layer_key (md_layers db) (md_seq_layer db + 1)"
    by (rule table_ok_next [OF t]) simp
  have t2: "table_ok lr_id layer_key (map ?f (md_layers db)) (md_seq_layer db + 1)"
    by (rule table_ok_map [OF t1]) (auto simp: layer_key_def)
  show ?thesis
    using assms t1 t2 table_ok_append [OF t]
    by (auto simp: upsert_layer_def db_inv_def Let_def layer_key_def split: option.splits if_splits)
qed

lemma resolve_fs_inv:
  assumes inv: "db_inv db" and sub: "set (md_fs dbc) \<subseteq> set (md_fs db)"
    and res: "resolve_fs flt now dbc dg sz db = (db', r)"
  shows "db_inv db'" and "r = Inr i \<Longrightarrow> i \<in> fr_id ` set (md_fs db')"
proof -
  consider "db' = db" "\<And>i. r \<noteq> Inr i" | x where "db' = db" "r = Inr (fr_id x)" "x \<in> set (md_fs db)"
    | "insert_fs flt now dg sz db = (db', r)"
    using res sub by (fastforce simp: resolve_fs_def Let_def dest!: find_SomeD split: option.splits if_splits)
  then show "db_inv db'" "r = Inr i \<Longrightarrow> i \<in> fr_id ` set (md_fs db')"
    using inv insert_fs_inv [OF inv] by (cases; auto)+
qed

lemma InsertLayer_inv:
  assumes inv: "db_inv db" and sub: "set (md_fs dbc) \<subseteq> set (md_fs db)"
    and ins: "InsertLayer flt now dbc sz img k dg db = (db', r)"
  shows "db_inv db'"
proof -
  obtain db1 r1 where 1: "resolve_fs flt now dbc dg sz db = (db1, r1)" by fastforce
  note res = resolve_fs_inv [OF inv sub 1]
  show ?thesis
  proof (cases r1)
    case (Inl e)
    then show ?thesis using ins 1 res by (simp add: InsertLayer_def)
  next
    case (Inr i)
    obtain db2 r2 where 2: "upsert_layer flt sz img k i db1 = (db2, r2)" by fastforce
    have "db_inv db2" using upsert_layer_inv [OF res(1) res(2) [OF Inr] 2] .
    then show ?thesis using ins 1 2 Inr by (auto simp: InsertLayer_def split: sum.splits)
  qed
qed

lemma file_rows_simps:
  "length (file_rows i f es) = length es"
  "map xr_id (file_rows i f es) = map (\<lambda>k. i + int k) [0..<length es]"
  "map xr_file (file_rows i f es) = keys es"
  "x \<in> set (file_rows i f es) \<Longrightarrow> xr_fs x = f \<and> xr_order x = [] \<and> meta_matches x"
proof (induction es arbitrary: i)
  case (Cons e es)
  have up: "i # map (\<lambda>k. i + 1 + int k) [0..<n] = map (\<lambda>k. i + int k) [0..<n] @ [i + int n]" for i :: int and n
    by (induction n) auto
  { case 1 show ?case using Cons by (cases e) simp next
    case 2 show ?case using Cons(2) [of "i + 1"] by (cases e) (simp add: up) next
    case 3 show ?case using Cons by (cases e) simp next
    case 4 then show ?case using Cons by (cases e) (auto simp: meta_matches_def marshal_entry_def json_entry_def) }
qed (auto)

lemma file_rows_ids: "x \<in> set (file_rows i f es) \<Longrightarrow> i \<le> xr_id x \<and> xr_id x < i + int (length es)"
proof -
  assume "x \<in> set (file_rows i f es)"
  then have "xr_id x \<in> set (map xr_id (file_rows i f es))" by simp
  then show ?thesis unfolding file_rows_simps(2) by auto
qed

lemma distinct_file_keys:
  assumes "distinct (keys es)"
  shows "distinct (map file_key (file_rows i f es))"
proof -
  have "distinct (map xr_file (file_rows i f es))" using assms by (simp add: file_rows_simps)
  then have "inj_on xr_file (set (file_rows i f es))" "distinct (file_rows i f es)"
    by (auto simp: distinct_map)
  then show ?thesis by (auto simp: distinct_map inj_on_def file_key_def)
qed

lemma InsertFiles_cases:
  assumes "InsertFiles flt fsId es db = (db', r)"
  obtains "db' = db" | "db' = db\<lparr>md_files := filter (\<lambda>x. xr_fs x \<noteq> fsId) (md_files db)\<rparr>"
    | "db' = db\<lparr>md_files := filter (\<lambda>x. xr_fs x \<noteq> fsId) (md_files db), md_seq_file := md_seq_file db + int (length es)\<rparr>"
    | "db' = db\<lparr>md_files := filter (\<lambda>x. xr_fs x \<noteq> fsId) (md_files db) @ file_rows (md_seq_file db) fsId es, md_seq_file := md_seq_file db + int (length es)\<rparr>"
      "es \<noteq> [] \<longrightarrow> fsId \<in> fr_id ` set (md_fs db)"
proof (cases "f_stmt flt ''delete file''")
  case (Some e)
  then show ?thesis using assms by (intro that(1)) (simp add: InsertFiles_def)
next
  case del: None
  show ?thesis
  proof (cases "f_stmt flt ''copy file''")
    case (Some e)
    then show ?thesis using assms del by (intro that(2)) (simp add: InsertFiles_def)
  next
    case None
    show ?thesis
    proof (cases "es \<noteq> [] \<and> fsId \<notin> set (map fr_id (md_fs db))")
      case True
      then show ?thesis using assms del None by (intro that(3)) (simp add: InsertFiles_def Let_def)
    next
      case False
      then show ?thesis using assms del None by (intro that(4)) (auto simp: InsertFiles_def Let_def)
    qed
  qed
qed

lemma InsertFiles_inv:
  assumes inv: "db_inv db" and dist: "distinct (keys es)"
    and ins: "InsertFiles flt fsId es db = (db', r)"
  shows "db_inv db'"
proof -
  let ?old = "filter (\<lambda>x. xr_fs x \<noteq> fsId) (md_files db)"
  let ?new = "file_rows (md_seq_file db) fsId es"
  have t: "table_ok xr_id file_key (md_files db) (md_seq_file db)" by (rule db_inv_parts [OF inv])
  note t1 = table_ok_filter [OF t, of "\<lambda>x. xr_fs x \<noteq> fsId"]
  note t2 = table_ok_next [OF t1, of "md_seq_file db + int (length es)"]
  have ids: "distinct (map xr_id ?new)"
    unfolding file_rows_simps by (simp add: distinct_map inj_on_def)
  have disj: "xr_id x \<noteq> xr_id y \<and> file_key x \<noteq> file_key y" if "x \<in> set ?old" "y \<in> set ?new" for x y
    using that t file_rows_ids [OF that(2)] file_rows_simps(4) [OF that(2)]
    by (auto simp: table_ok_def file_key_def)
  have pos: "0 < xr_id x \<and> xr_id x < md_seq_file db + int (length es)" if "x \<in> set (?old @ ?new)" for x
    using that t file_rows_ids [of x "md_seq_file db" fsId es] by (force simp: table_ok_def)
  have t3: "table_ok xr_id file_key (?old @ ?new) (md_seq_file db + int (length es))"
    unfolding table_ok_def
  proof (intro conjI ballI)
    have "xr_id ` set ?old \<inter> xr_id ` set ?new = {}" "file_key ` set ?old \<inter> file_key ` set ?new = {}"
      using disj by blast+
    then show "distinct (map xr_id (?old @ ?new))" "distinct (map file_key (?old @ ?new))"
      using t1 ids distinct_file_keys [OF dist] unfolding table_ok_def map_append distinct_append set_map by blast+
  qed (use t2 pos in \<open>auto simp: table_ok_def\<close>)
  from ins show ?thesis
  proof (cases rule: InsertFiles_cases)
    case 4
    have "xr_fs x \<in> fr_id ` set (md_fs db) \<and> meta_matches x" if "x \<in> set ?new" for x
      using 4(2) that file_rows_simps(4) [OF that] by (cases es) auto
    then show ?thesis using inv t3 4(1) by (auto simp: db_inv_def)
  qed (use inv t1 t2 in \<open>auto simp: db_inv_def\<close>)
qed

lemma append_rank_inv: "db_inv db \<Longrightarrow> db_inv (append_rank rk fsId f db)"
proof -
  assume inv: "db_inv db"
  let ?f = "\<lambda>x. if xr_fs x = fsId \<and> xr_file x = f then x\<lparr>xr_order := xr_order x @ [rk]\<rparr> else x"
  have "table_ok xr_id file_key (map ?f (md_files db)) (md_seq_file db)"
    by (rule table_ok_map [OF db_inv_parts(4) [OF inv]]) (auto simp: file_key_def)
  then show ?thesis using inv by (auto simp: db_inv_def append_rank_def meta_matches_def)
qed

lemma update_history_inv: "db_inv db \<Longrightarrow> update_history flt m fs db = (db', r) \<Longrightarrow> db_inv db'"
  by (induction fs arbitrary: db) (auto split: sum.splits option.splits intro: append_rank_inv)

lemma UpdateFileRanks_inv: "db_inv db \<Longrightarrow> UpdateFileRanks flt gs db = (db', r) \<Longrightarrow> db_inv db'"
  by (induction gs arbitrary: db r)
     (fastforce split: sum.splits option.splits prod.splits dest: update_history_inv)+

section \<open>What the queries return\<close>

lemma fold_result_scan:
  assumes "fold_result (\<lambda>x acc. case g x of None \<Rightarrow> Inl e | Some y \<Rightarrow> Inr (acc @ [h x y])) xs acc = Inr r"
  shows "\<exists>ys. r = acc @ ys \<and> list_all2 (\<lambda>x y. \<exists>z. g x = Some z \<and> y = h x z) xs ys"
  using assms
proof (induction xs arbitrary: acc)
  case (Cons x xs)
  then obtain z where z: "g x = Some z" by (auto split: option.splits)
  then obtain ys where "r = (acc @ [h x z]) @ ys" "list_all2 (\<lambda>x y. \<exists>z. g x = Some z \<and> y = h x z) xs ys"
    using Cons by fastforce
  then show ?case using z by (intro exI [of _ "h x z # ys"]) simp
qed simp

definition layer_of_rows :: "layer_row \<Rightarrow> fs_row \<Rightarrow> image_layer" where
  "layer_of_rows l f = zero_layer\<lparr>il_Serial := fr_id f, il_StackIndex := lr_stackIndex l,
     il_Hash := fr_digest f, il_UncompressedSize := fr_size f\<rparr>"

definition image_rows :: "int \<Rightarrow> meta_db \<Rightarrow> layer_row list" where
  "image_rows serial db = sort_key lr_stackIndex (filter (\<lambda>l. lr_image l = serial) (md_layers db))"

lemma GetLayers_rows:
  assumes "GetLayers flt serial db = Inr ls"
  shows "list_all2 (\<lambda>l y. \<exists>f. find (\<lambda>f. fr_id f = lr_layer l) (md_fs db) = Some f \<and> y = layer_of_rows l f)
    (image_rows serial db) ls"
proof -
  let ?rows = "image_rows serial db"
  have whole: "cursor flt ''select layers'' ?rows = ?rows"
    and fold: "fold_result (\<lambda>l r. case find (\<lambda>f. fr_id f = lr_layer l) (md_fs db) of
          None \<Rightarrow> Inl (wrap ''failed to scan file'' (Fail (ExtError ''converting NULL'')))
        | Some f \<Rightarrow> Inr (r @ [layer_of_rows l f])) (cursor flt ''select layers'' ?rows) [] = Inr ls"
    using assms unfolding GetLayers_def image_rows_def layer_of_rows_def
    by (auto simp: Let_def cursor_whole split: sum.splits if_splits)
  show ?thesis using fold_result_scan [OF fold] unfolding whole by simp
qed

lemma sorted_image_rows: "sorted (map lr_stackIndex (image_rows serial db))"
  by (simp add: image_rows_def)

lemma distinct_image_rows:
  assumes "db_inv db"
  shows "distinct (map lr_stackIndex (image_rows serial db))"
proof -
  let ?sel = "filter (\<lambda>l. lr_image l = serial) (md_layers db)"
  have "distinct (map layer_key (md_layers db))" using db_inv_parts(2) [OF assms] by (simp add: table_ok_def)
  then have "distinct (md_layers db)" "inj_on layer_key (set (md_layers db))" by (auto simp: distinct_map)
  then have "distinct ?sel" "inj_on lr_stackIndex (set ?sel)"
    by (auto simp: inj_on_def layer_key_def)
  then show ?thesis by (simp add: image_rows_def distinct_map)
qed

text \<open>With the invariant no layer lacks its filesystem, so the scan of the layers succeeds.\<close>

lemma GetLayers_total:
  assumes "db_inv db"
  shows "\<exists>ls. GetLayers no_faults serial db = Inr ls"
proof -
  have "\<exists>f. find (\<lambda>f. fr_id f = lr_layer l) (md_fs db) = Some f" if "l \<in> set (image_rows serial db)" for l
  proof -
    have "l \<in> set (md_layers db)" using that by (simp add: image_rows_def)
    then obtain f where "f \<in> set (md_fs db)" "fr_id f = lr_layer l" using db_inv_parts(6) [OF assms] by force
    then show ?thesis by (cases "find (\<lambda>f. fr_id f = lr_layer l) (md_fs db)") (auto dest: find_NoneD)
  qed
  then have "fold_result (\<lambda>l r. case find (\<lambda>f. fr_id f = lr_layer l) (md_fs db) of
          None \<Rightarrow> Inl (wrap ''failed to scan file'' (Fail (ExtError ''converting NULL'')))
        | Some f \<Rightarrow> Inr (r @ [zero_layer\<lparr>il_Serial := fr_id f, il_StackIndex := lr_stackIndex l,
                                  il_Hash := fr_digest f, il_UncompressedSize := fr_size f\<rparr>])) (image_rows serial db) []
     = Inr ([] @ map (\<lambda>l. layer_of_rows l (the (find (\<lambda>f. fr_id f = lr_layer l) (md_fs db)))) (image_rows serial db))"
    by (intro fold_result_map) (force simp: layer_of_rows_def)
  then show ?thesis
    by (auto simp: GetLayers_def image_rows_def [symmetric] cursor_broke_def no_faults_def [THEN arg_cong, of f_rows])
qed

lemma GetLayers_map:
  assumes "GetLayers flt serial db = Inr ls"
  shows "map il_StackIndex ls = map lr_stackIndex (image_rows serial db)"
    and "map il_Serial ls = map lr_layer (image_rows serial db)"
    and "l \<in> set ls \<Longrightarrow> il_Available l = False \<and> il_Blob l = None"
    and "l \<in> set ls \<Longrightarrow> \<exists>f \<in> set (md_fs db). il_Serial l = fr_id f \<and> il_Hash l = fr_digest f \<and> il_UncompressedSize l = fr_size f"
proof -
  note rows = GetLayers_rows [OF assms]
  have "il_StackIndex y = lr_stackIndex l \<and> il_Serial y = lr_layer l \<and> il_Available y = False \<and> il_Blob y = None \<and>
      (\<exists>f \<in> set (md_fs db). il_Serial y = fr_id f \<and> il_Hash y = fr_digest f \<and> il_UncompressedSize y = fr_size f)"
    if row: "\<exists>f. find (\<lambda>f. fr_id f = lr_layer l) (md_fs db) = Some f \<and> y = layer_of_rows l f" for l y
  proof -
    obtain f where f: "find (\<lambda>f. fr_id f = lr_layer l) (md_fs db) = Some f" "y = layer_of_rows l f" using row by blast
    have "f \<in> set (md_fs db) \<and> fr_id f = lr_layer l" using find_SomeD [OF f(1)] .
    then show ?thesis by (auto simp: f(2) layer_of_rows_def zero_layer_def intro!: bexI [of _ f])
  qed
  then have all: "list_all2 (\<lambda>l y. il_StackIndex y = lr_stackIndex l \<and> il_Serial y = lr_layer l \<and> il_Available y = False \<and>
      il_Blob y = None \<and> (\<exists>f \<in> set (md_fs db). il_Serial y = fr_id f \<and> il_Hash y = fr_digest f \<and> il_UncompressedSize y = fr_size f))
      (image_rows serial db) ls"
    using rows by (rule list_all2_mono [rotated])
  then show "map il_StackIndex ls = map lr_stackIndex (image_rows serial db)"
    "map il_Serial ls = map lr_layer (image_rows serial db)"
    by (auto simp: list_all2_conv_all_nth intro!: nth_equalityI)
  show "l \<in> set ls \<Longrightarrow> il_Available l = False \<and> il_Blob l = None"
    "l \<in> set ls \<Longrightarrow> \<exists>f \<in> set (md_fs db). il_Serial l = fr_id f \<and> il_Hash l = fr_digest f \<and> il_UncompressedSize l = fr_size f"
    using all by (auto simp: list_all2_conv_all_nth in_set_conv_nth)
qed

lemma GetLayers_row:
  assumes "GetLayers flt serial db = Inr ls" "r \<in> set (image_rows serial db)"
  shows "\<exists>l \<in> set ls. il_StackIndex l = lr_stackIndex r \<and> il_Serial l = lr_layer r"
proof -
  obtain i where i: "i < length (image_rows serial db)" "r = image_rows serial db ! i"
    using assms(2) by (auto simp: in_set_conv_nth)
  have m: "map il_StackIndex ls = map lr_stackIndex (image_rows serial db)"
    "map il_Serial ls = map lr_layer (image_rows serial db)" by (rule GetLayers_map [OF assms(1)])+
  have len: "length ls = length (image_rows serial db)" using m(1) by (metis length_map)
  have "il_StackIndex (ls ! i) = lr_stackIndex r" "il_Serial (ls ! i) = lr_layer r"
    using m i len by (metis nth_map)+
  then show ?thesis using i(1) len by (metis nth_mem)
qed

definition db_files :: "bool \<Rightarrow> faults \<Rightarrow> int \<Rightarrow> meta_db \<Rightarrow> ranked_file list result" where
  "db_files noSort flt serial db =
     (if noSort then GetFilesWithoutRanks flt serial db else GetFilesWithRanks flt serial db)"

lemma layer_files_iff:
  "(l, x) \<in> set (layer_files serial db) \<longleftrightarrow>
     l \<in> set (image_rows serial db) \<and> x \<in> set (md_files db) \<and> xr_fs x = lr_layer l \<and> lr_layer l \<in> fr_id ` set (md_fs db)"
  by (auto simp: layer_files_def image_rows_def)

lemma sorted_layer_files: "sorted (map (\<lambda>lx. lr_stackIndex (fst lx)) (layer_files serial db))"
proof -
  have "sorted (map (\<lambda>lx. lr_stackIndex (fst lx)) (concat (map (\<lambda>l. map (Pair l) (F l)) ls)))"
    if "sorted (map lr_stackIndex ls)" for F :: "layer_row \<Rightarrow> file_row list" and ls
    using that by (induction ls) (auto simp: sorted_append comp_def map_replicate_const)
  then show ?thesis unfolding layer_files_def by simp
qed

lemma db_files_rows:
  assumes "db_files noSort flt serial db = Inr fs"
  obtains rk rows where "fs = map (ranked_of rk) rows" "set rows \<subseteq> set (layer_files serial db)"
    "sorted (map (\<lambda>lx. lr_stackIndex (fst lx)) rows)"
proof (cases noSort)
  case True
  show thesis
    by (rule that) (use assms True in \<open>auto simp: db_files_def GetFilesWithoutRanks_def sorted_cursor sorted_layer_files
      dest: subsetD [OF cursor_subset]\<close>)
next
  case False
  show thesis
    by (rule that) (use assms False in \<open>auto simp: db_files_def GetFilesWithRanks_def sorted_cursor sorted_layer_files
      dest: subsetD [OF cursor_subset]\<close>)
qed

section \<open>The contract of the metadata store\<close>

text \<open>
  What the builder relies on: queries for the layers of an image, for its files, and for the
  files of a list of layers.
\<close>

locale metadata_store =
  fixes inv :: "'db \<Rightarrow> bool"
    and layers_of :: "int \<Rightarrow> 'db \<Rightarrow> image_layer list result"
    and unique_of :: "image_layer list \<Rightarrow> 'db \<Rightarrow> sfile list result"
    and files_of :: "int \<Rightarrow> 'db \<Rightarrow> ranked_file list result"
  assumes layers_distinct: "inv db \<Longrightarrow> layers_of s db = Inr ls \<Longrightarrow> distinct (map il_StackIndex ls)"
    and layers_identity: "inv db \<Longrightarrow> layers_of s db = Inr ls \<Longrightarrow> layers_of s' db = Inr ls' \<Longrightarrow>
      l \<in> set ls \<Longrightarrow> l' \<in> set ls' \<Longrightarrow>
      il_Serial l = il_Serial l' \<longleftrightarrow> il_Hash l = il_Hash l' \<and> il_UncompressedSize l = il_UncompressedSize l'"
    and layers_positive: "inv db \<Longrightarrow> layers_of s db = Inr ls \<Longrightarrow> l \<in> set ls \<Longrightarrow> 0 < il_Serial l"
    and unique_from: "inv db \<Longrightarrow> unique_of ls db = Inr xs \<Longrightarrow> x \<in> set xs \<Longrightarrow>
      sf_FsId x \<in> il_Serial ` set ls \<and> 0 < sf_FsId x \<and> e_Digest (sf_TOC x) \<noteq> []"
    and files_sorted: "files_of s db = Inr fs \<Longrightarrow> sorted (map rf_Stack fs)"
    and files_unreferenced: "files_of s db = Inr fs \<Longrightarrow> f \<in> set fs \<Longrightarrow>
      rf_ReferenceFsId f = 0 \<and> rf_ReferenceStack f = 0 \<and> rf_PayloadOrder f = 0"
    and files_layer: "inv db \<Longrightarrow> layers_of s db = Inr ls \<Longrightarrow> files_of s db = Inr fs \<Longrightarrow> f \<in> set fs \<Longrightarrow>
      \<exists>l \<in> set ls. il_StackIndex l = rf_Stack f \<and> il_Serial l = rf_FsId f"
begin

text \<open>The stack of a file identifies its layer.\<close>

lemma file_stack_layer:
  assumes "inv db" "layers_of s db = Inr ls" "files_of s db = Inr fs" "f \<in> set fs" "l \<in> set ls"
    "il_StackIndex l = rf_Stack f"
  shows "il_Serial l = rf_FsId f"
proof -
  obtain l' where l': "l' \<in> set ls" "il_StackIndex l' = rf_Stack f" "il_Serial l' = rf_FsId f"
    using files_layer [OF assms(1-4)] by blast
  have "inj_on il_StackIndex (set ls)" using layers_distinct [OF assms(1,2)] by (simp add: distinct_map)
  then have "l = l'" using l' assms(5,6) by (metis inj_onD)
  then show ?thesis using l'(3) by simp
qed

end

lemma GetUniqueFiles_from:
  assumes "db_inv db" "GetUniqueFiles flt ls db = Inr xs" "x \<in> set xs"
  shows "\<exists>r \<in> set (md_files db). xr_fs r = sf_FsId x \<and> xr_hash r = e_Digest (sf_TOC x) \<and>
    sf_FsId x \<in> il_Serial ` set ls \<and> e_Digest (sf_TOC x) \<noteq> []"
  using assms db_inv_parts(8) [OF assms(1)] unfolding GetUniqueFiles_def
  by (force simp: Let_def meta_matches_def dest!: subsetD [OF cursor_subset])

lemma fs_id_pos: "db_inv db \<Longrightarrow> f \<in> set (md_fs db) \<Longrightarrow> 0 < fr_id f"
  using table_ok_pos [OF db_inv_parts(3)] .

lemma db_store:
  "metadata_store db_inv (GetLayers flt) (GetUniqueFiles flt) (db_files noSort flt)"
proof
  fix db s ls s' ls' l l'
  assume inv: "db_inv db" and ls: "GetLayers flt s db = Inr ls"
  show "distinct (map il_StackIndex ls)"
    using distinct_image_rows [OF inv] GetLayers_map(1) [OF ls] by simp
  show "l \<in> set ls \<Longrightarrow> 0 < il_Serial l"
    using GetLayers_map(4) [OF ls] fs_id_pos [OF inv] by force
  assume "GetLayers flt s' db = Inr ls'" "l \<in> set ls" "l' \<in> set ls'"
  then obtain f f' where "f \<in> set (md_fs db)" "il_Serial l = fr_id f" "il_Hash l = fr_digest f" "il_UncompressedSize l = fr_size f"
    "f' \<in> set (md_fs db)" "il_Serial l' = fr_id f'" "il_Hash l' = fr_digest f'" "il_UncompressedSize l' = fr_size f'"
    using GetLayers_map(4) [OF ls] GetLayers_map(4) by metis
  then show "il_Serial l = il_Serial l' \<longleftrightarrow> il_Hash l = il_Hash l' \<and> il_UncompressedSize l = il_UncompressedSize l'"
    using table_ok_unique [OF db_inv_parts(3) [OF inv], of f f'] by (auto simp: fs_key_def)
next
  fix db ls xs x
  assume inv: "db_inv db" and "GetUniqueFiles flt ls db = Inr xs" "x \<in> set xs"
  then show "sf_FsId x \<in> il_Serial ` set ls \<and> 0 < sf_FsId x \<and> e_Digest (sf_TOC x) \<noteq> []"
    using GetUniqueFiles_from db_inv_parts(7) [OF inv] fs_id_pos [OF inv] by (metis imageE)
next
  fix s db fs f
  assume fs: "db_files noSort flt s db = Inr fs"
  obtain rk rows where rows: "fs = map (ranked_of rk) rows" "set rows \<subseteq> set (layer_files s db)"
    "sorted (map (\<lambda>lx. lr_stackIndex (fst lx)) rows)" by (rule db_files_rows [OF fs])
  have "map rf_Stack fs = map (\<lambda>lx. lr_stackIndex (fst lx)) rows" by (simp add: rows(1) ranked_of_def)
  then show "sorted (map rf_Stack fs)" using rows(3) by metis
  show "f \<in> set fs \<Longrightarrow> rf_ReferenceFsId f = 0 \<and> rf_ReferenceStack f = 0 \<and> rf_PayloadOrder f = 0"
    by (auto simp: rows(1) ranked_of_def)
  fix ls
  assume inv: "db_inv db" and ls: "GetLayers flt s db = Inr ls" and "f \<in> set fs"
  then obtain l x where lx: "(l, x) \<in> set (layer_files s db)" "f = ranked_of rk (l, x)" using rows(1,2) by auto
  then show "\<exists>l \<in> set ls. il_StackIndex l = rf_Stack f \<and> il_Serial l = rf_FsId f"
    using GetLayers_row [OF ls, of l] by (auto simp: layer_files_iff ranked_of_def)
qed

interpretation store: metadata_store db_inv "GetLayers flt" "GetUniqueFiles flt" "db_files noSort flt" for flt noSort
  by (rule db_store)

end
