(* ===== verification/Delta_Builder.thy ===== *)
theory Delta_Builder
  imports Meta_DB
begin

text \<open>
  proxy/builder.go: the builder that computes a delta bundle. Given the images on the client
  and the requested image, \<^verbatim>\<open>computeDelta\<close> decides for each requested file whether its content is
  on the client, and lays the other contents out in the body of the bundle; \<^verbatim>\<open>Load\<close> fetches the
  compressed layers, and \<^verbatim>\<open>WriteBody\<close> copies the chunks of the contents from them.

  The files of a content are indices into the requested files, the layers to be fetched are
  indices into the layers of the destination. The order in which Go ranges over a map is a
  parameter \<open>iter\<close>, a permutation of the entries.
\<close>

section \<open>The builder\<close>

record builder = delta_bundle +
  b_manifest :: string
  b_config :: string
  b_manifestDigest :: string
  b_disableSorting :: bool
  b_unavailable :: "nat list"

definition source_layers :: "'a delta_bundle_scheme \<Rightarrow> image_layer list" where
  "source_layers b = (case db_Source b of None \<Rightarrow> [] | Some im \<Rightarrow> im_Layers im)"

text \<open>
  \<^verbatim>\<open>getUnavailableLayers\<close>: the layers of the destination whose hash no source layer has. (The
  branch that marks a hash again when it is there already has no effect.)
\<close>

definition getUnavailableLayers :: "'a delta_bundle_scheme \<Rightarrow> nat list" where
  "getUnavailableLayers b =
     filter (\<lambda>i. il_Hash (im_Layers (db_Destination b) ! i) \<notin> set (map il_Hash (source_layers b)))
       [0..<length (im_Layers (db_Destination b))]"

section \<open>computeDelta\<close>

subsection \<open>Available layers and existing files\<close>

definition available_layers :: "'a delta_bundle_scheme \<Rightarrow> image_layer list" where
  "available_layers b = filter il_Available (source_layers b) @ filter il_Available (im_Layers (db_Destination b))"

definition mark_layers :: "layer_source \<Rightarrow> image_layer list \<Rightarrow> (int \<rightharpoonup> layer_source) \<Rightarrow> (int \<rightharpoonup> layer_source)" where
  "mark_layers src ls m = foldl (\<lambda>m l. if il_Available l then m(il_Serial l \<mapsto> src) else m) m ls"

definition availableIds :: "'a delta_bundle_scheme \<Rightarrow> (int \<rightharpoonup> layer_source)" where
  "availableIds b = mark_layers FromDestination (im_Layers (db_Destination b))
     (mark_layers FromSource (source_layers b) Map.empty)"

text \<open>Reading a missing key of the Go map gives false, that is \<open>FromDestination\<close>.\<close>

definition layer_source_of :: "(int \<rightharpoonup> layer_source) \<Rightarrow> int \<Rightarrow> layer_source" where
  "layer_source_of m i = (case m i of None \<Rightarrow> False | Some s \<Rightarrow> s)"

definition add_existing :: "(int \<rightharpoonup> layer_source) \<Rightarrow> (string \<rightharpoonup> sfile) \<Rightarrow> sfile \<Rightarrow> (string \<rightharpoonup> sfile)" where
  "add_existing avail m f =
     (case m (e_Digest (sf_TOC f)) of
        Some fe \<Rightarrow> (if sf_FsId f < sf_FsId fe \<or> layer_source_of avail (sf_FsId f) = FromDestination then m
                   else m(e_Digest (sf_TOC f) \<mapsto> f))
      | None \<Rightarrow> m(e_Digest (sf_TOC f) \<mapsto> f))"

definition dedup_existing :: "(int \<rightharpoonup> layer_source) \<Rightarrow> sfile list \<Rightarrow> (string \<rightharpoonup> sfile)" where
  "dedup_existing avail fs = foldl (add_existing avail) Map.empty fs"

subsection \<open>Requested contents\<close>

definition wanted :: "(int \<rightharpoonup> layer_source) \<Rightarrow> ranked_file \<Rightarrow> bool" where
  "wanted avail f \<longleftrightarrow> rf_Digest f \<noteq> [] \<and> rf_Size f \<noteq> 0 \<and> avail (rf_FsId f) = None"

definition add_request :: "(int \<rightharpoonup> layer_source) \<Rightarrow> ranked_file list \<Rightarrow> (string \<times> content) list \<Rightarrow> nat
    \<Rightarrow> (string \<times> content) list" where
  "add_request avail files m i =
     (if \<not> wanted avail (files ! i) then m
      else case map_of m (rf_Digest (files ! i)) of
        Some fe \<Rightarrow> AList.update (rf_Digest (files ! i)) (fe\<lparr>ct_Files := ct_Files fe @ [i]\<rparr>) m
      | None \<Rightarrow> AList.update (rf_Digest (files ! i)) (zero_content\<lparr>ct_Files := [i]\<rparr>) m)"

definition group_requested :: "(int \<rightharpoonup> layer_source) \<Rightarrow> ranked_file list \<Rightarrow> (string \<times> content) list" where
  "group_requested avail files = foldl (add_request avail files) [] [0..<length files]"

subsection \<open>References\<close>

text \<open>A loop over the files of a content that changes each of them.\<close>

fun update_files :: "('f \<Rightarrow> 'f) \<Rightarrow> nat list \<Rightarrow> 'f list \<Rightarrow> 'f list" where
  "update_files g [] fs = fs"
| "update_files g (i # is) fs = update_files g is (fs[i := g (fs ! i)])"

definition rank_step :: "ranked_file list \<Rightarrow> content \<Rightarrow> nat \<Rightarrow> content" where
  "rank_step files c i =
     (let f = files ! i;
          c1 = (if rf_Rank f < ct_Rank c then c\<lparr>ct_Rank := rf_Rank f\<rparr> else c)
      in if rf_Stack f < ct_Stack c1 then c1\<lparr>ct_Stack := rf_Stack f\<rparr> else c1)"

definition rank_content :: "ranked_file list \<Rightarrow> content \<Rightarrow> content" where
  "rank_content files c = foldl (rank_step files)
       (c\<lparr>ct_Rank := max_float64, ct_Stack := rf_Stack (files ! hd (ct_Files c))\<rparr>) (ct_Files c)"

definition reference_step :: "(string \<rightharpoonup> sfile) \<Rightarrow> ranked_file list \<times> content list \<Rightarrow> string \<times> content
    \<Rightarrow> ranked_file list \<times> content list" where
  "reference_step existing fc dc =
     (case existing (fst dc) of
        Some ex \<Rightarrow> (update_files (\<lambda>r. r\<lparr>rf_ReferenceFsId := sf_FsId ex\<rparr>) (ct_Files (snd dc)) (fst fc), snd fc)
      | None \<Rightarrow> (fst fc, snd fc @ [rank_content (fst fc) (snd dc)]))"

definition reference_contents :: "(string \<rightharpoonup> sfile) \<Rightarrow> ranked_file list \<Rightarrow> (string \<times> content) list
    \<Rightarrow> ranked_file list \<times> content list" where
  "reference_contents existing files m = foldl (reference_step existing) (files, []) m"

subsection \<open>Layout of the body\<close>

definition content_chunks :: "ranked_file \<Rightarrow> file_chunk list" where
  "content_chunks f =
     (if sf_ParsingChunks (rf_File f) \<noteq> [] then sf_ParsingChunks (rf_File f)
      else [chunk_of_entry (sf_TOC (rf_File f))])"

text \<open>
  One turn of the layout loop, for the content number \<open>idx\<close>, with the body length so far.
\<close>

definition place_content :: "ranked_file list \<Rightarrow> int \<Rightarrow> content \<Rightarrow> content" where
  "place_content files len c =
     (let f = files ! hd (ct_Files c);
          c1 = c\<lparr>ct_Offset := len, ct_Digest := rf_Digest f\<rparr>
      in if sf_ParsingChunks (rf_File f) \<noteq> []
         then c1\<lparr>ct_Size := ct_Size c + sum_list (map fc_CompressedSize (sf_ParsingChunks (rf_File f))),
                 ct_Chunks := sf_ParsingChunks (rf_File f)\<rparr>
         else c1\<lparr>ct_Size := e_CompressedSize (sf_TOC (rf_File f)),
                 ct_Chunks := [chunk_of_entry (sf_TOC (rf_File f))]\<rparr>)"

definition layout_refs :: "content \<Rightarrow> int \<Rightarrow> ranked_file list \<Rightarrow> ranked_file list" where
  "layout_refs c idx files =
     update_files (\<lambda>f. f\<lparr>rf_ReferenceStack := ct_Stack c, rf_PayloadOrder := idx\<rparr>) (ct_Files c) files"

fun layout :: "int \<Rightarrow> int \<Rightarrow> content list \<Rightarrow> ranked_file list \<Rightarrow> ranked_file list \<times> content list \<times> int" where
  "layout idx len [] files = (files, [], len)"
| "layout idx len (c # cs) files =
     (let files1 = layout_refs c idx files;
          c1 = place_content files1 len c;
          (files2, cs2, len2) = layout (idx + 1) (len + ct_Size c1) cs files1
      in (files2, c1 # cs2, len2))"

text \<open>The computation on the answers of the database.\<close>

definition delta_of :: "((string \<times> content) list \<Rightarrow> (string \<times> content) list) \<Rightarrow> bool \<Rightarrow> (int \<rightharpoonup> layer_source)
    \<Rightarrow> sfile list \<Rightarrow> ranked_file list \<Rightarrow> ranked_file list \<times> content list \<times> int" where
  "delta_of iter noSort avail existing requested =
     (let (files, contents) = reference_contents (dedup_existing avail existing) requested
                                (iter (group_requested avail requested));
          ordered = (if noSort then contents else sort_less ByRank_Less contents)
      in layout 0 0 ordered files)"

definition computeDelta :: "((string \<times> content) list \<Rightarrow> (string \<times> content) list) \<Rightarrow> faults \<Rightarrow> meta_db
    \<Rightarrow> 'a builder_scheme \<Rightarrow> 'a builder_scheme result" where
  "computeDelta iter flt db b =
     (case GetUniqueFiles flt (available_layers b) db of
        Inl e \<Rightarrow> Inl (wrap ''failed to get existing files'' e)
      | Inr existing \<Rightarrow>
          (case (if b_disableSorting b then GetFilesWithoutRanks flt (im_Serial (db_Destination b)) db
                 else GetFilesWithRanks flt (im_Serial (db_Destination b)) db) of
             Inl e \<Rightarrow> Inl (wrap ''failed to get requested files'' e)
           | Inr requested \<Rightarrow>
               (let (files, contents, len) =
                      delta_of iter (b_disableSorting b) (availableIds b) existing requested
                in Inr (b\<lparr>db_RequestedFiles := files, db_Contents := contents, db_BodyLength := len\<rparr>))))"

section \<open>Fetching layers\<close>

text \<open>
  \<^verbatim>\<open>fetchLayers\<close> as the steps of one request \<open>t\<close> that no other request interrupts; \<open>None\<close> when
  it has to wait for a layer that another request is loading.
\<close>

definition fetchLayers :: "registry_answer \<Rightarrow> int \<Rightarrow> nat \<Rightarrow> image_layer \<Rightarrow> cache_sys
    \<Rightarrow> (cache_sys \<times> image_layer result) option" where
  "fetchLayers ans now t il s =
     (let s1 = fetch_lookup t now (il_Hash il) (il_UncompressedSize il) s;
          s2 = (case cs_pc s1 t of Found a \<Rightarrow> fetch_subscribe t a s1
                | Loading a \<Rightarrow> fetch_load t a ans s1 | _ \<Rightarrow> s1)
      in case cs_pc s2 t of
           Done a \<Rightarrow> Some (s2, Inr (il\<lparr>il_Blob := Some a\<rparr>))
         | Failed e \<Rightarrow> Some (s2, Inl (Fail e))
         | _ \<Rightarrow> None)"

text \<open>
  The tasks of \<^verbatim>\<open>Load\<close>, in some order: the layers, the manifest, the delta. Every task runs to its
  end; the first error is the result. The registry answers for a hash, and the task of the
  layer \<open>i\<close> is the request \<open>i\<close> of the cache.
\<close>

fun load_layers :: "(string \<Rightarrow> registry_answer) \<Rightarrow> int \<Rightarrow> nat list \<Rightarrow> cache_sys \<Rightarrow> image_layer list
    \<Rightarrow> (cache_sys \<times> image_layer list \<times> failure option) option" where
  "load_layers reg now [] s ls = Some (s, ls, None)"
| "load_layers reg now (i # is) s ls =
     (case fetchLayers (reg (il_Hash (ls ! i))) now i (ls ! i) s of
        None \<Rightarrow> None
      | Some (s1, Inl e) \<Rightarrow>
          map_option (\<lambda>(s2, ls2, _). (s2, ls2, Some e)) (load_layers reg now is s1 ls)
      | Some (s1, Inr il) \<Rightarrow> load_layers reg now is s1 (ls[i := il]))"

definition load_manifest :: "faults \<Rightarrow> meta_db \<Rightarrow> 'a builder_scheme \<Rightarrow> 'a builder_scheme result" where
  "load_manifest flt db b =
     (case GetManifestAndConfig flt (im_Serial (db_Destination b)) db of
        Inl e \<Rightarrow> Inl e
      | Inr (c, m, d) \<Rightarrow> Inr (b\<lparr>b_config := c, b_manifest := m, b_manifestDigest := d\<rparr>))"

definition set_layers :: "image_layer list \<Rightarrow> 'a builder_scheme \<Rightarrow> 'a builder_scheme" where
  "set_layers ls b = b\<lparr>db_Destination := (db_Destination b)\<lparr>im_Layers := ls\<rparr>\<rparr>"

definition Builder_Load :: "((string \<times> content) list \<Rightarrow> (string \<times> content) list) \<Rightarrow> faults \<Rightarrow> meta_db
    \<Rightarrow> (string \<Rightarrow> registry_answer) \<Rightarrow> int \<Rightarrow> cache_sys \<Rightarrow> 'a builder_scheme
    \<Rightarrow> (cache_sys \<times> 'a builder_scheme result) option" where
  "Builder_Load iter flt db reg now s b =
     (case load_layers reg now (b_unavailable b) s (im_Layers (db_Destination b)) of
        None \<Rightarrow> None
      | Some (s1, ls, Some e) \<Rightarrow> Some (s1, Inl (wrap ''failed to load all compressed layer'' e))
      | Some (s1, ls, None) \<Rightarrow>
          Some (s1,
            case load_manifest flt db (set_layers ls b) of
              Inl e \<Rightarrow> Inl (wrap ''failed to load all compressed layer'' e)
            | Inr b1 \<Rightarrow>
                (case computeDelta iter flt db b1 of
                   Inl e \<Rightarrow> Inl (wrap ''failed to load all compressed layer'' e)
                 | Inr b2 \<Rightarrow> Inr b2)))"

section \<open>Writing the body\<close>

text \<open>
  What \<^verbatim>\<open>io.CopyN\<close> copies from the section of a chunk of a layer: the bytes it writes, and
  the error. The outer section has the size that the database holds for the layer; its bounds
  are checked before the buffer is touched, so a nil buffer (\<open>None\<close>) panics only when the
  chunk begins inside the layer.
\<close>

definition copy_chunk :: "byte list option \<Rightarrow> int \<Rightarrow> file_chunk \<Rightarrow> byte list \<times> failure option" where
  "copy_chunk buf uncompressedSize chunk =
     (if fc_CompressedSize chunk \<le> 0 then ([], None)
      else if fc_Offset chunk < 0 \<or> uncompressedSize \<le> fc_Offset chunk then ([], Some (Fail (ExtError ''EOF'')))
      else case buf of
        None \<Rightarrow> ([], Some (Panic ''invalid memory address or nil pointer dereference''))
      | Some bs \<Rightarrow>
          (let out = take (nat (fc_CompressedSize chunk))
                       (drop (nat (fc_Offset chunk)) (take (nat uncompressedSize) bs))
           in (out, if int (length out) = fc_CompressedSize chunk then None else Some (Fail (ExtError ''EOF'')))))"

fun copy_chunks :: "byte list option \<Rightarrow> int \<Rightarrow> string \<Rightarrow> file_chunk list \<Rightarrow> byte list \<times> failure option" where
  "copy_chunks buf sz name [] = ([], None)"
| "copy_chunks buf sz name (k # ks) =
     (case copy_chunk buf sz k of
        (out, Some e) \<Rightarrow> (out, Some (wrap (''failed to copy chunk at ['' @ itoa (fc_Offset k) @
                                            ''] for file ['' @ name @ '']'') e))
      | (out, None) \<Rightarrow> (let (out2, e) = copy_chunks buf sz name ks in (out @ out2, e)))"

definition content_name :: "ranked_file list \<Rightarrow> content \<Rightarrow> string" where
  "content_name files c = e_Name (sf_TOC (rf_File (files ! hd (ct_Files c))))"

definition write_content :: "layer_cache list \<Rightarrow> image_layer list \<Rightarrow> ranked_file list \<Rightarrow> content
    \<Rightarrow> byte list \<times> failure option" where
  "write_content st layers files c =
     (if ct_Stack c < 0 \<or> int (length layers) \<le> ct_Stack c
      then ([], Some (Panic ''index out of range''))
      else let layer = layers ! nat (ct_Stack c)
           in case il_Blob layer of
                Some a \<Rightarrow> copy_chunks (lc_Buffer (st ! a)) (il_UncompressedSize layer) (content_name files c) (ct_Chunks c)
              | None \<Rightarrow> ([], Some (Fail (Errorf (''layer '' @ itoa (ct_Stack c) @ '' not found for file ''
                          @ content_name files c @ '' (ref:'' @ itoa (int (length (ct_Files c))) @ '')'')))))"

fun write_contents :: "layer_cache list \<Rightarrow> image_layer list \<Rightarrow> ranked_file list \<Rightarrow> content list
    \<Rightarrow> byte list \<times> failure option" where
  "write_contents st layers files [] = ([], None)"
| "write_contents st layers files (c # cs) =
     (case write_content st layers files c of
        (out, Some e) \<Rightarrow> (out, Some e)
      | (out, None) \<Rightarrow> (let (out2, e) = write_contents st layers files cs in (out @ out2, e)))"

text \<open>\<^verbatim>\<open>WriteBody\<close>: what it writes to the response, which takes every byte, and its error.\<close>

definition WriteBody :: "layer_cache list \<Rightarrow> 'a delta_bundle_scheme \<Rightarrow> byte list \<times> failure option" where
  "WriteBody st b = write_contents st (im_Layers (db_Destination b)) (db_RequestedFiles b) (db_Contents b)"

section \<open>New builders\<close>

text \<open>
  \<open>parse\<close> is \<^verbatim>\<open>name.ParseReference\<close> with the server's default registry and the tag
  \<^verbatim>\<open>latest-starlight\<close>; \<open>newDigest\<close> gives the digest that \<^verbatim>\<open>name.NewDigest\<close> returns, whose error
  is dropped.
\<close>

record registry_config =
  rg_parse :: "string \<Rightarrow> reference result"
  rg_newDigest :: "string \<Rightarrow> string"
  rg_default :: string
  rg_alias :: "string list"

definition load_image :: "registry_config \<Rightarrow> faults \<Rightarrow> meta_db \<Rightarrow> reference \<Rightarrow> int \<Rightarrow> simage result" where
  "load_image rg flt db ref serial =
     (case GetLayers flt serial db of Inl e \<Rightarrow> Inl e
      | Inr ls \<Rightarrow> Inr \<lparr>im_Ref = ref_Name ref, im_Serial = serial,
          im_Layers = map (\<lambda>l. SetDigest (rg_newDigest rg (ref_Name ref @ ''@'' @ il_Hash l)) l) ls\<rparr>)"

definition getImage :: "registry_config \<Rightarrow> faults \<Rightarrow> meta_db \<Rightarrow> string \<Rightarrow> string \<Rightarrow> simage result" where
  "getImage rg flt db ref platform =
     (case rg_parse rg ref of Inl e \<Rightarrow> Inl e
      | Inr r \<Rightarrow>
          (let (refName, refTag) = ParseImageReference r (rg_default rg) (rg_alias rg)
           in case GetImage flt refName refTag platform db of Inl e \<Rightarrow> Inl e
              | Inr serial \<Rightarrow> load_image rg flt db r serial))"

definition getImageByDigest :: "registry_config \<Rightarrow> faults \<Rightarrow> meta_db \<Rightarrow> string \<Rightarrow> simage result" where
  "getImageByDigest rg flt db refWithDigest =
     (case rg_parse rg refWithDigest of Inl e \<Rightarrow> Inl e
      | Inr r \<Rightarrow>
          (let (refName, refTag) = ParseImageReference r (rg_default rg) (rg_alias rg)
           in case GetImageByDigest flt refName refTag db of
                Inl e \<Rightarrow> Inl (wrap ''failed to find image by digest in metadata database'' e)
              | Inr serial \<Rightarrow> load_image rg flt db r serial))"

text \<open>
  The end of \<^verbatim>\<open>NewBuilder\<close>, when both images are known: every source layer is available, the
  layers to fetch are not. The layers of the destination that the source has keep the value
  that they were made with.
\<close>

definition set_available :: "bool \<Rightarrow> image_layer \<Rightarrow> image_layer" where
  "set_available v l = l\<lparr>il_Available := v\<rparr>"

definition init_builder :: "simage option \<Rightarrow> simage \<Rightarrow> bool \<Rightarrow> builder" where
  "init_builder src dst disableSorting =
     (let b = \<lparr>db_Source = src, db_Destination = dst, db_Contents = [], db_BodyLength = 0, db_RequestedFiles = [],
               b_manifest = [], b_config = [], b_manifestDigest = [], b_disableSorting = disableSorting,
               b_unavailable = []\<rparr>;
          unavailable = (if src \<noteq> None then getUnavailableLayers b else [0..<length (im_Layers dst)])
      in b\<lparr>db_Source := map_option (\<lambda>im. im\<lparr>im_Layers := map (set_available True) (im_Layers im)\<rparr>) src,
           db_Destination := dst\<lparr>im_Layers := update_files (set_available False) unavailable (im_Layers dst)\<rparr>,
           b_unavailable := unavailable\<rparr>)"

definition NewBuilder :: "registry_config \<Rightarrow> faults \<Rightarrow> meta_db \<Rightarrow> string \<Rightarrow> string \<Rightarrow> string \<Rightarrow> bool \<Rightarrow> builder result" where
  "NewBuilder rg flt db src dst plt disableSorting =
     (case (if src \<noteq> [] then map_sum id Some (getImageByDigest rg flt db src) else Inr None) of
        Inl e \<Rightarrow> Inl (if e = Fail ErrNoRows then Fail (Errorf (''source image '' @ src @ '' not found''))
                     else wrap ''failed to get source image'' e)
      | Inr s \<Rightarrow>
          (case getImage rg flt db dst plt of
             Inl e \<Rightarrow> Inl (if e = Fail ErrNoRows then Fail (Errorf (''requested image '' @ dst @ '' not found''))
                          else wrap ''failed to obtain requested image'' e)
           | Inr d \<Rightarrow> Inr (init_builder s d disableSorting)))"

section \<open>Lemmas on the loops\<close>

lemma length_update_files [simp]: "length (update_files g is fs) = length fs"
  by (induction "is" arbitrary: fs) auto

lemma update_files_nth:
  "(\<And>x. g (g x) = g x) \<Longrightarrow> j < length fs \<Longrightarrow> update_files g is fs ! j = (if j \<in> set is then g (fs ! j) else fs ! j)"
proof (induction "is" arbitrary: fs)
  case (Cons i "is")
  then show ?case by (cases "i = j") auto
qed simp

lemma update_files_out: "j \<notin> set is \<Longrightarrow> update_files g is fs ! j = fs ! j"
  by (induction "is" arbitrary: fs) auto

lemma update_files_keep: "(\<And>x. h (g x) = h x) \<Longrightarrow> h (update_files g is fs ! j) = h (fs ! j)"
proof (induction "is" arbitrary: fs)
  case (Cons i "is")
  have "h (fs[i := g (fs ! i)] ! j) = h (fs ! j)"
    using Cons.prems by (cases "i = j"; cases "j < length fs") (auto simp: list_update_beyond)
  then show ?case using Cons by simp
qed simp

lemma mark_layers_dom:
  "dom (mark_layers s ls m) = il_Serial ` set (filter il_Available ls) \<union> dom m"
  unfolding mark_layers_def by (induction ls arbitrary: m) auto

lemma dom_availableIds: "dom (availableIds b) = il_Serial ` set (available_layers b)"
  by (auto simp: availableIds_def mark_layers_dom available_layers_def)

subsection \<open>Existing files\<close>

lemma dedup_existing_step:
  "add_existing avail m f d = Some x \<Longrightarrow> m d = Some x \<or> (x = f \<and> e_Digest (sf_TOC f) = d)"
  by (auto simp: add_existing_def split: option.splits if_splits)

lemma dedup_existing_sound:
  assumes "dedup_existing avail fs d = Some x"
  shows "x \<in> set fs \<and> e_Digest (sf_TOC x) = d"
proof -
  have "foldl (add_existing avail) m fs d = Some x \<Longrightarrow> m d = Some x \<or> (x \<in> set fs \<and> e_Digest (sf_TOC x) = d)" for m
    by (induction fs arbitrary: m) (auto dest!: dedup_existing_step)
  then show ?thesis using assms by (force simp: dedup_existing_def)
qed

lemma dom_add_existing: "dom (add_existing avail m f) = insert (e_Digest (sf_TOC f)) (dom m)"
  by (auto simp: add_existing_def split: option.splits if_splits)

lemma dedup_existing_complete: "dom (dedup_existing avail fs) = (\<lambda>f. e_Digest (sf_TOC f)) ` set fs"
proof -
  have "dom (foldl (add_existing avail) m fs) = (\<lambda>f. e_Digest (sf_TOC f)) ` set fs \<union> dom m" for m
    by (induction fs arbitrary: m) (auto simp: dom_add_existing)
  then show ?thesis by (simp add: dedup_existing_def)
qed

subsection \<open>Requested contents\<close>

text \<open>The files that one content of digest \<open>d\<close> gathers among the first \<open>n\<close>.\<close>

definition gathered :: "(int \<rightharpoonup> layer_source) \<Rightarrow> ranked_file list \<Rightarrow> string \<Rightarrow> nat \<Rightarrow> nat list" where
  "gathered avail files d n = filter (\<lambda>i. wanted avail (files ! i) \<and> rf_Digest (files ! i) = d) [0..<n]"

lemma gathered_Suc:
  "gathered avail files d (Suc n) = gathered avail files d n @
     (if wanted avail (files ! n) \<and> rf_Digest (files ! n) = d then [n] else [])"
  by (simp add: gathered_def)

lemma group_prefix:
  "distinct (keys (foldl (add_request avail files) [] [0..<n])) \<and>
   map_of (foldl (add_request avail files) [] [0..<n]) =
     (\<lambda>d. if gathered avail files d n = [] then None else Some (zero_content\<lparr>ct_Files := gathered avail files d n\<rparr>))"
proof (induction n)
  case 0
  then show ?case by (simp add: gathered_def)
next
  case (Suc n)
  let ?m = "foldl (add_request avail files) [] [0..<n]"
  have step: "foldl (add_request avail files) [] [0..<Suc n] = add_request avail files ?m n" by simp
  have dist: "distinct (keys ?m)" and m: "map_of ?m = (\<lambda>d. if gathered avail files d n = [] then None
      else Some (zero_content\<lparr>ct_Files := gathered avail files d n\<rparr>))"
    using Suc by auto
  show ?case
  proof (cases "wanted avail (files ! n)")
    case False
    then show ?thesis unfolding step using dist by (auto simp: add_request_def m gathered_Suc fun_eq_iff)
  next
    case True
    then show ?thesis unfolding step using dist
      by (auto simp: add_request_def m update_conv gathered_Suc fun_eq_iff)
  qed
qed

lemma group_requested_keys: "distinct (keys (group_requested avail files))"
  using group_prefix by (simp add: group_requested_def)

lemma group_requested_map:
  "map_of (group_requested avail files) =
     (\<lambda>d. if gathered avail files d (length files) = [] then None
          else Some (zero_content\<lparr>ct_Files := gathered avail files d (length files)\<rparr>))"
  using group_prefix by (simp add: group_requested_def)

lemma gathered_iff:
  "i \<in> set (gathered avail files d n) \<longleftrightarrow> i < n \<and> wanted avail (files ! i) \<and> rf_Digest (files ! i) = d"
  by (auto simp: gathered_def)

lemma group_requested_entry:
  assumes "(d, c) \<in> set (group_requested avail files)"
  shows "c = zero_content\<lparr>ct_Files := gathered avail files d (length files)\<rparr>"
    and "gathered avail files d (length files) \<noteq> []"
proof -
  have "map_of (group_requested avail files) d = Some c"
    using assms group_requested_keys [of avail files] by (simp add: keys_def map_of_eq_Some_iff)
  then show "c = zero_content\<lparr>ct_Files := gathered avail files d (length files)\<rparr>"
    "gathered avail files d (length files) \<noteq> []"
    by (auto simp: group_requested_map split: if_splits)
qed

lemma group_requested_has:
  assumes "j < length files" "wanted avail (files ! j)"
  shows "\<exists>c. (rf_Digest (files ! j), c) \<in> set (group_requested avail files)"
proof -
  have "j \<in> set (gathered avail files (rf_Digest (files ! j)) (length files))"
    using assms by (simp add: gathered_iff)
  then have "map_of (group_requested avail files) (rf_Digest (files ! j)) \<noteq> None"
    by (auto simp: group_requested_map)
  then show ?thesis by (auto dest: map_of_SomeD)
qed

subsection \<open>The reference step\<close>

lemma rank_content_cong:
  assumes "\<And>j. rf_Rank (fs ! j) = rf_Rank (gs ! j)" "\<And>j. rf_Stack (fs ! j) = rf_Stack (gs ! j)"
  shows "rank_content fs c = rank_content gs c"
proof -
  have "rank_step fs = rank_step gs"
    by (intro ext) (simp add: rank_step_def assms Let_def)
  then show ?thesis by (simp add: rank_content_def assms)
qed

lemma reference_step_keep:
  "rf_Rank (fst (reference_step ex (fs, cs) dc) ! j) = rf_Rank (fs ! j)"
  "rf_Stack (fst (reference_step ex (fs, cs) dc) ! j) = rf_Stack (fs ! j)"
  "rf_File (fst (reference_step ex (fs, cs) dc) ! j) = rf_File (fs ! j)"
  "length (fst (reference_step ex (fs, cs) dc)) = length fs"
  by (auto simp: reference_step_def update_files_keep split: option.splits)

lemma reference_contents_contents:
  assumes "\<And>j. rf_Rank (fs ! j) = rf_Rank (gs ! j)" "\<And>j. rf_Stack (fs ! j) = rf_Stack (gs ! j)"
  shows "snd (foldl (reference_step ex) (fs, cs) m) =
    cs @ map (\<lambda>dc. rank_content gs (snd dc)) (filter (\<lambda>dc. ex (fst dc) = None) m)"
  using assms
proof (induction m arbitrary: fs cs)
  case (Cons dc m)
  obtain fs1 cs1 where s: "reference_step ex (fs, cs) dc = (fs1, cs1)" by fastforce
  have "rf_Rank (fs1 ! j) = rf_Rank (gs ! j)" "rf_Stack (fs1 ! j) = rf_Stack (gs ! j)" for j
    using reference_step_keep(1,2) [of ex fs cs dc j] Cons.prems s by simp_all
  note IH = Cons.IH [OF this]
  have "cs1 = (if ex (fst dc) = None then cs @ [rank_content gs (snd dc)] else cs)"
    using s rank_content_cong [OF Cons.prems] by (auto simp: reference_step_def split: option.splits)
  then show ?case using IH s by simp
qed simp

definition referred :: "(string \<rightharpoonup> sfile) \<Rightarrow> string \<Rightarrow> ranked_file \<Rightarrow> ranked_file" where
  "referred ex d f = (case ex d of Some x \<Rightarrow> f\<lparr>rf_ReferenceFsId := sf_FsId x\<rparr> | None \<Rightarrow> f)"

lemma reference_contents_files:
  assumes "\<And>d c i. (d, c) \<in> set m \<Longrightarrow> i \<in> set (ct_Files c) \<Longrightarrow> dg i = d" and "j < length fs"
  shows "fst (foldl (reference_step ex) (fs, cs) m) ! j =
    (if \<exists>dc \<in> set m. j \<in> set (ct_Files (snd dc)) then referred ex (dg j) (fs ! j) else fs ! j)"
  using assms
proof (induction m arbitrary: fs cs)
  case (Cons dc m)
  obtain d c where dc: "dc = (d, c)" by (cases dc)
  obtain fs1 cs1 where s: "reference_step ex (fs, cs) dc = (fs1, cs1)" by fastforce
  have len: "j < length fs1" using reference_step_keep(4) [of ex fs cs dc] s Cons.prems(2) by simp
  have d: "dg j = d" if "j \<in> set (ct_Files c)" using Cons.prems(1) [of d c j] that dc by simp
  have fs1: "fs1 ! j = (if j \<in> set (ct_Files c) then referred ex (dg j) (fs ! j) else fs ! j)"
    using s dc d Cons.prems(2)
    by (auto simp: reference_step_def referred_def update_files_nth split: option.splits)
  have idem: "referred ex (dg j) (referred ex (dg j) f) = referred ex (dg j) f" for f
    by (simp add: referred_def split: option.splits)
  have "fst (foldl (reference_step ex) (fs1, cs1) m) ! j =
    (if \<exists>dc \<in> set m. j \<in> set (ct_Files (snd dc)) then referred ex (dg j) (fs1 ! j) else fs1 ! j)"
    by (rule Cons.IH [OF _ len]) (use Cons.prems(1) in auto)
  then show ?case using s dc fs1 idem by auto
qed simp

lemma length_reference_contents:
  "length (fst (foldl (reference_step ex) (fs, cs) m)) = length fs"
proof (induction m arbitrary: fs cs)
  case (Cons dc m)
  obtain fs1 cs1 where s: "reference_step ex (fs, cs) dc = (fs1, cs1)" by fastforce
  have "length fs1 = length fs" using reference_step_keep(4) [of ex fs cs dc] s by simp
  then show ?case using Cons [of fs1 cs1] s by simp
qed simp

subsection \<open>The rank and the stack of a content\<close>

lemma rank_step_simps:
  "ct_Rank (rank_step files c i) = min (ct_Rank c) (rf_Rank (files ! i))"
  "ct_Stack (rank_step files c i) = min (ct_Stack c) (rf_Stack (files ! i))"
  "ct_Files (rank_step files c i) = ct_Files c" "ct_Size (rank_step files c i) = ct_Size c"
  by (auto simp: rank_step_def Let_def min_def)

lemma Min_insert_min:
  "finite S \<Longrightarrow> Min (insert (min a b) S) = Min (insert a (insert b S))" for a b :: "'x :: linorder"
  by (cases "S = {}") (auto simp: min.assoc)

lemma rank_loop:
  "ct_Rank (foldl (rank_step files) c is) = Min (insert (ct_Rank c) ((\<lambda>i. rf_Rank (files ! i)) ` set is))"
  "ct_Stack (foldl (rank_step files) c is) = Min (insert (ct_Stack c) ((\<lambda>i. rf_Stack (files ! i)) ` set is))"
  by (induction "is" arbitrary: c) (simp_all add: rank_step_simps Min_insert_min del: Min_insert)

lemma rank_content_Rank:
  "ct_Rank (rank_content files c) = Min (insert max_float64 ((\<lambda>i. rf_Rank (files ! i)) ` set (ct_Files c)))"
  unfolding rank_content_def rank_loop by simp

lemma rank_content_Stack:
  assumes "ct_Files c \<noteq> []"
  shows "ct_Stack (rank_content files c) = Min ((\<lambda>i. rf_Stack (files ! i)) ` set (ct_Files c))"
proof -
  have "hd (ct_Files c) \<in> set (ct_Files c)" using assms by simp
  then have "insert (rf_Stack (files ! hd (ct_Files c))) ((\<lambda>i. rf_Stack (files ! i)) ` set (ct_Files c))
      = (\<lambda>i. rf_Stack (files ! i)) ` set (ct_Files c)" by blast
  then show ?thesis unfolding rank_content_def rank_loop by simp
qed

lemma rank_content_frame:
  "ct_Files (rank_content files c) = ct_Files c" "ct_Size (rank_content files c) = ct_Size c"
proof -
  have "ct_Files (foldl (rank_step files) c is) = ct_Files c" "ct_Size (foldl (rank_step files) c is) = ct_Size c" for c "is"
    by (induction "is" arbitrary: c) (auto simp: rank_step_simps)
  then show "ct_Files (rank_content files c) = ct_Files c" "ct_Size (rank_content files c) = ct_Size c"
    by (simp_all add: rank_content_def)
qed

subsection \<open>The layout\<close>

lemma layout_refs_keep: "rf_File (layout_refs c idx fs ! j) = rf_File (fs ! j)" "length (layout_refs c idx fs) = length fs"
  by (simp_all add: layout_refs_def update_files_keep)

lemma place_content_frame:
  "ct_Files (place_content fs len c) = ct_Files c" "ct_Rank (place_content fs len c) = ct_Rank c"
  "ct_Stack (place_content fs len c) = ct_Stack c" "ct_Offset (place_content fs len c) = len"
  "ct_Digest (place_content fs len c) = rf_Digest (fs ! hd (ct_Files c))"
  "ct_Chunks (place_content fs len c) = content_chunks (fs ! hd (ct_Files c))"
  "ct_Size c = 0 \<Longrightarrow> ct_Size (place_content fs len c) = sum_list (map fc_CompressedSize (content_chunks (fs ! hd (ct_Files c))))"
  by (auto simp: place_content_def Let_def content_chunks_def chunk_of_entry_def)

lemma place_content_cong: "(\<And>j. rf_File (fs ! j) = rf_File (gs ! j)) \<Longrightarrow> place_content fs len c = place_content gs len c"
  by (simp add: place_content_def Let_def)

fun place_all :: "ranked_file list \<Rightarrow> int \<Rightarrow> content list \<Rightarrow> content list" where
  "place_all fs len [] = []"
| "place_all fs len (c # cs) = place_content fs len c # place_all fs (len + ct_Size (place_content fs len c)) cs"

lemma place_all_cong: "(\<And>j. rf_File (fs ! j) = rf_File (gs ! j)) \<Longrightarrow> place_all fs len cs = place_all gs len cs"
  by (induction cs arbitrary: len) (simp_all add: place_content_cong [of fs gs])

lemma length_place_all [simp]: "length (place_all fs len cs) = length cs"
  by (induction cs arbitrary: len) auto

lemma place_all_nth:
  "k < length cs \<Longrightarrow>
   place_all fs len cs ! k = place_content fs (len + sum_list (map ct_Size (take k (place_all fs len cs)))) (cs ! k)"
  by (induction cs arbitrary: len k) (auto simp: nth_Cons add.assoc split: nat.splits)

lemma layout_contents:
  assumes "layout idx len cs fs = (fs', cs', len')"
  shows "cs' = place_all fs len cs \<and> len' = len + sum_list (map ct_Size cs') \<and> length fs' = length fs"
  using assms
proof (induction cs arbitrary: idx len fs fs' cs' len')
  case (Cons c cs)
  let ?fs1 = "layout_refs c idx fs"
  let ?c1 = "place_content ?fs1 len c"
  obtain fs2 cs2 len2 where l: "layout (idx + 1) (len + ct_Size ?c1) cs ?fs1 = (fs2, cs2, len2)"
    by (metis prod_cases3)
  have same: "place_all ?fs1 n cs = place_all fs n cs" "place_content ?fs1 len c = place_content fs len c" for n
    by (rule place_all_cong, rule layout_refs_keep) (rule place_content_cong, rule layout_refs_keep)
  have "fs' = fs2" "cs' = ?c1 # cs2" "len' = len2" using Cons.prems l by (simp_all add: Let_def)
  then show ?case using Cons.IH [OF l] same layout_refs_keep by simp
qed simp

definition laid_out :: "content \<Rightarrow> int \<Rightarrow> ranked_file \<Rightarrow> ranked_file" where
  "laid_out c k f = f\<lparr>rf_ReferenceStack := ct_Stack c, rf_PayloadOrder := k\<rparr>"

text \<open>When no file is in two contents, a file is changed by the content it is in only.\<close>

lemma layout_files_out:
  assumes "layout idx len cs fs = (fs', cs', len')" "\<forall>c \<in> set cs. j \<notin> set (ct_Files c)"
  shows "fs' ! j = fs ! j"
  using assms
proof (induction cs arbitrary: idx len fs cs' len')
  case (Cons c cs)
  obtain fs2 cs2 len2 where l: "layout (idx + 1) (len + ct_Size (place_content (layout_refs c idx fs) len c)) cs
      (layout_refs c idx fs) = (fs2, cs2, len2)" by (metis prod_cases3)
  have "fs' = fs2" using Cons.prems l by (simp add: Let_def)
  then show ?case using Cons.IH [OF l [folded \<open>fs' = fs2\<close>]] Cons.prems(2)
    by (simp add: layout_refs_def update_files_out)
qed simp

lemma layout_files_in:
  assumes "layout idx len cs fs = (fs', cs', len')" "k < length cs" "j \<in> set (ct_Files (cs ! k))"
    and "\<And>i. i < length cs \<Longrightarrow> j \<in> set (ct_Files (cs ! i)) \<Longrightarrow> i = k" and "j < length fs"
  shows "fs' ! j = laid_out (cs ! k) (idx + int k) (fs ! j)"
  using assms
proof (induction cs arbitrary: idx len fs cs' len' k)
  case (Cons c cs)
  let ?fs1 = "layout_refs c idx fs"
  obtain fs2 cs2 len2 where l: "layout (idx + 1) (len + ct_Size (place_content ?fs1 len c)) cs ?fs1 = (fs2, cs2, len2)"
    by (metis prod_cases3)
  have "fs' = fs2" using Cons.prems(1) l by (simp add: Let_def)
  note l = l [folded this]
  show ?case
  proof (cases k)
    case 0
    have "j \<notin> set (ct_Files x)" if x: "x \<in> set cs" for x
    proof
      assume "j \<in> set (ct_Files x)"
      then obtain i where "i < length cs" "j \<in> set (ct_Files (cs ! i))" using x by (auto simp: in_set_conv_nth)
      then show False using Cons.prems(4) [of "Suc i"] 0 by simp
    qed
    then have "fs' ! j = ?fs1 ! j" using layout_files_out [OF l] by blast
    then show ?thesis using 0 Cons.prems by (simp add: layout_refs_def update_files_nth laid_out_def)
  next
    case (Suc k')
    have "j \<notin> set (ct_Files c)" using Cons.prems(4) [of 0] Suc by auto
    then have "?fs1 ! j = fs ! j" by (simp add: layout_refs_def update_files_out)
    moreover have "fs' ! j = laid_out (cs ! k') (idx + 1 + int k') (?fs1 ! j)"
      by (rule Cons.IH [OF l]) (use Cons.prems Suc layout_refs_keep in \<open>auto dest: Cons.prems(4) [of "Suc _", simplified]\<close>)
    ultimately show ?thesis using Suc by (simp add: add.assoc)
  qed
qed simp

section \<open>What the delta holds\<close>

text \<open>The content of the digest \<open>d\<close> before it is placed.\<close>

definition content_for :: "(int \<rightharpoonup> layer_source) \<Rightarrow> ranked_file list \<Rightarrow> string \<Rightarrow> content" where
  "content_for avail files d = rank_content files (zero_content\<lparr>ct_Files := gathered avail files d (length files)\<rparr>)"

lemma content_for_simps [simp]:
  "ct_Files (content_for avail files d) = gathered avail files d (length files)"
  "ct_Size (content_for avail files d) = 0"
  by (simp_all add: content_for_def rank_content_frame zero_content_def)

definition first_digest :: "ranked_file list \<Rightarrow> content \<Rightarrow> string" where
  "first_digest files c = rf_Digest (files ! hd (ct_Files c))"

lemma first_digest_content_for:
  "gathered avail files d (length files) \<noteq> [] \<Longrightarrow> first_digest files (content_for avail files d) = d"
  using hd_in_set [of "gathered avail files d (length files)"] by (simp add: first_digest_def gathered_iff)

lemma delta_of_ordered:
  assumes perm: "\<And>xs. mset (iter xs) = mset xs"
    and run: "delta_of iter noSort avail existing requested = (files, contents, len)"
  obtains ordered fs1 where
    "\<And>c. c \<in> set ordered \<longleftrightarrow> (\<exists>d. gathered avail requested d (length requested) \<noteq> []
        \<and> dedup_existing avail existing d = None \<and> c = content_for avail requested d)"
    "distinct (map (first_digest requested) ordered)"
    "\<not> noSort \<Longrightarrow> by_rank.ordered ordered"
    "layout 0 0 ordered fs1 = (files, contents, len)"
    "length fs1 = length requested"
    "\<And>j. rf_File (fs1 ! j) = rf_File (requested ! j)"
    "\<And>j. j < length requested \<Longrightarrow> fs1 ! j = (if wanted avail (requested ! j)
        then referred (dedup_existing avail existing) (rf_Digest (requested ! j)) (requested ! j) else requested ! j)"
proof -
  let ?g = "group_requested avail requested"
  let ?ex = "dedup_existing avail existing"
  define m where "m = iter ?g"
  obtain fs1 cs where ref: "reference_contents ?ex requested m = (fs1, cs)" by fastforce
  have set_m: "set m = set ?g" using perm [of ?g] unfolding m_def by (metis set_mset_mset)
  have keys_m: "distinct (map fst m)"
  proof -
    have "mset (map fst m) = mset (keys ?g)" using perm [of ?g] by (simp add: m_def keys_def)
    then show ?thesis using group_requested_keys [of avail requested] by (metis mset_eq_imp_distinct_iff)
  qed
  have entry: "c = zero_content\<lparr>ct_Files := gathered avail requested d (length requested)\<rparr>"
    "gathered avail requested d (length requested) \<noteq> []" if "(d, c) \<in> set m" for d c
    using group_requested_entry that set_m by auto
  define unmet where "unmet = filter (\<lambda>dc. ?ex (fst dc) = None) m"
  have cs: "cs = map (\<lambda>dc. rank_content requested (snd dc)) unmet"
    using reference_contents_contents [of requested requested ?ex "[]" m] ref
    by (simp add: reference_contents_def unmet_def)
  have cs_for: "cs = map (content_for avail requested) (map fst unmet)"
    unfolding cs using entry by (force simp: unmet_def content_for_def)
  have digests: "map (first_digest requested) cs = map fst unmet"
    unfolding cs_for using first_digest_content_for entry(2) by (force simp: unmet_def intro!: map_idI)
  have dist: "distinct (map (first_digest requested) cs)"
    unfolding digests unmet_def using keys_m by (rule distinct_map_filter)
  have mem: "c \<in> set cs \<longleftrightarrow> (\<exists>d. gathered avail requested d (length requested) \<noteq> []
      \<and> ?ex d = None \<and> c = content_for avail requested d)" for c
  proof
    assume "c \<in> set cs"
    then show "\<exists>d. gathered avail requested d (length requested) \<noteq> [] \<and> ?ex d = None \<and> c = content_for avail requested d"
      unfolding cs_for using entry(2) by (fastforce simp: unmet_def)
  next
    assume "\<exists>d. gathered avail requested d (length requested) \<noteq> [] \<and> ?ex d = None \<and> c = content_for avail requested d"
    then obtain d where d: "gathered avail requested d (length requested) \<noteq> []" "?ex d = None"
      "c = content_for avail requested d" by blast
    have "map_of ?g d \<noteq> None" using d(1) by (simp add: group_requested_map)
    then obtain c0 where "(d, c0) \<in> set m" using set_m by (auto dest: map_of_SomeD)
    then show "c \<in> set cs" unfolding cs_for using d(2,3) by (force simp: unmet_def)
  qed
  let ?ord = "if noSort then cs else sort_less ByRank_Less cs"
  show thesis
  proof (rule that [of ?ord fs1])
    show "distinct (map (first_digest requested) ?ord)"
    proof -
      have "mset (map (first_digest requested) ?ord) = mset (map (first_digest requested) cs)" by simp
      then show ?thesis using dist mset_eq_imp_distinct_iff by blast
    qed
    show "\<not> noSort \<Longrightarrow> by_rank.ordered ?ord" by (simp add: by_rank.ordered_sort)
    show "layout 0 0 ?ord fs1 = (files, contents, len)"
      using run ref by (simp add: delta_of_def m_def Let_def)
    show "length fs1 = length requested"
      using length_reference_contents [of ?ex requested "[]" m] ref by (simp add: reference_contents_def)
    show "rf_File (fs1 ! j) = rf_File (requested ! j)" for j
    proof -
      have "rf_File (fst (foldl (reference_step ?ex) (fs, ys) xs) ! j) = rf_File (fs ! j)" for fs ys xs
      proof (induction xs arbitrary: fs ys)
        case (Cons x xs)
        obtain fs' ys' where s: "reference_step ?ex (fs, ys) x = (fs', ys')" by fastforce
        then show ?case using Cons [of fs' ys'] reference_step_keep(3) [of ?ex fs ys x j] by simp
      qed simp
      from this [of requested "[]" m] show ?thesis using ref by (simp add: reference_contents_def)
    qed
    show "fs1 ! j = (if wanted avail (requested ! j)
        then referred ?ex (rf_Digest (requested ! j)) (requested ! j) else requested ! j)"
      if j: "j < length requested" for j
    proof -
      have dg: "rf_Digest (requested ! i) = d" if "(d, c) \<in> set m" "i \<in> set (ct_Files c)" for d c i
        using entry [OF that(1)] that(2) by (simp add: gathered_iff)
      have "fs1 ! j = (if \<exists>dc \<in> set m. j \<in> set (ct_Files (snd dc))
          then referred ?ex (rf_Digest (requested ! j)) (requested ! j) else requested ! j)"
        using reference_contents_files [of m "\<lambda>i. rf_Digest (requested ! i)" j requested ?ex "[]", OF dg j] ref
        by (simp add: reference_contents_def)
      moreover have "(\<exists>dc \<in> set m. j \<in> set (ct_Files (snd dc))) \<longleftrightarrow> wanted avail (requested ! j)"
      proof
        assume "\<exists>dc \<in> set m. j \<in> set (ct_Files (snd dc))"
        then obtain d c where dc: "(d, c) \<in> set m" "j \<in> set (ct_Files c)" by auto
        show "wanted avail (requested ! j)" using entry(1) [OF dc(1)] dc(2) by (simp add: gathered_iff)
      next
        assume w: "wanted avail (requested ! j)"
        obtain c where c: "(rf_Digest (requested ! j), c) \<in> set m"
          using group_requested_has [OF j w] unfolding set_m [symmetric] by blast
        have "j \<in> set (ct_Files c)" using entry(1) [OF c] w j by (simp add: gathered_iff)
        then show "\<exists>dc \<in> set m. j \<in> set (ct_Files (snd dc))" using c by force
      qed
      ultimately show ?thesis by simp
    qed
  qed (simp add: mem)
qed

text \<open>The contents of a delta, in full.\<close>

lemma delta_of_content:
  assumes perm: "\<And>xs. mset (iter xs) = mset xs"
    and run: "delta_of iter noSort avail existing requested = (files, contents, len)"
    and c: "c \<in> set contents"
  shows "ct_Files c = gathered avail requested (ct_Digest c) (length requested)" (is ?files)
    and "ct_Files c \<noteq> []" (is ?ne)
    and "dedup_existing avail existing (ct_Digest c) = None" (is ?new)
    and "ct_Rank c = Min (insert max_float64 ((\<lambda>i. rf_Rank (requested ! i)) ` set (ct_Files c)))" (is ?rank)
    and "ct_Stack c = Min ((\<lambda>i. rf_Stack (requested ! i)) ` set (ct_Files c))" (is ?stack)
    and "ct_Chunks c = content_chunks (requested ! hd (ct_Files c))" (is ?chunks)
    and "ct_Size c = sum_list (map fc_CompressedSize (ct_Chunks c))" (is ?size)
proof -
  obtain ordered fs1 where
    o: "\<And>c. c \<in> set ordered \<longleftrightarrow> (\<exists>d. gathered avail requested d (length requested) \<noteq> []
        \<and> dedup_existing avail existing d = None \<and> c = content_for avail requested d)"
    and l: "layout 0 0 ordered fs1 = (files, contents, len)"
    and same: "\<And>j. rf_File (fs1 ! j) = rf_File (requested ! j)"
    by (rule delta_of_ordered [OF perm run]) blast
  have cs: "contents = place_all requested 0 ordered"
    using layout_contents [OF l] place_all_cong [OF same] by simp
  obtain k where k: "k < length ordered" "c = contents ! k" using c cs by (auto simp: in_set_conv_nth)
  then obtain n where ck: "c = place_content requested n (ordered ! k)"
    unfolding cs using place_all_nth by blast
  obtain d where d: "gathered avail requested d (length requested) \<noteq> []"
    "dedup_existing avail existing d = None" "ordered ! k = content_for avail requested d"
    using o k(1) nth_mem by blast
  have dg: "ct_Digest c = d"
    using first_digest_content_for [OF d(1)] by (simp add: ck place_content_frame d(3) first_digest_def)
  have rk: "ct_Files (zero_content\<lparr>ct_Files := gathered avail requested d (length requested)\<rparr>) \<noteq> []"
    using d(1) by simp
  show ?files ?ne ?new using d dg by (simp_all add: ck place_content_frame)
  show ?rank by (simp add: ck place_content_frame d(3) content_for_def rank_content_Rank rank_content_frame)
  show ?stack
    using rank_content_Stack [OF rk] by (simp add: ck place_content_frame d(3) content_for_def rank_content_frame)
  show ?chunks ?size by (simp_all add: ck place_content_frame d(3))
qed

lemma delta_of_layout:
  assumes perm: "\<And>xs. mset (iter xs) = mset xs"
    and run: "delta_of iter noSort avail existing requested = (files, contents, len)"
  shows "distinct (map ct_Digest contents)"
    and "k < length contents \<Longrightarrow> ct_Offset (contents ! k) = sum_list (map ct_Size (take k contents))"
    and "len = sum_list (map ct_Size contents)"
    and "length files = length requested"
    and "\<not> noSort \<Longrightarrow> sorted (map ct_Rank contents)"
proof -
  obtain ordered fs1 where
    dist: "distinct (map (first_digest requested) ordered)"
    and ord: "\<not> noSort \<Longrightarrow> by_rank.ordered ordered"
    and l: "layout 0 0 ordered fs1 = (files, contents, len)"
    and len1: "length fs1 = length requested"
    and same: "\<And>j. rf_File (fs1 ! j) = rf_File (requested ! j)"
    by (rule delta_of_ordered [OF perm run]) blast
  have cs: "contents = place_all requested 0 ordered"
    using layout_contents [OF l] place_all_cong [OF same] by simp
  have dg: "map ct_Digest (place_all requested n xs) = map (first_digest requested) xs" for n xs
    by (induction xs arbitrary: n) (simp_all add: place_content_frame first_digest_def)
  have rk: "map ct_Rank (place_all requested n xs) = map ct_Rank xs" for n xs
    by (induction xs arbitrary: n) (simp_all add: place_content_frame)
  show "distinct (map ct_Digest contents)" using dist by (simp add: cs dg)
  show "k < length contents \<Longrightarrow> ct_Offset (contents ! k) = sum_list (map ct_Size (take k contents))"
    using place_all_nth [of k ordered requested 0] by (simp add: cs place_content_frame)
  show "len = sum_list (map ct_Size contents)" "length files = length requested"
    using layout_contents [OF l] len1 by simp_all
  show "sorted (map ct_Rank contents)" if "\<not> noSort"
    using ord [OF that] unfolding cs rk by_rank.ordered_def
    by (simp add: sorted_wrt_map sorted_wrt_iff_nth_less ByRank_Less_def not_less)
qed

text \<open>What becomes of a requested file.\<close>

lemma delta_of_file_kept:
  assumes perm: "\<And>xs. mset (iter xs) = mset xs"
    and run: "delta_of iter noSort avail existing requested = (files, contents, len)"
    and j: "j < length requested" and met: "\<not> wanted avail (requested ! j) \<or>
      dedup_existing avail existing (rf_Digest (requested ! j)) \<noteq> None"
  shows "files ! j = (if wanted avail (requested ! j)
     then referred (dedup_existing avail existing) (rf_Digest (requested ! j)) (requested ! j) else requested ! j)"
    and "\<forall>c \<in> set contents. j \<notin> set (ct_Files c)"
proof -
  obtain ordered fs1 where
    o: "\<And>c. c \<in> set ordered \<longleftrightarrow> (\<exists>d. gathered avail requested d (length requested) \<noteq> []
        \<and> dedup_existing avail existing d = None \<and> c = content_for avail requested d)"
    and l: "layout 0 0 ordered fs1 = (files, contents, len)"
    and fs1': "\<And>j. j < length requested \<Longrightarrow> fs1 ! j = (if wanted avail (requested ! j)
        then referred (dedup_existing avail existing) (rf_Digest (requested ! j)) (requested ! j) else requested ! j)"
    by (rule delta_of_ordered [OF perm run]) blast
  note fs1 = fs1' [OF j]
  have out: "\<forall>c \<in> set ordered. j \<notin> set (ct_Files c)"
    using met by (auto simp: o gathered_iff)
  show "files ! j = (if wanted avail (requested ! j)
     then referred (dedup_existing avail existing) (rf_Digest (requested ! j)) (requested ! j) else requested ! j)"
    using layout_files_out [OF l out] fs1 by simp
  show "\<forall>c \<in> set contents. j \<notin> set (ct_Files c)"
    using delta_of_content(1,3) [OF perm run] met by (auto simp: gathered_iff)
qed

lemma delta_of_file_sent:
  assumes perm: "\<And>xs. mset (iter xs) = mset xs"
    and run: "delta_of iter noSort avail existing requested = (files, contents, len)"
    and j: "j < length requested" and w: "wanted avail (requested ! j)"
    and new: "dedup_existing avail existing (rf_Digest (requested ! j)) = None"
  obtains k where "k < length contents" "\<And>i. i < length contents \<Longrightarrow> j \<in> set (ct_Files (contents ! i)) \<longleftrightarrow> i = k"
    "ct_Digest (contents ! k) = rf_Digest (requested ! j)"
    "files ! j = laid_out (contents ! k) (int k) (requested ! j)"
proof -
  obtain ordered fs1 where
    o: "\<And>c. c \<in> set ordered \<longleftrightarrow> (\<exists>d. gathered avail requested d (length requested) \<noteq> []
        \<and> dedup_existing avail existing d = None \<and> c = content_for avail requested d)"
    and dist: "distinct (map (first_digest requested) ordered)"
    and l: "layout 0 0 ordered fs1 = (files, contents, len)"
    and len1: "length fs1 = length requested"
    and same: "\<And>j. rf_File (fs1 ! j) = rf_File (requested ! j)"
    and fs1': "\<And>j. j < length requested \<Longrightarrow> fs1 ! j = (if wanted avail (requested ! j)
        then referred (dedup_existing avail existing) (rf_Digest (requested ! j)) (requested ! j) else requested ! j)"
    by (rule delta_of_ordered [OF perm run]) blast
  note fs1 = fs1' [OF j, simplified w if_True]
  let ?d = "rf_Digest (requested ! j)"
  have g: "gathered avail requested ?d (length requested) \<noteq> []"
    using j w by (metis gathered_iff empty_iff empty_set)
  have cs: "contents = place_all requested 0 ordered"
    using layout_contents [OF l] place_all_cong [OF same] by simp
  obtain k where k: "k < length ordered" "ordered ! k = content_for avail requested ?d"
    using o g new by (metis in_set_conv_nth)
  have nth: "\<exists>n. contents ! i = place_content requested n (ordered ! i)" if "i < length ordered" for i
    unfolding cs using place_all_nth [OF that] by blast
  have iff: "j \<in> set (ct_Files (ordered ! i)) \<longleftrightarrow> i = k" if i: "i < length ordered" for i
  proof
    assume in_i: "j \<in> set (ct_Files (ordered ! i))"
    obtain d where d: "gathered avail requested d (length requested) \<noteq> []" "ordered ! i = content_for avail requested d"
      using o i nth_mem by blast
    have "d = ?d" using in_i d(2) by (simp add: gathered_iff)
    then have "ordered ! i = ordered ! k" using d k by simp
    moreover have "distinct ordered" using dist by (simp add: distinct_map)
    ultimately show "i = k" using i k(1) by (simp add: nth_eq_iff_index_eq)
  qed (use k j w in \<open>simp add: gathered_iff\<close>)
  show thesis
  proof (rule that [of k])
    show "k < length contents" using k by (simp add: cs)
    show "j \<in> set (ct_Files (contents ! i)) \<longleftrightarrow> i = k" if "i < length contents" for i
      using nth [of i] iff [of i] that by (auto simp: cs place_content_frame)
    show "ct_Digest (contents ! k) = ?d"
      using nth [OF k(1)] first_digest_content_for [OF g] k(2) by (auto simp: place_content_frame first_digest_def)
    have "files ! j = laid_out (ordered ! k) (0 + int k) (fs1 ! j)"
      by (rule layout_files_in [OF l k(1)]) (use iff k(1) len1 j in auto)
    then show "files ! j = laid_out (contents ! k) (int k) (requested ! j)"
      using nth [OF k(1)] fs1 new by (auto simp: laid_out_def referred_def place_content_frame)
  qed
qed

section \<open>The delta of the database\<close>

lemma computeDelta_run:
  assumes "computeDelta iter flt db b = Inr b'"
  obtains existing requested where
    "GetUniqueFiles flt (available_layers b) db = Inr existing"
    "db_files (b_disableSorting b) flt (im_Serial (db_Destination b)) db = Inr requested"
    "delta_of iter (b_disableSorting b) (availableIds b) existing requested =
       (db_RequestedFiles b', db_Contents b', db_BodyLength b')"
    "db_Source b' = db_Source b" "db_Destination b' = db_Destination b" "b_disableSorting b' = b_disableSorting b"
    "b_manifest b' = b_manifest b" "b_config b' = b_config b"
proof -
  obtain existing requested where q: "GetUniqueFiles flt (available_layers b) db = Inr existing"
    "db_files (b_disableSorting b) flt (im_Serial (db_Destination b)) db = Inr requested"
    and r: "(let (files, contents, len) = delta_of iter (b_disableSorting b) (availableIds b) existing requested
             in Inr (b\<lparr>db_RequestedFiles := files, db_Contents := contents, db_BodyLength := len\<rparr>)) = (Inr b' :: 'a builder_scheme result)"
    using assms unfolding computeDelta_def db_files_def by (auto split: sum.splits if_splits)
  obtain files contents len where d: "delta_of iter (b_disableSorting b) (availableIds b) existing requested = (files, contents, len)"
    by (metis prod_cases3)
  show thesis by (rule that [OF q]) (use r d in auto)
qed

lemma hd_gathered:
  assumes "gathered avail files d n \<noteq> []" "i \<in> set (gathered avail files d n)"
  shows "hd (gathered avail files d n) \<le> i"
proof -
  have "sorted (gathered avail files d n)"
    by (simp add: gathered_def sorted_wrt_filter)
  then show ?thesis using assms by (cases "gathered avail files d n") auto
qed

context metadata_store
begin

text \<open>
  The stack of a content is that of its first file, and the layer at that stack is the one that
  the chunks of the first file refer to; the client does not have it.
\<close>

lemma content_layer:
  assumes inv: "inv db" and ls: "layers_of s db = Inr ls" and req: "files_of s db = Inr requested"
    and perm: "\<And>xs. mset (iter xs) = mset xs"
    and run: "delta_of iter noSort avail existing requested = (files, contents, len)"
    and c: "c \<in> set contents"
  shows "hd (ct_Files c) < length requested"
    and "ct_Stack c = rf_Stack (requested ! hd (ct_Files c))"
    and "wanted avail (requested ! hd (ct_Files c))"
    and "\<exists>l \<in> set ls. il_StackIndex l = ct_Stack c \<and> il_Serial l = rf_FsId (requested ! hd (ct_Files c))"
proof -
  let ?h = "hd (ct_Files c)"
  note content = delta_of_content [OF perm run c]
  have hd_in: "?h \<in> set (ct_Files c)" using content(2) by simp
  then show h: "?h < length requested" "wanted avail (requested ! ?h)"
    using content(1) by (metis gathered_iff)+
  have "rf_Stack (requested ! ?h) \<le> rf_Stack (requested ! i)" if "i \<in> set (ct_Files c)" for i
  proof -
    have "?h \<le> i" using hd_gathered [of avail requested] that content(1,2) by metis
    moreover have "i < length requested" using that content(1) by (metis gathered_iff)
    ultimately show ?thesis using files_sorted [OF req] by (simp add: sorted_iff_nth_mono)
  qed
  then show stack: "ct_Stack c = rf_Stack (requested ! ?h)"
    unfolding content(5) using hd_in by (intro Min_eqI) auto
  show "\<exists>l \<in> set ls. il_StackIndex l = ct_Stack c \<and> il_Serial l = rf_FsId (requested ! ?h)"
    using files_layer [OF inv ls req nth_mem [OF h(1)]] stack by simp
qed

end

section \<open>The body\<close>

definition chunk_bytes :: "byte list \<Rightarrow> file_chunk \<Rightarrow> byte list" where
  "chunk_bytes bs k = take (nat (fc_CompressedSize k)) (drop (nat (fc_Offset k)) bs)"

definition chunk_fits :: "int \<Rightarrow> file_chunk \<Rightarrow> bool" where
  "chunk_fits sz k \<longleftrightarrow> 0 \<le> fc_Offset k \<and> 0 \<le> fc_CompressedSize k \<and> fc_Offset k + fc_CompressedSize k \<le> sz"

lemma copy_chunk_fits:
  assumes "chunk_fits sz k" "int (length bs) = sz"
  shows "copy_chunk (Some bs) sz k = (chunk_bytes bs k, None)"
    and "int (length (chunk_bytes bs k)) = fc_CompressedSize k"
  using assms by (auto simp: copy_chunk_def chunk_bytes_def chunk_fits_def Let_def)

lemma copy_chunks_fit:
  assumes "\<forall>k \<in> set ks. chunk_fits sz k" "int (length bs) = sz"
  shows "copy_chunks (Some bs) sz name ks = (concat (map (chunk_bytes bs) ks), None)"
    and "int (length (concat (map (chunk_bytes bs) ks))) = sum_list (map fc_CompressedSize ks)"
proof -
  show "copy_chunks (Some bs) sz name ks = (concat (map (chunk_bytes bs) ks), None)"
    using assms by (induction ks) (simp_all add: copy_chunk_fits)
  show "int (length (concat (map (chunk_bytes bs) ks))) = sum_list (map fc_CompressedSize ks)"
    using assms by (induction ks) (auto simp: copy_chunk_fits(2) [of sz _ bs])
qed

text \<open>The content is written from a layer that is loaded: its blob has the bytes \<open>bs\<close>.\<close>

definition content_loaded :: "layer_cache list \<Rightarrow> image_layer list \<Rightarrow> content \<Rightarrow> byte list \<Rightarrow> bool" where
  "content_loaded st layers c bs \<longleftrightarrow>
     0 \<le> ct_Stack c \<and> ct_Stack c < int (length layers) \<and>
     (\<exists>a. il_Blob (layers ! nat (ct_Stack c)) = Some a \<and> lc_Buffer (st ! a) = Some bs) \<and>
     int (length bs) = il_UncompressedSize (layers ! nat (ct_Stack c)) \<and>
     (\<forall>k \<in> set (ct_Chunks c). chunk_fits (il_UncompressedSize (layers ! nat (ct_Stack c))) k) \<and>
     ct_Size c = sum_list (map fc_CompressedSize (ct_Chunks c))"

lemma write_content_loaded:
  assumes "content_loaded st layers c bs"
  shows "write_content st layers files c = (concat (map (chunk_bytes bs) (ct_Chunks c)), None)"
    and "int (length (concat (map (chunk_bytes bs) (ct_Chunks c)))) = ct_Size c"
  using assms copy_chunks_fit [of "ct_Chunks c" "il_UncompressedSize (layers ! nat (ct_Stack c))" bs]
  by (auto simp: content_loaded_def write_content_def Let_def)

lemma write_contents_loaded:
  assumes "\<And>c. c \<in> set cs \<Longrightarrow> content_loaded st layers c (blob c)"
  shows "write_contents st layers files cs =
      (concat (map (\<lambda>c. concat (map (chunk_bytes (blob c)) (ct_Chunks c))) cs), None)"
    and "int (length (fst (write_contents st layers files cs))) = sum_list (map ct_Size cs)"
proof -
  show w: "write_contents st layers files cs =
      (concat (map (\<lambda>c. concat (map (chunk_bytes (blob c)) (ct_Chunks c))) cs), None)"
    using assms
  proof (induction cs)
    case (Cons c cs)
    then show ?case using write_content_loaded(1) [of st layers c "blob c"] by simp
  qed simp
  show "int (length (fst (write_contents st layers files cs))) = sum_list (map ct_Size cs)"
    unfolding w fst_conv using assms
  proof (induction cs)
    case (Cons c cs)
    then show ?case using write_content_loaded(2) [of st layers c "blob c"] by simp
  qed simp
qed

section \<open>Loading from a registry that answers\<close>

text \<open>Every cached layer is loaded and has the bytes that the registry has for its hash.\<close>

definition cache_good :: "(string \<Rightarrow> registry_answer) \<Rightarrow> cache_sys \<Rightarrow> bool" where
  "cache_good reg s \<longleftrightarrow> (\<forall>h a. map_of (cs_cache s) h = Some a \<longrightarrow>
     a < length (cs_store s) \<and> lc_Ready (cs_store s ! a) \<and>
     (\<exists>bs. lc_Buffer (cs_store s ! a) = Some bs \<and> reg h = Blob bs))"

definition answers :: "(string \<Rightarrow> registry_answer) \<Rightarrow> image_layer \<Rightarrow> bool" where
  "answers reg l \<longleftrightarrow> (\<exists>bs. reg (il_Hash l) = Blob bs \<and> int (length bs) = il_UncompressedSize l)"

definition blob_good :: "(string \<Rightarrow> registry_answer) \<Rightarrow> layer_cache list \<Rightarrow> image_layer \<Rightarrow> bool" where
  "blob_good reg st l \<longleftrightarrow> (\<exists>a bs. il_Blob l = Some a \<and> a < length st \<and> lc_Buffer (st ! a) = Some bs \<and> reg (il_Hash l) = Blob bs)"

lemma blob_good_append: "blob_good reg st l \<Longrightarrow> blob_good reg (st @ zs) l"
  by (auto simp: blob_good_def nth_append)

lemma fetchLayers_good:
  assumes good: "cache_good reg s" and ans: "answers reg il"
  shows "\<exists>s' a zs. fetchLayers (reg (il_Hash il)) now t il s = Some (s', Inr (il\<lparr>il_Blob := Some a\<rparr>)) \<and>
    cache_good reg s' \<and> cs_store s' = cs_store s @ zs \<and> blob_good reg (cs_store s') (il\<lparr>il_Blob := Some a\<rparr>)"
proof (cases "map_of (cs_cache s) (il_Hash il)")
  case (Some a)
  have a: "a < length (cs_store s)" "lc_Ready (cs_store s ! a)"
    "\<exists>bs. lc_Buffer (cs_store s ! a) = Some bs \<and> reg (il_Hash il) = Blob bs"
    using good Some by (auto simp: cache_good_def)
  let ?s = "s\<lparr>cs_pc := deliver a [(t, None)] ((cs_pc s)(t := Waiting a))\<rparr>"
  have "fetchLayers (reg (il_Hash il)) now t il s = Some (?s, Inr (il\<lparr>il_Blob := Some a\<rparr>))"
    using Some a(2) by (simp add: fetchLayers_def fetch_lookup_def fetch_subscribe_def Subscribe_def Let_def
        deliver_def received_def)
  moreover have "cache_good reg ?s" using good by (simp add: cache_good_def)
  ultimately show ?thesis using a by (force simp: blob_good_def)
next
  case None
  obtain bs where bs: "reg (il_Hash il) = Blob bs" "int (length bs) = il_UncompressedSize il"
    using ans by (auto simp: answers_def)
  let ?a = "length (cs_store s)"
  let ?lc = "NewLayerCache (il_Hash il) (il_UncompressedSize il) now"
  let ?new = "?lc\<lparr>lc_Buffer := Some bs, lc_Ready := True\<rparr>"
  have load: "Load (Blob bs) ?lc = (?new, [], None)"
    using bs(2) by (simp add: Load_def load_body_def SetReady_def lc_notify_def NewLayerCache_def Let_def)
  obtain s' where run: "fetchLayers (reg (il_Hash il)) now t il s = Some (s', Inr (il\<lparr>il_Blob := Some ?a\<rparr>))"
    and st: "cs_store s' = cs_store s @ [?new]" and ca: "cs_cache s' = AList.update (il_Hash il) ?a (cs_cache s)"
    using None load by (simp add: fetchLayers_def fetch_lookup_def fetch_load_def Let_def bs(1) deliver_def received_def)
  have "cache_good reg s'"
    using good bs by (auto simp: cache_good_def st ca update_conv nth_append intro: less_SucI)
  moreover have "blob_good reg (cs_store s') (il\<lparr>il_Blob := Some ?a\<rparr>)"
    using bs by (simp add: blob_good_def st nth_append)
  ultimately show ?thesis using run st by blast
qed

definition same_layer :: "image_layer \<Rightarrow> image_layer \<Rightarrow> bool" where
  "same_layer l l' \<longleftrightarrow> l\<lparr>il_Blob := None\<rparr> = l'\<lparr>il_Blob := None\<rparr>"

lemma same_layer_simps:
  "same_layer l l' \<Longrightarrow> il_Hash l = il_Hash l' \<and> il_UncompressedSize l = il_UncompressedSize l' \<and>
     il_Serial l = il_Serial l' \<and> il_StackIndex l = il_StackIndex l' \<and> il_Available l = il_Available l'"
  "same_layer l l" "same_layer (l\<lparr>il_Blob := x\<rparr>) l" "same_layer l l' \<Longrightarrow> same_layer l' l'' \<Longrightarrow> same_layer l l''"
  by (cases l; cases l'; auto simp: same_layer_def)+

lemma load_layers_good:
  assumes "cache_good reg s" "\<And>i. i \<in> set is \<Longrightarrow> i < length ls \<and> answers reg (ls ! i)"
  shows "\<exists>s' ls' zs. load_layers reg now is s ls = Some (s', ls', None) \<and> cache_good reg s' \<and>
    cs_store s' = cs_store s @ zs \<and> length ls' = length ls \<and>
    (\<forall>i < length ls. same_layer (ls' ! i) (ls ! i) \<and> (i \<notin> set is \<longrightarrow> ls' ! i = ls ! i)) \<and>
    (\<forall>i \<in> set is. blob_good reg (cs_store s') (ls' ! i))"
  using assms
proof (induction "is" arbitrary: s ls)
  case Nil
  then show ?case by (auto simp: same_layer_simps)
next
  case (Cons i "is")
  have i: "i < length ls" "answers reg (ls ! i)" using Cons.prems(2) [of i] by auto
  obtain s1 a zs1 where f: "fetchLayers (reg (il_Hash (ls ! i))) now i (ls ! i) s = Some (s1, Inr ((ls ! i)\<lparr>il_Blob := Some a\<rparr>))"
    "cache_good reg s1" "cs_store s1 = cs_store s @ zs1" "blob_good reg (cs_store s1) ((ls ! i)\<lparr>il_Blob := Some a\<rparr>)"
    using fetchLayers_good [OF Cons.prems(1) i(2), of now i] by blast
  let ?ls = "ls[i := (ls ! i)\<lparr>il_Blob := Some a\<rparr>]"
  have same1: "same_layer (?ls ! j) (ls ! j)" for j
    by (cases "j = i"; cases "j < length ls") (auto simp: same_layer_simps list_update_beyond)
  have "j < length ?ls \<and> answers reg (?ls ! j)" if "j \<in> set is" for j
    using Cons.prems(2) [of j] that same_layer_simps(1) [OF same1 [of j]] by (auto simp: answers_def)
  from Cons.IH [OF f(2) this] obtain s2 ls2 zs2 where r: "load_layers reg now is s1 ?ls = Some (s2, ls2, None)"
    "cache_good reg s2" "cs_store s2 = cs_store s1 @ zs2" "length ls2 = length ls"
    "\<forall>j < length ls. same_layer (ls2 ! j) (?ls ! j) \<and> (j \<notin> set is \<longrightarrow> ls2 ! j = ?ls ! j)"
    "\<forall>j \<in> set is. blob_good reg (cs_store s2) (ls2 ! j)" by auto
  have "blob_good reg (cs_store s2) (ls2 ! i)"
  proof (cases "i \<in> set is")
    case False
    then have "ls2 ! i = (ls ! i)\<lparr>il_Blob := Some a\<rparr>" using r(5) i(1) by simp
    then show ?thesis using blob_good_append [OF f(4)] r(3) by simp
  qed (use r(6) in blast)
  moreover have "same_layer (ls2 ! j) (ls ! j)" if "j < length ls" for j
    using r(5) that same1 same_layer_simps(4) by blast
  ultimately show ?case using r f by (auto simp: Let_def)
qed

section \<open>From the database to the body\<close>

text \<open>
  The hypotheses on the data: chunks lie inside their compressed layer, the stack indices of
  the image are the positions of its layers, and layers with one hash have one size.
\<close>

definition row_chunks :: "file_row \<Rightarrow> file_chunk list" where
  "row_chunks x = (if snd (xr_metadata x) \<noteq> [] then snd (xr_metadata x) else [chunk_of_entry (fst (xr_metadata x))])"

definition files_fit :: "meta_db \<Rightarrow> bool" where
  "files_fit db \<longleftrightarrow> (\<forall>x \<in> set (md_files db). \<forall>f \<in> set (md_fs db). fr_id f = xr_fs x \<and> xr_hash x \<noteq> [] \<and> xr_size x \<noteq> 0 \<longrightarrow>
     (\<forall>k \<in> set (row_chunks x). chunk_fits (fr_size f) k))"

definition stacked :: "image_layer list \<Rightarrow> bool" where
  "stacked ls \<longleftrightarrow> (\<forall>i < length ls. il_StackIndex (ls ! i) = int i)"

definition hash_sizes :: "meta_db \<Rightarrow> bool" where
  "hash_sizes db \<longleftrightarrow> (\<forall>f \<in> set (md_fs db). \<forall>g \<in> set (md_fs db). fr_digest f = fr_digest g \<longrightarrow> fr_size f = fr_size g)"

text \<open>An image as \<^verbatim>\<open>getImage\<close> and \<^verbatim>\<open>getImageByDigest\<close> load it.\<close>

definition image_loaded :: "faults \<Rightarrow> meta_db \<Rightarrow> simage \<Rightarrow> bool" where
  "image_loaded flt db im \<longleftrightarrow> (\<exists>raw dg. GetLayers flt (im_Serial im) db = Inr raw \<and>
     im_Layers im = map (\<lambda>l. SetDigest (dg l) l) raw)"

lemma image_loaded_layer:
  assumes "image_loaded flt db im" "l \<in> set (im_Layers im)"
  shows "il_Available l = False" "il_Blob l = None"
    "\<exists>f \<in> set (md_fs db). il_Serial l = fr_id f \<and> il_Hash l = fr_digest f \<and> il_UncompressedSize l = fr_size f"
proof -
  obtain raw dg l0 where raw: "GetLayers flt (im_Serial im) db = Inr raw" "l0 \<in> set raw" "l = SetDigest (dg l0) l0"
    using assms by (auto simp: image_loaded_def)
  show "il_Available l = False" "il_Blob l = None"
    "\<exists>f \<in> set (md_fs db). il_Serial l = fr_id f \<and> il_Hash l = fr_digest f \<and> il_UncompressedSize l = fr_size f"
    using GetLayers_map(3,4) [OF raw(1,2)] by (simp_all add: raw(3) SetDigest_def)
qed

lemma load_image_loaded: "load_image rg flt db ref serial = Inr im \<Longrightarrow> image_loaded flt db im \<and> im_Serial im = serial"
  by (auto simp: load_image_def image_loaded_def split: sum.splits)

lemma NewBuilder_images:
  assumes "NewBuilder rg flt db src dst plt ns = Inr b"
  obtains s d where "b = init_builder s d ns" "image_loaded flt db d" "\<And>im. s = Some im \<Longrightarrow> image_loaded flt db im"
    "src = [] \<Longrightarrow> s = None"
proof -
  obtain s d where b: "b = init_builder s d ns" and d: "getImage rg flt db dst plt = Inr d"
    and s: "(if src \<noteq> [] then map_sum id Some (getImageByDigest rg flt db src) else Inr None) = Inr s"
    using assms by (auto simp: NewBuilder_def split: sum.splits if_splits)
  have ld: "image_loaded flt db d"
    using d load_image_loaded by (auto simp: getImage_def split: sum.splits prod.splits)
  have "image_loaded flt db im" if "s = Some im" for im
  proof -
    have "getImageByDigest rg flt db src = Inr im"
      using s that by (cases "getImageByDigest rg flt db src") (auto split: if_splits)
    then show ?thesis using load_image_loaded by (auto simp: getImageByDigest_def split: sum.splits prod.splits)
  qed
  then show thesis by (rule that [OF b ld]) (use s in auto)
qed

lemma update_unavailable:
  "(\<And>l. l \<in> set ls \<Longrightarrow> il_Available l = False) \<Longrightarrow> update_files (set_available False) is ls = ls"
proof (induction "is" arbitrary: ls)
  case (Cons i "is")
  have "ls[i := set_available False (ls ! i)] = ls"
  proof (cases "i < length ls")
    case True
    then have "il_Available (ls ! i) = False" using Cons.prems nth_mem by blast
    then have "set_available False (ls ! i) = ls ! i" by (simp add: set_available_def)
    then show ?thesis by simp
  qed (simp add: list_update_beyond)
  then show ?case using Cons by simp
qed simp

lemma init_builder_simps:
  assumes "image_loaded flt db d"
  shows "im_Layers (db_Destination (init_builder s d ns)) = im_Layers d"
    "im_Serial (db_Destination (init_builder s d ns)) = im_Serial d"
    "source_layers (init_builder s d ns) = map (set_available True) (case s of None \<Rightarrow> [] | Some im \<Rightarrow> im_Layers im)"
    "i \<in> set (b_unavailable (init_builder s d ns)) \<longleftrightarrow> i < length (im_Layers d) \<and>
       il_Hash (im_Layers d ! i) \<notin> il_Hash ` set (source_layers (init_builder s d ns))"
    "b_disableSorting (init_builder s d ns) = ns"
proof -
  have "update_files (set_available False) is (im_Layers d) = im_Layers d" for "is"
    using image_loaded_layer(1) [OF assms] by (rule update_unavailable)
  then show "im_Layers (db_Destination (init_builder s d ns)) = im_Layers d" by (simp add: init_builder_def Let_def)
  show "im_Serial (db_Destination (init_builder s d ns)) = im_Serial d"
    "b_disableSorting (init_builder s d ns) = ns" by (simp_all add: init_builder_def Let_def)
  show src: "source_layers (init_builder s d ns) = map (set_available True) (case s of None \<Rightarrow> [] | Some im \<Rightarrow> im_Layers im)"
    by (auto simp: init_builder_def Let_def source_layers_def split: option.splits)
  show "i \<in> set (b_unavailable (init_builder s d ns)) \<longleftrightarrow> i < length (im_Layers d) \<and>
       il_Hash (im_Layers d ! i) \<notin> il_Hash ` set (source_layers (init_builder s d ns))"
  proof -
    have "il_Hash ` set_available True ` S = il_Hash ` S" for S by (simp add: image_image set_available_def)
    then show ?thesis unfolding src
      by (cases s) (simp_all add: init_builder_def Let_def getUnavailableLayers_def source_layers_def)
  qed
qed

text \<open>\<^verbatim>\<open>Load\<close>, taken apart.\<close>

lemma Builder_Load_run:
  assumes load: "Builder_Load iter flt db reg now cs b0 = Some (cs', Inr b)"
    and good: "cache_good reg cs" and un: "\<And>i. i \<in> set (b_unavailable b0) \<Longrightarrow>
      i < length (im_Layers (db_Destination b0)) \<and> answers reg (im_Layers (db_Destination b0) ! i)"
  obtains ls' b1 where
    "length ls' = length (im_Layers (db_Destination b0))"
    "\<And>i. i < length ls' \<Longrightarrow> same_layer (ls' ! i) (im_Layers (db_Destination b0) ! i)"
    "\<And>i. i \<in> set (b_unavailable b0) \<Longrightarrow> blob_good reg (cs_store cs') (ls' ! i)"
    "computeDelta iter flt db b1 = Inr b" "db_Source b1 = db_Source b0"
    "db_Destination b1 = (db_Destination b0)\<lparr>im_Layers := ls'\<rparr>" "b_disableSorting b1 = b_disableSorting b0"
proof -
  obtain s' ls' zs where l: "load_layers reg now (b_unavailable b0) cs (im_Layers (db_Destination b0)) = Some (s', ls', None)"
    "length ls' = length (im_Layers (db_Destination b0))"
    "\<forall>i < length ls'. same_layer (ls' ! i) (im_Layers (db_Destination b0) ! i)"
    "\<forall>i \<in> set (b_unavailable b0). blob_good reg (cs_store s') (ls' ! i)"
    using load_layers_good [OF good un, of "b_unavailable b0" now] by auto
  obtain b1 where b1: "load_manifest flt db (set_layers ls' b0) = Inr b1" "computeDelta iter flt db b1 = Inr b" "cs' = s'"
    using load l(1) by (auto simp: Builder_Load_def split: sum.splits)
  have "db_Source b1 = db_Source b0" "db_Destination b1 = (db_Destination b0)\<lparr>im_Layers := ls'\<rparr>"
    "b_disableSorting b1 = b_disableSorting b0"
    using b1(1) by (auto simp: load_manifest_def set_layers_def split: sum.splits)
  then show thesis by (intro that [of ls' b1]) (use l b1 in auto)
qed

definition layer_bytes :: "(string \<Rightarrow> registry_answer) \<Rightarrow> image_layer \<Rightarrow> byte list" where
  "layer_bytes reg l = (case reg (il_Hash l) of Blob bs \<Rightarrow> bs | _ \<Rightarrow> [])"

lemma ranked_chunks:
  assumes fit: "files_fit db" and req: "db_files ns flt s db = Inr requested" and f: "f \<in> set requested"
    and w: "wanted avail f" and fs: "g \<in> set (md_fs db)" "fr_id g = rf_FsId f" and inv: "db_inv db"
  shows "\<forall>k \<in> set (content_chunks f). chunk_fits (fr_size g) k"
proof -
  obtain rk rows where rows: "requested = map (ranked_of rk) rows" "set rows \<subseteq> set (layer_files s db)"
    using db_files_rows [OF req] by metis
  obtain l x where x: "(l, x) \<in> set (layer_files s db)" "f = ranked_of rk (l, x)" using rows f by auto
  have mem: "x \<in> set (md_files db)" using x(1) by (simp add: layer_files_iff)
  have "meta_matches x" using db_inv_parts(8) [OF inv mem] .
  then have "xr_hash x \<noteq> []" "xr_size x \<noteq> 0" using w x(2) by (simp_all add: wanted_def ranked_of_def meta_matches_def)
  moreover have "content_chunks f = row_chunks x" by (simp add: content_chunks_def row_chunks_def x(2) ranked_of_def)
  moreover have "fr_id g = xr_fs x" using fs(2) x(2) by (simp add: ranked_of_def)
  ultimately show ?thesis using fit mem fs(1) unfolding files_fit_def by simp
qed

lemma body_written:
  assumes inv: "db_inv db" and perm: "\<And>xs. mset (iter xs) = mset xs"
    and d: "image_loaded flt db d" and s: "\<And>im. s = Some im \<Longrightarrow> image_loaded flt db im"
    and st: "stacked (im_Layers d)" and hs: "hash_sizes db" and fit: "files_fit db"
    and good: "cache_good reg cs" and ans: "\<forall>l \<in> set (im_Layers d). answers reg l"
    and load: "Builder_Load iter flt db reg now cs (init_builder s d ns) = Some (cs', Inr b)"
  shows "WriteBody (cs_store cs') b =
      (concat (map (\<lambda>c. concat (map (chunk_bytes (layer_bytes reg (im_Layers d ! nat (ct_Stack c)))) (ct_Chunks c)))
         (db_Contents b)), None)"
    and "int (length (fst (WriteBody (cs_store cs') b))) = db_BodyLength b"
proof -
  note init = init_builder_simps [OF d, where s = s and ns = ns]
  let ?b0 = "init_builder s d ns"
  obtain ls' b1 where l: "length ls' = length (im_Layers d)"
    "\<And>i. i < length ls' \<Longrightarrow> same_layer (ls' ! i) (im_Layers d ! i)"
    "\<And>i. i \<in> set (b_unavailable ?b0) \<Longrightarrow> blob_good reg (cs_store cs') (ls' ! i)"
    and cd: "computeDelta iter flt db b1 = Inr b"
    and b1: "db_Source b1 = db_Source ?b0" "db_Destination b1 = (db_Destination ?b0)\<lparr>im_Layers := ls'\<rparr>"
      "b_disableSorting b1 = ns"
    by (rule Builder_Load_run [OF load good]) (use init ans in auto)
  obtain existing requested where
    req: "db_files ns flt (im_Serial d) db = Inr requested"
    and run: "delta_of iter ns (availableIds b1) existing requested = (db_RequestedFiles b, db_Contents b, db_BodyLength b)"
    and dst: "db_Destination b = db_Destination b1"
    by (rule computeDelta_run [OF cd]) (auto simp: b1(2,3) init)
  obtain raw dg where raw: "GetLayers flt (im_Serial d) db = Inr raw" "im_Layers d = map (\<lambda>l. SetDigest (dg l) l) raw"
    using d by (auto simp: image_loaded_def)
  have src: "source_layers b1 = source_layers ?b0" by (simp add: source_layers_def b1(1))
  have loaded: "content_loaded (cs_store cs') ls' c (layer_bytes reg (im_Layers d ! nat (ct_Stack c)))"
    if c: "c \<in> set (db_Contents b)" for c
  proof -
    let ?f = "requested ! hd (ct_Files c)"
    note cl = store.content_layer [OF inv raw(1) req perm run c]
    note dc = delta_of_content [OF perm run c]
    obtain l0 where l0: "l0 \<in> set raw" "il_StackIndex l0 = ct_Stack c" "il_Serial l0 = rf_FsId ?f" using cl(4) by blast
    obtain i where i: "i < length raw" "raw ! i = l0" using l0(1) by (auto simp: in_set_conv_nth)
    let ?l = "im_Layers d ! i"
    have il: "il_StackIndex ?l = ct_Stack c" "il_Serial ?l = rf_FsId ?f" "i < length (im_Layers d)"
      using i l0 raw(2) by (simp_all add: SetDigest_def)
    have stack: "ct_Stack c = int i" using st il(1,3) by (simp add: stacked_def)
    obtain g where g: "g \<in> set (md_fs db)" "il_Serial ?l = fr_id g" "il_Hash ?l = fr_digest g" "il_UncompressedSize ?l = fr_size g"
      using image_loaded_layer(3) [OF d nth_mem [OF il(3)]] by blast
    have "il_Hash ?l \<notin> il_Hash ` set (source_layers ?b0)"
    proof
      assume "il_Hash ?l \<in> il_Hash ` set (source_layers ?b0)"
      then obtain im x where x: "s = Some im" "x \<in> set (im_Layers im)" "il_Hash ?l = il_Hash x"
        unfolding init(3) by (auto simp: set_available_def split: option.splits)
      obtain g' where g': "g' \<in> set (md_fs db)" "il_Serial x = fr_id g'" "il_Hash x = fr_digest g'"
        using image_loaded_layer(3) [OF s [OF x(1)] x(2)] by blast
      have "fr_size g = fr_size g'" using hs g g' x(3) unfolding hash_sizes_def by metis
      then have "g = g'" using table_ok_unique [OF db_inv_parts(3) [OF inv], of g g'] g g' x(3) by (simp add: fs_key_def)
      then have "rf_FsId ?f \<in> il_Serial ` set (available_layers b1)"
        using x g g' il(2) unfolding available_layers_def src init(3)
        by (force simp: set_available_def)
      then show False using cl(3) by (auto simp: wanted_def dom_availableIds [symmetric])
    qed
    then have un: "i \<in> set (b_unavailable ?b0)" using init(4) [of i] il(3) by simp
    obtain a bs where blob: "il_Blob (ls' ! i) = Some a" "lc_Buffer (cs_store cs' ! a) = Some bs" "reg (il_Hash (ls' ! i)) = Blob bs"
      using l(3) [OF un] by (auto simp: blob_good_def)
    have same: "il_Hash (ls' ! i) = il_Hash ?l" "il_UncompressedSize (ls' ! i) = il_UncompressedSize ?l"
      using same_layer_simps(1) [OF l(2)] il(3) l(1) by auto
    have lb: "layer_bytes reg ?l = bs" using blob(3) same by (simp add: layer_bytes_def)
    have len: "int (length bs) = il_UncompressedSize ?l"
      using ans il(3) blob(3) same unfolding answers_def by (metis nth_mem registry_answer.inject(4))
    have "\<forall>k \<in> set (ct_Chunks c). chunk_fits (il_UncompressedSize ?l) k"
      unfolding dc(6) g(4) by (rule ranked_chunks [OF fit req nth_mem [OF cl(1)] cl(3) g(1) _ inv]) (use g(2) il(2) in simp)
    then show ?thesis unfolding content_loaded_def stack
      using il(3) l(1) blob lb len same dc(7) by auto
  qed
  have wb: "WriteBody (cs_store cs') b = write_contents (cs_store cs') ls' (db_RequestedFiles b) (db_Contents b)"
    by (simp add: WriteBody_def dst b1(2))
  show "WriteBody (cs_store cs') b =
      (concat (map (\<lambda>c. concat (map (chunk_bytes (layer_bytes reg (im_Layers d ! nat (ct_Stack c)))) (ct_Chunks c)))
         (db_Contents b)), None)"
    unfolding wb by (rule write_contents_loaded(1) [OF loaded])
  show "int (length (fst (WriteBody (cs_store cs') b))) = db_BodyLength b"
    unfolding wb delta_of_layout(3) [OF perm run] by (rule write_contents_loaded(2) [OF loaded])
qed

section \<open>A small store\<close>

text \<open>
  An image with one layer, and a second image that adds a layer with a new file, a copy of a
  file of the first layer, and a directory.
\<close>

definition sample_entry :: "string \<Rightarrow> string \<Rightarrow> string \<Rightarrow> int \<Rightarrow> int \<Rightarrow> int \<Rightarrow> toc_entry" where
  "sample_entry name ty dg sz off cs = zero_entry\<lparr>e_Name := name, e_Type := ty, e_Digest := dg, e_Size := sz,
     e_Offset := off, e_ChunkSize := sz, e_CompressedSize := cs\<rparr>"

definition sample_row :: "int \<Rightarrow> int \<Rightarrow> int list \<Rightarrow> toc_entry \<Rightarrow> file_row" where
  "sample_row i fs order e = \<lparr>xr_id = i, xr_hash = e_Digest e, xr_size = e_Size e, xr_file = e_Name e,
     xr_offset = e_Offset e, xr_fs = fs, xr_order = order, xr_metadata = (e, [])\<rparr>"

definition sample_image :: "int \<Rightarrow> string \<Rightarrow> int \<Rightarrow> image_row" where
  "sample_image i hash n = \<lparr>ir_id = i, ir_image = ''app'', ir_hash = hash, ir_config = ''{}'', ir_manifest = ''{}'',
     ir_ready = Some 1, ir_nlayer = n\<rparr>"

definition sample_db :: meta_db where
  "sample_db = \<lparr>
     md_images = [sample_image 1 ''h1'' 1, sample_image 2 ''h2'' 2],
     md_layers = [\<lparr>lr_id = 1, lr_size = 5, lr_image = 1, lr_stackIndex = 0, lr_layer = 1\<rparr>,
                  \<lparr>lr_id = 2, lr_size = 5, lr_image = 2, lr_stackIndex = 0, lr_layer = 1\<rparr>,
                  \<lparr>lr_id = 3, lr_size = 6, lr_image = 2, lr_stackIndex = 1, lr_layer = 2\<rparr>],
     md_fs = [\<lparr>fr_id = 1, fr_digest = ''sha256:A'', fr_size = 5, fr_ready = 1\<rparr>,
              \<lparr>fr_id = 2, fr_digest = ''sha256:B'', fr_size = 6, fr_ready = 1\<rparr>],
     md_files = [sample_row 1 1 [] (sample_entry ''a'' ''reg'' ''d1'' 10 0 3),
                 sample_row 2 2 [4, 6] (sample_entry ''b'' ''reg'' ''d2'' 20 0 4),
                 sample_row 3 2 [] (sample_entry ''c'' ''reg'' ''d1'' 10 4 2),
                 sample_row 4 2 [] (sample_entry ''e'' ''dir'' [] 0 0 0)],
     md_tags = [\<lparr>tg_name = ''app'', tg_tag = ''v2'', tg_platform = ''linux/amd64'', tg_imageId = 2\<rparr>],
     md_seq_image = 3, md_seq_layer = 4, md_seq_fs = 3, md_seq_file = 5\<rparr>"

definition sample_registry :: "string \<Rightarrow> registry_answer" where
  "sample_registry h = (if h = ''sha256:A'' then Blob [1, 2, 3, 4, 5] else Blob [6, 7, 8, 9, 10, 11])"

definition sample_refs :: registry_config where
  "sample_refs = \<lparr>rg_parse = (\<lambda>r. Inr \<lparr>ref_Registry = ''docker'', ref_Repository = ''app'', ref_Identifier = r, ref_Name = r\<rparr>),
     rg_newDigest = (\<lambda>d. d), rg_default = ''docker'', rg_alias = []\<rparr>"

definition empty_cache :: cache_sys where
  "empty_cache = \<lparr>cs_store = [], cs_cache = [], cs_pc = (\<lambda>_. Start [] 0)\<rparr>"

section \<open>Properties\<close>

text \<open>Without faults the computation and the loading go through.\<close>

lemma computeDelta_total: "\<exists>b'. computeDelta iter no_faults db b = Inr b'"
  by (simp add: computeDelta_def GetUniqueFiles_def GetFilesWithRanks_def GetFilesWithoutRanks_def Let_def split: prod.splits)

lemma Builder_Load_total:
  assumes d: "image_loaded no_faults db d" and ser: "im_Serial d \<in> ir_id ` set (md_images db)"
    and good: "cache_good reg cs" and ans: "\<forall>l \<in> set (im_Layers d). answers reg l"
  shows "\<exists>cs' b. Builder_Load iter no_faults db reg now cs (init_builder s d ns) = Some (cs', Inr b)"
proof -
  note init = init_builder_simps [OF d, where s = s and ns = ns]
  have un: "i < length (im_Layers (db_Destination (init_builder s d ns))) \<and>
      answers reg (im_Layers (db_Destination (init_builder s d ns)) ! i)"
    if "i \<in> set (b_unavailable (init_builder s d ns))" for i
    using that init(4) [of i] ans by (simp add: init(1))
  obtain s' ls' where l: "load_layers reg now (b_unavailable (init_builder s d ns)) cs
      (im_Layers (db_Destination (init_builder s d ns))) = Some (s', ls', None)"
    using load_layers_good [OF good un, of "b_unavailable (init_builder s d ns)" now] by blast
  have "find (\<lambda>r. ir_id r = im_Serial d) (md_images db) \<noteq> None" using ser find_NoneD by force
  then obtain b1 where b1: "load_manifest no_faults db (set_layers ls' (init_builder s d ns)) = Inr b1"
    by (auto simp: load_manifest_def GetManifestAndConfig_def set_layers_def init(2))
  obtain b where "computeDelta iter no_faults db b1 = Inr b" using computeDelta_total by blast
  then show ?thesis using l b1 by (simp add: Builder_Load_def)
qed

text \<open>
  A requested file whose content the client has: it refers to a filesystem of an available layer
  that holds a file with the same digest. A requested file whose content is sent: it is in
  exactly one content, which has its digest, and its order and stack are those of that content.
\<close>

definition on_client :: "meta_db \<Rightarrow> 'a builder_scheme \<Rightarrow> ranked_file \<Rightarrow> bool" where
  "on_client db b f \<longleftrightarrow>
     rf_ReferenceFsId f \<noteq> 0 \<and> rf_ReferenceFsId f \<in> il_Serial ` set (available_layers b) \<and>
     (\<exists>x \<in> set (md_files db). xr_fs x = rf_ReferenceFsId f \<and> xr_hash x = rf_Digest f)"

definition in_body :: "'a builder_scheme \<Rightarrow> nat \<Rightarrow> ranked_file \<Rightarrow> bool" where
  "in_body b j f \<longleftrightarrow> rf_ReferenceFsId f = 0 \<and>
     (\<exists>k < length (db_Contents b).
        (\<forall>i < length (db_Contents b). j \<in> set (ct_Files (db_Contents b ! i)) \<longleftrightarrow> i = k) \<and>
        ct_Digest (db_Contents b ! k) = rf_Digest f \<and> rf_PayloadOrder f = int k \<and>
        rf_ReferenceStack f = ct_Stack (db_Contents b ! k))"

definition in_no_content :: "'a builder_scheme \<Rightarrow> nat \<Rightarrow> bool" where
  "in_no_content b j \<longleftrightarrow> (\<forall>c \<in> set (db_Contents b). j \<notin> set (ct_Files c))"

definition needs_content :: "'a builder_scheme \<Rightarrow> ranked_file \<Rightarrow> bool" where
  "needs_content b f \<longleftrightarrow> rf_Digest f \<noteq> [] \<and> rf_Size f \<noteq> 0 \<and> rf_FsId f \<notin> il_Serial ` set (available_layers b)"

lemma needs_content_wanted: "needs_content b f \<longleftrightarrow> wanted (availableIds b) f"
  by (auto simp: needs_content_def wanted_def dom_availableIds [symmetric])

text \<open>
  C1: Every requested file is resolved. A file with no content to ship (no digest, empty, or in a
  layer that the client has) keeps no reference; any other file either refers to a layer of the
  client that holds its digest and is not sent, or is part of exactly one content of the body.
\<close>

theorem computeDelta_resolves:
  assumes inv: "db_inv db" and perm: "\<And>xs. mset (iter xs) = mset xs"
    and run: "computeDelta iter flt db b = Inr b'"
  shows "\<forall>j < length (db_RequestedFiles b').
    (let f = db_RequestedFiles b' ! j
     in if \<not> needs_content b f
        then rf_ReferenceFsId f = 0 \<and> rf_ReferenceStack f = 0 \<and> rf_PayloadOrder f = 0 \<and> in_no_content b' j
        else (on_client db b f \<and> in_no_content b' j) \<or> in_body b' j f)"
proof (intro allI impI)
  fix j assume j: "j < length (db_RequestedFiles b')"
  obtain existing requested where
    ex: "GetUniqueFiles flt (available_layers b) db = Inr existing"
    and req: "db_files (b_disableSorting b) flt (im_Serial (db_Destination b)) db = Inr requested"
    and run: "delta_of iter (b_disableSorting b) (availableIds b) existing requested =
       (db_RequestedFiles b', db_Contents b', db_BodyLength b')"
    by (rule computeDelta_run [OF run]) blast
  let ?ex = "dedup_existing (availableIds b) existing"
  let ?r = "requested ! j"
  have jr: "j < length requested" using j delta_of_layout(4) [OF perm run] by simp
  have zero: "rf_ReferenceFsId ?r = 0" "rf_ReferenceStack ?r = 0" "rf_PayloadOrder ?r = 0"
    using store.files_unreferenced [OF req nth_mem [OF jr]] by simp_all
  consider (none) "\<not> wanted (availableIds b) ?r" | (kept) x where "wanted (availableIds b) ?r" "?ex (rf_Digest ?r) = Some x"
    | (sent) "wanted (availableIds b) ?r" "?ex (rf_Digest ?r) = None" by (cases "?ex (rf_Digest ?r)") auto
  then show "let f = db_RequestedFiles b' ! j
     in if \<not> needs_content b f
        then rf_ReferenceFsId f = 0 \<and> rf_ReferenceStack f = 0 \<and> rf_PayloadOrder f = 0 \<and> in_no_content b' j
        else (on_client db b f \<and> in_no_content b' j) \<or> in_body b' j f"
  proof cases
    case none
    then show ?thesis using delta_of_file_kept [OF perm run jr] zero
      by (simp add: needs_content_wanted in_no_content_def)
  next
    case kept
    have f: "db_RequestedFiles b' ! j = ?r\<lparr>rf_ReferenceFsId := sf_FsId x\<rparr>" and no: "in_no_content b' j"
      using delta_of_file_kept [OF perm run jr] kept by (simp_all add: referred_def in_no_content_def)
    have x: "x \<in> set existing" "e_Digest (sf_TOC x) = rf_Digest ?r" using dedup_existing_sound [OF kept(2)] by auto
    have "on_client db b (db_RequestedFiles b' ! j)"
      using GetUniqueFiles_from [OF inv ex x(1)] store.unique_from [OF inv ex x(1)] x(2)
      by (auto simp: on_client_def f)
    then show ?thesis using no kept(1) by (simp add: needs_content_wanted f wanted_def Let_def)
  next
    case sent
    obtain k where k: "k < length (db_Contents b')"
      "\<And>i. i < length (db_Contents b') \<Longrightarrow> j \<in> set (ct_Files (db_Contents b' ! i)) \<longleftrightarrow> i = k"
      "ct_Digest (db_Contents b' ! k) = rf_Digest ?r"
      "db_RequestedFiles b' ! j = laid_out (db_Contents b' ! k) (int k) ?r"
      by (rule delta_of_file_sent [OF perm run jr sent]) blast
    have "in_body b' j (db_RequestedFiles b' ! j)"
      unfolding in_body_def by (intro conjI exI [of _ k] allI impI) (use k zero in \<open>auto simp: laid_out_def\<close>)
    then show ?thesis using sent(1) k(4) by (simp add: needs_content_wanted laid_out_def wanted_def Let_def)
  qed
qed

lemma sample_db_inv: "db_inv sample_db"
  by code_simp

definition sample_builder :: builder where
  "sample_builder = (case NewBuilder sample_refs no_faults sample_db ''h1'' ''v2'' ''linux/amd64'' False of
     Inr b \<Rightarrow> b | Inl _ \<Rightarrow> init_builder None \<lparr>im_Ref = [], im_Serial = 2, im_Layers = []\<rparr> False)"

lemma sample_new: "NewBuilder sample_refs no_faults sample_db ''h1'' ''v2'' ''linux/amd64'' False = Inr sample_builder"
proof -
  have "is_ok (NewBuilder sample_refs no_faults sample_db ''h1'' ''v2'' ''linux/amd64'' False)" by code_simp
  then show ?thesis by (auto simp: sample_builder_def is_ok_def split: sum.splits)
qed

theorem computeDelta_resolves_witness:
  "\<exists>b'. computeDelta (\<lambda>xs. xs) no_faults sample_db sample_builder = Inr b' \<and>
    (\<forall>j < length (db_RequestedFiles b').
    (let f = db_RequestedFiles b' ! j
     in if \<not> needs_content sample_builder f
        then rf_ReferenceFsId f = 0 \<and> rf_ReferenceStack f = 0 \<and> rf_PayloadOrder f = 0 \<and> in_no_content b' j
        else (on_client sample_db sample_builder f \<and> in_no_content b' j) \<or> in_body b' j f))"
proof -
  obtain b' where b': "computeDelta (\<lambda>xs. xs) no_faults sample_db sample_builder = Inr b'"
    using computeDelta_total by blast
  show ?thesis using b' computeDelta_resolves [OF sample_db_inv _ b'] by simp
qed

text \<open>
  C3: The layout of the body. Contents have distinct digests; each begins where the previous one
  ends; a content's size is the sum of the compressed sizes of its chunks, which are those of its
  first file; the body length is the sum of the sizes. Unless sorting is off, contents come in
  the order of their ranks.
\<close>

theorem computeDelta_layout:
  assumes perm: "\<And>xs. mset (iter xs) = mset xs" and run: "computeDelta iter flt db b = Inr b'"
  shows "distinct (map ct_Digest (db_Contents b')) \<and>
    (\<forall>k < length (db_Contents b'). ct_Offset (db_Contents b' ! k) = sum_list (map ct_Size (take k (db_Contents b')))) \<and>
    db_BodyLength b' = sum_list (map ct_Size (db_Contents b')) \<and>
    (\<forall>c \<in> set (db_Contents b'). ct_Size c = sum_list (map fc_CompressedSize (ct_Chunks c))) \<and>
    (\<not> b_disableSorting b \<longrightarrow> sorted (map ct_Rank (db_Contents b')))"
proof -
  obtain existing requested where
    run: "delta_of iter (b_disableSorting b) (availableIds b) existing requested =
       (db_RequestedFiles b', db_Contents b', db_BodyLength b')"
    by (rule computeDelta_run [OF run]) blast
  show ?thesis using delta_of_layout [OF perm run] delta_of_content(7) [OF perm run] by blast
qed

theorem computeDelta_layout_witness:
  "\<exists>b'. computeDelta rev no_faults sample_db sample_builder = Inr b' \<and>
    distinct (map ct_Digest (db_Contents b')) \<and>
    db_BodyLength b' = sum_list (map ct_Size (db_Contents b'))"
proof -
  obtain b' where b': "computeDelta rev no_faults sample_db sample_builder = Inr b'"
    using computeDelta_total by blast
  show ?thesis using b' computeDelta_layout [OF _ b'] by simp
qed

text \<open>
  C4: The rank of a content is the smallest rank of the requested files that share it, and its
  stack is the lowest of their stacks, which is the stack of its first file; so the chunks of the
  content, which are those of its first file, refer to the layer at that stack.
\<close>

theorem computeDelta_rank:
  assumes inv: "db_inv db" and perm: "\<And>xs. mset (iter xs) = mset xs"
    and run: "computeDelta iter flt db b = Inr b'"
    and ls: "GetLayers flt (im_Serial (db_Destination b)) db = Inr ls" and c: "c \<in> set (db_Contents b')"
  shows "ct_Rank c = Min (insert max_float64 ((\<lambda>i. rf_Rank (db_RequestedFiles b' ! i)) ` set (ct_Files c))) \<and>
    ct_Stack c = Min ((\<lambda>i. rf_Stack (db_RequestedFiles b' ! i)) ` set (ct_Files c)) \<and>
    (let f = db_RequestedFiles b' ! hd (ct_Files c)
     in ct_Stack c = rf_Stack f \<and> ct_Chunks c = content_chunks f \<and>
        (\<exists>l \<in> set ls. il_StackIndex l = ct_Stack c \<and> il_Serial l = rf_FsId f))"
proof -
  obtain existing requested where
    ex: "GetUniqueFiles flt (available_layers b) db = Inr existing"
    and req: "db_files (b_disableSorting b) flt (im_Serial (db_Destination b)) db = Inr requested"
    and run: "delta_of iter (b_disableSorting b) (availableIds b) existing requested =
       (db_RequestedFiles b', db_Contents b', db_BodyLength b')"
    by (rule computeDelta_run [OF run]) blast
  have same: "rf_Rank (db_RequestedFiles b' ! i) = rf_Rank (requested ! i)" "rf_Stack (db_RequestedFiles b' ! i) = rf_Stack (requested ! i)"
    "rf_File (db_RequestedFiles b' ! i) = rf_File (requested ! i)" if "i \<in> set (ct_Files c)" for i
  proof -
    have g: "i < length requested" "wanted (availableIds b) (requested ! i)"
      "dedup_existing (availableIds b) existing (rf_Digest (requested ! i)) = None"
      using that delta_of_content(1,3) [OF perm run c] by (metis gathered_iff)+
    obtain k where "db_RequestedFiles b' ! i = laid_out (db_Contents b' ! k) (int k) (requested ! i)"
      by (rule delta_of_file_sent [OF perm run g]) blast
    then show "rf_Rank (db_RequestedFiles b' ! i) = rf_Rank (requested ! i)" "rf_Stack (db_RequestedFiles b' ! i) = rf_Stack (requested ! i)"
      "rf_File (db_RequestedFiles b' ! i) = rf_File (requested ! i)" by (simp_all add: laid_out_def)
  qed
  have hd: "hd (ct_Files c) \<in> set (ct_Files c)" using delta_of_content(2) [OF perm run c] by simp
  have img: "(\<lambda>i. rf_Rank (db_RequestedFiles b' ! i)) ` set (ct_Files c) = (\<lambda>i. rf_Rank (requested ! i)) ` set (ct_Files c)"
    "(\<lambda>i. rf_Stack (db_RequestedFiles b' ! i)) ` set (ct_Files c) = (\<lambda>i. rf_Stack (requested ! i)) ` set (ct_Files c)"
    using same by (auto intro: image_cong)
  show ?thesis unfolding img
    using delta_of_content(4,5,6) [OF perm run c] store.content_layer(2,4) [OF inv ls req perm run c] same [OF hd]
    by (simp add: Let_def content_chunks_def)
qed

definition sample_delta :: builder where
  "sample_delta = (case computeDelta (\<lambda>xs. xs) no_faults sample_db sample_builder of Inr b \<Rightarrow> b | Inl _ \<Rightarrow> sample_builder)"

lemma sample_delta_run: "computeDelta (\<lambda>xs. xs) no_faults sample_db sample_builder = Inr sample_delta"
  using computeDelta_total [of "\<lambda>xs. xs" sample_db sample_builder] by (auto simp: sample_delta_def)

theorem computeDelta_rank_witness:
  "\<exists>c. c \<in> set (db_Contents sample_delta) \<and>
    ct_Rank c = Min (insert max_float64 ((\<lambda>i. rf_Rank (db_RequestedFiles sample_delta ! i)) ` set (ct_Files c))) \<and>
    ct_Stack c = Min ((\<lambda>i. rf_Stack (db_RequestedFiles sample_delta ! i)) ` set (ct_Files c))"
proof -
  have "0 < length (db_Contents sample_delta)" by code_simp
  then have c: "db_Contents sample_delta ! 0 \<in> set (db_Contents sample_delta)" by simp
  obtain ls where ls: "GetLayers no_faults (im_Serial (db_Destination sample_builder)) sample_db = Inr ls"
    using GetLayers_total [OF sample_db_inv] by blast
  show ?thesis using c computeDelta_rank [OF sample_db_inv _ sample_delta_run ls c] by blast
qed

text \<open>
  C2: The whole way from the tables to the body. When the layers of the image sit at their stack
  indices, layers of one hash have one size, chunks lie inside their compressed layers, and the
  cache and the registry hold the layers' bytes, a builder that \<^verbatim>\<open>NewBuilder\<close> made and \<^verbatim>\<open>Load\<close> filled writes
  the chunks of its contents, cut from the layers at the contents' stacks, without an error, and
  writes exactly as many bytes as its header announces.
\<close>

theorem WriteBody_whole:
  assumes inv: "db_inv db" and perm: "\<And>xs. mset (iter xs) = mset xs"
    and new: "NewBuilder rg flt db src dst plt ns = Inr b0"
    and st: "stacked (im_Layers (db_Destination b0))" and hs: "hash_sizes db" and fit: "files_fit db"
    and good: "cache_good reg cs" and ans: "\<forall>l \<in> set (im_Layers (db_Destination b0)). answers reg l"
    and load: "Builder_Load iter flt db reg now cs b0 = Some (cs', Inr b)"
  shows "WriteBody (cs_store cs') b =
      (concat (map (\<lambda>c. concat (map (chunk_bytes (layer_bytes reg (im_Layers (db_Destination b0) ! nat (ct_Stack c))))
                                    (ct_Chunks c))) (db_Contents b)), None) \<and>
    int (length (fst (WriteBody (cs_store cs') b))) = db_BodyLength b"
proof -
  obtain s d where b0: "b0 = init_builder s d ns" and d: "image_loaded flt db d"
    and s: "\<And>im. s = Some im \<Longrightarrow> image_loaded flt db im" by (rule NewBuilder_images [OF new]) blast
  note init = init_builder_simps(1) [OF d, of s ns]
  show ?thesis
    using body_written [OF inv perm d s _ hs fit good _ load [unfolded b0]] st ans unfolding b0 init by blast
qed

lemma empty_cache_good: "cache_good reg empty_cache"
  by (simp add: cache_good_def empty_cache_def)

lemma sample_facts:
  "\<forall>l \<in> set (im_Layers (db_Destination sample_builder)).
     case sample_registry (il_Hash l) of Blob bs \<Rightarrow> int (length bs) = il_UncompressedSize l | _ \<Rightarrow> False"
  "\<forall>i < length (im_Layers (db_Destination sample_builder)). il_StackIndex (im_Layers (db_Destination sample_builder) ! i) = int i"
  "hash_sizes sample_db" "files_fit sample_db"
  by code_simp+

lemma sample_answers: "\<forall>l \<in> set (im_Layers (db_Destination sample_builder)). answers sample_registry l"
proof
  fix l assume "l \<in> set (im_Layers (db_Destination sample_builder))"
  then show "answers sample_registry l"
    using sample_facts(1) by (cases "sample_registry (il_Hash l)") (auto simp: answers_def)
qed

text \<open>
  C6: Loading does not block or fail when nothing else fails: if the database answers, the image
  is there, every cached layer is ready and the registry has every layer with its size, \<^verbatim>\<open>Load\<close>
  returns without an error.
\<close>

theorem Builder_Load_succeeds:
  assumes new: "NewBuilder rg no_faults db src dst plt ns = Inr b0"
    and img: "im_Serial (db_Destination b0) \<in> ir_id ` set (md_images db)"
    and good: "cache_good reg cs" and ans: "\<forall>l \<in> set (im_Layers (db_Destination b0)). answers reg l"
  shows "\<exists>cs' b. Builder_Load iter no_faults db reg now cs b0 = Some (cs', Inr b)"
proof -
  obtain s d where b0: "b0 = init_builder s d ns" and d: "image_loaded no_faults db d"
    by (rule NewBuilder_images [OF new]) blast
  note init = init_builder_simps(1,2) [OF d, of s ns]
  show ?thesis using Builder_Load_total [OF d _ good] img ans unfolding b0 init by blast
qed

theorem Builder_Load_succeeds_witness:
  "\<exists>cs' b. Builder_Load (\<lambda>xs. xs) no_faults sample_db sample_registry 0 empty_cache sample_builder = Some (cs', Inr b)"
proof (rule Builder_Load_succeeds [OF sample_new _ empty_cache_good sample_answers])
  show "im_Serial (db_Destination sample_builder) \<in> ir_id ` set (md_images sample_db)" by code_simp
qed

theorem WriteBody_whole_witness:
  "\<exists>cs' b. Builder_Load (\<lambda>xs. xs) no_faults sample_db sample_registry 0 empty_cache sample_builder = Some (cs', Inr b) \<and>
     snd (WriteBody (cs_store cs') b) = None \<and> int (length (fst (WriteBody (cs_store cs') b))) = db_BodyLength b"
proof -
  have "im_Serial (db_Destination sample_builder) \<in> ir_id ` set (md_images sample_db)" by code_simp
  moreover have un: "\<forall>i \<in> set (b_unavailable sample_builder). i < length (im_Layers (db_Destination sample_builder))"
    by code_simp
  moreover obtain s d where b0: "sample_builder = init_builder s d False" and d: "image_loaded no_faults sample_db d"
    by (rule NewBuilder_images [OF sample_new]) blast
  ultimately obtain cs' b where load: "Builder_Load (\<lambda>xs. xs) no_faults sample_db sample_registry 0 empty_cache sample_builder
      = Some (cs', Inr b)"
    using Builder_Load_total [OF d _ empty_cache_good, of sample_registry] sample_answers
      init_builder_simps(1,2) [OF d, of s False] unfolding b0 by metis
  have st: "stacked (im_Layers (db_Destination sample_builder))" using sample_facts(2) by (simp add: stacked_def)
  show ?thesis
    using load WriteBody_whole [OF sample_db_inv _ sample_new st sample_facts(3,4) empty_cache_good sample_answers load] by auto
qed



end
