(* ===== verification/Delta_Protocol.thy ===== *)
theory Delta_Protocol
  imports Delta_Builder
begin

text \<open>
  The response that carries a delta bundle: \<^verbatim>\<open>WriteHeader\<close> of proxy/builder.go writes it, the
  proxy's client proxy/api.go and \<^verbatim>\<open>readBody\<close> of client/client.go read it. The body is the gzip
  streams of the manifest, the configuration and the header in JSON, then the contents; the HTTP
  header has the sizes of the streams. The gzip codec, the JSON encoding of a builder and the
  digest function are parameters.
\<close>

section \<open>The counting writer\<close>

record count_writer =
  cw_w :: "byte list"
  cw_count :: int

definition NewCountWriter :: count_writer where
  "NewCountWriter = \<lparr>cw_w = [], cw_count = 0\<rparr>"

definition CountWriter_Write :: "byte list \<Rightarrow> count_writer \<Rightarrow> count_writer" where
  "CountWriter_Write p c = c\<lparr>cw_w := cw_w c @ p, cw_count := cw_count c + int (length p)\<rparr>"

definition GetWrittenSize :: "count_writer \<Rightarrow> int" where
  "GetWrittenSize c = cw_count c"

section \<open>WriteHeader\<close>

record http_response =
  hr_Code :: nat
  hr_Header :: "(string \<times> string) list"
  hr_Body :: "byte list"

definition Version :: string where "Version = ''0.0.0''"

text \<open>
  The gzip codec, whose reader fails when the stream is opened (\<open>Inl\<close>) or while it is read
  (\<open>Inr (Inl e)\<close>), the JSON encoding of a builder, and the digest of the header.
\<close>

record codec =
  cd_gzip :: "byte list \<Rightarrow> byte list"
  cd_gunzip :: "byte list \<Rightarrow> byte list result result"
  cd_marshal :: "builder \<Rightarrow> string result"
  cd_digest :: "string \<Rightarrow> string"

text \<open>The law of the codec: what was compressed comes back.\<close>

definition codec_ok :: "codec \<Rightarrow> bool" where
  "codec_ok cd \<longleftrightarrow> (\<forall>bs. cd_gunzip cd (cd_gzip cd bs) = Inr (Inr bs))"

definition WriteHeader :: "codec \<Rightarrow> builder \<Rightarrow> http_response result" where
  "WriteHeader cd b =
     (case cd_marshal cd b of Inl e \<Rightarrow> Inl e | Inr h \<Rightarrow>
      (let cw0 = NewCountWriter;
          cw1 = CountWriter_Write (cd_gzip cd (bytes_of (b_manifest b))) cw0;
          manifestSize = GetWrittenSize cw1;
          cw2 = CountWriter_Write (cd_gzip cd (bytes_of (b_config b))) cw1;
          configSize = GetWrittenSize cw2 - manifestSize;
          cw3 = CountWriter_Write (cd_gzip cd (bytes_of h)) cw2;
          headerSize = GetWrittenSize cw3 - manifestSize - configSize;
          httpLength = GetWrittenSize cw3 + db_BodyLength b
      in Inr \<lparr>hr_Code = 200,
          hr_Header =
            [(''Content-Type'', ''application/octet-stream''),
             (''Content-Length'', itoa httpLength),
             (''Starlight-Header-Size'', itoa headerSize),
             (''Manifest-Size'', itoa manifestSize),
             (''Config-Size'', itoa configSize),
             (''Digest'', b_manifestDigest b),
             (''Starlight-Digest'', cd_digest cd h),
             (''Starlight-Version'', Version),
             (''Content-Disposition'', ''attachment; filename=\"starlight.tgz\"'')],
          hr_Body = cw_w cw3\<rparr>))"

section \<open>Requests to the proxy\<close>

text \<open>
  A client of the proxy, with \<^verbatim>\<open>url.Userinfo\<close> as a user and a password that may not be set, and
  the requests it makes: method, path, query parameters, header, credentials and body.
\<close>

record starlight_proxy =
  sp_protocol :: string
  sp_serverAddress :: string
  sp_auth :: "string \<times> string option"

definition NewStarlightProxy :: "string \<Rightarrow> string \<Rightarrow> starlight_proxy" where
  "NewStarlightProxy protocol server = \<lparr>sp_protocol = protocol, sp_serverAddress = server, sp_auth = ([], None)\<rparr>"

definition SetAuth :: "string \<Rightarrow> string \<Rightarrow> starlight_proxy \<Rightarrow> starlight_proxy" where
  "SetAuth username password a = a\<lparr>sp_auth := (username, Some password)\<rparr>"

record http_request =
  rq_Method :: string
  rq_Host :: string
  rq_Path :: string
  rq_Query :: "(string \<times> string) list"
  rq_Header :: "(string \<times> string) list"
  rq_BasicAuth :: "(string \<times> string) option"
  rq_RemoteAddr :: string
  rq_Body :: "byte list"

text \<open>A URL with a host and a path that is not empty starts its path with a slash.\<close>

definition url_path :: "string \<Rightarrow> string" where
  "url_path p = (if p \<noteq> [] \<and> hd p \<noteq> CHR ''/'' then CHR ''/'' # p else p)"

definition proxy_request :: "starlight_proxy \<Rightarrow> string \<Rightarrow> string list \<Rightarrow> (string \<times> string) list \<Rightarrow> string \<Rightarrow> byte list
    \<Rightarrow> http_request" where
  "proxy_request a meth p q ctype body = \<lparr>rq_Method = meth, rq_Host = sp_serverAddress a, rq_Path = url_path (path_join p),
     rq_Query = q, rq_Header = [(''Content-Type'', ctype)],
     rq_BasicAuth = (case snd (sp_auth a) of Some pwd \<Rightarrow> Some (fst (sp_auth a), pwd) | None \<Rightarrow> None),
     rq_RemoteAddr = [], rq_Body = body\<rparr>"

definition Ping_request :: "starlight_proxy \<Rightarrow> string \<Rightarrow> http_request" where
  "Ping_request a t = proxy_request a ''POST'' [] [(''t'', t)] ''application/json'' []"

definition Notify_request :: "starlight_proxy \<Rightarrow> string \<Rightarrow> bool \<Rightarrow> http_request" where
  "Notify_request a ref insecure = proxy_request a ''POST'' [''starlight'', ''notify'']
     ((''ref'', ref) # (if insecure then [(''insecure'', ''true'')] else [])) ''application/json'' []"

definition DeltaImage_request :: "starlight_proxy \<Rightarrow> string \<Rightarrow> string \<Rightarrow> string \<Rightarrow> bool \<Rightarrow> http_request" where
  "DeltaImage_request a from_ref to_ref platform disableEarlyStart = proxy_request a ''GET'' [''starlight'', ''delta'']
     ([(''from'', from_ref), (''to'', to_ref), (''platform'', platform)] @
      (if disableEarlyStart then [(''disableSorting'', ''true'')] else [])) ''application/octet-stream'' []"

definition Report_request :: "starlight_proxy \<Rightarrow> byte list \<Rightarrow> http_request" where
  "Report_request a body = proxy_request a ''POST'' [''starlight'', ''report''] [] ''application/json'' body"

section \<open>The client of the proxy\<close>

definition header_get :: "(string \<times> string) list \<Rightarrow> string \<Rightarrow> string" where
  "header_get h k = (case map_of h k of Some v \<Rightarrow> v | None \<Rightarrow> [])"

definition parseNumber :: "string \<Rightarrow> string \<Rightarrow> int result" where
  "parseNumber k s =
     (if s = [] then Inl (Fail (Errorf (''header '' @ k @ '' not found'')))
      else case parse_int 10 s of
        None \<Rightarrow> Inl (Fail (Errorf (''header '' @ k @ '' expect a number but get '' @ s)))
      | Some n \<Rightarrow> Inr n)"

definition getHeaderInt64 :: "(string \<times> string) list \<Rightarrow> string \<Rightarrow> int result" where
  "getHeaderInt64 h k = parseNumber k (header_get h k)"

record delta_metadata =
  dm_ManifestSize :: int
  dm_ConfigSize :: int
  dm_StarlightHeaderSize :: int
  dm_ContentLength :: int
  dm_OriginalLength :: int
  dm_Digest :: string
  dm_StarlightDigest :: string

text \<open>\<^verbatim>\<open>strings.TrimSpace\<close> on ASCII text.\<close>

definition is_space :: "char \<Rightarrow> bool" where
  "is_space c \<longleftrightarrow> of_char c \<in> {9 :: nat, 10, 11, 12, 13, 32}"

definition trim_space :: "string \<Rightarrow> string" where
  "trim_space s = rev (dropWhile is_space (rev (dropWhile is_space s)))"

text \<open>
  \<^verbatim>\<open>DeltaImage\<close> after the request: the response or the error of the transport. The text of an
  error response is given to \<^verbatim>\<open>fmt.Errorf\<close> as its format; the model keeps the text itself.
\<close>

definition DeltaImage :: "http_response result \<Rightarrow> (byte list \<times> delta_metadata) result" where
  "DeltaImage answer =
     (case answer of Inl e \<Rightarrow> Inl e | Inr resp \<Rightarrow>
      (let h = hr_Header resp; version = header_get h ''Starlight-Version''
       in if hr_Code resp = 400 then Inl (Fail (Errorf (trim_space (string_of (hr_Body resp)))))
          else if hr_Code resp \<noteq> 200 \<or> version = []
          then Inl (Fail (Errorf (''server error: '' @ string_of (hr_Body resp))))
          else case getHeaderInt64 h ''Manifest-Size'' of Inl e \<Rightarrow> Inl e | Inr m \<Rightarrow>
              (case getHeaderInt64 h ''Config-Size'' of Inl e \<Rightarrow> Inl e | Inr c \<Rightarrow>
              (case getHeaderInt64 h ''Starlight-Header-Size'' of Inl e \<Rightarrow> Inl e | Inr s \<Rightarrow>
              (case getHeaderInt64 h ''Content-Length'' of Inl e \<Rightarrow> Inl e | Inr l \<Rightarrow>
                 if header_get h ''Digest'' = [] then Inl (Fail (Errorf ''header Digest not found''))
                 else if header_get h ''Starlight-Digest'' = [] then Inl (Fail (Errorf ''header Starlight-Digest not found''))
                 else Inr (hr_Body resp, \<lparr>dm_ManifestSize = m, dm_ConfigSize = c, dm_StarlightHeaderSize = s,
                        dm_ContentLength = l, dm_OriginalLength = 0, dm_Digest = header_get h ''Digest'',
                        dm_StarlightDigest = header_get h ''Starlight-Digest''\<rparr>))))))"

text \<open>
  The other calls: the round-trip time is a parameter. \<^verbatim>\<open>Ping\<close> returns the error of the decoder, which is
  nil, when the server answers with a status other than 200; \<^verbatim>\<open>Notify\<close> and \<^verbatim>\<open>Report\<close> only log such a status.
\<close>

text \<open>The response of the server; an extractor is given by its image and its parsed name and tag.\<close>

record api_response =
  ar_Status :: string
  ar_Code :: nat
  ar_Message :: string
  ar_Error :: string
  ar_Extractor :: "(string \<times> string \<times> string) option"

definition Ping :: "(byte list \<Rightarrow> api_response result) \<Rightarrow> int \<Rightarrow> starlight_proxy \<Rightarrow> http_response result
    \<Rightarrow> (int \<times> string \<times> string) result" where
  "Ping unmarshal rtt a answer =
     (case answer of Inl e \<Rightarrow> Inl e | Inr resp \<Rightarrow>
      (case unmarshal (hr_Body resp) of Inl e \<Rightarrow> Inl e | Inr r \<Rightarrow>
         if hr_Code resp \<noteq> 200 \<and> ar_Message r \<noteq> ''Starlight Proxy'' then Inr (- 1, [], [])
         else Inr (rtt, sp_protocol a, sp_serverAddress a)))"

definition Notify :: "http_response result \<Rightarrow> unit result" where
  "Notify answer = (case answer of Inl e \<Rightarrow> Inl e | Inr resp \<Rightarrow> Inr ())"

definition Report :: "http_response result \<Rightarrow> unit result" where
  "Report answer = (case answer of Inl e \<Rightarrow> Inl e | Inr resp \<Rightarrow> Inr ())"

text \<open>
  \<^verbatim>\<open>readBody\<close>: the bytes read and the rest of the body. A negative size makes the allocation of
  the buffer panic.
\<close>

definition readBody :: "byte list \<Rightarrow> int \<Rightarrow> (byte list \<times> byte list) result" where
  "readBody body s =
     (if s < 0 then Inl (Panic ''makeslice: cap out of range'')
      else if int (length body) < s then Inl (Fail (ExtError ''EOF''))
      else Inr (take (nat s) body, drop (nat s) body))"

text \<open>
  \<^verbatim>\<open>handleManifest\<close>, \<^verbatim>\<open>handleConfig\<close> and \<^verbatim>\<open>handleStarlightHeader\<close>: the buffer is decompressed, read and
  decoded; they return the decoded value and its text.
\<close>

definition handle_stream :: "codec \<Rightarrow> string \<Rightarrow> (string \<Rightarrow> 'a result) \<Rightarrow> byte list \<Rightarrow> ('a \<times> string) result" where
  "handle_stream cd what unmarshal buf =
     (case cd_gunzip cd buf of Inl e \<Rightarrow> Inl (wrap (''failed to decompress '' @ what) e) | Inr r \<Rightarrow>
      (case r of Inl e \<Rightarrow> Inl (wrap (''failed to read '' @ what) e) | Inr bs \<Rightarrow>
      (case unmarshal (string_of bs) of Inl e \<Rightarrow> Inl (wrap (''failed to unmarshal '' @ what) e)
       | Inr v \<Rightarrow> Inr (v, string_of bs))))"

definition handleManifest :: "codec \<Rightarrow> (string \<Rightarrow> 'a result) \<Rightarrow> byte list \<Rightarrow> ('a \<times> string) result" where
  "handleManifest cd unmarshal buf = handle_stream cd ''manifest'' unmarshal buf"

definition handleConfig :: "codec \<Rightarrow> (string \<Rightarrow> 'a result) \<Rightarrow> byte list \<Rightarrow> ('a \<times> string) result" where
  "handleConfig cd unmarshal buf = handle_stream cd ''config'' unmarshal buf"

definition handleStarlightHeader :: "codec \<Rightarrow> (string \<Rightarrow> 'a result) \<Rightarrow> byte list \<Rightarrow> ('a \<times> string) result" where
  "handleStarlightHeader cd unmarshal buf = handle_stream cd ''starlight header'' unmarshal buf"

section \<open>Round trip\<close>

lemma parseNumber_itoa: "int64 n \<Longrightarrow> parseNumber k (itoa n) = Inr n"
  by (simp add: parseNumber_def parse_int_itoa)

lemma readBody_append: "readBody (z @ rest) (int (length z)) = Inr (z, rest)"
  by (simp add: readBody_def)

lemma handle_stream_gzip:
  assumes "codec_ok cd" "unmarshal s = Inr v"
  shows "handle_stream cd what unmarshal (cd_gzip cd (bytes_of s)) = Inr (v, s)"
  using assms by (simp add: handle_stream_def codec_ok_def)

definition streams :: "codec \<Rightarrow> builder \<Rightarrow> string \<Rightarrow> byte list" where
  "streams cd b h = cd_gzip cd (bytes_of (b_manifest b)) @ cd_gzip cd (bytes_of (b_config b)) @ cd_gzip cd (bytes_of h)"

lemma WriteHeader_streams:
  "cd_marshal cd b = Inr h \<Longrightarrow> \<exists>resp. WriteHeader cd b = Inr resp \<and> hr_Body resp = streams cd b h"
  by (simp add: WriteHeader_def streams_def CountWriter_Write_def NewCountWriter_def Let_def)

text \<open>The metadata that the client gets from the header.\<close>

definition header_metadata :: "codec \<Rightarrow> builder \<Rightarrow> string \<Rightarrow> delta_metadata" where
  "header_metadata cd b h = \<lparr>
     dm_ManifestSize = int (length (cd_gzip cd (bytes_of (b_manifest b)))),
     dm_ConfigSize = int (length (cd_gzip cd (bytes_of (b_config b)))),
     dm_StarlightHeaderSize = int (length (cd_gzip cd (bytes_of h))),
     dm_ContentLength = int (length (streams cd b h)) + db_BodyLength b, dm_OriginalLength = 0,
     dm_Digest = b_manifestDigest b, dm_StarlightDigest = cd_digest cd h\<rparr>"

lemma DeltaImage_WriteHeader:
  assumes m: "cd_marshal cd b = Inr h" and "int64 (int (length (streams cd b h)))"
    and "int64 (int (length (streams cd b h)) + db_BodyLength b)"
    and "b_manifestDigest b \<noteq> []" "cd_digest cd h \<noteq> []" and resp: "WriteHeader cd b = Inr resp"
  shows "DeltaImage (Inr (resp\<lparr>hr_Body := body\<rparr>)) = Inr (body, header_metadata cd b h)"
proof -
  have small: "int64 (int n)" if "n \<le> length (streams cd b h)" for n
    using assms(2) that by (auto simp: int64_def)
  have s: "int64 (int (length (cd_gzip cd (bytes_of (b_manifest b)))))" "int64 (int (length (cd_gzip cd (bytes_of (b_config b)))))"
    "int64 (int (length (cd_gzip cd (bytes_of h))))"
    by (rule small, simp add: streams_def)+
  have l: "int (length (streams cd b h)) = int (length (cd_gzip cd (bytes_of (b_manifest b)))) +
      int (length (cd_gzip cd (bytes_of (b_config b)))) + int (length (cd_gzip cd (bytes_of h)))"
    by (simp add: streams_def)
  show ?thesis
    using assms(2-5) s resp m by (auto simp add: DeltaImage_def WriteHeader_def header_get_def getHeaderInt64_def parseNumber_itoa
        CountWriter_Write_def NewCountWriter_def GetWrittenSize_def Let_def header_metadata_def l Version_def)
qed

lemma header_read:
  assumes "codec_ok cd" and m: "cd_marshal cd b = Inr h" and fits: "int64 (int (length (streams cd b h)))"
    "int64 (int (length (streams cd b h)) + db_BodyLength b)" and digests: "b_manifestDigest b \<noteq> []" "cd_digest cd h \<noteq> []"
    and decode: "mf (b_manifest b) = Inr vm" "cf (b_config b) = Inr vc" "hf h = Inr vh"
    and body: "int (length body) = db_BodyLength b"
  shows "\<exists>resp meta z1 z2 z3 r1 r2.
      WriteHeader cd b = Inr resp \<and>
      DeltaImage (Inr (resp\<lparr>hr_Body := hr_Body resp @ body\<rparr>)) = Inr (hr_Body resp @ body, meta) \<and>
      dm_Digest meta = b_manifestDigest b \<and> dm_StarlightDigest meta = cd_digest cd h \<and>
      dm_ContentLength meta = int (length (hr_Body resp @ body)) \<and>
      readBody (hr_Body resp @ body) (dm_ManifestSize meta) = Inr (z1, r1) \<and> handleManifest cd mf z1 = Inr (vm, b_manifest b) \<and>
      readBody r1 (dm_ConfigSize meta) = Inr (z2, r2) \<and> handleConfig cd cf z2 = Inr (vc, b_config b) \<and>
      readBody r2 (dm_StarlightHeaderSize meta) = Inr (z3, body) \<and> handleStarlightHeader cd hf z3 = Inr (vh, h)"
proof -
  obtain resp where resp: "WriteHeader cd b = Inr resp" "hr_Body resp = streams cd b h"
    using WriteHeader_streams [OF m] by blast
  let ?z1 = "cd_gzip cd (bytes_of (b_manifest b))" and ?z2 = "cd_gzip cd (bytes_of (b_config b))"
    and ?z3 = "cd_gzip cd (bytes_of h)"
  have "DeltaImage (Inr (resp\<lparr>hr_Body := hr_Body resp @ body\<rparr>)) = Inr (hr_Body resp @ body, header_metadata cd b h)"
    by (rule DeltaImage_WriteHeader [OF m fits digests resp(1)])
  moreover have "readBody (hr_Body resp @ body) (int (length ?z1)) = Inr (?z1, ?z2 @ ?z3 @ body)"
    "readBody (?z2 @ ?z3 @ body) (int (length ?z2)) = Inr (?z2, ?z3 @ body)"
    "readBody (?z3 @ body) (int (length ?z3)) = Inr (?z3, body)"
    by (simp_all add: resp(2) streams_def readBody_append)
  moreover have "handleManifest cd mf ?z1 = Inr (vm, b_manifest b)" "handleConfig cd cf ?z2 = Inr (vc, b_config b)"
    "handleStarlightHeader cd hf ?z3 = Inr (vh, h)"
    using handle_stream_gzip [OF \<open>codec_ok cd\<close>] decode
    by (simp_all add: handleManifest_def handleConfig_def handleStarlightHeader_def)
  ultimately show ?thesis
    using resp body by (intro exI [of _ resp] exI [of _ "header_metadata cd b h"] exI [of _ ?z1] exI [of _ ?z2] exI [of _ ?z3]
        exI [of _ "?z2 @ ?z3 @ body"] exI [of _ "?z3 @ body"]) (simp add: header_metadata_def)
qed

text \<open>
  C8: The response carries the bundle. From the header and body that the proxy writes for a builder, the
  client gets the digests and the content length, finds the three streams at the sizes of the header, and
  gets from them the manifest, the configuration and the header it was sent; what is left of the body is
  the contents, and the content length counts all of it.
\<close>

theorem header_roundtrip:
  assumes "codec_ok cd" and m: "cd_marshal cd b = Inr h" and fits: "int64 (int (length (streams cd b h)))"
    "int64 (int (length (streams cd b h)) + db_BodyLength b)" and digests: "b_manifestDigest b \<noteq> []" "cd_digest cd h \<noteq> []"
    and decode: "mf (b_manifest b) = Inr vm" "cf (b_config b) = Inr vc" "hf h = Inr vh"
    and body: "int (length body) = db_BodyLength b"
  shows "\<exists>resp meta z1 z2 z3 r1 r2.
      WriteHeader cd b = Inr resp \<and>
      DeltaImage (Inr (resp\<lparr>hr_Body := hr_Body resp @ body\<rparr>)) = Inr (hr_Body resp @ body, meta) \<and>
      dm_Digest meta = b_manifestDigest b \<and> dm_StarlightDigest meta = cd_digest cd h \<and>
      dm_ContentLength meta = int (length (hr_Body resp @ body)) \<and>
      readBody (hr_Body resp @ body) (dm_ManifestSize meta) = Inr (z1, r1) \<and> handleManifest cd mf z1 = Inr (vm, b_manifest b) \<and>
      readBody r1 (dm_ConfigSize meta) = Inr (z2, r2) \<and> handleConfig cd cf z2 = Inr (vc, b_config b) \<and>
      readBody r2 (dm_StarlightHeaderSize meta) = Inr (z3, body) \<and> handleStarlightHeader cd hf z3 = Inr (vh, h)"
  by (rule header_read) (fact assms)+

definition plain_codec :: codec where
  "plain_codec = \<lparr>cd_gzip = (\<lambda>b. b), cd_gunzip = (\<lambda>b. Inr (Inr b)), cd_marshal = (\<lambda>b. Inr (itoa (db_BodyLength b))),
     cd_digest = (\<lambda>s. ''sha256:'' @ s)\<rparr>"

definition sample_loaded :: builder where
  "sample_loaded = (case Builder_Load (\<lambda>xs. xs) no_faults sample_db sample_registry 0 empty_cache sample_builder of
     Some (cs, Inr b) \<Rightarrow> b | _ \<Rightarrow> sample_builder)"

theorem header_roundtrip_witness:
  "\<exists>resp meta z1 z2 z3 r1 r2.
      WriteHeader plain_codec sample_loaded = Inr resp \<and>
      DeltaImage (Inr (resp\<lparr>hr_Body := hr_Body resp @ replicate (nat (db_BodyLength sample_loaded)) 7\<rparr>)) =
        Inr (hr_Body resp @ replicate (nat (db_BodyLength sample_loaded)) 7, meta) \<and>
      readBody (hr_Body resp @ replicate (nat (db_BodyLength sample_loaded)) 7) (dm_ManifestSize meta) = Inr (z1, r1) \<and>
      handleManifest plain_codec Inr z1 = Inr (b_manifest sample_loaded, b_manifest sample_loaded) \<and>
      readBody r1 (dm_ConfigSize meta) = Inr (z2, r2) \<and>
      readBody r2 (dm_StarlightHeaderSize meta) = Inr (z3, replicate (nat (db_BodyLength sample_loaded)) 7)"
proof -
  have "codec_ok plain_codec" by (simp add: codec_ok_def plain_codec_def)
  moreover have "cd_marshal plain_codec sample_loaded = Inr (itoa (db_BodyLength sample_loaded))"
    by (simp add: plain_codec_def)
  moreover have "int64 (int (length (streams plain_codec sample_loaded (itoa (db_BodyLength sample_loaded)))))"
    "int64 (int (length (streams plain_codec sample_loaded (itoa (db_BodyLength sample_loaded)))) + db_BodyLength sample_loaded)"
    "b_manifestDigest sample_loaded \<noteq> []" "0 \<le> db_BodyLength sample_loaded"
    by code_simp+
  moreover have "cd_digest plain_codec (itoa (db_BodyLength sample_loaded)) \<noteq> []" by (simp add: plain_codec_def)
  ultimately show ?thesis
    using header_roundtrip [of plain_codec sample_loaded "itoa (db_BodyLength sample_loaded)" Inr _ Inr _ Inr _
        "replicate (nat (db_BodyLength sample_loaded)) 7"]
    by fastforce
qed

end
