(* ===== verification/Client_Core.thy ===== *)
theory Client_Core
  imports Snapshotter Manager Client_Config Delta_Protocol
begin

text \<open>
  client/client.go, the client without pulling: its state, the base image of a pull, the scan of the file systems that are on the
  disk, loading an image from the content store, and the interfaces to the snapshotter plugin and the operator. A
  pointer to a manager is an index into the managers that were made. Containerd is a parameter: its image service and
  content store are functions on a state \<open>'ct\<close>.
\<close>

section \<open>The state\<close>

record mount_point =
  mp_fs :: "fs_instance option"
  mp_manager :: "nat option"
  mp_stack :: int
  mp_snapshots :: "(string \<times> sn_info) list"

record client =
  cl_cfg :: configuration
  cl_layerMap :: "(string \<times> mount_point) list"
  cl_managers :: "manager list"
  cl_managerMap :: "(string \<times> nat) list"
  cl_defaultOptimizer :: bool
  cl_defaultOptimizeGroup :: string

definition new_client :: "configuration \<Rightarrow> client" where
  "new_client cfg = \<lparr>cl_cfg = cfg, cl_layerMap = [], cl_managers = [], cl_managerMap = [], cl_defaultOptimizer = False, cl_defaultOptimizeGroup = []\<rparr>"

definition new_mount_point :: "nat option \<Rightarrow> int \<Rightarrow> mount_point" where
  "new_mount_point mg stack = \<lparr>mp_fs = None, mp_manager = mg, mp_stack = stack, mp_snapshots = []\<rparr>"

section \<open>Containerd\<close>

text \<open>An image of containerd: the digest of its target is that of its manifest.\<close>

record ctr_image =
  ci_Name :: string
  ci_Digest :: string
  ci_Size :: int
  ci_Labels :: "(string \<times> string) list"
  ci_CreatedAt :: int

record 'ct containerd =
  ct_ListImages :: "string \<Rightarrow> 'ct \<Rightarrow> ctr_image list result"
  ct_Delete :: "string \<Rightarrow> 'ct \<Rightarrow> 'ct \<times> unit result"
  ct_Create :: "ctr_image \<Rightarrow> 'ct \<Rightarrow> 'ct \<times> ctr_image result"
  ct_Update :: "ctr_image \<Rightarrow> string \<Rightarrow> 'ct \<Rightarrow> 'ct \<times> ctr_image result"
  ct_Info :: "string \<Rightarrow> 'ct \<Rightarrow> (string \<times> string) list result"
  ct_UpdateInfo :: "string \<Rightarrow> (string \<times> string) list \<Rightarrow> 'ct \<Rightarrow> 'ct \<times> unit result"
  ct_ReadBlob :: "string \<Rightarrow> 'ct \<Rightarrow> string result"
  ct_WriteBlob :: "string \<Rightarrow> string \<Rightarrow> (string \<times> string) list \<Rightarrow> 'ct \<Rightarrow> 'ct \<times> unit result"

record v1_manifest =
  vm_Config :: string
  vm_LayerSizes :: "int list"

text \<open>
  What else the client gets from outside: JSON decoders, the addresses and times of \<^verbatim>\<open>Init\<close>, the order in
  which Go visits a map, the error of opening and writing a trace log, the clock and its text, the random identifiers of the snapshots, and the
  connection to containerd in a namespace.
\<close>

record 'ct client_env =
  ce_env :: environment
  ce_manifest :: "string \<Rightarrow> v1_manifest result"
  ce_config :: "string \<Rightarrow> string list result"
  ce_bundle :: "string \<Rightarrow> rbundle result"
  ce_address :: "nat \<Rightarrow> 64 word"
  ce_ptime :: "string \<Rightarrow> int"
  ce_iter :: "string list \<Rightarrow> string list"
  ce_open_log :: "go_error option"
  ce_now :: int
  ce_rfc3339 :: string
  ce_randId :: "nat \<Rightarrow> string"
  ce_ChainIDs :: "string list \<Rightarrow> string list"
  ce_connect :: "string \<Rightarrow> 'ct containerd result"

text \<open>The world that an operation changes: the client, containerd and the host.\<close>

type_synonym 'ct world = "(client \<times> 'ct) \<times> host"

section \<open>Finding a base image\<close>

definition ImageLabelPuller :: string where "ImageLabelPuller = ''puller.containerd.io''"

definition ImageLabelStarlightMetadata :: string where "ImageLabelStarlightMetadata = ''metadata.starlight.mc256.dev''"

definition ContentLabelStarlightMediaType :: string where "ContentLabelStarlightMediaType = ''mediaType.starlight.mc256.dev''"

definition ContentLabelContainerdGC :: string where "ContentLabelContainerdGC = ''containerd.io/gc.ref.content''"

definition ContentLabelSnapshotGC :: string where "ContentLabelSnapshotGC = ''containerd.io/gc.ref.snapshot.starlight''"

definition ContentLabelCompletion :: string where "ContentLabelCompletion = ''complete.starlight.mc256.dev''"

text \<open>\<^verbatim>\<open>regexp.QuoteMeta\<close>.\<close>

definition QuoteMeta :: "string \<Rightarrow> string" where
  "QuoteMeta s = concat (map (\<lambda>c. if c = CHR 0x5C \<or> c \<in> set ''.+*?()|[]{}^$'' then [CHR 0x5C, c] else [c]) s)"

definition getImageFilter :: "string \<Rightarrow> bool \<Rightarrow> string" where
  "getImageFilter ref completed =
     ''name~=^'' @ QuoteMeta ref @ '',labels.'' @ ImageLabelPuller @ ''==starlight'' @
       (if completed then '',labels.'' @ ContentLabelCompletion else [])"

definition getDistributionSource :: "string \<Rightarrow> string" where
  "getDistributionSource cfg = ''starlight.mc256.dev/distribution.source.'' @ cfg"

definition newest_of :: "ctr_image list \<Rightarrow> ctr_image \<Rightarrow> ctr_image" where
  "newest_of list i0 = fold (\<lambda>i newest. if ci_CreatedAt newest < ci_CreatedAt i then i else newest) list i0"

definition findImage :: "'ct containerd \<Rightarrow> string \<Rightarrow> 'ct \<Rightarrow> ctr_image option result" where
  "findImage ctr flt ct =
     (case ct_ListImages ctr flt ct of Inl e \<Rightarrow> Inl e
      | Inr [] \<Rightarrow> Inr None
      | Inr (i # is) \<Rightarrow> Inr (Some (newest_of (i # is) i)))"

definition FindBaseImage :: "'ct containerd \<Rightarrow> string \<Rightarrow> string \<Rightarrow> 'ct \<Rightarrow> ctr_image option result" where
  "FindBaseImage ctr base ref ct =
     (let sp = split_on (CHR '':'') ref
      in if base = [] \<and> length sp \<le> 1 then Inl (Fail (Errorf (''invalid image reference: '' @ ref @ '', missing tag'')))
         else let flt = (if base = [] then getImageFilter (trim_suffix (last sp) ref) True else getImageFilter base True)
              in case findImage ctr flt ct of
                   Inl e \<Rightarrow> Inl (wrap (''failed to find base image for '' @ ref) e)
                 | Inr img \<Rightarrow>
                     if img = None \<and> base \<noteq> [] then Inl (Fail (Errorf (''failed to find appointed base image '' @ base)))
                     else Inr img)"

section \<open>Interfaces to the plugin and the operator\<close>

definition GetFilesystemRoot :: "client \<Rightarrow> string" where
  "GetFilesystemRoot c = cf_FileSystemRoot (cl_cfg c)"

definition AddCompletedLayers :: "string \<Rightarrow> client \<Rightarrow> client" where
  "AddCompletedLayers d c =
     (if map_of (cl_layerMap c) d = None then c\<lparr>cl_layerMap := AList.update d (new_mount_point None (- 1)) (cl_layerMap c)\<rparr> else c)"

definition GetFilesystemPath :: "client \<Rightarrow> string \<Rightarrow> string result" where
  "GetFilesystemPath c cd = layer_directory (cf_FileSystemRoot (cl_cfg c)) cd"

definition GetMountingPoint :: "client \<Rightarrow> string \<Rightarrow> string" where
  "GetMountingPoint c ssId = path_join [cf_FileSystemRoot (cl_cfg c), ''mnt'', ssId]"

definition client_getStarlightFS :: "client \<Rightarrow> string \<Rightarrow> string result" where
  "client_getStarlightFS c ssId = (case GetFilesystemPath c ssId of Inl e \<Rightarrow> Inl e | Inr p \<Rightarrow> Inr (path_join [p, ''slfs'']))"

definition set_mount_point :: "string \<Rightarrow> mount_point \<Rightarrow> client \<Rightarrow> client" where
  "set_mount_point d mp c = c\<lparr>cl_layerMap := AList.update d mp (cl_layerMap c)\<rparr>"

definition set_manager :: "nat \<Rightarrow> manager \<Rightarrow> client \<Rightarrow> client" where
  "set_manager i m c = c\<lparr>cl_managers := (cl_managers c)[i := m]\<rparr>"

definition Mount :: "environment \<Rightarrow> string \<Rightarrow> string \<Rightarrow> sn_info \<Rightarrow> client \<times> host \<Rightarrow> (client \<times> host) \<times> string result" where
  "Mount en ld ssId sn s =
     (case s of (c, h) \<Rightarrow>
       (case map_of (cl_layerMap c) ld of
          None \<Rightarrow> (s, Inl (Fail (Errorf ''layer incomplete or not found. remove and pull again'')))
        | Some mp \<Rightarrow>
           (case mp_fs mp of
              Some f \<Rightarrow> ((set_mount_point ld (mp\<lparr>mp_snapshots := AList.update (sn_Name sn) sn (mp_snapshots mp)\<rparr>) c, h), Inr (in_mountPoint f))
            | None \<Rightarrow>
               (case mp_manager mp of
                  None \<Rightarrow> (s, Inl (Fail ErrNoManager))
                | Some i \<Rightarrow>
                   (let mnt = path_join [GetMountingPoint c ssId, ''slfs'']
                    in case NewStarlightFS (en_fuse en) mnt (mp_stack mp) (cl_managers c ! i) (ho_mounts h) of
                         ((m, mounts), Inl e) \<Rightarrow> ((set_manager i m c, h\<lparr>ho_mounts := mounts\<rparr>), Inl (wrap ''failed to mount filesystem'' e))
                       | ((m, mounts), Inr f) \<Rightarrow>
                           ((set_mount_point ld (mp\<lparr>mp_fs := Some f, mp_snapshots := AList.update (sn_Name sn) sn (mp_snapshots mp)\<rparr>)
                               (set_manager i m c), h\<lparr>ho_mounts := mounts\<rparr>), Inr mnt))))))"

text \<open>\<^verbatim>\<open>Unmount\<close> leaves the instance in the layer's mount point.\<close>

definition Unmount :: "environment \<Rightarrow> string \<Rightarrow> string \<Rightarrow> client \<times> host \<Rightarrow> (client \<times> host) \<times> unit result" where
  "Unmount en cd sn s =
     (case s of (c, h) \<Rightarrow>
       (case map_of (cl_layerMap c) cd of
          None \<Rightarrow> (s, Inr ())
        | Some mp \<Rightarrow>
           if map_of (mp_snapshots mp) sn = None then (s, Inr ())
           else let snaps = AList.delete sn (mp_snapshots mp);
                    c1 = set_mount_point cd (mp\<lparr>mp_snapshots := snaps\<rparr>) c
                in if snaps \<noteq> [] then ((c1, h), Inr ())
                   else case mp_fs mp of
                          None \<Rightarrow> ((c1, h), Inr ())
                        | Some f \<Rightarrow>
                           (case Instance_Teardown (en_fuse en) f (ho_mounts h) of
                              (mounts, Inl e) \<Rightarrow> ((c1, h\<lparr>ho_mounts := mounts\<rparr>), Inl e)
                            | (mounts, Inr u) \<Rightarrow>
                                ((c1, h\<lparr>ho_mounts := mounts, ho_disk := fst (RemoveAll (en_os en) (in_mountPoint f) (ho_disk h))\<rparr>), Inr ()))))"

section \<open>Loading an image\<close>

text \<open>\<^verbatim>\<open>Init\<close> of a new manager with the configuration of the client; the manager is stored at the next address.\<close>

definition init_manager :: "'ct client_env \<Rightarrow> client \<Rightarrow> bool \<Rightarrow> string list \<Rightarrow> string \<Rightarrow> rbundle \<Rightarrow> manager result" where
  "init_manager ce c ready diffIDs dg b =
     Init (ce_address ce) (ce_ptime ce) (ce_iter ce) (cf_FileSystemRoot (cl_cfg c)) (cf_TracesDir (cl_cfg c)) ready diffIDs dg (unmarshal_manager b)"

definition add_manager :: "string \<Rightarrow> manager \<Rightarrow> client \<Rightarrow> client" where
  "add_manager dg m c = c\<lparr>cl_managers := cl_managers c @ [m], cl_managerMap := AList.update dg (length (cl_managers c)) (cl_managerMap c)\<rparr>"

text \<open>A layer of a manager is linked to it, unless another manager has it.\<close>

definition link_mount_point :: "nat \<Rightarrow> int \<Rightarrow> string \<Rightarrow> client \<Rightarrow> client" where
  "link_mount_point i stack d c =
     (case map_of (cl_layerMap c) d of
        Some mp \<Rightarrow> (if mp_manager mp = None then set_mount_point d (mp\<lparr>mp_manager := Some i, mp_stack := stack\<rparr>) c else c)
      | None \<Rightarrow> set_mount_point d (new_mount_point (Some i) stack) c)"

text \<open>The hash of the layer of a serial; a nil layer panics.\<close>

definition layer_hash :: "manager \<Rightarrow> int \<Rightarrow> string result" where
  "layer_hash m serial = (case map_of (mg_layers m) serial of None \<Rightarrow> Inl (Panic ''nil pointer dereference'') | Some l \<Rightarrow> Inr (rl_Hash l))"

fun link_stack :: "manager \<Rightarrow> nat \<Rightarrow> int \<Rightarrow> int list \<Rightarrow> client \<Rightarrow> client \<times> unit result" where
  "link_stack m i idx [] c = (c, Inr ())"
| "link_stack m i idx (serial # serials) c =
     (case layer_hash m serial of Inl e \<Rightarrow> (c, Inl e)
      | Inr d \<Rightarrow> link_stack m i (idx + 1) serials (link_mount_point i idx d c))"

text \<open>The optimizer of a manager is set on when it is the default.\<close>

definition default_optimizer :: "'ct client_env \<Rightarrow> nat \<Rightarrow> client \<Rightarrow> client \<times> unit result" where
  "default_optimizer ce i c =
     (if cl_defaultOptimizer c then
        (case SetOptimizerOn (ce_open_log ce) (ce_now ce) (cl_defaultOptimizeGroup c) (cl_managers c ! i) of
           (m, Inl e) \<Rightarrow> (set_manager i m c, Inl (wrap ''failed to enable optimizer'' e))
         | (m, Inr t) \<Rightarrow> (set_manager i m c, Inr ()))
      else (c, Inr ()))"

definition read_json :: "'ct containerd \<Rightarrow> (string \<Rightarrow> 'a result) \<Rightarrow> string \<Rightarrow> 'ct \<Rightarrow> 'a result" where
  "read_json ctr unmarshal dg ct = (case ct_ReadBlob ctr dg ct of Inl e \<Rightarrow> Inl e | Inr buf \<Rightarrow> unmarshal buf)"

definition find_label :: "(string \<times> string) list \<Rightarrow> string \<Rightarrow> string" where
  "find_label labels k = (case map_of labels k of Some v \<Rightarrow> v | None \<Rightarrow> [])"

definition LoadImage :: "'ct client_env \<Rightarrow> 'ct containerd \<Rightarrow> string \<Rightarrow> 'ct \<Rightarrow> client \<Rightarrow> client \<times> nat result" where
  "LoadImage ce ctr manifest ct c =
     (case map_of (cl_managerMap c) manifest of Some i \<Rightarrow> (c, Inr i) | None \<Rightarrow>
      (case ct_Info ctr manifest ct of Inl e \<Rightarrow> (c, Inl (wrap ''failed to get manifest info'' e)) | Inr labels \<Rightarrow>
      (case read_json ctr (ce_manifest ce) manifest ct of Inl e \<Rightarrow> (c, Inl e) | Inr man \<Rightarrow>
      (case read_json ctr (ce_bundle ce) (find_label labels (ContentLabelContainerdGC @ ''.starlight'')) ct of Inl e \<Rightarrow> (c, Inl e) | Inr b \<Rightarrow>
      (case read_json ctr (ce_config ce) (vm_Config man) ct of Inl e \<Rightarrow> (c, Inl e) | Inr diffIDs \<Rightarrow>
      (case init_manager ce c True diffIDs manifest b of Inl e \<Rightarrow> (c, Inl e) | Inr m \<Rightarrow>
        (let i = length (cl_managers c)
         in case default_optimizer ce i (add_manager manifest m c) of
              (c1, Inl e) \<Rightarrow> (c1, Inl e)
            | (c1, Inr u) \<Rightarrow>
               (case link_stack m i 0 (mg_stackSerialMap m) c1 of
                  (c2, Inl e) \<Rightarrow> (c2, Inl e)
                | (c2, Inr v) \<Rightarrow> (c2, Inr i)))))))))"

definition PrepareManager :: "'ct client_env \<Rightarrow> string \<Rightarrow> string \<Rightarrow> 'ct \<Rightarrow> client \<Rightarrow> client \<times> unit result" where
  "PrepareManager ce namespace manifest ct c =
     (case ce_connect ce namespace of Inl e \<Rightarrow> (c, Inl (wrap ''failed to connect to containerd'' e)) | Inr ctr \<Rightarrow>
      (case LoadImage ce ctr manifest ct c of
         (c1, Inl e) \<Rightarrow> (c1, Inl (wrap ''failed to load image'' e))
       | (c1, Inr i) \<Rightarrow> (c1, Inr ())))"

text \<open>The interface of the plugin on the client and containerd.\<close>

definition client_plugin :: "'ct client_env \<Rightarrow> (client \<times> 'ct) plugin_client" where
  "client_plugin ce = \<lparr>
     pc_GetFilesystemPath = (\<lambda>(c, ct). GetFilesystemPath c),
     pc_GetMountingPoint = (\<lambda>(c, ct). GetMountingPoint c),
     pc_PrepareManager = (\<lambda>namespace md ((c, ct), h). case PrepareManager ce namespace md ct c of (c1, r) \<Rightarrow> (((c1, ct), h), r)),
     pc_Unmount = (\<lambda>cd sn ((c, ct), h). case Unmount (ce_env ce) cd sn (c, h) of ((c1, h1), r) \<Rightarrow> (((c1, ct), h1), r)),
     pc_Mount = (\<lambda>ld ssId sn ((c, ct), h). case Mount (ce_env ce) ld ssId sn (c, h) of ((c1, h1), r) \<Rightarrow> (((c1, ct), h1), r))\<rparr>"

section \<open>Snapshots of an image\<close>

text \<open>
  \<^verbatim>\<open>CreateSnapshots\<close> of client/manager.go for the manager at address \<open>i\<close>: one snapshot for every chain identifier, each on the one
  before.
\<close>

fun create_snapshots :: "'ct world snapshot_service \<Rightarrow> (nat \<Rightarrow> string) \<Rightarrow> nat \<Rightarrow> nat \<Rightarrow> string \<Rightarrow> string list \<Rightarrow> 'ct world \<Rightarrow> 'ct world \<times> unit result" where
  "create_snapshots sn randId i idx prev [] w = (w, Inr ())"
| "create_snapshots sn randId i idx prev (chain # chain_ids) w =
     (case w of ((c, ct), h) \<Rightarrow>
       (let m = cl_managers c ! i
        in case at_index (mg_stackSerialMap m) (int idx) of Inl e \<Rightarrow> (w, Inl e) | Inr serial \<Rightarrow>
         (case layer_hash m serial of Inl e \<Rightarrow> (w, Inl e) | Inr d \<Rightarrow>
           (case AddSnapshot sn (randId idx) chain prev (mg_manifestDigest m) d (int idx) ((link_mount_point i (int idx) d c, ct), h) of
              (w1, Inl e) \<Rightarrow> (w1, Inl (wrap (''failed prepare new image snapshots '' @ chain) e))
            | (w1, Inr info) \<Rightarrow> create_snapshots sn randId i (idx + 1) chain chain_ids w1))))"

definition CreateSnapshots :: "'ct client_env \<Rightarrow> 'ct world snapshot_service \<Rightarrow> nat \<Rightarrow> 'ct world \<Rightarrow> 'ct world \<times> string list result" where
  "CreateSnapshots ce sn i w =
     (let chainIds = ce_ChainIDs ce (mg_DiffIDs (cl_managers (fst (fst w)) ! i))
      in case create_snapshots sn (ce_randId ce) i 0 [] chainIds w of
           (w1, Inl e) \<Rightarrow> (w1, Inl e)
         | (w1, Inr u) \<Rightarrow> (w1, Inr chainIds))"

text \<open>\<^verbatim>\<open>Close\<close> tears every manager down, before the process ends.\<close>

definition Client_Close :: "environment \<Rightarrow> int \<Rightarrow> client \<Rightarrow> host \<Rightarrow> client \<times> host" where
  "Client_Close en now c h =
     fold (\<lambda>i (c1, h1). case Manager_Teardown (en_fuse en) now (cl_managers c1 ! i) (ho_mounts h1) of
             (m, mounts) \<Rightarrow> (set_manager i m c1, h1\<lparr>ho_mounts := mounts\<rparr>))
       (map snd (cl_managerMap c)) (c, h)"

section \<open>Scanning the layers on the disk\<close>

text \<open>\<^verbatim>\<open>ioutil.ReadDir\<close>: the entries of a directory by name, with whether they are directories.\<close>

definition ReadDir :: "os \<Rightarrow> string \<Rightarrow> disk \<Rightarrow> (string \<times> bool) list result" where
  "ReadDir os p d =
     (case os ''open'' p of Some e \<Rightarrow> Inl (Fail e) | None \<Rightarrow>
        if p \<notin> set (dk_dirs d) then Inl (Fail (ExtError ''ENOENT''))
        else Inr (map (\<lambda>q. (path_base q, q \<in> set (dk_dirs d)))
               (sort_less (\<lambda>a b. lexordp (\<lambda>x y. of_char x < (of_char y :: nat)) a b)
                  (filter (\<lambda>q. q \<noteq> p \<and> path_dir q = p) (remdups (dk_dirs d @ map fst (dk_files d)))))))"

definition layers_path :: "client \<Rightarrow> string list \<Rightarrow> string" where
  "layers_path c ds = path_join (GetFilesystemRoot c # ''layers'' # ds)"

text \<open>
  The four levels of the scan, on the client, the disk, and whether a complete layer was found. What has no complete layer
  below it is removed; a directory that cannot be read is passed over.
\<close>

definition scan_layer :: "os \<Rightarrow> string list \<Rightarrow> string \<times> bool \<Rightarrow> client \<times> disk \<times> bool \<Rightarrow> client \<times> disk \<times> bool" where
  "scan_layer os ds d4 s =
     (case s of (c, d, x) \<Rightarrow>
        if snd d4 then
          (let p = layers_path c (ds @ [fst d4]); completeFile = path_join [p, ''completed.json'']
           in if os ''stat'' completeFile = None \<and> (file_at d completeFile \<noteq> None \<or> completeFile \<in> set (dk_dirs d))
              then (AddCompletedLayers (''sha256:'' @ concat (ds @ [fst d4])) c, d, True)
              else (c, fst (RemoveAll os p d), x))
        else s)"

fun scan_level :: "os \<Rightarrow> nat list \<Rightarrow> string list \<Rightarrow> (string \<times> bool) \<Rightarrow> client \<times> disk \<times> bool \<Rightarrow> client \<times> disk \<times> bool" where
  "scan_level os [] ds dir s = scan_layer os ds dir s"
| "scan_level os (n # ns) ds dir s =
     (case s of (c, d, x) \<Rightarrow>
       (let p = layers_path c (ds @ [fst dir]);
            go = (if snd dir \<and> length (fst dir) = n
                  then (case ReadDir os p d of
                          Inl e \<Rightarrow> None
                        | Inr entries \<Rightarrow> Some (fold (scan_level os ns (ds @ [fst dir])) entries (c, d, False)))
                  else Some (c, d, False))
        in case go of
             None \<Rightarrow> s
           | Some (c1, d1, found) \<Rightarrow>
               if found then (c1, d1, True) else (c1, fst (RemoveAll os p d1), x)))"

text \<open>An entry that is not what its level expects is removed too. The scan does nothing when there are no layers.\<close>

definition ScanExistingFilesystems :: "os \<Rightarrow> client \<Rightarrow> disk \<Rightarrow> client \<times> disk" where
  "ScanExistingFilesystems os c d =
     (case ReadDir os (layers_path c []) d of
        Inl e \<Rightarrow> (c, d)
      | Inr entries \<Rightarrow> (case fold (scan_level os [1, 2, 2] []) entries (c, d, False) of (c1, d1, _) \<Rightarrow> (c1, d1)))"

definition NewClient :: "os \<Rightarrow> configuration \<Rightarrow> disk \<Rightarrow> client \<times> disk" where
  "NewClient os cfg d = ScanExistingFilesystems os (new_client cfg) d"

end
