(* ===== verification/Client_Pull.thy ===== *)
theory Client_Pull
  imports Client_Core
begin

text \<open>
  Pulling an image: \<^verbatim>\<open>PullImage\<close> of client/client.go, which stores what the proxy answers, registers the manager, creates the
  snapshots, and extracts the contents. It sends one or two messages on a channel without a buffer; the model gives
  the messages in their order, as if each was received. HTTP is the parameter \<open>http\<close>.
\<close>

section \<open>The content store\<close>

definition store_blob :: "'ct containerd \<Rightarrow> string \<Rightarrow> string \<Rightarrow> string \<Rightarrow> (string \<times> string) list \<Rightarrow> 'ct \<Rightarrow> 'ct \<times> unit result" where
  "store_blob ctr what d text labels ct =
     (case ct_WriteBlob ctr d text labels ct of
        (ct1, Inl e) \<Rightarrow> (ct1, Inl (wrap (''failed to open writer for '' @ what) e))
      | (ct1, Inr u) \<Rightarrow> (ct1, Inr ()))"

definition storeManifest :: "'ct containerd \<Rightarrow> string \<Rightarrow> string \<Rightarrow> string \<Rightarrow> string \<Rightarrow> string \<Rightarrow> string \<Rightarrow> 'ct \<Rightarrow> 'ct \<times> unit result" where
  "storeManifest ctr cfgName d ref cfgd sld man ct = store_blob ctr ''manifest'' d man
     [(ImageLabelPuller, ''starlight''), (ContentLabelStarlightMediaType, ''manifest''), (ContentLabelContainerdGC @ ''.config'', cfgd),
      (ContentLabelContainerdGC @ ''.starlight'', sld), (getDistributionSource cfgName, ref)] ct"

definition storeConfig :: "'ct containerd \<Rightarrow> string \<Rightarrow> string \<Rightarrow> string \<Rightarrow> string \<Rightarrow> 'ct \<Rightarrow> 'ct \<times> unit result" where
  "storeConfig ctr cfgName ref pd cfg ct = store_blob ctr ''config'' pd cfg
     [(ImageLabelPuller, ''starlight''), (ContentLabelStarlightMediaType, ''config''), (getDistributionSource cfgName, ref)] ct"

definition storeStarlightHeader :: "'ct containerd \<Rightarrow> string \<Rightarrow> string \<Rightarrow> string \<Rightarrow> string \<Rightarrow> 'ct \<Rightarrow> 'ct \<times> unit result" where
  "storeStarlightHeader ctr cfgName ref sld h ct = store_blob ctr ''starlight header'' sld h
     [(ImageLabelPuller, ''starlight''), (ContentLabelStarlightMediaType, ''starlight''), (getDistributionSource cfgName, ref)] ct"

definition gc_labels :: "string list \<Rightarrow> (string \<times> string) list \<Rightarrow> (string \<times> string) list" where
  "gc_labels chainIds labels = fold (\<lambda>(idx, d). AList.update (ContentLabelSnapshotGC @ ''/'' @ itoa (int idx)) d) (List.enumerate 0 chainIds) labels"

definition updateManifest :: "'ct containerd \<Rightarrow> string \<Rightarrow> string list \<Rightarrow> string \<Rightarrow> 'ct \<Rightarrow> 'ct \<times> unit result" where
  "updateManifest ctr d chainIds t ct =
     (case ct_Info ctr d ct of Inl e \<Rightarrow> (ct, Inl e) | Inr labels \<Rightarrow>
        (case ct_UpdateInfo ctr d (gc_labels chainIds (AList.update ContentLabelCompletion t labels)) ct of
           (ct1, Inl e) \<Rightarrow> (ct1, Inl (wrap ''failed to mark manifest as completed'' e))
         | (ct1, Inr u) \<Rightarrow> (ct1, Inr ())))"

section \<open>Calls to the proxy\<close>

definition proxy_of :: "configuration \<Rightarrow> string \<Rightarrow> (starlight_proxy \<times> string) result" where
  "proxy_of cfg nam =
     (case getProxy cfg nam of
        (None, k) \<Rightarrow> Inl (Panic ''nil pointer dereference'')
      | (Some pc, k) \<Rightarrow>
          (let p = NewStarlightProxy (px_Protocol pc) (px_Address pc)
           in Inr (if px_Username pc \<noteq> [] then SetAuth (px_Username pc) (px_Password pc) p else p, k)))"

type_synonym http = "http_request \<Rightarrow> http_response result"

definition client_Notify :: "http \<Rightarrow> client \<Rightarrow> string \<Rightarrow> string \<Rightarrow> bool \<Rightarrow> unit result" where
  "client_Notify http c proxyCfg reference insecure =
     (case proxy_of (cl_cfg c) proxyCfg of Inl e \<Rightarrow> Inl e | Inr (p, k) \<Rightarrow>
        (case Notify (http (Notify_request p reference insecure)) of
           Inl e \<Rightarrow> Inl (wrap ''failed to notify proxy'' e) | Inr u \<Rightarrow> Inr ()))"

definition client_Ping :: "http \<Rightarrow> (byte list \<Rightarrow> api_response result) \<Rightarrow> string \<Rightarrow> int \<Rightarrow> client \<Rightarrow> string \<Rightarrow> (int \<times> string \<times> string) result" where
  "client_Ping http unmarshal t rtt c proxyCfg =
     (case proxy_of (cl_cfg c) proxyCfg of Inl e \<Rightarrow> Inl e | Inr (p, k) \<Rightarrow>
        (case Ping unmarshal rtt p (http (Ping_request p t)) of
           Inl e \<Rightarrow> Inl (wrap ''failed to ping proxy'' e) | Inr r \<Rightarrow> Inr r))"

text \<open>\<open>marshal\<close> is the JSON of the traces.\<close>

definition UploadTraces :: "http \<Rightarrow> ('tc \<Rightarrow> byte list result) \<Rightarrow> client \<Rightarrow> string \<Rightarrow> 'tc \<Rightarrow> unit result" where
  "UploadTraces http marshal c proxyCfg tc =
     (case proxy_of (cl_cfg c) proxyCfg of Inl e \<Rightarrow> Inl e | Inr (p, k) \<Rightarrow>
        (case marshal tc of Inl e \<Rightarrow> Inl (wrap ''failed to marshal trace collection'' e) | Inr buf \<Rightarrow>
           (case Report (http (Report_request p buf)) of
              Inl e \<Rightarrow> Inl (wrap ''failed to upload trace collection'' e) | Inr u \<Rightarrow> Inr ())))"

section \<open>PullImage\<close>

record pull_message =
  pm_img :: "ctr_image option"
  pm_meta :: "delta_metadata option"
  pm_base :: string
  pm_err :: "go_error option"

text \<open>A stage ends the call with its messages (a panic sends none), or goes on.\<close>

type_synonym pull_end = "pull_message list \<times> unit result"

type_synonym ('ct, 'a) stage = "'ct world \<times> (pull_end + 'a)"

definition fail_message :: "string \<Rightarrow> go_error \<Rightarrow> pull_message" where
  "fail_message base e = \<lparr>pm_img = None, pm_meta = None, pm_base = base, pm_err = Some e\<rparr>"

definition ends :: "string \<Rightarrow> failure \<Rightarrow> pull_end" where
  "ends base e = (case e of Panic p \<Rightarrow> ([], Inl (Panic p)) | Fail f \<Rightarrow> ([fail_message base f], Inr ()))"

definition check_local :: "'ct client_env \<Rightarrow> 'ct containerd \<Rightarrow> string \<Rightarrow> 'ct world \<Rightarrow> ('ct, unit) stage" where
  "check_local ce ctr ref w =
     (case w of ((c, ct), h) \<Rightarrow>
       (case findImage ctr (getImageFilter ref False) ct of
          Inl e \<Rightarrow> (w, Inl (ends [] (wrap (''failed to check requested image '' @ ref) e)))
        | Inr None \<Rightarrow> (w, Inr ())
        | Inr (Some img) \<Rightarrow>
           if map_of (ci_Labels img) ContentLabelCompletion \<noteq> None then
             (case LoadImage ce ctr (ci_Digest img) ct c of
                (c1, Inl e) \<Rightarrow> (((c1, ct), h), Inl (ends [] (wrap (''failed to load image '' @ ref) e)))
              | (c1, Inr i) \<Rightarrow> (((c1, ct), h), Inl ([\<lparr>pm_img = Some img, pm_meta = None, pm_base = [],
                    pm_err = Some (Errorf (''requested image '' @ ref @ '' already exists''))\<rparr>], Inr ())))
           else
             (case ct_Delete ctr ref ct of
                (ct1, Inl e) \<Rightarrow> (((c, ct1), h), Inl (ends [] (wrap (''failed to remove unfinished image '' @ ref) e)))
              | (ct1, Inr u) \<Rightarrow> (((c, ct1), h), Inr ()))))"

definition base_reference :: "ctr_image option \<Rightarrow> string" where
  "base_reference base = (case base of None \<Rightarrow> [] | Some b \<Rightarrow> ci_Name b @ ''@'' @ ci_Digest b)"

text \<open>The body, what its header says, and the name of the proxy; a manager of the image that is in memory is forgotten.\<close>

definition request_delta :: "http \<Rightarrow> string \<Rightarrow> string \<Rightarrow> string \<Rightarrow> string \<Rightarrow> bool \<Rightarrow> 'ct world \<Rightarrow> ('ct, byte list \<times> delta_metadata \<times> string) stage" where
  "request_delta http baseRef ref platform proxyCfg disableEarlyStart w =
     (case w of ((c, ct), h) \<Rightarrow>
       (case proxy_of (cl_cfg c) proxyCfg of
          Inl e \<Rightarrow> (w, Inl (ends [] e))
        | Inr (p, pcn) \<Rightarrow>
           (case DeltaImage (http (DeltaImage_request p baseRef ref platform disableEarlyStart)) of
              Inl e \<Rightarrow> (w, Inl (ends [] (wrap (''failed to pull image '' @ ref) e)))
            | Inr (body, res) \<Rightarrow>
               (((c\<lparr>cl_managerMap := AList.delete (dm_Digest res) (cl_managerMap c)\<rparr>, ct), h), Inr (body, res, pcn)))))"

text \<open>One stream of the header: read, decoded and stored; the rest of the body is returned.\<close>

definition take_stream :: "string \<Rightarrow> string \<Rightarrow> byte list \<Rightarrow> int \<Rightarrow> (byte list \<Rightarrow> ('a \<times> string) result) \<Rightarrow> ('a \<Rightarrow> string \<Rightarrow> 'ct \<Rightarrow> 'ct \<times> unit result)
    \<Rightarrow> 'ct world \<Rightarrow> ('ct, 'a \<times> string \<times> byte list) stage" where
  "take_stream baseRef what body sz handle store w =
     (case w of ((c, ct), h) \<Rightarrow>
       (case readBody body sz of
          Inl e \<Rightarrow> (w, Inl (ends baseRef (wrap (''failed to read '' @ what) e)))
        | Inr (buf, rest) \<Rightarrow>
           (case handle buf of
              Inl e \<Rightarrow> (w, Inl (ends baseRef (wrap (''failed to handle '' @ what) e)))
            | Inr (v, text) \<Rightarrow>
               (case store v text ct of
                  (ct1, Inl e) \<Rightarrow> (((c, ct1), h), Inl (ends baseRef (wrap (''failed to store '' @ what) e)))
                | (ct1, Inr u) \<Rightarrow> (((c, ct1), h), Inr (v, text, rest))))))"

definition original_length :: "delta_metadata \<Rightarrow> v1_manifest \<Rightarrow> delta_metadata" where
  "original_length res man = res\<lparr>dm_OriginalLength := dm_ManifestSize res + sum_list (vm_LayerSizes man) + dm_ConfigSize res\<rparr>"

text \<open>The manifest, the configuration and the header are stored, then the image is created.\<close>

definition receive_header :: "'ct client_env \<Rightarrow> codec \<Rightarrow> 'ct containerd \<Rightarrow> string \<Rightarrow> string \<Rightarrow> string \<Rightarrow> byte list \<Rightarrow> delta_metadata \<Rightarrow> 'ct world
    \<Rightarrow> ('ct, ctr_image \<times> delta_metadata \<times> string list \<times> rbundle \<times> byte list) stage" where
  "receive_header ce cd ctr pcn baseRef ref body res w =
     (case take_stream baseRef ''manifest'' body (dm_ManifestSize res) (handleManifest cd (ce_manifest ce))
             (\<lambda>m. storeManifest ctr pcn (dm_Digest res) ref (vm_Config m) (dm_StarlightDigest res)) w of
        (w1, Inl e) \<Rightarrow> (w1, Inl e)
      | (w1, Inr (manifest, man, body1)) \<Rightarrow>
     (case take_stream baseRef ''config'' body1 (dm_ConfigSize res) (handleConfig cd (ce_config ce))
             (\<lambda>_. storeConfig ctr pcn ref (vm_Config manifest)) w1 of
        (w2, Inl e) \<Rightarrow> (w2, Inl e)
      | (w2, Inr (diffIDs, con, body2)) \<Rightarrow>
     (case take_stream baseRef ''starlight header'' body2 (dm_StarlightHeaderSize res) (handleStarlightHeader cd (ce_bundle ce))
             (\<lambda>_. storeStarlightHeader ctr pcn ref (dm_StarlightDigest res)) w2 of
        (w3, Inl e) \<Rightarrow> (w3, Inl e)
      | (((c3, ct3), h3), Inr (star, sta, body3)) \<Rightarrow>
     (case ct_Create ctr \<lparr>ci_Name = ref, ci_Digest = dm_Digest res, ci_Size = int (length man),
             ci_Labels = [(ImageLabelPuller, ''starlight''), (ImageLabelStarlightMetadata, dm_StarlightDigest res)],
             ci_CreatedAt = ce_now ce\<rparr> ct3 of
        (ct4, Inl e) \<Rightarrow> (((c3, ct4), h3), Inl (ends baseRef (wrap (''failed to create image '' @ ref) e)))
      | (ct4, Inr img) \<Rightarrow> (((c3, ct4), h3), Inr (img, original_length res manifest, diffIDs, star, body3))))))"

text \<open>The manager is made and registered; its address is returned.\<close>

definition register_manager :: "'ct client_env \<Rightarrow> string \<Rightarrow> string list \<Rightarrow> rbundle \<Rightarrow> 'ct world \<Rightarrow> ('ct, nat) stage" where
  "register_manager ce dg diffIDs star w =
     (case w of ((c, ct), h) \<Rightarrow>
       (case init_manager ce c False diffIDs dg star of
          Inl e \<Rightarrow> (w, Inl (ends [] e))
        | Inr m \<Rightarrow> (((add_manager dg m c, ct), h), Inr (length (cl_managers c)))))"

text \<open>The optimizer, the directories and the snapshots; then the image is ready.\<close>

definition prepare_image :: "'ct client_env \<Rightarrow> 'ct world snapshot_service \<Rightarrow> string \<Rightarrow> nat \<Rightarrow> 'ct world \<Rightarrow> ('ct, string list) stage" where
  "prepare_image ce sn baseRef i w =
     (case w of ((c, ct), h) \<Rightarrow>
       (case default_optimizer ce i c of
          (c1, Inl e) \<Rightarrow> (((c1, ct), h), Inl (ends baseRef e))
        | (c1, Inr u) \<Rightarrow>
           (case PrepareDirectories (en_os (ce_env ce)) (map_of (cl_layerMap c1)) (cl_managers c1 ! i) (ho_disk h) of
              ((m, d), r) \<Rightarrow>
                (let c2 = set_manager i m c1; h2 = h\<lparr>ho_disk := d\<rparr>
                 in case r of
                      Inl e \<Rightarrow> (((c2, ct), h2), Inl (ends baseRef (wrap ''failed to initialize directories'' e)))
                    | Inr v \<Rightarrow>
                       (case CreateSnapshots ce sn i ((c2, ct), h2) of
                          (w3, Inl e) \<Rightarrow> (w3, Inl (ends baseRef (wrap ''failed to create snapshots'' e)))
                        | (w3, Inr chainIds) \<Rightarrow> (w3, Inr chainIds))))))"

text \<open>
  After the first message: the contents, and the marks of the image and its manifest. When a mark cannot be set, no second message
  is sent.
\<close>

definition finish_image :: "'ct client_env \<Rightarrow> gunzip \<Rightarrow> byte list \<Rightarrow> 'ct containerd \<Rightarrow> string \<Rightarrow> ctr_image \<Rightarrow> delta_metadata \<Rightarrow> string list \<Rightarrow> nat \<Rightarrow> byte list
    \<Rightarrow> 'ct world \<Rightarrow> 'ct world \<times> pull_end" where
  "finish_image ce gz stamp ctr baseRef img res chainIds i body w =
     (case w of ((c, ct), h) \<Rightarrow>
       (case Extract (en_os (ce_env ce)) gz stamp (cl_managers c ! i) (ho_disk h) (Some (body, None)) of
          ((m, d, s), r) \<Rightarrow>
            (let c1 = set_manager i m c; h1 = h\<lparr>ho_disk := d\<rparr>
             in case r of
                  Inl e \<Rightarrow> (((c1, ct), h1), ends baseRef (wrap ''failed to extract starlight image'' e))
                | Inr u \<Rightarrow>
                   (let img1 = img\<lparr>ci_Labels := AList.update ContentLabelCompletion (ce_rfc3339 ce) (ci_Labels img)\<rparr>
                    in case ct_Update ctr img1 (''labels.'' @ ContentLabelCompletion) ct of
                         (ct1, Inl e) \<Rightarrow> (((c1, ct1), h1), [], Inr ())
                       | (ct1, Inr img2) \<Rightarrow>
                          (case updateManifest ctr (dm_Digest res) chainIds (ce_rfc3339 ce) ct1 of
                             (ct2, Inl e) \<Rightarrow> (((c1, ct2), h1), [], Inr ())
                           | (ct2, Inr v) \<Rightarrow>
                              (((c1, ct2), h1), [\<lparr>pm_img = Some img2, pm_meta = Some res, pm_base = baseRef, pm_err = None\<rparr>], Inr ()))))))"

definition PullImage :: "'ct client_env \<Rightarrow> codec \<Rightarrow> http \<Rightarrow> 'ct world snapshot_service \<Rightarrow> gunzip \<Rightarrow> byte list \<Rightarrow> 'ct containerd \<Rightarrow> ctr_image option
    \<Rightarrow> string \<Rightarrow> string \<Rightarrow> string \<Rightarrow> bool \<Rightarrow> 'ct world \<Rightarrow> 'ct world \<times> pull_end" where
  "PullImage ce cd http sn gz stamp ctr base ref platform proxyCfg disableEarlyStart w =
     (let baseRef = base_reference base
      in case check_local ce ctr ref w of (w1, Inl e) \<Rightarrow> (w1, e) | (w1, Inr u) \<Rightarrow>
        (case request_delta http baseRef ref platform proxyCfg disableEarlyStart w1 of (w2, Inl e) \<Rightarrow> (w2, e) | (w2, Inr (body, res, pcn)) \<Rightarrow>
        (case receive_header ce cd ctr pcn baseRef ref body res w2 of (w3, Inl e) \<Rightarrow> (w3, e) | (w3, Inr (img, res1, diffIDs, star, rest)) \<Rightarrow>
        (case register_manager ce (dm_Digest res) diffIDs star w3 of (w4, Inl e) \<Rightarrow> (w4, e) | (w4, Inr i) \<Rightarrow>
        (case prepare_image ce sn baseRef i w4 of (w5, Inl e) \<Rightarrow> (w5, e) | (w5, Inr chainIds) \<Rightarrow>
        (case finish_image ce gz stamp ctr baseRef img res1 chainIds i rest w5 of (w6, msgs, r) \<Rightarrow>
           (w6, \<lparr>pm_img = Some img, pm_meta = Some res1, pm_base = baseRef, pm_err = None\<rparr> # msgs, r)))))))"

text \<open>The platform is that of the host.\<close>

definition pullImageGrpc :: "'ct client_env \<Rightarrow> codec \<Rightarrow> http \<Rightarrow> ('ct containerd \<Rightarrow> 'ct world snapshot_service) \<Rightarrow> gunzip \<Rightarrow> byte list \<Rightarrow> string
    \<Rightarrow> string \<Rightarrow> string \<Rightarrow> string \<Rightarrow> string \<Rightarrow> bool \<Rightarrow> 'ct world \<Rightarrow> 'ct world \<times> pull_end" where
  "pullImageGrpc ce cd http sn gz stamp platform ns base ref proxyCfg disableEarlyStart w =
     (case ce_connect ce ns of
        Inl e \<Rightarrow> (w, ends [] (wrap ''failed to connect to containerd'' e))
      | Inr ctr \<Rightarrow>
         (case FindBaseImage ctr base ref (snd (fst w)) of
            Inl e \<Rightarrow> (w, ends [] (wrap ''failed to identify base image'' e))
          | Inr baseImg \<Rightarrow> PullImage ce cd http (sn ctr) gz stamp ctr baseImg ref platform proxyCfg disableEarlyStart w))"

end
