(* ===== verification/Daemon_API.thy ===== *)
theory Daemon_API
  imports Client_Pull Tracer
begin

text \<open>
  client/grpc.go: the service of the daemon that the command line tool calls. A handler is a function of its request and
  the state of the client. \<^verbatim>\<open>PullImage\<close> starts the pull in a goroutine and receives its messages from a channel without
  a buffer: it does not return (\<open>None\<close>) when it waits for a message that is never sent, and a message that it does not
  receive holds the goroutine forever.
\<close>

section \<open>Profiles\<close>

definition GetVersion :: string where "GetVersion = Version"

record auth_request =
  aq_ProfileName :: string
  aq_Protocol :: string
  aq_Address :: string
  aq_Username :: string
  aq_Password :: string

type_synonym api_answer = "bool \<times> string"

definition AddProxyProfile :: "os \<Rightarrow> config_json \<Rightarrow> string \<Rightarrow> auth_request \<Rightarrow> client \<Rightarrow> disk \<Rightarrow> (client \<times> disk) \<times> api_answer" where
  "AddProxyProfile os js etcPath req c d =
     (let p = \<lparr>px_Protocol = aq_Protocol req, px_Address = aq_Address req, px_Username = aq_Username req, px_Password = aq_Password req\<rparr>;
          cfg = (cl_cfg c)\<lparr>cf_Proxies := AList.update (aq_ProfileName req) p (cf_Proxies (cl_cfg c))\<rparr>;
          c1 = c\<lparr>cl_cfg := cfg\<rparr>
      in case client_SaveConfig os js etcPath cfg d of
           (d1, Inl e) \<Rightarrow> ((c1, d1), False, ''failed to save config'')
         | (d1, Inr u) \<Rightarrow> ((c1, d1), True, []))"

definition GetProxyProfiles :: "((string \<times> proxy_settings) list \<Rightarrow> (string \<times> proxy_settings) list) \<Rightarrow> client \<Rightarrow> (string \<times> string \<times> string) list" where
  "GetProxyProfiles order c = map (\<lambda>(n, p). (n, px_Protocol p, px_Address p)) (order (cf_Proxies (cl_cfg c)))"

section \<open>Pulling\<close>

record pull_response =
  pr_Success :: bool
  pr_Message :: string
  pr_BaseImage :: string
  pr_TotalImageSize :: int
  pr_OriginalImageSize :: int

definition pull_failed :: "bool \<Rightarrow> pull_message \<Rightarrow> go_error \<Rightarrow> pull_response" where
  "pull_failed success m e = \<lparr>pr_Success = success, pr_Message = go_error_string e, pr_BaseImage = pm_base m,
     pr_TotalImageSize = - 1, pr_OriginalImageSize = 0\<rparr>"

definition pull_succeeded :: "pull_message \<Rightarrow> pull_response result" where
  "pull_succeeded m = (case pm_meta m of
     None \<Rightarrow> Inl (Panic ''nil pointer dereference'')
   | Some meta \<Rightarrow> Inr \<lparr>pr_Success = True, pr_Message = ''ok'', pr_BaseImage = pm_base m,
        pr_TotalImageSize = dm_ContentLength meta, pr_OriginalImageSize = dm_OriginalLength meta\<rparr>)"

text \<open>What the handler answers to the messages, and how many of them it receives.\<close>

fun pull_answer :: "bool \<Rightarrow> pull_message list \<Rightarrow> pull_response result option" where
  "pull_answer wait [] = None"
| "pull_answer wait (m # ms) =
     (case pm_err m of
        Some e \<Rightarrow> Some (Inr (pull_failed (pm_img m \<noteq> None) m e))
      | None \<Rightarrow>
         if wait then
           (case ms of
              [] \<Rightarrow> None
            | m2 # _ \<Rightarrow> (case pm_err m2 of Some e \<Rightarrow> Some (Inr (pull_failed False m2 e)) | None \<Rightarrow> Some (pull_succeeded m)))
         else Some (pull_succeeded m))"

definition received :: "bool \<Rightarrow> pull_message list \<Rightarrow> nat" where
  "received wait ms = (case ms of [] \<Rightarrow> 0 | m # _ \<Rightarrow> if wait \<and> pm_err m = None then min 2 (length ms) else 1)"

record image_reference =
  ir_Base :: string
  ir_Reference :: string
  ir_ProxyConfig :: string
  ir_Namespace :: string
  ir_DisableEarlyStart :: bool

text \<open>A panic of the goroutine ends the process.\<close>

definition api_PullImage :: "'ct client_env \<Rightarrow> codec \<Rightarrow> http \<Rightarrow> ('ct containerd \<Rightarrow> 'ct world snapshot_service) \<Rightarrow> gunzip \<Rightarrow> byte list \<Rightarrow> string
    \<Rightarrow> image_reference \<Rightarrow> 'ct world \<Rightarrow> 'ct world \<times> pull_response result option" where
  "api_PullImage ce cd http sn gz stamp platform req w =
     (let ns = (if ir_Namespace req = [] then cf_Namespace (cl_cfg (fst (fst w))) else ir_Namespace req)
      in case pullImageGrpc ce cd http sn gz stamp platform ns (ir_Base req) (ir_Reference req) (ir_ProxyConfig req) (ir_DisableEarlyStart req) w of
           (w1, msgs, Inl e) \<Rightarrow> (w1, Some (Inl e))
         | (w1, msgs, Inr u) \<Rightarrow> (w1, pull_answer (ir_DisableEarlyStart req) msgs))"

section \<open>The optimizer\<close>

record optimize_response =
  or_Okay :: "(string \<times> string) list"
  or_Failed :: "(string \<times> string) list"

text \<open>\<open>seconds\<close> is the text of a duration, \<open>open_log\<close> and \<open>close_log\<close> the errors of the log of a manager.\<close>

fun optimizers_on :: "(nat \<Rightarrow> go_error option) \<Rightarrow> int \<Rightarrow> string \<Rightarrow> string \<Rightarrow> (string \<times> nat) list \<Rightarrow> client \<times> optimize_response \<Rightarrow> client \<times> optimize_response" where
  "optimizers_on open_log now txt grp [] s = s"
| "optimizers_on open_log now txt grp ((d, i) # ms) (c, r) =
     (case SetOptimizerOn (open_log i) now grp (cl_managers c ! i) of
        (m, Inl e) \<Rightarrow> optimizers_on open_log now txt grp ms
          (set_manager i m c, r\<lparr>or_Failed := AList.update d (case e of Fail f \<Rightarrow> go_error_string f | Panic p \<Rightarrow> p) (or_Failed r)\<rparr>)
      | (m, Inr st) \<Rightarrow> optimizers_on open_log now txt grp ms (set_manager i m c, r\<lparr>or_Okay := AList.update d txt (or_Okay r)\<rparr>))"

fun optimizers_off :: "(nat \<Rightarrow> go_error option) \<Rightarrow> int \<Rightarrow> (int \<Rightarrow> string) \<Rightarrow> (string \<times> nat) list \<Rightarrow> client \<times> optimize_response \<Rightarrow> client \<times> optimize_response" where
  "optimizers_off close_log now seconds [] s = s"
| "optimizers_off close_log now seconds ((d, i) # ms) (c, r) =
     (case SetOptimizerOff (close_log i) now (cl_managers c ! i) of
        (m, Inl e) \<Rightarrow> optimizers_off close_log now seconds ms
          (set_manager i m c, r\<lparr>or_Failed := AList.update d (case e of Fail f \<Rightarrow> go_error_string f | Panic p \<Rightarrow> p) (or_Failed r)\<rparr>)
      | (m, Inr et) \<Rightarrow> optimizers_off close_log now seconds ms
          (set_manager i m c, r\<lparr>or_Okay := AList.update d (''collected '' @ seconds et @ ''s file access traces'') (or_Okay r)\<rparr>))"

definition SetOptimizer :: "((string \<times> nat) list \<Rightarrow> (string \<times> nat) list) \<Rightarrow> (nat \<Rightarrow> go_error option) \<Rightarrow> (nat \<Rightarrow> go_error option) \<Rightarrow> int \<Rightarrow> string
    \<Rightarrow> (int \<Rightarrow> string) \<Rightarrow> bool \<Rightarrow> string \<Rightarrow> client \<Rightarrow> client \<times> optimize_response" where
  "SetOptimizer order open_log close_log now txt seconds enable grp c =
     (let r0 = \<lparr>or_Okay = [], or_Failed = []\<rparr>; ms = order (cl_managerMap c)
      in if enable then optimizers_on open_log now txt grp ms (c\<lparr>cl_defaultOptimizer := True, cl_defaultOptimizeGroup := grp\<rparr>, r0)
         else optimizers_off close_log now seconds ms (c\<lparr>cl_defaultOptimizer := False, cl_defaultOptimizeGroup := []\<rparr>, r0))"

section \<open>Traces and the proxy\<close>

definition answer_of :: "string \<Rightarrow> unit result \<Rightarrow> api_answer result" where
  "answer_of success r = (case r of Inl (Panic p) \<Rightarrow> Inl (Panic p) | Inl (Fail e) \<Rightarrow> Inr (False, go_error_string e) | Inr u \<Rightarrow> Inr (True, success))"

text \<open>
  \<open>readdir\<close> gives the files of the directory of traces. The names of those that \<^verbatim>\<open>NewTraceCollection\<close> removes come with the answer.
\<close>

definition ReportTraces :: "http \<Rightarrow> (string \<Rightarrow> (string \<times> trace_file) list result) \<Rightarrow> (trace_collection \<Rightarrow> byte list result) \<Rightarrow> string \<Rightarrow> client
    \<Rightarrow> string list \<times> api_answer result" where
  "ReportTraces http readdir marshal proxyCfg c =
     (case NewTraceCollection (readdir (cf_TracesDir (cl_cfg c))) of
        Inl (Panic p) \<Rightarrow> ([], Inl (Panic p))
      | Inl (Fail e) \<Rightarrow> ([], Inr (False, go_error_string e))
      | Inr (tc, removed) \<Rightarrow> (removed, answer_of ''uploaded traces'' (UploadTraces http marshal c proxyCfg tc)))"

definition NotifyProxy :: "http \<Rightarrow> (string \<Rightarrow> string result) \<Rightarrow> string \<Rightarrow> string \<Rightarrow> client \<Rightarrow> api_answer result" where
  "NotifyProxy http ParseReference proxyCfg reference c =
     (case ParseReference reference of
        Inl (Panic p) \<Rightarrow> Inl (Panic p)
      | Inl (Fail e) \<Rightarrow> Inr (False, go_error_string e)
      | Inr ref \<Rightarrow> answer_of ref (client_Notify http c proxyCfg ref True))"

definition PingTest :: "http \<Rightarrow> (byte list \<Rightarrow> api_response result) \<Rightarrow> string \<Rightarrow> int \<Rightarrow> string \<Rightarrow> client \<Rightarrow> (bool \<times> string \<times> int) result" where
  "PingTest http unmarshal t rtt proxyCfg c =
     (case client_Ping http unmarshal t rtt c proxyCfg of
        Inl (Panic p) \<Rightarrow> Inl (Panic p)
      | Inl (Fail e) \<Rightarrow> Inr (False, go_error_string e, 0)
      | Inr (n, proto, server) \<Rightarrow> Inr (True, ''ok! - '' @ proto @ ''://'' @ server, n))"

end
