(* ===== verification/Stargz_Reader.thy ===== *)
theory Stargz_Reader
  imports Toc
begin

text \<open>
  util/common/stargz.go, the reader: how the table of contents of a layer is indexed, and how
  files and chunks are found. The entries of the JSON file are the first addresses of the store,
  directories that the reader adds follow. The reader's maps are association lists.
\<close>

section \<open>The reader\<close>

record reader =
  rd_sr :: int
  rd_store :: store
  rd_n :: nat
  rd_tocDigest :: string
  rd_m :: "(string \<times> addr) list"
  rd_chunks :: "(string \<times> addr list) list"

text \<open>
  \<^verbatim>\<open>getOrCreateDir\<close>, on the store and the map of names. It calls itself for the parent of a new
  directory, whose name is shorter.
\<close>

definition new_dir :: "string \<Rightarrow> toc_entry" where
  "new_dir d = zero_entry\<lparr>e_Name := d, e_Type := ''dir'', e_Mode := 493, e_NumLink := 2\<rparr>"

function getOrCreateDir :: "string \<Rightarrow> store \<Rightarrow> (string \<times> addr) list \<Rightarrow> addr \<times> store \<times> (string \<times> addr) list" where
  "getOrCreateDir d st m =
     (case map_of m d of
        Some e \<Rightarrow> (e, st, m)
      | None \<Rightarrow>
          (let e = length st; st1 = st @ [new_dir d]; m1 = AList.update d e m
           in if d \<noteq> []
              then (let (pdir, st2, m2) = getOrCreateDir (parentDir d) st1 m1
                    in (e, AddChild st2 pdir (path_base d) e, m2))
              else (e, st1, m1)))"
  by pat_completeness auto
termination
  by (relation "measure (\<lambda>(d, st, m). length d)") (auto simp: length_parentDir)

declare getOrCreateDir.simps [simp del]

subsection \<open>initFields, the first loop\<close>

text \<open>
  The loop goes over the entries and fixes their names, owners, sizes and landmarks. The maps
  of user and group names are the Go maps \<^verbatim>\<open>uname\<close> and \<^verbatim>\<open>gname\<close>; a missing key reads as the
  empty string. The group name of an entry without one is looked up in \<^verbatim>\<open>uname\<close>.
\<close>

record init_state =
  is_store :: store
  is_m :: "(string \<times> addr) list"
  is_chunks :: "(string \<times> addr list) list"
  is_lastPath :: string
  is_uname :: "int \<rightharpoonup> string"
  is_gname :: "int \<rightharpoonup> string"
  is_landmark :: int
  is_lastReg :: "addr option"

definition name_of :: "(int \<rightharpoonup> string) \<Rightarrow> int \<Rightarrow> string" where
  "name_of m i = (case m i of Some s \<Rightarrow> s | None \<Rightarrow> [])"

definition landmark_of :: "string \<Rightarrow> int \<Rightarrow> int" where
  "landmark_of name l = (if name = NoPrefetchLandmark then 2 else if name = PrefetchLandmark then 1 else l)"

definition init_names :: "init_state \<Rightarrow> addr \<Rightarrow> init_state" where
  "init_names s i =
     (let ent = is_store s ! i;
          ent1 = ent\<lparr>e_Name := cleanEntryName (e_Name ent)\<rparr>;
          lm = landmark_of (e_Name ent1) (is_landmark s);
          ent2 = (if e_landmark ent1 = 0 then ent1\<lparr>e_landmark := lm\<rparr> else ent1)
      in s\<lparr>is_store := (is_store s)[i := ent2], is_landmark := lm,
           is_lastReg := (if e_Type ent2 = ''reg'' then Some i else is_lastReg s)\<rparr>)"

definition init_chunk :: "init_state \<Rightarrow> addr \<Rightarrow> init_state" where
  "init_chunk s i =
     (let ent = (is_store s ! i)\<lparr>e_Name := is_lastPath s\<rparr>;
          ent1 = (case is_lastReg s of
                    Some r \<Rightarrow> (if e_ChunkSize ent = 0 then ent\<lparr>e_ChunkSize := e_Size (is_store s ! r) - e_ChunkOffset ent\<rparr> else ent)
                  | None \<Rightarrow> ent);
          old = (case map_of (is_chunks s) (is_lastPath s) of Some cs \<Rightarrow> cs | None \<Rightarrow> [])
      in s\<lparr>is_store := (is_store s)[i := ent1],
           is_chunks := AList.update (is_lastPath s) (old @ [i]) (is_chunks s)\<rparr>)"

definition init_entry :: "(string \<Rightarrow> int) \<Rightarrow> init_state \<Rightarrow> addr \<Rightarrow> init_state" where
  "init_entry ptime s i =
     (let ent = is_store s ! i;
          un = (if e_Uname ent \<noteq> [] then (is_uname s)(e_UID ent \<mapsto> e_Uname ent) else is_uname s);
          ent1 = (if e_Uname ent \<noteq> [] then ent else ent\<lparr>e_Uname := name_of un (e_UID ent)\<rparr>);
          gn = (if e_Gname ent1 \<noteq> [] then (is_gname s)(e_GID ent1 \<mapsto> e_Gname ent1) else is_gname s);
          ent2 = (if e_Gname ent1 \<noteq> [] then ent1 else ent1\<lparr>e_Gname := name_of un (e_GID ent1)\<rparr>);
          ent3 = InitModTime ptime ent2;
          ent4 = (if e_Type ent3 = ''dir'' then ent3\<lparr>e_NumLink := e_NumLink ent3 + 1\<rparr> else ent3)
      in s\<lparr>is_store := (is_store s)[i := ent4], is_lastPath := e_Name ent, is_uname := un, is_gname := gn,
           is_m := AList.update (e_Name ent) i (is_m s)\<rparr>)"

definition init_sizes :: "init_state \<Rightarrow> addr \<Rightarrow> init_state" where
  "init_sizes s i =
     (let ent = is_store s ! i;
          s1 = (if HasChunk ent then s\<lparr>is_chunks := AList.update (e_Name ent) [i] (is_chunks s)\<rparr> else s)
      in if e_ChunkSize ent = 0 \<and> e_Size ent \<noteq> 0
         then s1\<lparr>is_store := (is_store s)[i := ent\<lparr>e_ChunkSize := e_Size ent\<rparr>]\<rparr> else s1)"

definition init_step :: "(string \<Rightarrow> int) \<Rightarrow> init_state \<Rightarrow> addr \<Rightarrow> init_state" where
  "init_step ptime s i =
     (let s1 = init_names s i;
          s2 = (if e_Type (is_store s1 ! i) = ''chunk'' then init_chunk s1 i else init_entry ptime s1 i)
      in init_sizes s2 i)"

definition init_first :: "(string \<Rightarrow> int) \<Rightarrow> toc_entry list \<Rightarrow> init_state" where
  "init_first ptime entries =
     foldl (init_step ptime) \<lparr>is_store = entries, is_m = [], is_chunks = [], is_lastPath = [],
        is_uname = Map.empty, is_gname = Map.empty, is_landmark = 0, is_lastReg = None\<rparr> [0..<length entries]"

subsection \<open>initFields, the tree\<close>

definition inc_link :: "addr \<Rightarrow> store \<Rightarrow> store" where
  "inc_link a st = st[a := (st ! a)\<lparr>e_NumLink := e_NumLink (st ! a) + 1\<rparr>]"

definition link_entry :: "addr \<Rightarrow> store \<times> (string \<times> addr) list \<Rightarrow> (store \<times> (string \<times> addr) list) result" where
  "link_entry i sm =
     (let (st, m) = sm; ent = st ! i; name = e_Name ent; pdirName = parentDir name
      in if e_Type ent = ''chunk'' then Inr sm
         else if name = pdirName then Inr sm
         else let (pdir, st1, m1) = getOrCreateDir pdirName st m; st2 = inc_link i st1
              in if e_Type (st2 ! i) = ''hardlink''
                 then (case map_of m1 (cleanEntryName (e_LinkName (st2 ! i))) of
                         Some org \<Rightarrow> Inr (AddChild (inc_link org st2) pdir (path_base name) org, m1)
                       | None \<Rightarrow> Inl (Fail (Errorf (name @ '' is a hardlink but the linkname ''
                                    @ e_LinkName (st2 ! i) @ '' isn't found''))))
                 else Inr (AddChild st2 pdir (path_base name) i, m1))"

subsection \<open>initFields, the offsets\<close>

text \<open>The last loop goes backwards over the entries of the JSON file.\<close>

definition offset_step :: "addr \<Rightarrow> store \<times> int \<Rightarrow> store \<times> int" where
  "offset_step i sl =
     (let (st, lastOffset) = sl; e = st ! i
      in (if IsDataType e then st[i := e\<lparr>e_nextOffset := lastOffset\<rparr>] else st,
          if e_Offset e \<noteq> 0 then e_Offset e else lastOffset))"

definition set_offsets :: "nat \<Rightarrow> int \<Rightarrow> store \<Rightarrow> store" where
  "set_offsets n sz st = fst (fold offset_step (rev [0..<n]) (st, sz))"

definition initFields :: "(string \<Rightarrow> int) \<Rightarrow> int \<Rightarrow> string \<Rightarrow> toc_entry list \<Rightarrow> reader result" where
  "initFields ptime sz tocDigest entries =
     (let s = init_first ptime entries
      in case fold_result link_entry [0..<length entries] (is_store s, is_m s) of
           Inl e \<Rightarrow> Inl e
         | Inr (st, m) \<Rightarrow> Inr \<lparr>rd_sr = sz, rd_store = set_offsets (length entries) sz st, rd_n = length entries,
              rd_tocDigest = tocDigest, rd_m = m, rd_chunks = is_chunks s\<rparr>)"

section \<open>Lookup\<close>

text \<open>\<^verbatim>\<open>Lookup\<close> on a reader; a hardlink is followed by its link name as it is written.\<close>

definition Lookup :: "reader \<Rightarrow> string \<Rightarrow> addr option" where
  "Lookup r path =
     (case map_of (rd_m r) (cleanEntryName path) of
        None \<Rightarrow> None
      | Some e \<Rightarrow> (if e_Type (rd_store r ! e) = ''hardlink'' then map_of (rd_m r) (e_LinkName (rd_store r ! e))
                  else Some e))"

text \<open>\<^verbatim>\<open>sort.Search\<close> of the standard library: the binary search on the interval from \<open>i\<close> to \<open>j\<close>.\<close>

function search_from :: "(nat \<Rightarrow> bool) \<Rightarrow> nat \<Rightarrow> nat \<Rightarrow> nat" where
  "search_from f i j =
     (if i < j then (let h = (i + j) div 2 in if f h then search_from f i h else search_from f (h + 1) j) else i)"
  by pat_completeness auto
termination
  by (relation "measure (\<lambda>(f, i, j). j - i)") auto

declare search_from.simps [simp del]

definition sort_Search :: "nat \<Rightarrow> (nat \<Rightarrow> bool) \<Rightarrow> nat" where
  "sort_Search n f = search_from f 0 n"

definition ChunkEntryForOffset :: "reader \<Rightarrow> string \<Rightarrow> int \<Rightarrow> addr option" where
  "ChunkEntryForOffset r name0 offset =
     (let name = cleanEntryName name0
      in case Lookup r name of
           None \<Rightarrow> None
         | Some e \<Rightarrow>
             (if \<not> IsDataType (rd_store r ! e) then None
              else let ents = (case map_of (rd_chunks r) name of Some cs \<Rightarrow> cs | None \<Rightarrow> [])
                   in if length ents < 2
                      then (if offset \<ge> e_ChunkSize (rd_store r ! e) then None else Some e)
                      else let i = sort_Search (length ents)
                                 (\<lambda>i. let e = rd_store r ! (ents ! i)
                                      in e_ChunkOffset e \<ge> offset \<or>
                                         (offset > e_ChunkOffset e \<and> offset < e_ChunkOffset e + e_ChunkSize e))
                           in if i = length ents then None else Some (ents ! i)))"

definition getChunks :: "reader \<Rightarrow> addr \<Rightarrow> addr list" where
  "getChunks r ent = (case map_of (rd_chunks r) (e_Name (rd_store r ! ent)) of Some ents \<Rightarrow> ents | None \<Rightarrow> [ent])"

record file_reader =
  fr_file_size :: int
  fr_ents :: "addr list"

definition OpenFile :: "reader \<Rightarrow> string \<Rightarrow> file_reader result" where
  "OpenFile r name =
     (case Lookup r (cleanEntryName name) of
        None \<Rightarrow> Inl (Fail (ExtError ''file does not exist''))
      | Some ent \<Rightarrow>
          (if e_Type (rd_store r ! ent) \<noteq> ''reg'' then Inl (Fail (Errorf ''not a regular file''))
           else Inr \<lparr>fr_file_size = e_Size (rd_store r ! ent), fr_ents = getChunks r ent\<rparr>))"

section \<open>Reading a file\<close>

text \<open>
  Where \<^verbatim>\<open>ReadAt\<close> starts: the entry whose gzip stream it opens, and the offset in that stream.
\<close>

definition read_entry :: "store \<Rightarrow> file_reader \<Rightarrow> int \<Rightarrow> (addr \<times> int) result" where
  "read_entry st fr off =
     (if off \<ge> fr_file_size fr then Inl (Fail (ExtError ''EOF''))
      else if off < 0 then Inl (Fail (Errorf ''invalid offset''))
      else let n = length (fr_ents fr);
               i0 = (if n > 1 then sort_Search n (\<lambda>i. e_ChunkOffset (st ! (fr_ents fr ! i)) \<ge> off) else 0);
               i = (if n > 1 \<and> i0 = n then n - 1 else i0);
               ent = fr_ents fr ! i
           in if e_ChunkOffset (st ! ent) > off
              then (if i = 0 then Inl (Fail (Errorf ''internal error; first chunk offset is non-zero''))
                    else Inr (fr_ents fr ! (i - 1), off - e_ChunkOffset (st ! (fr_ents fr ! (i - 1)))))
              else Inr (ent, off - e_ChunkOffset (st ! ent)))"

text \<open>
  The rest of \<^verbatim>\<open>ReadAt\<close>: it reads the compressed bytes from the entry's offset to the next offset
  of the last entry, decompresses them as consecutive gzip streams (\<open>gunzip\<close>), skips the offset
  and fills the buffer. Its peek fails when the section is shorter than announced.
\<close>

definition ReadAt :: "(byte list \<Rightarrow> byte list result) \<Rightarrow> byte list \<Rightarrow> store \<Rightarrow> file_reader \<Rightarrow> nat \<Rightarrow> int
    \<Rightarrow> byte list result" where
  "ReadAt gunzip blob st fr len off0 =
     (case read_entry st fr off0 of Inl e \<Rightarrow> Inl e
      | Inr (ent, off) \<Rightarrow>
          (let gzOff = e_Offset (st ! ent);
               remain = e_nextOffset (st ! last (fr_ents fr)) - gzOff;
               section = take (nat remain) (drop (nat gzOff) blob)
           in if remain < 0 \<or> int (length section) < min remain (2 * 2 ^ 20)
              then Inl (Fail (Errorf ''fileReader.ReadAt.peek''))
              else case gunzip section of
                     Inl e \<Rightarrow> Inl (wrap ''fileReader.ReadAt.gzipNewReader'' e)
                   | Inr out \<Rightarrow>
                       (if int (length out) < off then Inl (Fail (Errorf ''discard''))
                        else let rest = drop (nat off) out
                             in if len \<le> length rest then Inr (take len rest)
                                else Inl (Fail (ExtError ''unexpected EOF'')))))"

section \<open>Verification of the table of contents\<close>

definition verify_entry :: "(string \<Rightarrow> string result) \<Rightarrow> toc_entry \<Rightarrow> (int \<times> string) list \<Rightarrow> (int \<times> string) list result" where
  "verify_entry parse e dm =
     (if e_Type e = ''reg'' \<or> e_Type e = ''chunk'' then
        (if e_Type e = ''reg'' \<and> e_Size e = 0 then Inr dm
         else if map_of dm (e_Offset e) \<noteq> None then Inl (Fail (Errorf (''offset '' @ itoa (e_Offset e) @ '' found twice'')))
         else if e_ChunkDigest e = [] then Inl (Fail (Errorf (''ChunkDigest of '' @ e_Name e @ '' not found in TOC JSON'')))
         else case parse (e_ChunkDigest e) of
                Inl f \<Rightarrow> Inl (wrap (''failed to parse digest '' @ e_ChunkDigest e) f)
              | Inr d \<Rightarrow> Inr (AList.update (e_Offset e) d dm))
      else Inr dm)"

definition VerifyTOC :: "(string \<Rightarrow> string result) \<Rightarrow> reader \<Rightarrow> string \<Rightarrow> (int \<times> string) list result" where
  "VerifyTOC parse r tocDigest =
     (if rd_tocDigest r \<noteq> tocDigest
      then Inl (Fail (Errorf (''invalid TOC JSON '' @ rd_tocDigest r @ ''; want '' @ tocDigest)))
      else fold_result (\<lambda>i dm. verify_entry parse (rd_store r ! i) dm) [0..<rd_n r] [])"

definition Verifier :: "(int \<times> string) list \<Rightarrow> toc_entry \<Rightarrow> string result" where
  "Verifier dm ce =
     (case map_of dm (e_Offset ce) of
        Some d \<Rightarrow> Inr d
      | None \<Rightarrow> Inl (Fail (Errorf (''verifier for offset='' @ itoa (e_Offset ce) @ '',size='' @ itoa (e_ChunkSize ce)
                    @ '' hasn't been registered''))))"

text \<open>\<^verbatim>\<open>GetTOC\<close>: the named entries and the chunks of the files that have several.\<close>

definition GetTOC :: "reader \<Rightarrow> (string \<times> toc_entry) list \<times> (string \<times> toc_entry list) list" where
  "GetTOC r = (map (\<lambda>(k, a). (k, rd_store r ! a)) (rd_m r), map (\<lambda>(k, as). (k, map ((!) (rd_store r)) as)) (rd_chunks r))"

section \<open>The binary search\<close>

lemma search_from_first:
  assumes "\<And>a b. a \<le> b \<Longrightarrow> b < n \<Longrightarrow> f a \<Longrightarrow> f b" and "i \<le> j" "j \<le> n"
    and "\<And>k. k < i \<Longrightarrow> \<not> f k" and "j < n \<Longrightarrow> f j"
  shows "search_from f i j \<le> n \<and> (\<forall>k < search_from f i j. \<not> f k) \<and>
    (search_from f i j < n \<longrightarrow> f (search_from f i j))"
  using assms
proof (induction f i j rule: search_from.induct)
  case (1 f i j)
  note mono = "1.prems"(1) and le = "1.prems"(2) and jn = "1.prems"(3) and low = "1.prems"(4) and high = "1.prems"(5)
  show ?case
  proof (cases "i < j")
    case False
    then have "search_from f i j = i" by (subst search_from.simps) simp
    then show ?thesis using False le jn low high by auto
  next
    case True
    let ?h = "(i + j) div 2"
    have h: "i \<le> ?h" "?h < j" using True by auto
    show ?thesis
    proof (cases "f ?h")
      case f: True
      have "search_from f i j = search_from f i ?h" using \<open>i < j\<close> f by (subst search_from.simps) (simp add: Let_def)
      moreover have "search_from f i ?h \<le> n \<and> (\<forall>k < search_from f i ?h. \<not> f k) \<and>
          (search_from f i ?h < n \<longrightarrow> f (search_from f i ?h))"
        by (rule "1.IH"(1) [OF \<open>i < j\<close> refl f]) (use mono h jn low f in auto)
      ultimately show ?thesis by simp
    next
      case nf: False
      have "search_from f i j = search_from f (?h + 1) j" using \<open>i < j\<close> nf by (subst search_from.simps) (simp add: Let_def)
      moreover have low': "\<not> f k" if "k < ?h + 1" for k
        using mono [of k ?h] that h jn nf by auto
      have "search_from f (?h + 1) j \<le> n \<and> (\<forall>k < search_from f (?h + 1) j. \<not> f k) \<and>
          (search_from f (?h + 1) j < n \<longrightarrow> f (search_from f (?h + 1) j))"
        by (rule "1.IH"(2) [OF \<open>i < j\<close> refl nf]) (use mono h jn low' high in auto)
      ultimately show ?thesis by simp
    qed
  qed
qed

lemma sort_Search_first:
  assumes "\<And>a b. a \<le> b \<Longrightarrow> b < n \<Longrightarrow> f a \<Longrightarrow> f b"
  shows "sort_Search n f \<le> n \<and> (\<forall>k < sort_Search n f. \<not> f k) \<and> (sort_Search n f < n \<longrightarrow> f (sort_Search n f))"
  unfolding sort_Search_def using assms by (intro search_from_first) auto

section \<open>Chunks of a file\<close>

text \<open>The chunks cover the file from its start to its end without gaps; no chunk is empty.\<close>

definition contiguous :: "store \<Rightarrow> addr list \<Rightarrow> int \<Rightarrow> bool" where
  "contiguous st ents sz \<longleftrightarrow>
     ents \<noteq> [] \<and> e_ChunkOffset (st ! hd ents) = 0 \<and>
     (\<forall>a \<in> set ents. 0 < e_ChunkSize (st ! a)) \<and>
     (\<forall>k. Suc k < length ents \<longrightarrow>
        e_ChunkOffset (st ! (ents ! Suc k)) = e_ChunkOffset (st ! (ents ! k)) + e_ChunkSize (st ! (ents ! k))) \<and>
     e_ChunkOffset (st ! last ents) + e_ChunkSize (st ! last ents) = sz"

abbreviation chunk_start :: "store \<Rightarrow> addr list \<Rightarrow> nat \<Rightarrow> int" where
  "chunk_start st ents k \<equiv> e_ChunkOffset (st ! (ents ! k))"

abbreviation chunk_end :: "store \<Rightarrow> addr list \<Rightarrow> nat \<Rightarrow> int" where
  "chunk_end st ents k \<equiv> e_ChunkOffset (st ! (ents ! k)) + e_ChunkSize (st ! (ents ! k))"

lemma contiguous_less:
  assumes c: "contiguous st ents sz" and "i < j" "j < length ents"
  shows "chunk_end st ents i \<le> chunk_start st ents j"
  using assms(2,3)
proof (induction j)
  case (Suc j)
  have step: "chunk_start st ents (Suc j) = chunk_end st ents j" using c Suc.prems by (simp add: contiguous_def)
  show ?case
  proof (cases "i = j")
    case False
    have "0 < e_ChunkSize (st ! (ents ! j))" using c Suc.prems by (auto simp: contiguous_def)
    then show ?thesis using Suc False step by simp
  qed (use step in simp)
qed simp

lemma contiguous_first: "contiguous st ents sz \<Longrightarrow> chunk_start st ents 0 = 0"
  by (auto simp: contiguous_def hd_conv_nth)

lemma contiguous_last: "contiguous st ents sz \<Longrightarrow> chunk_end st ents (length ents - 1) = sz"
  by (auto simp: contiguous_def last_conv_nth)

lemma contiguous_pos: "contiguous st ents sz \<Longrightarrow> k < length ents \<Longrightarrow> chunk_start st ents k < chunk_end st ents k"
  by (auto simp: contiguous_def)

text \<open>The chunk that holds an offset: the first that ends behind it.\<close>

lemma contiguous_find:
  assumes c: "contiguous st ents sz" and off: "0 \<le> off" and k: "k < length ents"
    and before: "\<And>j. j < k \<Longrightarrow> chunk_end st ents j \<le> off" and inside: "off < chunk_end st ents k"
  shows "chunk_start st ents k \<le> off"
proof (cases k)
  case 0
  then show ?thesis using contiguous_first [OF c] off by simp
next
  case (Suc k')
  have "chunk_start st ents k = chunk_end st ents k'" using c k Suc by (simp add: contiguous_def)
  then show ?thesis using before [of k'] Suc by simp
qed

lemma ChunkEntry_search:
  assumes c: "contiguous st ents sz" and off: "0 \<le> off"
  defines "f \<equiv> \<lambda>i. let e = st ! (ents ! i)
     in e_ChunkOffset e \<ge> off \<or> (off > e_ChunkOffset e \<and> off < e_ChunkOffset e + e_ChunkSize e)"
  shows "sort_Search (length ents) f < length ents \<longleftrightarrow> off < sz"
    and "off < sz \<Longrightarrow> chunk_start st ents (sort_Search (length ents) f) \<le> off \<and>
      off < chunk_end st ents (sort_Search (length ents) f)"
    and "sort_Search (length ents) f \<le> length ents"
proof -
  let ?n = "length ents" and ?i = "sort_Search (length ents) f"
  have n: "ents \<noteq> []" using c by (simp add: contiguous_def)
  have f_end: "f k \<longleftrightarrow> off < chunk_end st ents k" if "k < ?n" for k
    using contiguous_pos [OF c that] by (auto simp: f_def Let_def)
  have mono: "f b" if "a \<le> b" "b < ?n" "f a" for a b
  proof (cases "a = b")
    case False
    then have "chunk_end st ents a \<le> chunk_start st ents b" using contiguous_less [OF c, of a b] that by simp
    then show ?thesis using that f_end [of a] f_end [of b] contiguous_pos [OF c that(2)] by simp
  qed (use that in simp)
  have first: "?i \<le> ?n \<and> (\<forall>k < ?i. \<not> f k) \<and> (?i < ?n \<longrightarrow> f ?i)"
    by (rule sort_Search_first) (rule mono)
  have last: "f (?n - 1) \<longleftrightarrow> off < sz" using f_end [of "?n - 1"] contiguous_last [OF c] n by simp
  show "?i \<le> ?n" using first by simp
  show iff: "?i < ?n \<longleftrightarrow> off < sz"
  proof
    assume i: "?i < ?n"
    then have "f (?n - 1)" using mono [of ?i "?n - 1"] first n by simp
    then show "off < sz" using last by simp
  next
    assume "off < sz"
    then have "f (?n - 1)" using last by simp
    then have "?i \<le> ?n - 1" using first not_less by blast
    moreover have "0 < ?n" using n by simp
    ultimately show "?i < ?n" by linarith
  qed
  assume "off < sz"
  then have i: "?i < ?n" using iff by simp
  have before: "chunk_end st ents j \<le> off" if "j < ?i" for j
    using first that f_end [of j] i by auto
  have inside: "off < chunk_end st ents ?i" using first f_end [OF i] i by simp
  then show "chunk_start st ents ?i \<le> off \<and> off < chunk_end st ents ?i"
    using contiguous_find [OF c off i before] by simp
qed

lemma ReadAt_search:
  assumes c: "contiguous st (fr_ents fr) (fr_file_size fr)" and off: "0 \<le> off" "off < fr_file_size fr"
  shows "\<exists>k < length (fr_ents fr). chunk_start st (fr_ents fr) k \<le> off \<and> off < chunk_end st (fr_ents fr) k \<and>
    read_entry st fr off = Inr (fr_ents fr ! k, off - chunk_start st (fr_ents fr) k)"
proof -
  let ?es = "fr_ents fr" let ?n = "length ?es"
  let ?f = "\<lambda>i. e_ChunkOffset (st ! (?es ! i)) \<ge> off"
  have n: "0 < ?n" using c by (auto simp: contiguous_def)
  have mono: "?f b" if "a \<le> b" "b < ?n" "?f a" for a b
    using contiguous_less [OF c, of a b] contiguous_pos [OF c, of a] that by (cases "a = b") auto
  let ?s = "sort_Search ?n ?f"
  have first: "?s \<le> ?n \<and> (\<forall>k < ?s. \<not> ?f k) \<and> (?s < ?n \<longrightarrow> ?f ?s)"
    by (rule sort_Search_first) (rule mono)
  have covers: "off < chunk_end st ?es k" if "k < ?n" "Suc k < ?n \<Longrightarrow> off < chunk_start st ?es (Suc k)" for k
  proof (cases "Suc k < ?n")
    case True
    then show ?thesis using c that by (simp add: contiguous_def)
  next
    case False
    then have "k = ?n - 1" using that(1) by simp
    then show ?thesis using contiguous_last [OF c] off(2) by simp
  qed
  show ?thesis
  proof (cases "?n > 1")
    case False
    then have one: "?n = 1" using n by linarith
    have "off < chunk_end st ?es 0" using covers [of 0] one by simp
    then show ?thesis using one off contiguous_first [OF c] by (intro exI [of _ 0]) (simp add: read_entry_def Let_def)
  next
    case True
    show ?thesis
    proof (cases "?s = ?n")
      case all: True
      have lt: "chunk_start st ?es (?n - 1) < off"
      proof -
        have "?n - 1 < ?s" using all n by simp
        then show ?thesis using first not_le by blast
      qed
      then show ?thesis using True off covers [of "?n - 1"] all
        by (intro exI [of _ "?n - 1"]) (simp add: read_entry_def Let_def)
    next
      case False
      then have s: "?s < ?n" "off \<le> chunk_start st ?es ?s" using first by auto
      have below: "k < ?s \<Longrightarrow> chunk_start st ?es k < off" for k using first by auto
      show ?thesis
      proof (cases "chunk_start st ?es ?s = off")
        case eq: True
        then show ?thesis using True off s contiguous_pos [OF c s(1)]
          by (intro exI [of _ ?s]) (simp add: read_entry_def Let_def)
      next
        case ne: False
        then have gt: "off < chunk_start st ?es ?s" using s(2) by simp
        then have pos: "?s \<noteq> 0" using contiguous_first [OF c] off(1) by (cases "?s = 0") auto
        have "chunk_start st ?es (?s - 1) < off" using below [of "?s - 1"] pos by simp
        moreover have "off < chunk_end st ?es (?s - 1)" using covers [of "?s - 1"] s(1) gt pos by simp
        ultimately show ?thesis using True off s gt pos False
          by (intro exI [of _ "?s - 1"]) (simp add: read_entry_def Let_def)
      qed
    qed
  qed
qed

section \<open>The directory tree\<close>

text \<open>
  A map of names is closed when every name but the root's has its parent directory, and the
  parent has a child of the base name.
\<close>

definition linked :: "store \<Rightarrow> (string \<times> addr) list \<Rightarrow> string \<Rightarrow> bool" where
  "linked st m d \<longleftrightarrow> (\<exists>p. map_of m (parentDir d) = Some p \<and> LookupChild st p (path_base d) \<noteq> None)"

definition map_ok :: "store \<Rightarrow> (string \<times> addr) list \<Rightarrow> bool" where
  "map_ok st m \<longleftrightarrow> (\<forall>d a. map_of m d = Some a \<longrightarrow> a < length st)"

text \<open>What one operation keeps: addresses, names, and children.\<close>

definition grows :: "store \<times> (string \<times> addr) list \<Rightarrow> store \<times> (string \<times> addr) list \<Rightarrow> bool" where
  "grows s t \<longleftrightarrow> length (fst s) \<le> length (fst t) \<and>
     (\<forall>d a. map_of (snd s) d = Some a \<longrightarrow> map_of (snd t) d = Some a) \<and>
     (\<forall>p b. p < length (fst s) \<longrightarrow> LookupChild (fst s) p b \<noteq> None \<longrightarrow> LookupChild (fst t) p b \<noteq> None) \<and>
     (\<forall>a < length (fst s). e_Name (fst t ! a) = e_Name (fst s ! a) \<and> e_Type (fst t ! a) = e_Type (fst s ! a))"

lemma grows_refl [simp]: "grows s s"
  by (simp add: grows_def)

lemma grows_trans: "grows s t \<Longrightarrow> grows t u \<Longrightarrow> grows s u"
  by (auto simp: grows_def)

lemma grows_linked: "grows (st, m) (st', m') \<Longrightarrow> map_ok st m \<Longrightarrow> linked st m d \<Longrightarrow> linked st' m' d"
  by (auto simp: grows_def linked_def map_ok_def)

lemma AddChild_length [simp]: "length (AddChild st p b c) = length st"
  by (simp add: AddChild_def Let_def)

lemma AddChild_other: "p \<noteq> a \<Longrightarrow> AddChild st p b c ! a = st ! a"
  by (simp add: AddChild_def Let_def)

lemma AddChild_same:
  "e_Name (AddChild st p b c ! a) = e_Name (st ! a)" "e_Type (AddChild st p b c ! a) = e_Type (st ! a)"
  by (cases "p = a"; cases "a < length st"; simp add: AddChild_def Let_def list_update_beyond)+

lemma grows_AddChild: "p < length st \<Longrightarrow> grows (st, m) (AddChild st p b c, m)"
proof -
  assume p: "p < length st"
  have "LookupChild (AddChild st p b c) q b' \<noteq> None" if "LookupChild st q b' \<noteq> None" for q b'
  proof (cases "q = p")
    case True
    then show ?thesis using that AddChild_lookup [OF p, of b c b'] by simp
  next
    case False
    then show ?thesis using that by (simp add: LookupChild_def AddChild_other)
  qed
  then show ?thesis by (simp add: grows_def AddChild_same)
qed

lemma inc_link_simps:
  "length (inc_link a st) = length st" "e_Name (inc_link a st ! b) = e_Name (st ! b)"
  "e_Type (inc_link a st ! b) = e_Type (st ! b)" "e_children (inc_link a st ! b) = e_children (st ! b)"
  by (cases "a = b"; cases "b < length st"; simp add: inc_link_def list_update_beyond)+

lemma grows_inc_link: "grows (st, m) (inc_link a st, m)"
  by (simp add: grows_def inc_link_simps LookupChild_def)

lemma getOrCreateDir_spec:
  assumes "map_ok st m" and "getOrCreateDir d st m = (e, st', m')"
  shows "grows (st, m) (st', m') \<and> map_ok st' m' \<and> map_of m' d = Some e \<and>
    (\<forall>x. map_of m' x \<noteq> None \<longrightarrow> map_of m x = None \<longrightarrow> x \<noteq> [] \<longrightarrow> linked st' m' x)"
  using assms
proof (induction d st m arbitrary: e st' m' rule: getOrCreateDir.induct)
  case (1 d st m)
  show ?case
  proof (cases "map_of m d")
    case (Some a)
    then show ?thesis using "1.prems" by (subst (asm) getOrCreateDir.simps) auto
  next
    case None
    let ?st1 = "st @ [new_dir d]" let ?m1 = "AList.update d (length st) m"
    have ok1: "map_ok ?st1 ?m1" using "1.prems"(1) by (auto simp: map_ok_def update_conv intro: less_SucI)
    have g1: "grows (st, m) (?st1, ?m1)"
      using None by (auto simp: grows_def update_conv nth_append LookupChild_def)
    show ?thesis
    proof (cases "d = []")
      case True
      have "(e, st', m') = (length st, ?st1, ?m1)"
        using "1.prems"(2) None True by (subst (asm) getOrCreateDir.simps) (auto simp: Let_def)
      then show ?thesis using ok1 g1 True by (auto simp: update_conv split: if_splits)
    next
      case False
      obtain p st2 m2 where rec: "getOrCreateDir (parentDir d) ?st1 ?m1 = (p, st2, m2)" by (metis prod_cases3)
      have res: "e = length st" "st' = AddChild st2 p (path_base d) e" "m' = m2"
        using "1.prems"(2) None False rec by (auto simp: getOrCreateDir.simps [of d] Let_def)
      have IH: "grows (?st1, ?m1) (st2, m2)" "map_ok st2 m2" "map_of m2 (parentDir d) = Some p"
        "\<And>x. map_of m2 x \<noteq> None \<Longrightarrow> map_of ?m1 x = None \<Longrightarrow> x \<noteq> [] \<Longrightarrow> linked st2 m2 x"
        using "1.IH" [OF None refl refl refl False ok1 rec] by auto
      have p: "p < length st2" using IH(2,3) by (simp add: map_ok_def)
      have g2: "grows (st2, m2) (st', m')" unfolding res by (rule grows_AddChild [OF p])
      have self: "linked st' m' d"
        unfolding linked_def res using IH(3) AddChild_lookup [OF p] by auto
      have "map_of ?m1 d = Some e" by (simp add: res update_conv)
      then have "map_of m' d = Some e" using IH(1) unfolding res(3) grows_def by simp
      moreover have "map_ok st' m'" using IH(2) by (simp add: map_ok_def res)
      moreover have "linked st' m' x" if "map_of m' x \<noteq> None" "map_of m x = None" "x \<noteq> []" for x
      proof (cases "x = d")
        case True
        then show ?thesis using self by simp
      next
        case False
        then have "map_of ?m1 x = None" using that(2) by (simp add: update_conv)
        then have "linked st2 m2 x" using IH(4) that res(3) by blast
        then show ?thesis using grows_linked [OF g2 IH(2)] by blast
      qed
      ultimately show ?thesis using grows_trans [OF g1 grows_trans [OF IH(1) g2]] by blast
    qed
  qed
qed

text \<open>
  One turn of the second loop. It keeps what is linked, links the entry's own name, and links
  the directories that it adds.
\<close>

lemma link_entry_spec:
  assumes ok: "map_ok st m" and i: "i < length st" and run: "link_entry i (st, m) = Inr (st', m')"
  shows "grows (st, m) (st', m') \<and> map_ok st' m' \<and>
    (\<forall>x. map_of m' x \<noteq> None \<longrightarrow> map_of m x = None \<longrightarrow> x \<noteq> [] \<longrightarrow> linked st' m' x) \<and>
    (e_Type (st ! i) \<noteq> ''chunk'' \<longrightarrow> e_Name (st ! i) \<noteq> [] \<longrightarrow> linked st' m' (e_Name (st ! i)))"
proof -
  let ?name = "e_Name (st ! i)"
  consider "e_Type (st ! i) = ''chunk''" "st' = st" "m' = m" | "?name = []" "st' = st" "m' = m"
    | "e_Type (st ! i) \<noteq> ''chunk''" "?name \<noteq> []"
    using run parentDir_neq [of ?name] by (cases "e_Type (st ! i) = ''chunk''"; cases "?name = []") (auto simp: link_entry_def Let_def)
  then show ?thesis
  proof cases
    case 3
    obtain p st1 m1 where g: "getOrCreateDir (parentDir ?name) st m = (p, st1, m1)" by (metis prod_cases3)
    note spec = getOrCreateDir_spec [OF ok g]
    let ?st2 = "inc_link i st1"
    have g2: "grows (st, m) (?st2, m1)" using spec grows_trans grows_inc_link by blast
    have ok2: "map_ok ?st2 m1" using spec by (simp add: map_ok_def inc_link_simps)
    have p: "p < length ?st2" using spec unfolding map_ok_def inc_link_simps by blast
    have new: "linked ?st2 m1 x" if "map_of m1 x \<noteq> None" "map_of m x = None" "x \<noteq> []" for x
      using spec that grows_linked [OF grows_inc_link] by blast
    obtain c st3 where res: "st' = AddChild st3 p (path_base ?name) c" "m' = m1" and st3: "st3 = ?st2 \<or> (\<exists>a. st3 = inc_link a ?st2)"
      using run 3 parentDir_neq [OF 3(2)] g by (auto simp: link_entry_def Let_def split: if_splits option.splits)
    have g3: "grows (?st2, m1) (st3, m1)" "length st3 = length ?st2"
      using st3 grows_inc_link by (auto simp: inc_link_simps)
    have g4: "grows (st3, m1) (st', m')" unfolding res by (rule grows_AddChild) (use p g3 in simp)
    have ok4: "map_ok st' m'" using ok2 g3(2) by (simp add: res map_ok_def)
    have g24: "grows (?st2, m1) (st', m')" using grows_trans [OF g3(1) g4] .
    have "linked st' m' ?name"
      unfolding linked_def res using spec AddChild_lookup [of p st3] p g3(2) by auto
    moreover have "linked st' m' x" if "map_of m' x \<noteq> None" "map_of m x = None" "x \<noteq> []" for x
      using new [of x] that grows_linked [OF g24 ok2] res(2) by blast
    ultimately show ?thesis using grows_trans [OF g2 g24] ok4 by blast
  qed (use ok in auto)
qed

text \<open>The second loop links every name of an entry that it visits, and every name it adds.\<close>

lemma link_loop:
  assumes "fold_result link_entry is (st, m) = Inr (st', m')" "map_ok st m" "\<forall>i \<in> set is. i < length st"
  shows "grows (st, m) (st', m') \<and> map_ok st' m' \<and>
    (\<forall>x. map_of m' x \<noteq> None \<longrightarrow> map_of m x = None \<longrightarrow> x \<noteq> [] \<longrightarrow> linked st' m' x) \<and>
    (\<forall>i \<in> set is. e_Type (st ! i) \<noteq> ''chunk'' \<longrightarrow> e_Name (st ! i) \<noteq> [] \<longrightarrow> linked st' m' (e_Name (st ! i)))"
  using assms
proof (induction "is" arbitrary: st m)
  case (Cons i "is")
  obtain st1 m1 where s: "link_entry i (st, m) = Inr (st1, m1)" "fold_result link_entry is (st1, m1) = Inr (st', m')"
    using Cons.prems(1) by (auto split: sum.splits)
  have i: "i < length st" using Cons.prems(3) by simp
  note one = link_entry_spec [OF Cons.prems(2) i s(1)]
  have len: "\<forall>j \<in> set is. j < length st1" using one Cons.prems(3) by (auto simp: grows_def intro: less_le_trans)
  note rest = Cons.IH [OF s(2) _ len]
  have ok1: "map_ok st1 m1" using one by simp
  have g: "grows (st1, m1) (st', m')" using rest ok1 by simp
  have keep: "linked st1 m1 x \<Longrightarrow> linked st' m' x" for x using grows_linked [OF g ok1] by blast
  have same: "e_Type (st1 ! j) = e_Type (st ! j)" "e_Name (st1 ! j) = e_Name (st ! j)" if "j \<in> set is" for j
    using one Cons.prems(3) that by (auto simp: grows_def)
  show ?case
  proof (intro conjI)
    show "grows (st, m) (st', m')" using one g grows_trans by blast
    show "map_ok st' m'" using rest ok1 by simp
    show "\<forall>x. map_of m' x \<noteq> None \<longrightarrow> map_of m x = None \<longrightarrow> x \<noteq> [] \<longrightarrow> linked st' m' x"
      using one rest ok1 keep by metis
    show "\<forall>j \<in> set (i # is). e_Type (st ! j) \<noteq> ''chunk'' \<longrightarrow> e_Name (st ! j) \<noteq> [] \<longrightarrow> linked st' m' (e_Name (st ! j))"
      using one rest ok1 keep same by (metis set_ConsD)
  qed
qed auto

subsection \<open>The first loop\<close>

lemma init_step_frame:
  assumes "i < length (is_store s)"
  shows "length (is_store (init_step ptime s i)) = length (is_store s)"
    and "j \<noteq> i \<Longrightarrow> is_store (init_step ptime s i) ! j = is_store s ! j"
    and "e_Type (is_store (init_step ptime s i) ! i) = e_Type (is_store s ! i)"
    and "is_m (init_step ptime s i) = (if e_Type (is_store s ! i) = ''chunk'' then is_m s
       else AList.update (e_Name (is_store (init_step ptime s i) ! i)) i (is_m s))"
proof -
  have names: "length (is_store (init_names s i)) = length (is_store s)" "is_m (init_names s i) = is_m s"
    "j \<noteq> i \<Longrightarrow> is_store (init_names s i) ! j = is_store s ! j"
    "e_Type (is_store (init_names s i) ! i) = e_Type (is_store s ! i)" for j
    using assms by (simp_all add: init_names_def Let_def)
  let ?s1 = "init_names s i"
  let ?s2 = "if e_Type (is_store ?s1 ! i) = ''chunk'' then init_chunk ?s1 i else init_entry ptime ?s1 i"
  have mid: "length (is_store ?s2) = length (is_store s)"
    "j \<noteq> i \<Longrightarrow> is_store ?s2 ! j = is_store s ! j" "e_Type (is_store ?s2 ! i) = e_Type (is_store s ! i)"
    "is_m ?s2 = (if e_Type (is_store s ! i) = ''chunk'' then is_m s else AList.update (e_Name (is_store ?s2 ! i)) i (is_m s))" for j
    using assms names by (auto simp: init_chunk_def init_entry_def InitModTime_def Let_def split: option.splits)
  have fin: "length (is_store (init_sizes t i)) = length (is_store t)" "is_m (init_sizes t i) = is_m t"
    "j \<noteq> i \<Longrightarrow> is_store (init_sizes t i) ! j = is_store t ! j"
    "i < length (is_store t) \<Longrightarrow> e_Type (is_store (init_sizes t i) ! i) = e_Type (is_store t ! i) \<and>
       e_Name (is_store (init_sizes t i) ! i) = e_Name (is_store t ! i)" for t j
    by (auto simp: init_sizes_def Let_def)
  have step: "init_step ptime s i = init_sizes ?s2 i" by (simp add: init_step_def Let_def)
  have i2: "i < length (is_store ?s2)" using mid(1) assms by simp
  show "length (is_store (init_step ptime s i)) = length (is_store s)" by (simp only: step fin(1) mid(1))
  show "j \<noteq> i \<Longrightarrow> is_store (init_step ptime s i) ! j = is_store s ! j"
    unfolding step using fin(3) [of j ?s2] mid(2) [of j] by metis
  show "e_Type (is_store (init_step ptime s i) ! i) = e_Type (is_store s ! i)" using fin(4) [OF i2] mid(3) by (simp only: step)
  show "is_m (init_step ptime s i) = (if e_Type (is_store s ! i) = ''chunk'' then is_m s
       else AList.update (e_Name (is_store (init_step ptime s i) ! i)) i (is_m s))"
    using fin(2) [of ?s2] fin(4) [OF i2] mid(4) by (simp only: step)
qed

lemma init_first_names:
  assumes "map_of (is_m (init_first ptime entries)) d = Some a"
  shows "a < length entries \<and> e_Name (is_store (init_first ptime entries) ! a) = d \<and>
    e_Type (is_store (init_first ptime entries) ! a) \<noteq> ''chunk''"
    and "length (is_store (init_first ptime entries)) = length entries"
proof -
  let ?start = "\<lparr>is_store = entries, is_m = [], is_chunks = [], is_lastPath = [],
        is_uname = Map.empty, is_gname = Map.empty, is_landmark = 0, is_lastReg = None\<rparr> :: init_state"
  have inv: "length (is_store (foldl (init_step ptime) ?start [0..<k])) = length entries \<and>
    (\<forall>d a. map_of (is_m (foldl (init_step ptime) ?start [0..<k])) d = Some a \<longrightarrow>
       a < k \<and> e_Name (is_store (foldl (init_step ptime) ?start [0..<k]) ! a) = d \<and>
       e_Type (is_store (foldl (init_step ptime) ?start [0..<k]) ! a) \<noteq> ''chunk'')" if "k \<le> length entries" for k
    using that
  proof (induction k)
    case (Suc k)
    let ?s = "foldl (init_step ptime) ?start [0..<k]"
    have len: "length (is_store ?s) = length entries" using Suc by simp
    then have k: "k < length (is_store ?s)" using Suc.prems by simp
    note f = init_step_frame [OF k, where ptime = ptime]
    have st: "foldl (init_step ptime) ?start [0..<Suc k] = init_step ptime ?s k" by simp
    have IH: "\<And>d a. map_of (is_m ?s) d = Some a \<Longrightarrow> a < k \<and> e_Name (is_store ?s ! a) = d \<and> e_Type (is_store ?s ! a) \<noteq> ''chunk''"
      using Suc by simp
    show ?case unfolding st
    proof (intro conjI allI impI)
      show "length (is_store (init_step ptime ?s k)) = length entries" using f(1) len by simp
    next
      fix d a assume m: "map_of (is_m (init_step ptime ?s k)) d = Some a"
      have "(a = k \<and> d = e_Name (is_store (init_step ptime ?s k) ! k) \<and> e_Type (is_store ?s ! k) \<noteq> ''chunk'')
          \<or> map_of (is_m ?s) d = Some a"
        using m unfolding f(4) by (auto simp: update_conv split: if_splits)
      then have "a < Suc k \<and> e_Name (is_store (init_step ptime ?s k) ! a) = d \<and> e_Type (is_store (init_step ptime ?s k) ! a) \<noteq> ''chunk''"
      proof
        assume "map_of (is_m ?s) d = Some a"
        note old = IH [OF this]
        have "is_store (init_step ptime ?s k) ! a = is_store ?s ! a" by (rule f(2)) (use old in simp)
        then show ?thesis using old by simp
      qed (use f(3) in auto)
      then show "a < Suc k" "e_Name (is_store (init_step ptime ?s k) ! a) = d"
        "e_Type (is_store (init_step ptime ?s k) ! a) \<noteq> ''chunk''" by auto
    qed
  qed simp
  show "a < length entries \<and> e_Name (is_store (init_first ptime entries) ! a) = d \<and>
    e_Type (is_store (init_first ptime entries) ! a) \<noteq> ''chunk''"
    "length (is_store (init_first ptime entries)) = length entries"
    using inv [of "length entries"] assms unfolding init_first_def by auto
qed

lemma set_offsets_children: "e_children (set_offsets n sz st ! a) = e_children (st ! a)"
proof -
  have "e_children (fst (fold offset_step is (st, z)) ! a) = e_children (st ! a)" for "is" z
  proof (induction "is" arbitrary: st z)
    case (Cons i "is")
    obtain st' z' where s: "offset_step i (st, z) = (st', z')" by fastforce
    then have "e_children (st' ! a) = e_children (st ! a)"
      by (cases "i = a"; cases "a < length st") (auto simp: offset_step_def Let_def list_update_beyond split: if_splits)
    then show ?case using Cons s by simp
  qed simp
  then show ?thesis by (simp add: set_offsets_def)
qed

lemma length_init_first: "length (is_store (init_first ptime entries)) = length entries"
proof -
  have "length (is_store (foldl (init_step ptime) s is)) = length (is_store s)" if "\<forall>i \<in> set is. i < length (is_store s)" for s "is"
    using that by (induction "is" arbitrary: s) (simp_all add: init_step_frame(1))
  then show ?thesis by (simp add: init_first_def)
qed


definition sample_toc :: "toc_entry list" where
  "sample_toc = [zero_entry\<lparr>e_Name := ''usr/bin/sh'', e_Type := ''reg'', e_Size := 7, e_Offset := 30, e_ChunkSize := 4, e_ChunkDigest := ''x''\<rparr>,
     zero_entry\<lparr>e_Name := ''usr/bin/sh'', e_Type := ''chunk'', e_Offset := 50, e_ChunkOffset := 4, e_ChunkDigest := ''y''\<rparr>,
     zero_entry\<lparr>e_Name := ''usr/bin/ash'', e_Type := ''hardlink'', e_LinkName := ''usr/bin/sh''\<rparr>]"

definition sample_reader :: reader where
  "sample_reader = (case initFields (\<lambda>_. 0) 90 [] sample_toc of Inr r \<Rightarrow> r
     | Inl _ \<Rightarrow> \<lparr>rd_sr = 0, rd_store = [], rd_n = 0, rd_tocDigest = [], rd_m = [], rd_chunks = []\<rparr>)"

lemma sample_reader_run: "initFields (\<lambda>_. 0) 90 [] sample_toc = Inr sample_reader"
proof -
  have "is_ok (initFields (\<lambda>_. 0) 90 [] sample_toc)" by code_simp
  then show ?thesis by (auto simp: sample_reader_def is_ok_def split: sum.splits)
qed


text \<open>
  C15: Finding a chunk. For a file whose chunks cover it, \<^verbatim>\<open>ChunkEntryForOffset\<close> returns the chunk that
  holds the offset, and nothing for an offset behind the end of the file.
\<close>

theorem ChunkEntryForOffset_finds:
  assumes e: "Lookup r (cleanEntryName name) = Some e" "IsDataType (rd_store r ! e)"
    and cs: "map_of (rd_chunks r) (cleanEntryName name) = Some ents" "2 \<le> length ents"
    and c: "contiguous (rd_store r) ents sz" and off: "0 \<le> off"
  shows "case ChunkEntryForOffset r name off of
      Some a \<Rightarrow> off < sz \<and> a \<in> set ents \<and> e_ChunkOffset (rd_store r ! a) \<le> off \<and>
        off < e_ChunkOffset (rd_store r ! a) + e_ChunkSize (rd_store r ! a)
    | None \<Rightarrow> sz \<le> off"
proof -
  let ?f = "\<lambda>i. let e = rd_store r ! (ents ! i)
     in e_ChunkOffset e \<ge> off \<or> (off > e_ChunkOffset e \<and> off < e_ChunkOffset e + e_ChunkSize e)"
  let ?i = "sort_Search (length ents) ?f"
  have res: "ChunkEntryForOffset r name off = (if ?i = length ents then None else Some (ents ! ?i))"
    using e cs by (simp add: ChunkEntryForOffset_def Let_def)
  note s = ChunkEntry_search [OF c off]
  show ?thesis
  proof (cases "off < sz")
    case True
    then show ?thesis using s unfolding res by auto
  next
    case False
    then have "\<not> ?i < length ents" using s(1) by blast
    moreover have "?i \<le> length ents" using s(3) by simp
    ultimately show ?thesis using False unfolding res by auto
  qed
qed

lemma contiguous_two:
  "contiguous st [a, b] sz \<longleftrightarrow> e_ChunkOffset (st ! a) = 0 \<and> 0 < e_ChunkSize (st ! a) \<and> 0 < e_ChunkSize (st ! b) \<and>
     e_ChunkOffset (st ! b) = e_ChunkSize (st ! a) \<and> e_ChunkOffset (st ! b) + e_ChunkSize (st ! b) = sz"
  by (auto simp: contiguous_def less_Suc_eq)

lemma sample_chunks:
  "Lookup sample_reader (cleanEntryName ''/usr/bin/sh'') = Some 0" "IsDataType (rd_store sample_reader ! 0)"
  "map_of (rd_chunks sample_reader) (cleanEntryName ''/usr/bin/sh'') = Some [0, 1]"
  "e_ChunkOffset (rd_store sample_reader ! 0) = 0" "e_ChunkSize (rd_store sample_reader ! 0) = 4"
  "e_ChunkOffset (rd_store sample_reader ! 1) = 4" "e_ChunkSize (rd_store sample_reader ! 1) = 3"
  "e_Offset (rd_store sample_reader ! 0) = 30" "e_Offset (rd_store sample_reader ! 1) = 50"
  "e_nextOffset (rd_store sample_reader ! 1) = 90"
  by code_simp+

lemma sample_contiguous: "contiguous (rd_store sample_reader) [0, 1] 7"
  using sample_chunks(4-7) by (simp add: contiguous_two)

theorem ChunkEntryForOffset_finds_witness:
  "case ChunkEntryForOffset sample_reader ''/usr/bin/sh'' 5 of
      Some a \<Rightarrow> a \<in> {0, 1} \<and> e_ChunkOffset (rd_store sample_reader ! a) \<le> 5
    | None \<Rightarrow> False"
  using ChunkEntryForOffset_finds [OF sample_chunks(1,2,3) _ sample_contiguous, of 5]
  by (auto split: option.splits)

text \<open>
  C16: Reading from a file. For a file whose chunks cover it, and whose compressed chunks decompress
  from each chunk on to the rest of the file (and what follows it), \<^verbatim>\<open>ReadAt\<close> returns the bytes of the
  file at the offset.
\<close>

theorem ReadAt_reads:
  assumes c: "contiguous st (fr_ents fr) (fr_file_size fr)" and off: "0 \<le> off" "off < fr_file_size fr"
    and len: "off + int len \<le> fr_file_size fr" and data: "int (length data) = fr_file_size fr"
    and blob: "\<And>k. k < length (fr_ents fr) \<Longrightarrow> 0 \<le> e_Offset (st ! (fr_ents fr ! k)) \<and>
        e_Offset (st ! (fr_ents fr ! k)) \<le> e_nextOffset (st ! last (fr_ents fr)) \<and>
        e_nextOffset (st ! last (fr_ents fr)) \<le> int (length blob) \<and>
        (\<exists>rest. gunzip (take (nat (e_nextOffset (st ! last (fr_ents fr)) - e_Offset (st ! (fr_ents fr ! k))))
                 (drop (nat (e_Offset (st ! (fr_ents fr ! k)))) blob)) =
           Inr (drop (nat (e_ChunkOffset (st ! (fr_ents fr ! k)))) data @ rest))"
  shows "ReadAt gunzip blob st fr len off = Inr (take len (drop (nat off) data))"
proof -
  obtain k where k: "k < length (fr_ents fr)" "chunk_start st (fr_ents fr) k \<le> off" "off < chunk_end st (fr_ents fr) k"
    and run: "read_entry st fr off = Inr (fr_ents fr ! k, off - chunk_start st (fr_ents fr) k)"
    using ReadAt_search [OF c off] by blast
  let ?e = "st ! (fr_ents fr ! k)" and ?next = "e_nextOffset (st ! last (fr_ents fr))"
  note b = blob [OF k(1)]
  obtain rest body where g: "gunzip (take (nat (?next - e_Offset ?e)) (drop (nat (e_Offset ?e)) blob)) = Inr body"
    and body: "body = drop (nat (e_ChunkOffset ?e)) data @ rest" using b by blast
  have start: "0 \<le> e_ChunkOffset ?e"
  proof (cases k)
    case 0
    then show ?thesis using contiguous_first [OF c] by simp
  next
    case (Suc k')
    have "chunk_end st (fr_ents fr) 0 \<le> chunk_start st (fr_ents fr) k" using contiguous_less [OF c, of 0 k] Suc k(1) by simp
    moreover have "0 < e_ChunkSize (st ! (fr_ents fr ! 0))"
      using contiguous_pos [OF c, of 0] k(1) by (cases "fr_ents fr") auto
    ultimately show ?thesis using contiguous_first [OF c] by simp
  qed
  have plen: "int (length (take (nat (?next - e_Offset ?e)) (drop (nat (e_Offset ?e)) blob))) = ?next - e_Offset ?e"
  proof -
    have "0 \<le> e_Offset ?e" "e_Offset ?e \<le> ?next" "?next \<le> int (length blob)" using b by blast+
    then show ?thesis by (simp add: min_def) linarith
  qed
  have skip: "drop (nat (off - e_ChunkOffset ?e)) body = drop (nat off) data @ rest"
  proof -
    have "nat (off - e_ChunkOffset ?e) + nat (e_ChunkOffset ?e) = nat off" using k(2) start by simp
    moreover have "nat (off - e_ChunkOffset ?e) \<le> length (drop (nat (e_ChunkOffset ?e)) data)" using k(2) start off(2) data by simp
    ultimately show ?thesis by (simp add: body)
  qed
  have long: "off - e_ChunkOffset ?e \<le> int (length body)"
    using k(2) start off(2) data by (simp add: body)
  have fits: "len + nat off \<le> length data" using len data off by linarith
  show ?thesis
    using b long fits plen by (simp add: ReadAt_def run g skip Let_def)
qed

theorem ReadAt_reads_witness:
  "ReadAt (\<lambda>z. Inr z) (replicate 30 0 @ [1, 2, 3, 4, 5, 6, 7])
     [zero_entry\<lparr>e_Offset := 30, e_nextOffset := 37, e_ChunkSize := 7\<rparr>] \<lparr>fr_file_size = 7, fr_ents = [0]\<rparr> 2 3 = Inr [4, 5]"
proof -
  have "ReadAt (\<lambda>z. Inr z) (replicate 30 0 @ [1, 2, 3, 4, 5, 6, 7])
     [zero_entry\<lparr>e_Offset := 30, e_nextOffset := 37, e_ChunkSize := 7\<rparr>] \<lparr>fr_file_size = 7, fr_ents = [0]\<rparr> 2 3 =
     Inr (take 2 (drop (nat 3) [1, 2, 3, 4, 5, 6, 7]))"
    by (rule ReadAt_reads) (auto simp: contiguous_def zero_entry_def)
  then show ?thesis by simp
qed

end
