(* ===== verification/Stargz_Writer.thy ===== *)
theory Stargz_Writer
  imports Stargz_Reader
begin

text \<open>
  The writer of util/common/stargz.go, and the footer that both ends of a blob share.
  A gzip stream of the writer is the list of the bytes written to it until it is closed; closing it
  emits one gzip member. The gzip codec, the headers of \<^verbatim>\<open>archive/tar\<close>, the digest function, the JSON
  encoding and times are the fields of an environment; the destination may fail when a member is
  written to it. The footer is modelled byte by byte, with the gzip header that carries it.
\<close>

section \<open>The writer\<close>

record writer_env =
  we_gzip :: "byte list \<Rightarrow> byte list"
  we_sink :: "nat \<Rightarrow> go_error option"
  we_header :: "tar_header \<Rightarrow> byte list result"
  we_hash :: "byte list \<Rightarrow> string"
  we_unix :: "int \<Rightarrow> int"
  we_rfc3339 :: "int \<Rightarrow> string"
  we_json :: "toc_entry list \<Rightarrow> byte list result"

text \<open>
  \<^verbatim>\<open>Writer\<close>: \<open>wr_out\<close> is what the counting writer has passed on, so its count is the length of it;
  \<open>wr_diff\<close> is what was hashed for the DiffID.
\<close>

record stargz_writer =
  wr_out :: "byte list"
  wr_entries :: "toc_entry list"
  wr_diff :: "byte list"
  wr_closed :: bool
  wr_gz :: "byte list option"
  wr_lastUsername :: "int \<rightharpoonup> string"
  wr_lastGroupname :: "int \<rightharpoonup> string"
  wr_ChunkSize :: int

definition cw_n :: "stargz_writer \<Rightarrow> int" where
  "cw_n w = int (length (wr_out w))"

definition NewWriter :: stargz_writer where
  "NewWriter = \<lparr>wr_out = [], wr_entries = [], wr_diff = [], wr_closed = False, wr_gz = None,
     wr_lastUsername = Map.empty, wr_lastGroupname = Map.empty, wr_ChunkSize = 0\<rparr>"

definition chunkSize :: "stargz_writer \<Rightarrow> int" where
  "chunkSize w = (if wr_ChunkSize w \<le> 0 then push_bit 20 4 else wr_ChunkSize w)"

definition cgw_Write :: "byte list \<Rightarrow> stargz_writer \<Rightarrow> stargz_writer result" where
  "cgw_Write p w =
     (case wr_gz w of
        None \<Rightarrow> Inl (Panic ''invalid memory address or nil pointer dereference'')
      | Some q \<Rightarrow> Inr (w\<lparr>wr_diff := wr_diff w @ p, wr_gz := Some (q @ p)\<rparr>))"

definition closeGz :: "writer_env \<Rightarrow> stargz_writer \<Rightarrow> stargz_writer result" where
  "closeGz env w =
     (if wr_closed w then Inl (Fail (Errorf ''write on closed Writer''))
      else case wr_gz w of
             None \<Rightarrow> Inr w
           | Some p \<Rightarrow>
               (let out = wr_out w @ we_gzip env p
                in case we_sink env (length out) of
                     Some e \<Rightarrow> Inl (Fail e)
                   | None \<Rightarrow> Inr (w\<lparr>wr_out := out, wr_gz := None\<rparr>)))"

definition condOpenGz :: "stargz_writer \<Rightarrow> stargz_writer" where
  "condOpenGz w = (if wr_gz w = None then w\<lparr>wr_gz := Some []\<rparr> else w)"

definition nameIfChanged :: "(int \<rightharpoonup> string) \<Rightarrow> int \<Rightarrow> string \<Rightarrow> string \<times> (int \<rightharpoonup> string)" where
  "nameIfChanged mp i name =
     (if name = [] then ([], mp)
      else if mp i = Some name then ([], mp)
      else (name, mp(i \<mapsto> name)))"

definition formatModtime :: "writer_env \<Rightarrow> int \<Rightarrow> string" where
  "formatModtime env t = (if t = 0 \<or> we_unix env t = 0 then [] else we_rfc3339 env t)"

section \<open>AppendTar\<close>

definition xattrPrefix :: string where "xattrPrefix = ''SCHILY.xattr.''"

definition xattrs_of :: "(string \<times> string) list \<Rightarrow> (string \<times> string) list" where
  "xattrs_of recs = map (\<lambda>(k, v). (drop (length xattrPrefix) k, v)) (filter (\<lambda>(k, v). prefix xattrPrefix k) recs)"

definition new_entry :: "writer_env \<Rightarrow> tar_header \<Rightarrow> stargz_writer \<Rightarrow> toc_entry \<times> stargz_writer" where
  "new_entry env h w =
     (let (un, mu) = nameIfChanged (wr_lastUsername w) (h_Uid h) (h_Uname h);
          (gn, mg) = nameIfChanged (wr_lastGroupname w) (h_Gid h) (h_Gname h)
      in (zero_entry\<lparr>e_Name := h_Name h, e_Mode := h_Mode h, e_UID := h_Uid h, e_GID := h_Gid h, e_Uname := un,
            e_Gname := gn, e_ModTime3339 := formatModtime env (h_ModTime h), e_Xattrs := xattrs_of (h_PAXRecords h)\<rparr>,
          w\<lparr>wr_lastUsername := mu, wr_lastGroupname := mg\<rparr>))"

definition entry_of_type :: "tar_header \<Rightarrow> toc_entry \<Rightarrow> toc_entry result" where
  "entry_of_type h ent =
     (case h_Typeflag h of
        TypeLink \<Rightarrow> Inr (ent\<lparr>e_Type := ''hardlink'', e_LinkName := h_Linkname h\<rparr>)
      | TypeSymlink \<Rightarrow> Inr (ent\<lparr>e_Type := ''symlink'', e_LinkName := h_Linkname h\<rparr>)
      | TypeDir \<Rightarrow> Inr (ent\<lparr>e_Type := ''dir''\<rparr>)
      | TypeReg \<Rightarrow> Inr (ent\<lparr>e_Type := ''reg'', e_Size := h_Size h\<rparr>)
      | TypeChar \<Rightarrow> Inr (ent\<lparr>e_Type := ''char'', e_DevMajor := h_Devmajor h, e_DevMinor := h_Devminor h\<rparr>)
      | TypeBlock \<Rightarrow> Inr (ent\<lparr>e_Type := ''block'', e_DevMajor := h_Devmajor h, e_DevMinor := h_Devminor h\<rparr>)
      | TypeFifo \<Rightarrow> Inr (ent\<lparr>e_Type := ''fifo''\<rparr>)
      | TypeOther t \<Rightarrow> Inl (Fail (Errorf ''unsupported input tar entry'')))"

text \<open>
  The stream of the previous chunk is closed and the compressed size is filled in: at the start of
  each turn of the loop over the chunks, and after it.
\<close>

definition finish_chunk :: "writer_env \<Rightarrow> nat option \<Rightarrow> stargz_writer \<Rightarrow> stargz_writer result" where
  "finish_chunk env prev w =
     (case closeGz env w of Inl e \<Rightarrow> Inl e
      | Inr w1 \<Rightarrow>
          Inr (case prev of
                 None \<Rightarrow> w1
               | Some k \<Rightarrow> w1\<lparr>wr_entries := (wr_entries w1)[k := (wr_entries w1 ! k)
                   \<lparr>e_CompressedSize := cw_n w1 - e_Offset (wr_entries w1 ! k)\<rparr>]\<rparr>))"

lemma chunkSize_pos: "0 < chunkSize w"
  by (simp add: chunkSize_def push_bit_eq_mult)

function write_chunks :: "writer_env \<Rightarrow> string \<Rightarrow> int \<Rightarrow> byte list \<Rightarrow> int \<Rightarrow> nat option \<Rightarrow> toc_entry \<Rightarrow> stargz_writer
    \<Rightarrow> (stargz_writer \<times> nat option) result" where
  "write_chunks env name tot data written prev ent w =
     (if written < tot then
        (case finish_chunk env prev w of Inl e \<Rightarrow> Inl e
         | Inr w1 \<Rightarrow>
            (let remain = tot - written;
                 size = (if remain < chunkSize w1 then remain else chunkSize w1);
                 ent1 = (if remain < chunkSize w1 then ent else ent\<lparr>e_ChunkSize := size\<rparr>);
                 ent2 = ent1\<lparr>e_Offset := cw_n w1, e_ChunkOffset := written\<rparr>;
                 chunk = take (nat size) data
             in if int (length data) < size then Inl (Fail (Errorf (''error copying '' @ name)))
                else case cgw_Write chunk (condOpenGz w1) of Inl e \<Rightarrow> Inl e
                     | Inr w2 \<Rightarrow>
                         write_chunks env name tot (drop (nat size) data) (written + size) (Some (length (wr_entries w2)))
                           (zero_entry\<lparr>e_Name := name, e_Type := ''chunk''\<rparr>)
                           (w2\<lparr>wr_entries := wr_entries w2 @ [ent2\<lparr>e_ChunkDigest := we_hash env chunk\<rparr>]\<rparr>)))
      else Inr (w, prev))"
  by pat_completeness auto
termination
  by (relation "measure (\<lambda>(env, name, tot, data, written, prev, ent, w). nat (tot - written))")
    (auto simp: chunkSize_pos)

declare write_chunks.simps [simp del]

definition write_file :: "writer_env \<Rightarrow> tar_header \<Rightarrow> byte list \<Rightarrow> toc_entry \<Rightarrow> stargz_writer \<Rightarrow> stargz_writer result" where
  "write_file env h data ent w =
     (case write_chunks env (h_Name h) (e_Size ent) data 0 None ent w of Inl e \<Rightarrow> Inl e
      | Inr (w1, prev) \<Rightarrow>
          (case finish_chunk env prev w1 of Inl e \<Rightarrow> Inl e | Inr w2 \<Rightarrow> Inr (condOpenGz w2)))"

text \<open>
  One header of the source and the bytes that follow it. The padding that \<^verbatim>\<open>Flush\<close> writes fills a block
  of 512 bytes.
\<close>

definition tar_padding :: "int \<Rightarrow> byte list" where
  "tar_padding n = replicate (nat ((- n) mod 512)) 0"

definition append_entry :: "writer_env \<Rightarrow> tar_header \<times> byte list \<Rightarrow> stargz_writer \<Rightarrow> stargz_writer result" where
  "append_entry env item w =
     (let (h, data) = item in
      if h_Name h = TOCTarName then Inr w
      else let (ent, w1) = new_entry env h w; w2 = condOpenGz w1 in
       (case we_header env h of Inl e \<Rightarrow> Inl e | Inr hb \<Rightarrow>
       (case cgw_Write hb w2 of Inl e \<Rightarrow> Inl e | Inr w3 \<Rightarrow>
       (case entry_of_type h ent of Inl e \<Rightarrow> Inl e | Inr ent1 \<Rightarrow>
         let n = length (wr_entries w3) in
         (case (if h_Typeflag h = TypeReg \<and> 0 < e_Size ent1 then write_file env h data ent1 w3
               else Inr (w3\<lparr>wr_entries := wr_entries w3 @ [ent1]\<rparr>)) of Inl e \<Rightarrow> Inl e | Inr w4 \<Rightarrow>
           let w5 = (if h_Typeflag h = TypeReg
                     then w4\<lparr>wr_entries := (wr_entries w4)[n := (wr_entries w4 ! n)
                            \<lparr>e_Digest := we_hash env (take (nat (e_Size ent1)) data)\<rparr>]\<rparr>
                     else w4)
           in cgw_Write (if h_Typeflag h = TypeReg then tar_padding (h_Size h) else []) w5)))))"

definition isGzip :: "byte list \<Rightarrow> bool" where
  "isGzip br \<longleftrightarrow> 3 \<le> length br \<and> br ! 0 = 0x1f \<and> br ! 1 = 0x8b \<and> br ! 2 = 8"

text \<open>
  The decompressor and the tar reader are parameters: the reader gives the headers with their bytes,
  and the error that ends them if it is not the end of the file.
\<close>

definition AppendTar :: "writer_env \<Rightarrow> (byte list \<Rightarrow> byte list) \<Rightarrow> (byte list \<Rightarrow> (tar_header \<times> byte list) list \<times> go_error option)
    \<Rightarrow> byte list \<Rightarrow> stargz_writer \<Rightarrow> stargz_writer result" where
  "AppendTar env gunzip untar r w =
     (let (items, err) = untar (if isGzip r then gunzip r else r)
      in case fold_result (append_entry env) items w of Inl e \<Rightarrow> Inl e
         | Inr w' \<Rightarrow> (case err of None \<Rightarrow> Inr w'
                    | Some e \<Rightarrow> Inl (Fail (Errorf ''error reading from source tar: tar.Reader.Next''))))"

section \<open>The footer\<close>

definition FooterSize :: int where "FooterSize = 51"

definition legacyFooterSize :: int where "legacyFooterSize = 47"

definition gz_magic :: "byte list" where "gz_magic = bytes_of ''STARGZ''"

text \<open>The verb \<^verbatim>\<open>%016x\<close>, and a 16 bit number in little endian.\<close>

definition hex16 :: "int \<Rightarrow> string" where
  "hex16 n = (if 0 \<le> n then (let d = digits 16 (nat n) in replicate (16 - length d) CHR ''0'' @ d)
              else (let d = digits 16 (nat (- n)) in CHR ''-'' # replicate (15 - length d) CHR ''0'' @ d))"

definition PutUint16 :: "nat \<Rightarrow> byte list" where
  "PutUint16 n = [word_of_nat n, word_of_nat (n div 256)]"

definition Uint16 :: "byte list \<Rightarrow> nat" where
  "Uint16 p = unat (p ! 0) + 256 * unat (p ! 1)"

text \<open>
  The gzip member of an empty stream without compression, with an extra field: the ten bytes of the
  header with flag 4, the extra field after its length, one empty stored block, the checksum and the size.
\<close>

definition empty_member :: "byte list \<Rightarrow> byte list" where
  "empty_member extra =
     [0x1f, 0x8b, 8, 4, 0, 0, 0, 0, 0, 255] @ PutUint16 (length extra) @ extra @ [1, 0, 0, 255, 255] @ replicate 8 0"

definition footerBytes :: "int \<Rightarrow> byte list result" where
  "footerBytes tocOff =
     (let subfield = bytes_of (hex16 tocOff @ ''STARGZ'');
          header = bytes_of ''SG'' @ PutUint16 (length subfield);
          buf = empty_member (header @ subfield)
      in if int (length buf) \<noteq> FooterSize then Inl (Panic ''footer buffer'') else Inr buf)"

definition Close :: "writer_env \<Rightarrow> stargz_writer \<Rightarrow> (string \<times> stargz_writer) result" where
  "Close env w =
     (if wr_closed w then Inr ([], w)
      else case closeGz env w of Inl e \<Rightarrow> Inl e | Inr w1 \<Rightarrow>
       (let tocOff = cw_n w1; w2 = w1\<lparr>wr_gz := Some []\<rparr> in
        case we_json env (wr_entries w2) of Inl e \<Rightarrow> Inl e | Inr tocJSON \<Rightarrow>
       (case we_header env (zero_header\<lparr>h_Typeflag := TypeReg, h_Name := TOCTarName, h_Size := int (length tocJSON)\<rparr>) of
          Inl e \<Rightarrow> Inl e | Inr hb \<Rightarrow>
       (case cgw_Write (hb @ tocJSON @ tar_padding (int (length tocJSON)) @ replicate 1024 0) w2 of Inl e \<Rightarrow> Inl e | Inr w3 \<Rightarrow>
       (case closeGz env w3 of Inl e \<Rightarrow> Inl e | Inr w4 \<Rightarrow>
       (case footerBytes tocOff of Inl e \<Rightarrow> Inl e | Inr foot \<Rightarrow>
         let out = wr_out w4 @ foot
         in case we_sink env (length out) of
              Some e \<Rightarrow> Inl (Fail e)
            | None \<Rightarrow> Inr (we_hash env tocJSON, w4\<lparr>wr_out := out, wr_closed := True\<rparr>)))))))"

definition DiffID :: "writer_env \<Rightarrow> stargz_writer \<Rightarrow> string" where
  "DiffID env w = we_hash env (wr_diff w)"

definition Digest :: "writer_env \<Rightarrow> stargz_writer \<Rightarrow> string" where
  "Digest env w = we_hash env (wr_out w)"

subsection \<open>Reading the footer\<close>

text \<open>
  The header that \<^verbatim>\<open>gzip.NewReader\<close> reads: identification, method and flags, then by the flags an extra
  field, a name and a comment that end with a zero byte, and a checksum of the header, whose function is a
  parameter. It returns the extra field, empty when there is none.
\<close>

fun skip_string :: "byte list \<Rightarrow> byte list option" where
  "skip_string [] = None"
| "skip_string (b # bs) = (if b = 0 then Some bs else skip_string bs)"

definition gzip_extra :: "(byte list \<Rightarrow> nat) \<Rightarrow> byte list \<Rightarrow> byte list result" where
  "gzip_extra crc p =
     (if length p < 10 then Inl (Fail (ExtError ''unexpected EOF''))
      else if take 3 p \<noteq> [0x1f, 0x8b, 8] then Inl (Fail (ExtError ''gzip: invalid header''))
      else let flg = p ! 3; r = drop 10 p;
        ex = (if flg AND 4 \<noteq> 0
              then (if length r < 2 \<or> length (drop 2 r) < Uint16 r then None
                    else Some (take (Uint16 r) (drop 2 r), drop (2 + Uint16 r) r))
              else Some ([], r))
        in case ex of None \<Rightarrow> Inl (Fail (ExtError ''unexpected EOF'')) | Some (extra, r1) \<Rightarrow>
          (case (if flg AND 8 \<noteq> 0 then skip_string r1 else Some r1) of None \<Rightarrow> Inl (Fail (ExtError ''unexpected EOF'')) | Some r2 \<Rightarrow>
          (case (if flg AND 16 \<noteq> 0 then skip_string r2 else Some r2) of None \<Rightarrow> Inl (Fail (ExtError ''unexpected EOF'')) | Some r3 \<Rightarrow>
             if flg AND 2 \<noteq> 0
             then (if length r3 < 2 then Inl (Fail (ExtError ''unexpected EOF''))
                   else if Uint16 r3 \<noteq> crc (take (length p - length r3) p) then Inl (Fail (ExtError ''gzip: invalid header''))
                   else Inr extra)
             else Inr extra)))"

definition parse_offset :: "byte list \<Rightarrow> int result" where
  "parse_offset p = (case parse_int 16 (string_of p) of None \<Rightarrow> Inl (Fail (ExtError ''strconv.ParseInt'')) | Some n \<Rightarrow> Inr n)"

definition parseEStargzFooter :: "(byte list \<Rightarrow> nat) \<Rightarrow> byte list \<Rightarrow> int result" where
  "parseEStargzFooter crc p =
     (if int (length p) \<noteq> FooterSize then Inl (Fail (Errorf ''invalid length''))
      else case gzip_extra crc p of Inl e \<Rightarrow> Inl e
      | Inr extra \<Rightarrow>
          if length extra < 4 then Inl (Panic ''index out of range'')
          else let subfield = drop 4 extra in
            if extra ! 0 \<noteq> 0x53 \<or> extra ! 1 \<noteq> 0x47 then Inl (Fail (Errorf ''invalid subfield IDs''))
            else if Uint16 (drop 2 extra) \<noteq> 22 then Inl (Fail (Errorf ''invalid length of subfield''))
            else if length subfield < 16 then Inl (Panic ''slice bounds out of range'')
            else if drop 16 subfield \<noteq> gz_magic
            then Inl (Fail (Errorf ''STARGZ magic string must be included in the footer subfield''))
            else parse_offset (take 16 subfield))"

definition parseLegacyFooter :: "(byte list \<Rightarrow> nat) \<Rightarrow> byte list \<Rightarrow> int result" where
  "parseLegacyFooter crc p =
     (if int (length p) \<noteq> legacyFooterSize then Inl (Fail (Errorf ''legacy: invalid length''))
      else case gzip_extra crc p of Inl e \<Rightarrow> Inl (wrap ''legacy: failed to get footer gzip reader'' e)
      | Inr extra \<Rightarrow>
          if length extra \<noteq> 22 then Inl (Fail (Errorf ''legacy: invalid stargz's extra field size''))
          else if drop 16 extra \<noteq> gz_magic then Inl (Fail (Errorf ''legacy: magic string STARGZ not found''))
          else parse_offset (take 16 extra))"

text \<open>\<^verbatim>\<open>ErrorAggregate\<close> of util/common/errors.go, on a list of errors.\<close>

definition ErrorAggregate :: "go_error list \<Rightarrow> go_error option" where
  "ErrorAggregate errs =
     (case errs of
        [] \<Rightarrow> None
      | [e] \<Rightarrow> Some e
      | _ \<Rightarrow> Some (Errorf (join_with (CHR 0x0A # [CHR 0x09])
                ((itoa (int (length errs)) @ '' error(s) occurred:'') # map (\<lambda>e. ''* '' @ go_error_string e) errs))))"

definition parseFooter :: "(byte list \<Rightarrow> nat) \<Rightarrow> byte list \<Rightarrow> (int \<times> int) result" where
  "parseFooter crc p =
     (case parseEStargzFooter crc p of
        Inr tocOffset \<Rightarrow> Inr (tocOffset, FooterSize)
      | Inl (Panic m) \<Rightarrow> Inl (Panic m)
      | Inl (Fail e1) \<Rightarrow>
          (case parseLegacyFooter crc (drop (nat (int (length p) - legacyFooterSize)) p) of
             Inr tocOffset \<Rightarrow> Inr (tocOffset, legacyFooterSize)
           | Inl (Panic m) \<Rightarrow> Inl (Panic m)
           | Inl (Fail e2) \<Rightarrow> Inl (Fail (the (ErrorAggregate [e1, e2])))))"

text \<open>A read of a section before its start fails.\<close>

definition OpenFooter :: "(byte list \<Rightarrow> nat) \<Rightarrow> byte list \<Rightarrow> (int \<times> int) result" where
  "OpenFooter crc sr =
     (if int (length sr) < FooterSize \<and> int (length sr) < legacyFooterSize
      then Inl (Fail (Errorf ''blob size is smaller than the footer size''))
      else if int (length sr) < FooterSize then Inl (Fail (Errorf ''error reading footer''))
      else parseFooter crc (drop (nat (int (length sr) - FooterSize)) sr))"

text \<open>
  \<^verbatim>\<open>OpenStargz\<close>: the decompressor of one gzip member, the first file of a tar archive, the JSON decoder and
  the digest of what it reads are parameters. The size of the buffer for the table of contents comes from the
  footer: its allocation panics when the size is negative or above what a 64-bit machine addresses.
\<close>

record reader_env =
  re_crc :: "byte list \<Rightarrow> nat"
  re_gunzip :: "byte list \<Rightarrow> byte list result"
  re_tar :: "byte list \<Rightarrow> (string \<times> byte list) result"
  re_json :: "byte list \<Rightarrow> toc_entry list result"
  re_digest :: "byte list \<Rightarrow> string"
  re_ptime :: "string \<Rightarrow> int"

definition OpenStargz :: "reader_env \<Rightarrow> byte list \<Rightarrow> reader result" where
  "OpenStargz env sr =
     (case OpenFooter (re_crc env) sr of Inl e \<Rightarrow> Inl (wrap ''error parsing footer'' e) | Inr (tocOff, footerSize) \<Rightarrow>
      (let n = int (length sr) - tocOff - footerSize in
       if n < 0 \<or> 2 ^ 48 < n then Inl (Panic ''makeslice: len out of range'')
       else if tocOff < 0 \<or> int (length sr) \<le> tocOff then Inl (Fail (Errorf ''error reading TOC targz''))
       else case re_gunzip env (take (nat n) (drop (nat tocOff) sr)) of
         Inl e \<Rightarrow> Inl (Fail (Errorf ''malformed TOC gzip header'')) | Inr tarball \<Rightarrow>
       (case re_tar env tarball of Inl e \<Rightarrow> Inl (Fail (Errorf ''failed to find tar header in TOC gzip stream'')) | Inr (name, content) \<Rightarrow>
        if name \<noteq> TOCTarName then Inl (Fail (Errorf ''TOC tar entry had name''))
        else case re_json env content of Inl e \<Rightarrow> Inl (Fail (Errorf ''error decoding TOC JSON'')) | Inr toc \<Rightarrow>
       (case initFields (re_ptime env) (int (length sr)) (re_digest env content) toc of
          Inl (Panic m) \<Rightarrow> Inl (Panic m)
        | Inl (Fail e) \<Rightarrow> Inl (Fail (Errorf ''failed to initialize fields of entries''))
        | Inr r \<Rightarrow> Inr r))))"

section \<open>The footer round trip\<close>

lemma length_digits: "n < b ^ Suc k \<Longrightarrow> length (digits b n) \<le> Suc k"
proof (induction k arbitrary: n)
  case 0
  then show ?case by (subst digits.simps) simp
next
  case (Suc k)
  show ?case
  proof (cases "b < 2 \<or> n < b")
    case True
    then show ?thesis by (subst digits.simps) auto
  next
    case False
    have "n div b < b ^ Suc k" using Suc.prems False by (intro less_mult_imp_div_less) (simp add: mult.commute)
    then show ?thesis using Suc.IH False by (subst digits.simps) simp
  qed
qed

lemma parse_digits_zeros: "2 \<le> b \<Longrightarrow> parse_digits b (replicate k CHR ''0'' @ s) 0 = parse_digits b s 0"
  by (induction k) (simp_all add: digit_val_def)

lemma parse_int_unsigned:
  assumes "s = c # r" "c \<noteq> CHR ''-''" "c \<noteq> CHR ''+''"
  shows "parse_int b s = (case parse_digits b s 0 of None \<Rightarrow> None | Some n \<Rightarrow> if n < 2 ^ 63 then Some (int n) else None)"
proof -
  have sign: "(case s of CHR ''-'' # r \<Rightarrow> (True, r) | CHR ''+'' # r \<Rightarrow> (False, r) | _ \<Rightarrow> (False, s)) = (False, s)"
    using assms by (auto split: char.splits bool.splits)
  have "s \<noteq> []" using assms(1) by simp
  then show ?thesis by (simp add: parse_int_def sign cong: option.case_cong)
qed

lemma parse_int_hex16:
  assumes "0 \<le> n" "int64 n"
  shows "parse_int 16 (hex16 n) = Some n"
proof -
  let ?d = "digits 16 (nat n)" and ?k = "16 - length (digits 16 (nat n))"
  have h: "hex16 n = replicate ?k CHR ''0'' @ ?d" using assms(1) by (simp add: hex16_def Let_def)
  obtain c r where c: "hex16 n = c # r" "c \<noteq> CHR ''-''" "c \<noteq> CHR ''+''"
  proof (cases ?k)
    case 0
    obtain d r where d: "?d = digit_char d # r" "d < 36" using hd_digits [of 16 "nat n"] by auto
    show ?thesis by (rule that [of "digit_char d" r]) (use h 0 d digit_char_not_sign [OF d(2)] in auto)
  next
    case (Suc k)
    show ?thesis by (rule that [of "CHR ''0''" "replicate k CHR ''0'' @ ?d"]) (use h Suc in auto)
  qed
  have "parse_digits 16 (hex16 n) 0 = Some (nat n)"
    using parse_digits_digits [of 16 "nat n"] by (simp add: h parse_digits_zeros)
  moreover have "nat n < 2 ^ 63" using assms by (simp add: int64_def)
  ultimately show ?thesis using assms(1) by (simp add: parse_int_unsigned [OF c])
qed

lemma length_hex16: "0 \<le> n \<Longrightarrow> int64 n \<Longrightarrow> length (hex16 n) = 16"
proof -
  assume "0 \<le> n" "int64 n"
  then have "nat n < 16 ^ Suc 15" by (simp add: int64_def)
  from length_digits [OF this] have "length (digits 16 (nat n)) \<le> 16" by simp
  then show ?thesis using \<open>0 \<le> n\<close> by (simp add: hex16_def Let_def)
qed

lemma Uint16_PutUint16: "n < 65536 \<Longrightarrow> Uint16 (PutUint16 n @ rest) = n"
  by (simp add: Uint16_def PutUint16_def unat_of_nat)

lemma length_PutUint16 [simp]: "length (PutUint16 n) = 2"
  by (simp add: PutUint16_def)

lemma length_gz_magic [simp]: "length gz_magic = 6"
  by (simp add: gz_magic_def)

lemma gzip_extra_member:
  assumes "length extra < 65536"
  shows "gzip_extra crc (empty_member extra) = Inr extra"
proof -
  let ?r = "PutUint16 (length extra) @ extra @ [1, 0, 0, 255, 255] @ replicate 8 (0 :: byte)"
  have "Uint16 ?r = length extra" using assms by (rule Uint16_PutUint16)
  moreover have "drop 2 ?r = extra @ [1, 0, 0, 255, 255] @ replicate 8 (0 :: byte)" "2 \<le> length ?r"
    by (simp_all add: PutUint16_def)
  ultimately show ?thesis by (simp add: gzip_extra_def empty_member_def Let_def)
qed

lemma footerBytes_ok:
  assumes "0 \<le> off" "int64 off"
  shows "footerBytes off = Inr (empty_member (bytes_of ''SG'' @ PutUint16 22 @ bytes_of (hex16 off) @ gz_magic))"
  using length_hex16 [OF assms]
  by (simp add: footerBytes_def Let_def empty_member_def PutUint16_def FooterSize_def gz_magic_def bytes_of_def)

lemma length_footer:
  assumes "0 \<le> off" "int64 off" "footerBytes off = Inr f"
  shows "length f = 51"
  using assms(3) by (auto simp: footerBytes_def Let_def FooterSize_def split: if_splits)

lemma parse_footerBytes:
  assumes "0 \<le> off" "int64 off" "footerBytes off = Inr f"
  shows "parseFooter crc f = Inr (off, 51)"
proof -
  let ?sub = "bytes_of (hex16 off) @ gz_magic"
  have h: "length (bytes_of (hex16 off)) = 16" using length_hex16 [OF assms(1,2)] by simp
  obtain ex where f: "f = empty_member ex" and ex: "ex = bytes_of ''SG'' @ PutUint16 22 @ ?sub"
    using footerBytes_ok [OF assms(1,2)] assms(3) by simp
  have len: "length ex = 26" using h by (simp add: ex)
  have g: "gzip_extra crc f = Inr ex" unfolding f by (rule gzip_extra_member) (simp add: len)
  have "drop 2 ex = PutUint16 22 @ ?sub" "ex ! 0 = 0x53" "ex ! 1 = 0x47" by (simp_all add: ex bytes_of_def)
  moreover from this have "Uint16 (drop 2 ex) = 22" using Uint16_PutUint16 [of 22 ?sub] by simp
  moreover have d4: "drop 4 ex = ?sub" using h by (simp add: ex)
  ultimately have "parseEStargzFooter crc f = Inr off"
    using h len length_footer [OF assms] parse_int_hex16 [OF assms(1,2)]
    by (simp add: parseEStargzFooter_def FooterSize_def Let_def parse_offset_def g)
  then show ?thesis by (simp add: parseFooter_def FooterSize_def)
qed

lemma OpenFooter_footerBytes:
  assumes "0 \<le> off" "int64 off" "footerBytes off = Inr f"
  shows "OpenFooter crc (blob @ f) = Inr (off, 51)"
  using parse_footerBytes [OF assms] length_footer [OF assms] by (simp add: OpenFooter_def FooterSize_def)

section \<open>The chunks of a file\<close>

text \<open>
  What the loop over the chunks computes: the data in pieces of the chunk size, one gzip member and one
  entry for each.
\<close>

function pieces :: "nat \<Rightarrow> 'a list \<Rightarrow> 'a list list" where
  "pieces n xs = (if xs = [] \<or> n = 0 then [] else take n xs # pieces n (drop n xs))"
  by pat_completeness auto
termination
  by (relation "measure (\<lambda>(n, xs). length xs)") auto

declare pieces.simps [simp del]

lemma pieces_Nil [simp]: "pieces n [] = []"
  by (subst pieces.simps) simp

lemma pieces_step: "xs \<noteq> [] \<Longrightarrow> 0 < n \<Longrightarrow> pieces n xs = take n xs # pieces n (drop n xs)"
  by (subst pieces.simps) simp

lemma concat_pieces: "0 < n \<Longrightarrow> concat (pieces n xs) = xs"
proof (induction n xs rule: pieces.induct)
  case (1 n xs)
  then show ?case by (cases "xs = []") (simp_all add: pieces_step)
qed

lemma pieces_lengths:
  "0 < n \<Longrightarrow> p \<in> set (pieces n xs) \<Longrightarrow> 0 < length p \<and> length p \<le> n"
proof (induction n xs rule: pieces.induct)
  case (1 n xs)
  then show ?case by (cases "xs = []") (auto simp: pieces_step)
qed

fun chunk_entries :: "writer_env \<Rightarrow> string \<Rightarrow> int \<Rightarrow> toc_entry \<Rightarrow> int \<Rightarrow> int \<Rightarrow> byte list list \<Rightarrow> toc_entry list" where
  "chunk_entries env name csz ent off written [] = []"
| "chunk_entries env name csz ent off written (p # ps) =
     ent\<lparr>e_ChunkSize := (if int (length p) = csz then csz else e_ChunkSize ent), e_Offset := off, e_ChunkOffset := written,
         e_ChunkDigest := we_hash env p, e_CompressedSize := int (length (we_gzip env p))\<rparr>
     # chunk_entries env name csz (zero_entry\<lparr>e_Name := name, e_Type := ''chunk''\<rparr>)
         (off + int (length (we_gzip env p))) (written + int (length p)) ps"

text \<open>A writer after it has written pieces as members of their own.\<close>

definition members_written :: "writer_env \<Rightarrow> string \<Rightarrow> toc_entry \<Rightarrow> int \<Rightarrow> byte list list \<Rightarrow> stargz_writer \<Rightarrow> stargz_writer" where
  "members_written env name ent written ps w =
     w\<lparr>wr_out := wr_out w @ concat (map (we_gzip env) ps),
       wr_entries := wr_entries w @ chunk_entries env name (chunkSize w) ent (cw_n w) written ps,
       wr_diff := wr_diff w @ concat ps\<rparr>"

lemma members_written_Nil [simp]: "members_written env name ent written [] w = w"
  by (simp add: members_written_def)

lemma closeGz_Inr:
  "closeGz env w = Inr w' \<Longrightarrow> wr_gz w' = None \<and> wr_closed w' = False \<and> chunkSize w' = chunkSize w \<and>
     wr_entries w' = wr_entries w \<and> wr_diff w' = wr_diff w \<and>
     wr_out w' = wr_out w @ (case wr_gz w of None \<Rightarrow> [] | Some p \<Rightarrow> we_gzip env p)"
  by (auto simp: closeGz_def chunkSize_def Let_def split: if_splits option.splits)

text \<open>
  One turn of the loop leaves a stream with the piece open and an entry whose compressed size is not yet
  set; finishing it gives the member.
\<close>

lemma finish_chunk_piece:
  assumes "wr_gz w1 = None" "ent2 = ent1\<lparr>e_Offset := cw_n w1, e_ChunkOffset := written\<rparr>"
    and "finish_chunk env (Some (length (wr_entries w1)))
       (w1\<lparr>wr_diff := wr_diff w1 @ p, wr_gz := Some p,
           wr_entries := wr_entries w1 @ [ent2\<lparr>e_ChunkDigest := we_hash env p\<rparr>]\<rparr>) = Inr w2"
  shows "w2 = w1\<lparr>wr_out := wr_out w1 @ we_gzip env p, wr_diff := wr_diff w1 @ p,
      wr_entries := wr_entries w1 @ [ent1\<lparr>e_Offset := cw_n w1, e_ChunkOffset := written, e_ChunkDigest := we_hash env p,
        e_CompressedSize := int (length (we_gzip env p))\<rparr>]\<rparr>"
  using assms by (auto simp: finish_chunk_def closeGz_def cw_n_def Let_def split: if_splits option.splits)

lemma members_written_Cons:
  assumes "wr_gz w1 = None"
    and "w2 = w1\<lparr>wr_out := wr_out w1 @ we_gzip env p, wr_diff := wr_diff w1 @ p,
      wr_entries := wr_entries w1 @ [ent\<lparr>e_ChunkSize := (if int (length p) = chunkSize w1 then chunkSize w1 else e_ChunkSize ent),
        e_Offset := cw_n w1, e_ChunkOffset := written, e_ChunkDigest := we_hash env p,
        e_CompressedSize := int (length (we_gzip env p))\<rparr>]\<rparr>"
  shows "members_written env name (zero_entry\<lparr>e_Name := name, e_Type := ''chunk''\<rparr>) (written + int (length p)) ps w2 =
    members_written env name ent written (p # ps) w1"
  using assms by (simp add: members_written_def cw_n_def chunkSize_def)

lemma write_chunks_spec:
  "write_chunks env name tot data written prev ent w = Inr (w', prev') \<Longrightarrow> finish_chunk env prev' w' = Inr w3 \<Longrightarrow>
   written \<le> tot \<Longrightarrow>
   \<exists>w1. finish_chunk env prev w = Inr w1 \<and> tot - written \<le> int (length data) \<and>
     w3 = members_written env name ent written (pieces (nat (chunkSize w1)) (take (nat (tot - written)) data)) w1"
proof (induction env name tot data written prev ent w rule: write_chunks.induct)
  case (1 env name tot data written prev ent w)
  note run = "1.prems"(1) and fin = "1.prems"(2) and le = "1.prems"(3)
  show ?case
  proof (cases "written < tot")
    case False
    then have "written = tot" "w' = w" "prev' = prev" using run le by (auto simp: write_chunks.simps [of env name tot])
    then show ?thesis using fin by simp
  next
    case lt: True
    obtain w1 where w1: "finish_chunk env prev w = Inr w1"
      using run lt by (cases "finish_chunk env prev w") (auto simp: write_chunks.simps [of env name tot])
    have gz: "wr_gz w1 = None"
      using w1 closeGz_Inr [of env w] by (auto simp: finish_chunk_def split: sum.splits option.splits)
    define cs where "cs = chunkSize w1"
    define remain where "remain = tot - written"
    define sz where "sz = (if remain < cs then remain else cs)"
    define chunk where "chunk = take (nat sz) data"
    define ent1 where "ent1 = (if remain < cs then ent else ent\<lparr>e_ChunkSize := sz\<rparr>)"
    define ent2 where "ent2 = ent1\<lparr>e_Offset := cw_n w1, e_ChunkOffset := written\<rparr>"
    define w4 where "w4 = w1\<lparr>wr_diff := wr_diff w1 @ chunk, wr_gz := Some chunk,
      wr_entries := wr_entries w1 @ [ent2\<lparr>e_ChunkDigest := we_hash env chunk\<rparr>]\<rparr>"
    have pos: "0 < cs" "0 < remain" "0 < sz" "sz \<le> remain"
      using chunkSize_pos [of w1] lt by (auto simp: cs_def remain_def sz_def)
    have long: "sz \<le> int (length data)"
      using run lt w1 by (subst (asm) write_chunks.simps) (auto simp: Let_def cs_def remain_def sz_def split: if_splits)
    have wr: "cgw_Write chunk (condOpenGz w1) = Inr (w1\<lparr>wr_diff := wr_diff w1 @ chunk, wr_gz := Some chunk\<rparr>)"
      using gz by (simp add: cgw_Write_def condOpenGz_def)
    have next_run: "write_chunks env name tot (drop (nat sz) data) (written + sz) (Some (length (wr_entries w1)))
        (zero_entry\<lparr>e_Name := name, e_Type := ''chunk''\<rparr>) w4 = Inr (w', prev')"
      using run [unfolded write_chunks.simps [of env name tot data] if_P [OF lt] w1 sum.case Let_def,
          folded cs_def remain_def, folded sz_def, folded chunk_def ent1_def, folded ent2_def] long wr
      by (simp add: w4_def)
    let ?chunk_ent = "zero_entry\<lparr>e_Name := name, e_Type := ''chunk''\<rparr>" and ?rest = "drop (nat sz) data"
    note IH = "1.IH" [OF lt w1 refl refl refl refl refl, folded cs_def remain_def, folded sz_def, folded chunk_def ent1_def,
        folded ent2_def, OF _ wr]
    have "\<exists>w2. finish_chunk env (Some (length (wr_entries w1))) w4 = Inr w2 \<and> tot - (written + sz) \<le> int (length ?rest) \<and>
        w3 = members_written env name ?chunk_ent (written + sz)
          (pieces (nat (chunkSize w2)) (take (nat (tot - (written + sz))) ?rest)) w2"
      using IH next_run fin pos long by (simp add: w4_def remain_def)
    then obtain w2 where w2: "finish_chunk env (Some (length (wr_entries w1))) w4 = Inr w2"
      and enough: "tot - (written + sz) \<le> int (length ?rest)"
      and w3: "w3 = members_written env name ?chunk_ent (written + sz)
          (pieces (nat (chunkSize w2)) (take (nat (tot - (written + sz))) ?rest)) w2" by blast
    have w2_eq: "w2 = w1\<lparr>wr_out := wr_out w1 @ we_gzip env chunk, wr_diff := wr_diff w1 @ chunk,
        wr_entries := wr_entries w1 @ [ent1\<lparr>e_Offset := cw_n w1, e_ChunkOffset := written, e_ChunkDigest := we_hash env chunk,
          e_CompressedSize := int (length (we_gzip env chunk))\<rparr>]\<rparr>"
      by (rule finish_chunk_piece [OF gz ent2_def w2 [unfolded w4_def]])
    have len: "int (length chunk) = sz" using long pos by (simp add: chunk_def)
    have ent1_eq: "ent1 = ent\<lparr>e_ChunkSize := (if int (length chunk) = chunkSize w1 then chunkSize w1 else e_ChunkSize ent)\<rparr>"
      using pos by (auto simp: ent1_def len sz_def cs_def)
    have "w3 = members_written env name ent written
        (chunk # pieces (nat (chunkSize w2)) (take (nat (tot - (written + sz))) ?rest)) w1"
      unfolding w3 using members_written_Cons [OF gz w2_eq [unfolded ent1_eq, simplified]] by (simp add: len)
    moreover have "chunk # pieces (nat (chunkSize w2)) (take (nat (tot - (written + sz))) ?rest) =
        pieces (nat (chunkSize w1)) (take (nat (tot - written)) data)"
    proof -
      have "take (nat cs) (take (nat remain) data) = chunk"
        using pos by (auto simp: chunk_def sz_def min_def)
      moreover have "drop (nat cs) (take (nat remain) data) = take (nat (tot - (written + sz))) ?rest"
        using pos by (auto simp: sz_def remain_def drop_take nat_diff_distrib [symmetric] algebra_simps)
      moreover have "take (nat remain) data \<noteq> []" using pos long by auto
      ultimately show ?thesis using pos w2_eq pieces_step [of "take (nat remain) data" "nat cs"]
        by (simp add: cs_def remain_def chunkSize_def)
    qed
    moreover have "tot - written \<le> int (length data)" using enough long pos by (simp add: remain_def)
    ultimately show ?thesis using w1 by simp
  qed
qed

lemma length_chunk_entries [simp]: "length (chunk_entries env name csz ent off written ps) = length ps"
  by (induction ps arbitrary: ent off written) auto

lemma chunk_entries_nth:
  "j < length ps \<Longrightarrow> chunk_entries env name csz ent off written ps ! j =
     (if j = 0 then ent else zero_entry\<lparr>e_Name := name, e_Type := ''chunk''\<rparr>)
     \<lparr>e_ChunkSize := (if int (length (ps ! j)) = csz then csz else e_ChunkSize (if j = 0 then ent else zero_entry)),
      e_Offset := off + int (length (concat (map (we_gzip env) (take j ps)))),
      e_ChunkOffset := written + int (length (concat (take j ps))), e_ChunkDigest := we_hash env (ps ! j),
      e_CompressedSize := int (length (we_gzip env (ps ! j)))\<rparr>"
proof (induction ps arbitrary: ent off written j)
  case Nil
  then show ?case by simp
next
  case (Cons p ps)
  show ?case
  proof (cases j)
    case 0
    then show ?thesis by simp
  next
    case (Suc i)
    then show ?thesis using Cons.prems Cons.IH [of i] by (cases i) (simp_all add: add.assoc)
  qed
qed

text \<open>
  The file of a header, stored at entry \<open>n\<close>: its data in pieces of the chunk size, an entry for each with the
  place of the piece in the file, its digest, and the range of the blob that is its gzip member.
\<close>

definition stored_chunk :: "writer_env \<Rightarrow> int \<Rightarrow> byte list list \<Rightarrow> nat \<Rightarrow> toc_entry \<Rightarrow> byte list \<Rightarrow> bool" where
  "stored_chunk env csz ps j e out \<longleftrightarrow>
     e_ChunkOffset e = int (length (concat (take j ps))) \<and>
     e_ChunkSize e = (if int (length (ps ! j)) = csz then csz else 0) \<and>
     e_ChunkDigest e = we_hash env (ps ! j) \<and>
     0 \<le> e_Offset e \<and> e_CompressedSize e = int (length (we_gzip env (ps ! j))) \<and>
     e_Offset e + e_CompressedSize e \<le> int (length out) \<and>
     take (nat (e_CompressedSize e)) (drop (nat (e_Offset e)) out) = we_gzip env (ps ! j)"

definition file_stored :: "writer_env \<Rightarrow> int \<Rightarrow> tar_header \<Rightarrow> byte list \<Rightarrow> nat \<Rightarrow> toc_entry list \<Rightarrow> byte list \<Rightarrow> bool" where
  "file_stored env csz h data n es out \<longleftrightarrow>
     (let ps = pieces (nat csz) (take (nat (h_Size h)) data) in
      n + length ps \<le> length es \<and> ps \<noteq> [] \<and> h_Size h \<le> int (length data) \<and>
      e_Type (es ! n) = ''reg'' \<and> e_Size (es ! n) = h_Size h \<and> e_Digest (es ! n) = we_hash env (take (nat (h_Size h)) data) \<and>
      (\<forall>j < length ps. e_Name (es ! (n + j)) = h_Name h \<and> (0 < j \<longrightarrow> e_Type (es ! (n + j)) = ''chunk'') \<and>
         stored_chunk env csz ps j (es ! (n + j)) out \<and>
         (0 < j \<longrightarrow> e_Offset (es ! (n + j)) = e_Offset (es ! (n + j - 1)) + e_CompressedSize (es ! (n + j - 1)))))"

lemma stored_chunk_extend: "stored_chunk env csz ps j e out \<Longrightarrow> stored_chunk env csz ps j e (out @ rest)"
  by (auto simp: stored_chunk_def)

lemma file_stored_extend:
  assumes "file_stored env csz h data n es out"
  shows "file_stored env csz h data n (es @ es1) (out @ rest)"
proof -
  let ?ps = "pieces (nat csz) (take (nat (h_Size h)) data)"
  have fit: "n + length ?ps \<le> length es" "?ps \<noteq> []" using assms by (simp_all add: file_stored_def Let_def)
  have nth: "(es @ es1) ! (n + j) = es ! (n + j)" "(es @ es1) ! (n + j - 1) = es ! (n + j - 1)" if "j < length ?ps" for j
    using fit that by (simp_all add: nth_append)
  moreover have "0 < length ?ps" using fit(2) by blast
  moreover have "(es @ es1) ! n = es ! n" using nth(1) [of 0] fit(2) by simp
  ultimately show ?thesis using assms stored_chunk_extend by (simp add: file_stored_def Let_def)
qed

section \<open>What an operation leaves\<close>

text \<open>
  Every operation extends the output and the entries. The output is a sequence of gzip members, and what
  was hashed for the DiffID is what they and the open stream hold.
\<close>

definition extends :: "stargz_writer \<Rightarrow> stargz_writer \<Rightarrow> bool" where
  "extends w w' \<longleftrightarrow> chunkSize w' = chunkSize w \<and> (\<exists>es. wr_entries w' = wr_entries w @ es) \<and> (\<exists>out. wr_out w' = wr_out w @ out)"

lemma extends_refl [simp]: "extends w w"
  by (simp add: extends_def)

lemma extends_trans [trans]: "extends w1 w2 \<Longrightarrow> extends w2 w3 \<Longrightarrow> extends w1 w3"
  by (auto simp: extends_def)

definition stream_inv :: "writer_env \<Rightarrow> stargz_writer \<Rightarrow> bool" where
  "stream_inv env w \<longleftrightarrow>
     (\<exists>ms. wr_out w = concat (map (we_gzip env) ms) \<and>
           wr_diff w = concat ms @ (case wr_gz w of None \<Rightarrow> [] | Some p \<Rightarrow> p))"

lemma closeGz_stream:
  assumes "closeGz env w = Inr w'" "stream_inv env w"
  shows "stream_inv env w'"
proof -
  obtain ms where ms: "wr_out w = concat (map (we_gzip env) ms)"
    "wr_diff w = concat ms @ (case wr_gz w of None \<Rightarrow> [] | Some p \<Rightarrow> p)" using assms(2) by (auto simp: stream_inv_def)
  show ?thesis
  proof (cases "wr_gz w")
    case None
    then show ?thesis using assms by (auto simp: closeGz_def split: if_splits)
  next
    case (Some p)
    then show ?thesis using closeGz_Inr [OF assms(1)] ms
      by (auto simp: stream_inv_def intro!: exI [of _ "ms @ [p]"])
  qed
qed

lemma closeGz_extends: "closeGz env w = Inr w' \<Longrightarrow> extends w w'"
  using closeGz_Inr [of env w w'] by (auto simp: extends_def)

lemma condOpenGz_stream: "stream_inv env w \<Longrightarrow> stream_inv env (condOpenGz w)"
  by (auto simp: condOpenGz_def stream_inv_def)

lemma condOpenGz_extends: "extends w (condOpenGz w)"
  by (simp add: condOpenGz_def extends_def chunkSize_def)

lemma cgw_Write_Inr:
  "cgw_Write p w = Inr w' \<Longrightarrow> \<exists>q. wr_gz w = Some q \<and> w' = w\<lparr>wr_diff := wr_diff w @ p, wr_gz := Some (q @ p)\<rparr>"
  by (auto simp: cgw_Write_def split: option.splits)

lemma cgw_Write_stream: "cgw_Write p w = Inr w' \<Longrightarrow> stream_inv env w \<Longrightarrow> stream_inv env w'"
  by (drule cgw_Write_Inr) (auto simp: stream_inv_def)

lemma cgw_Write_extends: "cgw_Write p w = Inr w' \<Longrightarrow> extends w w'"
  by (drule cgw_Write_Inr) (auto simp: extends_def chunkSize_def)

lemma write_file_Inr:
  assumes "write_file env h data ent w = Inr w'" "0 < e_Size ent"
  shows "\<exists>w1. closeGz env w = Inr w1 \<and> e_Size ent \<le> int (length data) \<and>
    w' = condOpenGz (members_written env (h_Name h) ent 0 (pieces (nat (chunkSize w1)) (take (nat (e_Size ent)) data)) w1)"
proof -
  obtain wc prev w3 where run: "write_chunks env (h_Name h) (e_Size ent) data 0 None ent w = Inr (wc, prev)"
    and fin: "finish_chunk env prev wc = Inr w3" and w': "w' = condOpenGz w3"
    using assms(1) by (auto simp: write_file_def split: sum.splits)
  show ?thesis
    using write_chunks_spec [OF run fin] assms(2) by (auto simp: finish_chunk_def w' split: sum.splits)
qed

lemma members_written_stream:
  assumes "stream_inv env w" "wr_gz w = None"
  shows "stream_inv env (members_written env name ent written ps w)"
proof -
  obtain ms where "wr_out w = concat (map (we_gzip env) ms)" "wr_diff w = concat ms"
    using assms by (auto simp: stream_inv_def)
  then show ?thesis using assms(2)
    by (auto simp: stream_inv_def members_written_def intro!: exI [of _ "ms @ ps"])
qed

lemma members_written_extends: "extends w (members_written env name ent written ps w)"
  by (simp add: extends_def members_written_def chunkSize_def)

lemma new_entry_keeps: "new_entry env h w = (ent, w1) \<Longrightarrow>
    e_Name ent = h_Name h \<and> e_ChunkSize ent = 0 \<and> wr_out w1 = wr_out w \<and> wr_entries w1 = wr_entries w \<and> wr_diff w1 = wr_diff w \<and>
    wr_gz w1 = wr_gz w \<and> wr_closed w1 = wr_closed w \<and> chunkSize w1 = chunkSize w"
  by (auto simp: new_entry_def zero_entry_def chunkSize_def split: prod.splits)

lemma append_entry_Inr:
  assumes "append_entry env (h, data) w = Inr w'" "h_Name h \<noteq> TOCTarName"
  shows "\<exists>ent0 w1 hb w3 ent w4. new_entry env h w = (ent0, w1) \<and> we_header env h = Inr hb \<and>
     cgw_Write hb (condOpenGz w1) = Inr w3 \<and> entry_of_type h ent0 = Inr ent \<and>
     (if h_Typeflag h = TypeReg \<and> 0 < e_Size ent then write_file env h data ent w3 = Inr w4
      else w4 = w3\<lparr>wr_entries := wr_entries w3 @ [ent]\<rparr>) \<and>
     cgw_Write (if h_Typeflag h = TypeReg then tar_padding (h_Size h) else [])
       (if h_Typeflag h = TypeReg
        then w4\<lparr>wr_entries := (wr_entries w4)[length (wr_entries w3) := (wr_entries w4 ! length (wr_entries w3))
              \<lparr>e_Digest := we_hash env (take (nat (e_Size ent)) data)\<rparr>]\<rparr>
        else w4) = Inr w'"
  using assms by (auto simp: append_entry_def Let_def split: sum.splits prod.splits if_splits)

lemma entry_of_type_reg:
  "entry_of_type h ent0 = Inr ent \<Longrightarrow> h_Typeflag h = TypeReg \<Longrightarrow> ent = ent0\<lparr>e_Type := ''reg'', e_Size := h_Size h\<rparr>"
  by (simp add: entry_of_type_def)

lemma set_entry_extends:
  "extends w w4 \<Longrightarrow> length (wr_entries w) \<le> n \<Longrightarrow> extends w (w4\<lparr>wr_entries := (wr_entries w4)[n := e]\<rparr>)"
  by (auto simp: extends_def chunkSize_def list_update_append)

lemma set_entry_stream [simp]: "stream_inv env (w\<lparr>wr_entries := es\<rparr>) \<longleftrightarrow> stream_inv env w"
  by (simp add: stream_inv_def)

lemma body_step:
  assumes "if c then write_file env h data ent w3 = Inr w4 else w4 = w3\<lparr>wr_entries := wr_entries w3 @ [ent]\<rparr>"
    and "c \<longrightarrow> 0 < e_Size ent"
  shows "extends w3 w4 \<and> (stream_inv env w3 \<longrightarrow> stream_inv env w4)"
proof (cases c)
  case True
  then obtain w1 where w1: "closeGz env w3 = Inr w1"
    and w4: "w4 = condOpenGz (members_written env (h_Name h) ent 0
        (pieces (nat (chunkSize w1)) (take (nat (e_Size ent)) data)) w1)"
    using write_file_Inr [of env h data ent w3 w4] assms by auto
  have gz: "wr_gz w1 = None" using closeGz_Inr [OF w1] by simp
  have "extends w3 w1" by (rule closeGz_extends [OF w1])
  also have "extends w1 (members_written env (h_Name h) ent 0 (pieces (nat (chunkSize w1)) (take (nat (e_Size ent)) data)) w1)"
    by (rule members_written_extends)
  also have "extends \<dots> w4" unfolding w4 by (rule condOpenGz_extends)
  finally show ?thesis
    unfolding w4 using condOpenGz_stream members_written_stream [OF _ gz] closeGz_stream [OF w1] by blast
next
  case False
  then show ?thesis using assms(1) by (simp add: extends_def chunkSize_def)
qed

lemma append_entry_keeps:
  assumes "append_entry env (h, data) w = Inr w'"
  shows "extends w w' \<and> (stream_inv env w \<longrightarrow> stream_inv env w')"
proof (cases "h_Name h = TOCTarName")
  case True
  then show ?thesis using assms by (simp add: append_entry_def)
next
  case False
  obtain ent0 w1 hb w3 ent w4 where ne: "new_entry env h w = (ent0, w1)" and w3: "cgw_Write hb (condOpenGz w1) = Inr w3"
    and body: "if h_Typeflag h = TypeReg \<and> 0 < e_Size ent then write_file env h data ent w3 = Inr w4
      else w4 = w3\<lparr>wr_entries := wr_entries w3 @ [ent]\<rparr>"
    and last: "cgw_Write (if h_Typeflag h = TypeReg then tar_padding (h_Size h) else [])
       (if h_Typeflag h = TypeReg
        then w4\<lparr>wr_entries := (wr_entries w4)[length (wr_entries w3) := (wr_entries w4 ! length (wr_entries w3))
              \<lparr>e_Digest := we_hash env (take (nat (e_Size ent)) data)\<rparr>]\<rparr>
        else w4) = Inr w'"
    using append_entry_Inr [OF assms False] by blast
  let ?w5 = "if h_Typeflag h = TypeReg
        then w4\<lparr>wr_entries := (wr_entries w4)[length (wr_entries w3) := (wr_entries w4 ! length (wr_entries w3))
              \<lparr>e_Digest := we_hash env (take (nat (e_Size ent)) data)\<rparr>]\<rparr>
        else w4"
  note step = body_step [OF body]
  have "extends w w1" using new_entry_keeps [OF ne] by (simp add: extends_def)
  also have "extends w1 (condOpenGz w1)" by (rule condOpenGz_extends)
  also have "extends (condOpenGz w1) w3" by (rule cgw_Write_extends [OF w3])
  also have "extends w3 ?w5" using step by (simp add: set_entry_extends)
  also have "extends ?w5 w'" by (rule cgw_Write_extends [OF last])
  finally have "extends w w'" .
  moreover have "stream_inv env w'" if "stream_inv env w"
  proof -
    have "stream_inv env w1" using that new_entry_keeps [OF ne] by (simp add: stream_inv_def)
    then have "stream_inv env w3" by (rule cgw_Write_stream [OF w3 condOpenGz_stream])
    then have "stream_inv env ?w5" using step by simp
    then show ?thesis by (rule cgw_Write_stream [OF last])
  qed
  ultimately show ?thesis by blast
qed

lemma member_range:
  assumes "j < length ps"
  shows "length a + length (concat (map f (take j ps))) + length (f (ps ! j)) \<le> length (a @ concat (map f ps))"
    and "take (length (f (ps ! j))) (drop (length a + length (concat (map f (take j ps)))) (a @ concat (map f ps))) = f (ps ! j)"
proof -
  have "ps = take j ps @ ps ! j # drop (Suc j) ps" using assms by (simp add: id_take_nth_drop)
  then have "concat (map f ps) = concat (map f (take j ps)) @ f (ps ! j) @ concat (map f (drop (Suc j) ps))"
    by (metis concat.simps(2) concat_append list.simps(9) map_append)
  then show "length a + length (concat (map f (take j ps))) + length (f (ps ! j)) \<le> length (a @ concat (map f ps))"
    and "take (length (f (ps ! j))) (drop (length a + length (concat (map f (take j ps)))) (a @ concat (map f ps))) = f (ps ! j)"
    by simp_all
qed

lemma append_entry_file:
  assumes "append_entry env (h, data) w = Inr w'" "h_Name h \<noteq> TOCTarName" and reg: "h_Typeflag h = TypeReg" and pos: "0 < h_Size h"
  shows "file_stored env (chunkSize w) h data (length (wr_entries w)) (wr_entries w') (wr_out w')"
proof -
  obtain ent0 w1 hb w3 ent w4 where ne: "new_entry env h w = (ent0, w1)" and w3: "cgw_Write hb (condOpenGz w1) = Inr w3"
    and ent: "entry_of_type h ent0 = Inr ent"
    and body: "if h_Typeflag h = TypeReg \<and> 0 < e_Size ent then write_file env h data ent w3 = Inr w4
      else w4 = w3\<lparr>wr_entries := wr_entries w3 @ [ent]\<rparr>"
    and last: "cgw_Write (tar_padding (h_Size h))
        (w4\<lparr>wr_entries := (wr_entries w4)[length (wr_entries w3) := (wr_entries w4 ! length (wr_entries w3))
              \<lparr>e_Digest := we_hash env (take (nat (e_Size ent)) data)\<rparr>]\<rparr>) = Inr w'"
    using append_entry_Inr [OF assms(1,2)] reg by auto
  have e: "ent = ent0\<lparr>e_Type := ''reg'', e_Size := h_Size h\<rparr>" by (rule entry_of_type_reg [OF ent reg])
  have w3_eq: "wr_entries w3 = wr_entries w" "chunkSize w3 = chunkSize w"
    using new_entry_keeps [OF ne] cgw_Write_Inr [OF w3] by (auto simp: condOpenGz_def chunkSize_def split: if_splits)
  obtain wc where wc: "closeGz env w3 = Inr wc" and long: "h_Size h \<le> int (length data)"
    and w4: "w4 = condOpenGz (members_written env (h_Name h) ent 0 (pieces (nat (chunkSize wc)) (take (nat (h_Size h)) data)) wc)"
    using write_file_Inr [of env h data ent w3 w4] body pos reg by (auto simp: e)
  have wc_eq: "wr_entries wc = wr_entries w" "chunkSize wc = chunkSize w"
    using closeGz_Inr [OF wc] w3_eq by auto
  define ps where "ps = pieces (nat (chunkSize w)) (take (nat (h_Size h)) data)"
  define n where "n = length (wr_entries w)"
  define ces where "ces = chunk_entries env (h_Name h) (chunkSize w) ent (cw_n wc) 0 ps"
  have "data \<noteq> []" using pos long by auto
  then have ne_ps: "ps \<noteq> []"
    using pos long chunkSize_pos [of w] pieces_step [of "take (nat (h_Size h)) data" "nat (chunkSize w)"] by (auto simp: ps_def)
  have out: "wr_out w' = wr_out wc @ concat (map (we_gzip env) ps)"
    using cgw_Write_Inr [OF last] by (auto simp: w4 condOpenGz_def members_written_def wc_eq ps_def)
  have es: "wr_entries w' = wr_entries w @ ces[0 := (ces ! 0)\<lparr>e_Digest := we_hash env (take (nat (h_Size h)) data)\<rparr>]"
  proof -
    have "length ces \<noteq> 0" using ne_ps by (simp add: ces_def)
    then obtain c cs where c: "ces = c # cs" by (cases ces) auto
    have "wr_entries w4 = wr_entries w @ ces"
      by (simp add: w4 condOpenGz_def members_written_def wc_eq ps_def ces_def)
    moreover have "wr_entries w' = (wr_entries w4)[n := (wr_entries w4 ! n)\<lparr>e_Digest := we_hash env (take (nat (h_Size h)) data)\<rparr>]"
      using cgw_Write_Inr [OF last] by (auto simp: w3_eq n_def e)
    ultimately show ?thesis by (simp add: c n_def)
  qed
  have len: "length ces = length ps" by (simp add: ces_def)
  have nth: "wr_entries w' ! (n + j) = (if j = 0 then (ces ! 0)\<lparr>e_Digest := we_hash env (take (nat (h_Size h)) data)\<rparr> else ces ! j)"
    if "j < length ps" for j
    using that len by (auto simp: es n_def nth_append)
  have ces: "ces ! j = (if j = 0 then ent else zero_entry\<lparr>e_Name := h_Name h, e_Type := ''chunk''\<rparr>)
     \<lparr>e_ChunkSize := (if int (length (ps ! j)) = chunkSize w then chunkSize w else 0),
      e_Offset := cw_n wc + int (length (concat (map (we_gzip env) (take j ps)))),
      e_ChunkOffset := int (length (concat (take j ps))), e_ChunkDigest := we_hash env (ps ! j),
      e_CompressedSize := int (length (we_gzip env (ps ! j)))\<rparr>" if "j < length ps" for j
    using chunk_entries_nth [OF that, of env "h_Name h" "chunkSize w" ent "cw_n wc" 0] new_entry_keeps [OF ne]
    by (auto simp: ces_def e zero_entry_def)
  have chunk: "stored_chunk env (chunkSize w) ps j (wr_entries w' ! (n + j)) (wr_out w')" if j: "j < length ps" for j
  proof -
    have f: "e_ChunkOffset (wr_entries w' ! (n + j)) = int (length (concat (take j ps)))"
      "e_ChunkSize (wr_entries w' ! (n + j)) = (if int (length (ps ! j)) = chunkSize w then chunkSize w else 0)"
      "e_ChunkDigest (wr_entries w' ! (n + j)) = we_hash env (ps ! j)"
      "e_CompressedSize (wr_entries w' ! (n + j)) = int (length (we_gzip env (ps ! j)))"
      "e_Offset (wr_entries w' ! (n + j)) = int (length (wr_out wc) + length (concat (map (we_gzip env) (take j ps))))"
      using nth [OF j] ces [OF j] j by (auto simp: cw_n_def)
    show ?thesis
      unfolding stored_chunk_def f out using member_range [OF j, where a = "wr_out wc" and f = "we_gzip env"] by (simp only: nat_int) simp
  qed
  have next_off: "e_Offset (wr_entries w' ! (n + j)) = e_Offset (wr_entries w' ! (n + j - 1)) + e_CompressedSize (wr_entries w' ! (n + j - 1))"
    if j: "j < length ps" "0 < j" for j
  proof -
    have p: "j - 1 < length ps" "n + j - 1 = n + (j - 1)" using j by auto
    have "take j ps = take (j - 1) ps @ [ps ! (j - 1)]" using j p(1) take_Suc_conv_app_nth [of "j - 1" ps] by simp
    then show ?thesis unfolding p(2) nth [OF j(1)] nth [OF p(1)] using ces [OF j(1)] ces [OF p(1)] j by auto
  qed
  have "e_Type (wr_entries w' ! n) = ''reg''" "e_Size (wr_entries w' ! n) = h_Size h"
    "e_Digest (wr_entries w' ! n) = we_hash env (take (nat (h_Size h)) data)"
    using nth [of 0] ces [of 0] ne_ps by (auto simp: e)
  moreover have "e_Name (wr_entries w' ! (n + j)) = h_Name h \<and> (0 < j \<longrightarrow> e_Type (wr_entries w' ! (n + j)) = ''chunk'')"
    if "j < length ps" for j
    using nth [OF that] ces [OF that] that new_entry_keeps [OF ne] by (auto simp: e)
  moreover have "n + length ps \<le> length (wr_entries w')" using len by (simp add: es n_def)
  ultimately show ?thesis
    using chunk next_off ne_ps long by (simp add: file_stored_def Let_def ps_def [symmetric] n_def [symmetric])
qed

section \<open>A layer that was written\<close>

lemma fold_append_keeps:
  "fold_result (append_entry env) items w = Inr w' \<Longrightarrow> extends w w' \<and> (stream_inv env w \<longrightarrow> stream_inv env w')"
proof (induction items arbitrary: w)
  case Nil
  then show ?case by simp
next
  case (Cons x items)
  obtain h data where x: "x = (h, data)" by (cases x)
  obtain w1 where w1: "append_entry env (h, data) w = Inr w1" and rest: "fold_result (append_entry env) items w1 = Inr w'"
    using Cons.prems x by (auto split: sum.splits)
  show ?case using append_entry_keeps [OF w1] Cons.IH [OF rest] extends_trans by blast
qed

lemma fold_append_file:
  "fold_result (append_entry env) items w = Inr w' \<Longrightarrow> (h, data) \<in> set items \<Longrightarrow> h_Name h \<noteq> TOCTarName \<Longrightarrow>
   h_Typeflag h = TypeReg \<Longrightarrow> 0 < h_Size h \<Longrightarrow> \<exists>n. file_stored env (chunkSize w) h data n (wr_entries w') (wr_out w')"
proof (induction items arbitrary: w)
  case Nil
  then show ?case by simp
next
  case (Cons x items)
  obtain w1 where w1: "append_entry env x w = Inr w1" and rest: "fold_result (append_entry env) items w1 = Inr w'"
    using Cons.prems(1) by (auto split: sum.splits)
  obtain hx dx where x: "x = (hx, dx)" by (cases x)
  have ex: "extends w w1" using append_entry_keeps [OF w1 [unfolded x]] by simp
  show ?case
  proof (cases "x = (h, data)")
    case True
    have st: "file_stored env (chunkSize w) h data (length (wr_entries w)) (wr_entries w1) (wr_out w1)"
      by (rule append_entry_file [OF w1 [unfolded True] Cons.prems(3-5)])
    obtain es out where "wr_entries w' = wr_entries w1 @ es" "wr_out w' = wr_out w1 @ out"
      using fold_append_keeps [OF rest] by (auto simp: extends_def)
    then show ?thesis using file_stored_extend [OF st] by auto
  next
    case False
    then have "(h, data) \<in> set items" using Cons.prems(2) by auto
    from Cons.IH [OF rest this Cons.prems(3-5)] show ?thesis using ex by (simp add: extends_def)
  qed
qed

text \<open>What \<^verbatim>\<open>Close\<close> adds: the table of contents as one member, then the footer with its offset.\<close>

lemma Close_Inr:
  assumes "Close env w = Inr (d, w')" "\<not> wr_closed w"
  shows "\<exists>w1 js hb foot. closeGz env w = Inr w1 \<and> we_json env (wr_entries w) = Inr js \<and>
     we_header env (zero_header\<lparr>h_Typeflag := TypeReg, h_Name := TOCTarName, h_Size := int (length js)\<rparr>) = Inr hb \<and>
     footerBytes (cw_n w1) = Inr foot \<and> d = we_hash env js \<and> wr_entries w' = wr_entries w \<and> wr_closed w' \<and> wr_gz w' = None \<and>
     wr_out w' = wr_out w1 @ we_gzip env (hb @ js @ tar_padding (int (length js)) @ replicate 1024 0) @ foot \<and>
     wr_diff w' = wr_diff w1 @ hb @ js @ tar_padding (int (length js)) @ replicate 1024 0"
proof -
  obtain w1 where w1: "closeGz env w = Inr w1" using assms by (auto simp: Close_def split: sum.splits)
  note k = closeGz_Inr [OF w1]
  obtain js where js: "we_json env (wr_entries w) = Inr js" using assms w1 k by (auto simp: Close_def Let_def split: sum.splits)
  obtain hb where hb: "we_header env (zero_header\<lparr>h_Typeflag := TypeReg, h_Name := TOCTarName, h_Size := int (length js)\<rparr>) = Inr hb"
    using assms w1 k js by (auto simp: Close_def Let_def split: sum.splits)
  let ?bytes = "hb @ js @ tar_padding (int (length js)) @ replicate 1024 0"
  define w3 where "w3 = w1\<lparr>wr_diff := wr_diff w @ ?bytes, wr_gz := Some ?bytes\<rparr>"
  obtain w4 where w4: "closeGz env w3 = Inr w4"
    using assms w1 k js hb by (auto simp: Close_def Let_def cgw_Write_def w3_def [symmetric] split: sum.splits)
  note k4 = closeGz_Inr [OF w4]
  obtain foot where foot: "footerBytes (cw_n w1) = Inr foot"
    using assms w1 k js hb w4 by (auto simp: Close_def Let_def cgw_Write_def w3_def [symmetric] split: sum.splits)
  have "d = we_hash env js \<and> w' = w4\<lparr>wr_out := wr_out w4 @ foot, wr_closed := True\<rparr>"
    using assms w1 k js hb w4 foot by (auto simp: Close_def Let_def cgw_Write_def w3_def [symmetric] split: option.splits)
  then show ?thesis using w1 js hb foot k k4 by (auto simp: w3_def)
qed

text \<open>
  How the parameters of the two ends fit: what was compressed is decompressed, the tar reader finds the
  header and the bytes of a regular file that was written, JSON keeps the exported fields, and both use one
  digest function.
\<close>

definition format_ok :: "writer_env \<Rightarrow> reader_env \<Rightarrow> bool" where
  "format_ok env renv \<longleftrightarrow>
     (\<forall>bs. re_gunzip renv (we_gzip env bs) = Inr bs) \<and>
     (\<forall>h hb data rest. we_header env h = Inr hb \<and> h_Typeflag h = TypeReg \<and> h_Size h = int (length data) \<longrightarrow>
        re_tar renv (hb @ data @ rest) = Inr (h_Name h, data)) \<and>
     (\<forall>es js. we_json env es = Inr js \<longrightarrow> re_json renv js = Inr (map json_entry es)) \<and>
     (\<forall>bs. re_digest renv bs = we_hash env bs)"

section \<open>Properties\<close>

lemma AppendTar_files:
  assumes run: "AppendTar env gunzip untar r w = Inr w1" and close: "Close env w1 = Inr (d, w2)" and opened: "\<not> wr_closed w1"
    and item: "(h, data) \<in> set (fst (untar (if isGzip r then gunzip r else r)))"
    and reg: "h_Name h \<noteq> TOCTarName" "h_Typeflag h = TypeReg" "0 < h_Size h"
  shows "\<exists>n. file_stored env (chunkSize w) h data n (wr_entries w2) (wr_out w2)"
proof -
  have fold: "fold_result (append_entry env) (fst (untar (if isGzip r then gunzip r else r))) w = Inr w1"
    using run by (auto simp: AppendTar_def split: prod.splits sum.splits option.splits)
  obtain n where n: "file_stored env (chunkSize w) h data n (wr_entries w1) (wr_out w1)"
    using fold_append_file [OF fold item reg] by blast
  obtain out where "wr_entries w2 = wr_entries w1" "wr_out w2 = wr_out w1 @ out"
    using Close_Inr [OF close opened] closeGz_Inr by (auto split: option.splits)
  then show ?thesis using file_stored_extend [OF n, of "[]" out] by auto
qed

text \<open>
  C17: Every file of a layer is stored. After \<^verbatim>\<open>AppendTar\<close> and \<^verbatim>\<open>Close\<close>, each regular file of the source with a positive
  size has entries in the table of contents, one for each piece of the chunk size: they give the place of the piece in
  the file and its digest, follow each other in the blob, and the range that each names is exactly the gzip member of
  the piece; the first has the size and the digest of the file.
\<close>

theorem AppendTar_stores:
  assumes run: "AppendTar env gunzip untar r w = Inr w1" and close: "Close env w1 = Inr (d, w2)" and opened: "\<not> wr_closed w1"
    and item: "(h, data) \<in> set (fst (untar (if isGzip r then gunzip r else r)))"
    and reg: "h_Name h \<noteq> TOCTarName" "h_Typeflag h = TypeReg" "0 < h_Size h"
  shows "\<exists>n. file_stored env (chunkSize w) h data n (wr_entries w2) (wr_out w2)"
  by (rule AppendTar_files) (fact assms)+

definition sample_env :: writer_env where
  "sample_env = \<lparr>we_gzip = (\<lambda>b. 0x1f # b), we_sink = (\<lambda>n. None), we_header = (\<lambda>h. Inr (word_of_int (h_Size h) # bytes_of (h_Name h) @ [0])),
     we_hash = string_of, we_unix = (\<lambda>t. t), we_rfc3339 = itoa, we_json = (\<lambda>es. Inr (replicate (length es) 9))\<rparr>"

definition sample_file :: "tar_header \<times> byte list" where
  "sample_file = (zero_header\<lparr>h_Typeflag := TypeReg, h_Name := ''bin/sh'', h_Size := 5\<rparr>, [1, 2, 3, 4, 5])"

definition sample_run :: "(string \<times> stargz_writer) result" where
  "sample_run = (case AppendTar sample_env (\<lambda>b. b) (\<lambda>b. ([sample_file], None)) [] (NewWriter\<lparr>wr_ChunkSize := 2\<rparr>) of
     Inl e \<Rightarrow> Inl e | Inr w \<Rightarrow> Close sample_env w)"

theorem AppendTar_stores_witness:
  "case sample_run of Inl _ \<Rightarrow> False
    | Inr (d, w) \<Rightarrow> \<exists>n. file_stored sample_env 2 (fst sample_file) (snd sample_file) n (wr_entries w) (wr_out w)"
proof -
  have run: "is_ok sample_run" by code_simp
  have opened: "case AppendTar sample_env (\<lambda>b. b) (\<lambda>b. ([sample_file], None)) [] (NewWriter\<lparr>wr_ChunkSize := 2\<rparr>) of
      Inl e \<Rightarrow> True | Inr w \<Rightarrow> \<not> wr_closed w" by code_simp
  obtain w1 where w1: "AppendTar sample_env (\<lambda>b. b) (\<lambda>b. ([sample_file], None)) [] (NewWriter\<lparr>wr_ChunkSize := 2\<rparr>) = Inr w1"
    using run by (auto simp: sample_run_def split: sum.splits)
  obtain d w2 where w2: "Close sample_env w1 = Inr (d, w2)"
    using run by (cases "Close sample_env w1") (auto simp: sample_run_def w1)
  have "\<exists>n. file_stored sample_env (chunkSize (NewWriter\<lparr>wr_ChunkSize := 2\<rparr>)) (fst sample_file) (snd sample_file) n (wr_entries w2) (wr_out w2)"
    by (rule AppendTar_stores [OF w1 w2]) (use opened w1 in \<open>auto simp: sample_file_def TOCTarName_def\<close>)
  then show ?thesis by (simp add: sample_run_def w1 w2 chunkSize_def)
qed

lemma Close_members:
  assumes run: "AppendTar env gunzip untar r NewWriter = Inr w1" and close: "Close env w1 = Inr (d, w2)" and opened: "\<not> wr_closed w1"
    and fits: "int64 (int (length (wr_out w2)))"
  shows "\<exists>ms extra. wr_out w2 = concat (map (we_gzip env) ms) @ empty_member extra \<and> DiffID env w2 = we_hash env (concat ms) \<and>
    Digest env w2 = we_hash env (wr_out w2)"
proof -
  have "fold_result (append_entry env) (fst (untar (if isGzip r then gunzip r else r))) NewWriter = Inr w1"
    using run by (auto simp: AppendTar_def split: prod.splits sum.splits option.splits)
  moreover have "stream_inv env NewWriter" by (auto simp: stream_inv_def NewWriter_def intro!: exI [of _ "[]"])
  ultimately have inv: "stream_inv env w1" using fold_append_keeps by blast
  obtain w3 bytes foot where w3: "closeGz env w1 = Inr w3" and foot: "footerBytes (cw_n w3) = Inr foot"
    and out: "wr_out w2 = wr_out w3 @ we_gzip env bytes @ foot" and diff: "wr_diff w2 = wr_diff w3 @ bytes"
    using Close_Inr [OF close opened] by blast
  obtain ms where ms: "wr_out w3 = concat (map (we_gzip env) ms)" "wr_diff w3 = concat ms"
    using closeGz_stream [OF w3 inv] closeGz_Inr [OF w3] by (auto simp: stream_inv_def)
  have "0 \<le> cw_n w3" "int64 (cw_n w3)" using fits by (auto simp: cw_n_def int64_def out)
  then obtain extra where "foot = empty_member extra" using foot footerBytes_ok by auto
  then have "wr_out w2 = concat (map (we_gzip env) (ms @ [bytes])) @ empty_member extra \<and>
      DiffID env w2 = we_hash env (concat (ms @ [bytes])) \<and> Digest env w2 = we_hash env (wr_out w2)"
    by (simp add: out diff ms DiffID_def Digest_def)
  then show ?thesis by blast
qed

text \<open>
  C19: The DiffID is that of the decompressed layer. After \<^verbatim>\<open>AppendTar\<close> and \<^verbatim>\<open>Close\<close> on a fresh writer the blob is a sequence of
  gzip members and the footer, which is the member of an empty stream: the bytes that were hashed for the DiffID are
  exactly the concatenation of what the members hold.
\<close>

theorem Close_DiffID:
  assumes run: "AppendTar env gunzip untar r NewWriter = Inr w1" and close: "Close env w1 = Inr (d, w2)" and opened: "\<not> wr_closed w1"
    and fits: "int64 (int (length (wr_out w2)))"
  shows "\<exists>ms extra. wr_out w2 = concat (map (we_gzip env) ms) @ empty_member extra \<and> DiffID env w2 = we_hash env (concat ms) \<and>
    Digest env w2 = we_hash env (wr_out w2)"
  by (rule Close_members) (fact assms)+

lemma OpenStargz_written:
  assumes fmt: "format_ok env renv" and close: "Close env w = Inr (d, w')" and opened: "\<not> wr_closed w"
    and fits: "length (wr_out w') < 2 ^ 48"
  shows "OpenStargz renv (wr_out w') =
    (case initFields (re_ptime renv) (int (length (wr_out w'))) d (map json_entry (wr_entries w')) of
       Inl (Panic m) \<Rightarrow> Inl (Panic m)
     | Inl (Fail e) \<Rightarrow> Inl (Fail (Errorf ''failed to initialize fields of entries''))
     | Inr r \<Rightarrow> Inr r)"
proof -
  obtain w1 js hb foot where w1: "closeGz env w = Inr w1" and js: "we_json env (wr_entries w) = Inr js"
    and hb: "we_header env (zero_header\<lparr>h_Typeflag := TypeReg, h_Name := TOCTarName, h_Size := int (length js)\<rparr>) = Inr hb"
    and foot: "footerBytes (cw_n w1) = Inr foot" and d: "d = we_hash env js" and es: "wr_entries w' = wr_entries w"
    and out: "wr_out w' = wr_out w1 @ we_gzip env (hb @ js @ tar_padding (int (length js)) @ replicate 1024 0) @ foot"
    using Close_Inr [OF close opened] by blast
  let ?tarball = "hb @ js @ tar_padding (int (length js)) @ replicate 1024 0"
  have n: "0 \<le> cw_n w1" "int64 (cw_n w1)" using fits by (auto simp: cw_n_def int64_def out)
  have off: "OpenFooter (re_crc renv) (wr_out w') = Inr (cw_n w1, 51)"
    using OpenFooter_footerBytes [OF n foot, of "re_crc renv" "wr_out w1 @ we_gzip env ?tarball"] by (simp add: out)
  have len: "int (length (wr_out w')) - cw_n w1 - 51 = int (length (we_gzip env ?tarball))" "cw_n w1 < int (length (wr_out w'))"
    using length_footer [OF n foot] by (simp_all add: out cw_n_def)
  have small: "int (length (we_gzip env ?tarball)) \<le> 2 ^ 48" using fits by (simp add: out)
  have mem: "take (length (we_gzip env ?tarball)) (drop (nat (cw_n w1)) (wr_out w')) = we_gzip env ?tarball"
    by (simp add: out cw_n_def)
  have "re_tar renv ?tarball = Inr (TOCTarName, js)"
    using fmt hb unfolding format_ok_def by fastforce
  then show ?thesis
    using fmt js n len small mem by (simp add: OpenStargz_def off Let_def format_ok_def es d)
qed

text \<open>
  C18: The table of contents is found again. Opening the blob that \<^verbatim>\<open>Close\<close> leaves finds the table of contents by the footer,
  and builds the reader from the entries that were written, with the digest that \<^verbatim>\<open>Close\<close> returned.
\<close>

theorem OpenStargz_Close:
  assumes fmt: "format_ok env renv" and close: "Close env w = Inr (d, w')" and opened: "\<not> wr_closed w"
    and fits: "length (wr_out w') < 2 ^ 48"
  shows "OpenStargz renv (wr_out w') =
    (case initFields (re_ptime renv) (int (length (wr_out w'))) d (map json_entry (wr_entries w')) of
       Inl (Panic m) \<Rightarrow> Inl (Panic m)
     | Inl (Fail e) \<Rightarrow> Inl (Fail (Errorf ''failed to initialize fields of entries''))
     | Inr r \<Rightarrow> Inr r)"
  by (rule OpenStargz_written) (fact assms)+

lemma sample_appended:
  "AppendTar sample_env (\<lambda>b. b) (\<lambda>b. ([sample_file], None)) [] NewWriter \<noteq> Inl e"
  "case AppendTar sample_env (\<lambda>b. b) (\<lambda>b. ([sample_file], None)) [] NewWriter of Inl e \<Rightarrow> False | Inr w \<Rightarrow> \<not> wr_closed w \<and>
     (case Close sample_env w of Inl e \<Rightarrow> False | Inr (d, w2) \<Rightarrow> int (length (wr_out w2)) < 2 ^ 16)"
proof -
  show "case AppendTar sample_env (\<lambda>b. b) (\<lambda>b. ([sample_file], None)) [] NewWriter of Inl e \<Rightarrow> False | Inr w \<Rightarrow> \<not> wr_closed w \<and>
     (case Close sample_env w of Inl e \<Rightarrow> False | Inr (d, w2) \<Rightarrow> int (length (wr_out w2)) < 2 ^ 16)" by code_simp
  then show "AppendTar sample_env (\<lambda>b. b) (\<lambda>b. ([sample_file], None)) [] NewWriter \<noteq> Inl e" by auto
qed

theorem Close_DiffID_witness:
  "case AppendTar sample_env (\<lambda>b. b) (\<lambda>b. ([sample_file], None)) [] NewWriter of
     Inl e \<Rightarrow> False
   | Inr w \<Rightarrow> (case Close sample_env w of
        Inl e \<Rightarrow> False
      | Inr (d, w2) \<Rightarrow> \<exists>ms extra. wr_out w2 = concat (map (we_gzip sample_env) ms) @ empty_member extra \<and>
          DiffID sample_env w2 = we_hash sample_env (concat ms))"
proof -
  obtain w d w2 where w: "AppendTar sample_env (\<lambda>b. b) (\<lambda>b. ([sample_file], None)) [] NewWriter = Inr w"
    and w2: "Close sample_env w = Inr (d, w2)" and f: "\<not> wr_closed w" "int (length (wr_out w2)) < 2 ^ 16"
    using sample_appended(2) by (auto split: sum.splits)
  have "int64 (int (length (wr_out w2)))" using f(2) by (simp add: int64_def)
  from Close_DiffID [OF w w2 f(1) this] show ?thesis by (auto simp: w w2)
qed

text \<open>A pair of ends for one table of contents, with tar headers that carry the length of the file in unary.\<close>

definition sample_toc_entries :: "toc_entry list" where
  "sample_toc_entries = [zero_entry\<lparr>e_Name := ''bin/sh'', e_Type := ''reg''\<rparr>]"

definition plain_writer :: writer_env where
  "plain_writer = \<lparr>we_gzip = (\<lambda>b. b), we_sink = (\<lambda>n. None),
     we_header = (\<lambda>h. if h_Name h = TOCTarName then Inr (replicate (nat (h_Size h)) 1 @ [0]) else Inl (Fail (ExtError ''name''))),
     we_hash = string_of, we_unix = (\<lambda>t. t), we_rfc3339 = itoa,
     we_json = (\<lambda>es. if es = sample_toc_entries then Inr [7, 8, 9] else Inl (Fail (ExtError ''json'')))\<rparr>"

definition plain_reader :: reader_env where
  "plain_reader = \<lparr>re_crc = length, re_gunzip = Inr,
     re_tar = (\<lambda>p. let n = length (takeWhile (\<lambda>b. b = 1) p) in Inr (TOCTarName, take n (drop (n + 1) p))),
     re_json = (\<lambda>js. Inr (map json_entry sample_toc_entries)), re_digest = string_of, re_ptime = (\<lambda>s. 0)\<rparr>"

lemma plain_format: "format_ok plain_writer plain_reader"
proof -
  have "takeWhile (\<lambda>b. b = 1) (replicate n (1 :: byte) @ 0 # rest) = replicate n 1" for n rest
    by (induction n) auto
  then show ?thesis by (auto simp: format_ok_def plain_writer_def plain_reader_def Let_def split: if_splits)
qed

theorem OpenStargz_Close_witness:
  "case Close plain_writer (NewWriter\<lparr>wr_entries := sample_toc_entries\<rparr>) of
     Inl e \<Rightarrow> False
   | Inr (d, w) \<Rightarrow> (case OpenStargz plain_reader (wr_out w) of Inl e \<Rightarrow> False | Inr r \<Rightarrow> Lookup r ''bin/sh'' = Some 0 \<and> rd_tocDigest r = d)"
proof -
  have ok: "case Close plain_writer (NewWriter\<lparr>wr_entries := sample_toc_entries\<rparr>) of Inl e \<Rightarrow> False
    | Inr (d, w) \<Rightarrow> (case initFields (\<lambda>s. 0) (int (length (wr_out w))) d (map json_entry (wr_entries w)) of Inl e \<Rightarrow> False
        | Inr r \<Rightarrow> Lookup r ''bin/sh'' = Some 0 \<and> rd_tocDigest r = d)" by code_simp
  have "case Close plain_writer (NewWriter\<lparr>wr_entries := sample_toc_entries\<rparr>) of Inl e \<Rightarrow> False
    | Inr (d, w) \<Rightarrow> int (length (wr_out w)) < 2 ^ 16" by code_simp
  then obtain d w where w: "Close plain_writer (NewWriter\<lparr>wr_entries := sample_toc_entries\<rparr>) = Inr (d, w)"
    and small: "int (length (wr_out w)) < 2 ^ 16"
    by (auto split: sum.splits)
  have fits: "length (wr_out w) < 2 ^ 48" using small by simp
  have "\<not> wr_closed (NewWriter\<lparr>wr_entries := sample_toc_entries\<rparr>)" by (simp add: NewWriter_def)
  from OpenStargz_Close [OF plain_format w this fits] show ?thesis
    using ok by (auto simp: w plain_reader_def split: sum.splits)
qed

end
