(* ===== verification/Digest_Path.thy ===== *)
theory Digest_Path
  imports Manager
begin

text \<open>
  The paths that are made of a SHA-256 digest: a layer's directory and a content's file below it are
  sequences of normal components, which the digest determines.
\<close>

section \<open>Digests\<close>

definition hex_char :: "char \<Rightarrow> bool" where
  "hex_char c \<longleftrightarrow> c \<in> set ''0123456789abcdef''"

definition sha256 :: "string \<Rightarrow> bool" where
  "sha256 d \<longleftrightarrow> take 7 d = ''sha256:'' \<and> length d = 71 \<and> list_all hex_char (drop 7 d)"

definition digest_comps :: "string \<Rightarrow> string list" where
  "digest_comps d = [take 1 (drop 7 d), take 2 (drop 8 d), take 2 (drop 10 d), drop 12 d]"

lemma length_digest_comps [simp]: "length (digest_comps d) = 4"
  by (simp add: digest_comps_def)

lemma digest_comps_nonempty [simp]: "digest_comps d \<noteq> []"
  by (simp add: digest_comps_def)

lemma normal_hex: "s \<noteq> [] \<Longrightarrow> list_all hex_char s \<Longrightarrow> normal_comp s"
  by (cases s) (auto simp: normal_comp_def hex_char_def list_all_iff)

lemma digest_comps_normal: "sha256 d \<Longrightarrow> c \<in> set (digest_comps d) \<Longrightarrow> normal_comp c"
proof -
  assume d: "sha256 d" and c: "c \<in> set (digest_comps d)"
  have sub: "set c \<subseteq> set (drop 7 d)"
  proof -
    have "set (drop 8 d) \<subseteq> set (drop 7 d)" "set (drop 10 d) \<subseteq> set (drop 7 d)" "set (drop 12 d) \<subseteq> set (drop 7 d)"
      by (rule set_drop_subset_set_drop, simp)+
    moreover have "set c \<subseteq> set (drop 7 d) \<or> set c \<subseteq> set (drop 8 d) \<or> set c \<subseteq> set (drop 10 d) \<or> set c \<subseteq> set (drop 12 d)"
      using c by (auto simp: digest_comps_def dest: in_set_takeD)
    ultimately show ?thesis by blast
  qed
  have "c \<noteq> []" using c d by (auto simp: digest_comps_def sha256_def)
  then show ?thesis using sub d by (intro normal_hex) (auto simp: sha256_def list_all_iff)
qed

lemma digest_comps_inject: "sha256 d \<Longrightarrow> sha256 e \<Longrightarrow> digest_comps d = digest_comps e \<longleftrightarrow> d = e"
proof
  assume d: "sha256 d" "sha256 e" and eq: "digest_comps d = digest_comps e"
  have split: "x = take 7 x @ take 1 (drop 7 x) @ take 2 (drop 8 x) @ take 2 (drop 10 x) @ drop 12 x" for x :: string
  proof -
    have "take 1 (drop 7 x) @ take 2 (drop 8 x) @ take 2 (drop 10 x) @ drop 12 x = drop 7 x"
      using append_take_drop_id [of 1 "drop 7 x"] append_take_drop_id [of 2 "drop 8 x"] append_take_drop_id [of 2 "drop 10 x"] by simp
    then show ?thesis by simp
  qed
  show "d = e" using split [of d] split [of e] d eq by (simp add: digest_comps_def sha256_def)
qed simp

section \<open>Files of digests\<close>

lemma path_join_normal:
  assumes "cs \<noteq> []" "\<forall>c \<in> set cs. normal_comp c"
  shows "path_join cs = join_with [slash] cs"
proof -
  have "filter (\<lambda>e. e \<noteq> []) cs = cs" using assms(2) by (auto simp: filter_id_conv normal_comp_def)
  then show ?thesis using path_clean_join [OF assms] assms(1) by (cases cs) (simp_all add: path_join_def)
qed

lemma path_join_root:
  assumes "rs \<noteq> []" "cs \<noteq> []" "\<forall>c \<in> set (rs @ cs). normal_comp c"
  shows "path_join (abs_path rs # cs) = abs_path (rs @ cs)"
proof -
  have "filter (\<lambda>e. e \<noteq> []) (abs_path rs # cs) = abs_path rs # cs"
    using assms(3) by (auto simp: filter_id_conv normal_comp_def abs_path_def)
  moreover have "join_with [slash] (abs_path rs # cs) = abs_path (rs @ cs)"
    using assms(1,2) by (simp add: abs_path_def join_with_append neq_Nil_conv) (auto simp: join_with_append)
  ultimately show ?thesis using path_clean_abs [of "rs @ cs"] assms by (simp add: path_join_def)
qed

lemma slices:
  assumes "sha256 d"
  shows "slice 7 8 d = Inr (digest_comps d ! 0)" "slice 8 10 d = Inr (digest_comps d ! 1)"
    "slice 10 12 d = Inr (digest_comps d ! 2)" "slice 12 (length d) d = Inr (digest_comps d ! 3)"
  using assms by (simp_all add: slice_def sha256_def digest_comps_def)

lemma digest_comps_list: "[digest_comps d ! 0, digest_comps d ! 1, digest_comps d ! 2, digest_comps d ! 3] = digest_comps d"
  by (simp add: digest_comps_def)

lemma digest_base_dir_sha:
  assumes "sha256 d"
  shows "digest_base_dir d = Inr (join_with [slash] (take 3 (digest_comps d)))"
proof -
  have cs: "[digest_comps d ! 0, digest_comps d ! 1, digest_comps d ! 2] = take 3 (digest_comps d)" by (simp add: digest_comps_def)
  then show ?thesis
    using digest_comps_normal [OF assms] in_set_takeD [of _ 3 "digest_comps d"] path_join_normal [of "take 3 (digest_comps d)"]
    by (simp add: digest_base_dir_def slices [OF assms])
qed

lemma digest_path_sha:
  assumes "sha256 d"
  shows "digest_path d = Inr (join_with [slash] (digest_comps d))"
proof -
  have cs: "take 3 (digest_comps d) @ [digest_comps d ! 3] = digest_comps d" by (simp add: digest_comps_def)
  have "path_join [join_with [slash] (take 3 (digest_comps d)), digest_comps d ! 3] = join_with [slash] (digest_comps d)"
    using path_join_comps [of "take 3 (digest_comps d)" "digest_comps d ! 3"] digest_comps_normal [OF assms] unfolding cs by simp
  then show ?thesis by (simp add: digest_path_def digest_base_dir_sha [OF assms] slices [OF assms])
qed

lemma layer_directory_sha:
  assumes "sha256 h" "rs \<noteq> []" "\<forall>c \<in> set rs. normal_comp c"
  shows "layer_directory (abs_path rs) h = Inr (abs_path (rs @ ''layers'' # digest_comps h))"
proof -
  have "normal_comp ''layers''" by (simp add: normal_comp_def)
  then have "path_join (abs_path rs # ''layers'' # digest_comps h) = abs_path (rs @ ''layers'' # digest_comps h)"
    using assms digest_comps_normal [OF assms(1)] by (intro path_join_root) auto
  then show ?thesis by (simp add: layer_directory_def slices [OF assms(1)] digest_comps_list [simplified])
qed

end
