(* ===== verification/Convertor.thy ===== *)
theory Convertor
  imports Stargz_Writer Digest_Path
begin

text \<open>
  util/convertor.go: an image is converted to the format of Starlight by writing each of its layers as a stargz blob to a
  temporary file, in one goroutine for every entry of its history. The goroutines share only their slots and files; the
  model runs them one after another, in an order that is a parameter. Images of the registry, and what \<^verbatim>\<open>mutate\<close> builds from
  the converted layers, are parameters.
\<close>

section \<open>What the convertor reads\<close>

record history =
  hs_Author :: string
  hs_Created :: string
  hs_CreatedBy :: string
  hs_Comment :: string
  hs_EmptyLayer :: bool

record goreg_config =
  gc_DiffIDs :: "string list"
  gc_History :: "history list"
  gc_Other :: string

record source_layer =
  ly_Digest :: "string result"
  ly_Uncompressed :: "byte list result"

record source_image =
  im_ConfigFile :: "goreg_config result"
  im_Layers :: "source_layer list result"

section \<open>The layers it makes\<close>

text \<open>\<^verbatim>\<open>StarlightLayer\<close>; its reader is a section of the temporary file from the start, and the file stays on the disk.\<close>

record starlight_layer =
  sl_R :: string
  sl_Diff :: string
  sl_Hash :: string
  sl_SizeVal :: int

definition layer_Digest :: "starlight_layer \<Rightarrow> string result" where "layer_Digest l = Inr (sl_Hash l)"

definition layer_Size :: "starlight_layer \<Rightarrow> int result" where "layer_Size l = Inr (sl_SizeVal l)"

definition layer_DiffID :: "starlight_layer \<Rightarrow> string result" where "layer_DiffID l = Inr (sl_Diff l)"

definition layer_Compressed :: "disk \<Rightarrow> starlight_layer \<Rightarrow> byte list option" where
  "layer_Compressed d l = map_option (take (nat (sl_SizeVal l))) (file_at d (sl_R l))"

definition layer_Uncompressed :: "starlight_layer \<Rightarrow> byte list result" where
  "layer_Uncompressed l = Inl (Fail (Errorf ''unsupported''))"

record addendum =
  ad_Layer :: "starlight_layer option"
  ad_History :: history
  ad_Annotations :: "(string \<times> string) list"

definition zero_history :: history where
  "zero_history = \<lparr>hs_Author = [], hs_Created = [], hs_CreatedBy = [], hs_Comment = [], hs_EmptyLayer = False\<rparr>"

definition zero_addendum :: addendum where
  "zero_addendum = \<lparr>ad_Layer = None, ad_History = zero_history, ad_Annotations = []\<rparr>"

text \<open>
  The environment: the formats of the writer, \<^verbatim>\<open>NewHash\<close>, the clock for each entry, the temporary directory, and \<^verbatim>\<open>mutate\<close> on
  images \<open>'i\<close>: an image with a configuration, one with layers added, and its digest.
\<close>

record 'i convert_env =
  cv_writer :: writer_env
  cv_gunzip :: "byte list \<Rightarrow> byte list"
  cv_untar :: "byte list \<Rightarrow> (tar_header \<times> byte list) list \<times> go_error option"
  cv_NewHash :: "string \<Rightarrow> string result"
  cv_now :: "nat \<Rightarrow> string"
  cv_TempDir :: string
  cv_os :: os
  cv_ConfigFile :: "goreg_config \<Rightarrow> 'i result"
  cv_Append :: "'i \<Rightarrow> addendum list \<Rightarrow> 'i result"
  cv_Digest :: "'i \<Rightarrow> string result"

definition StarlightTOCDigestAnnotation :: string where
  "StarlightTOCDigestAnnotation = ''containerd.io/snapshot/remote/starlight/toc.digest''"

definition StarlightTOCCreationTimeAnnotation :: string where
  "StarlightTOCCreationTimeAnnotation = ''containerd.io/snapshot/remote/starlight/toc.timestamp''"

definition TOCJSONDigestAnnotation :: string where
  "TOCJSONDigestAnnotation = ''containerd.io/snapshot/stargz/toc.digest''"

definition temp_file :: "'i convert_env \<Rightarrow> nat \<Rightarrow> string \<Rightarrow> string" where
  "temp_file env idx d = path_join [cv_TempDir env, ''starlight-convert-'' @ itoa (int idx) @ ''-'' @ d @ ''.sll'']"

definition fileSectionReader :: "os \<Rightarrow> string \<Rightarrow> disk \<Rightarrow> (string \<times> int) result" where
  "fileSectionReader os f d =
     (case os ''stat'' f of Some e \<Rightarrow> Inl (Fail e) | None \<Rightarrow>
        (case file_at d f of None \<Rightarrow> Inl (Fail (ExtError ''ENOENT'')) | Some bs \<Rightarrow> Inr (f, int (length bs))))"

definition NewStarlightLayer :: "'i convert_env \<Rightarrow> string \<Rightarrow> stargz_writer \<Rightarrow> disk \<Rightarrow> starlight_layer result" where
  "NewStarlightLayer env f w d =
     (case cv_NewHash env (DiffID (cv_writer env) w) of Inl e \<Rightarrow> Inl e | Inr diff \<Rightarrow>
      (case cv_NewHash env (Digest (cv_writer env) w) of Inl e \<Rightarrow> Inl e | Inr h \<Rightarrow>
       (case fileSectionReader (cv_os env) f d of Inl e \<Rightarrow> Inl e | Inr (r, n) \<Rightarrow>
          Inr \<lparr>sl_R = r, sl_Diff = diff, sl_Hash = h, sl_SizeVal = n\<rparr>)))"

text \<open>The blob of a layer and the digest of its table of contents.\<close>

definition write_blob :: "'i convert_env \<Rightarrow> byte list \<Rightarrow> (string \<times> stargz_writer) result" where
  "write_blob env l = (case AppendTar (cv_writer env) (cv_gunzip env) (cv_untar env) l NewWriter of
     Inl e \<Rightarrow> Inl e | Inr w \<Rightarrow> Close (cv_writer env) w)"

definition layer_annotations :: "'i convert_env \<Rightarrow> nat \<Rightarrow> string \<Rightarrow> (string \<times> string) list" where
  "layer_annotations env idx tocDigest =
     [(StarlightTOCDigestAnnotation, tocDigest), (StarlightTOCCreationTimeAnnotation, cv_now env idx), (TOCJSONDigestAnnotation, tocDigest)]"

text \<open>The bytes of a blob that fails halfway are not kept in the model of its file.\<close>

definition toStarlightLayer :: "'i convert_env \<Rightarrow> source_layer list \<Rightarrow> nat \<Rightarrow> int \<Rightarrow> history
    \<Rightarrow> disk \<times> addendum list \<Rightarrow> (disk \<times> addendum list) \<times> unit result" where
  "toStarlightLayer env layers idx layerIdx h s =
     (case s of (d, adds) \<Rightarrow>
       if hs_EmptyLayer h then ((d, adds[idx := \<lparr>ad_Layer = None, ad_History = h, ad_Annotations = []\<rparr>]), Inr ())
       else (case at_index layers layerIdx of Inl e \<Rightarrow> (s, Inl e) | Inr layer \<Rightarrow>
        (case ly_Digest layer of Inl e \<Rightarrow> (s, Inl e) | Inr dg \<Rightarrow>
         (let fn = temp_file env idx dg
          in case Create (cv_os env) fn d of (d1, Some e) \<Rightarrow> ((d1, adds), Inl (Fail e)) | (d1, None) \<Rightarrow>
           (case ly_Uncompressed layer of Inl e \<Rightarrow> ((d1, adds), Inl e) | Inr l \<Rightarrow>
            (case write_blob env l of Inl e \<Rightarrow> ((d1, adds), Inl e) | Inr (tocDigest, w) \<Rightarrow>
             (let d2 = write_file_at fn (wr_out w) d1
              in case NewStarlightLayer env fn w d2 of Inl e \<Rightarrow> ((d2, adds), Inl e) | Inr sll \<Rightarrow>
                ((d2, adds[idx := \<lparr>ad_Layer = Some sll, ad_History = h, ad_Annotations = layer_annotations env idx tocDigest\<rparr>]), Inr ()))))))))"

section \<open>Converting an image\<close>

text \<open>The index of the layer of each entry of the history.\<close>

fun layer_map :: "history list \<Rightarrow> int \<Rightarrow> int list" where
  "layer_map [] cnt = []"
| "layer_map (h # hs) cnt = (if hs_EmptyLayer h then - 1 # layer_map hs cnt else cnt # layer_map hs (cnt + 1))"

text \<open>An \<^verbatim>\<open>errgroup\<close>: every goroutine runs, and the first error is returned; a panic ends the process.\<close>

fun run_group :: "('k \<Rightarrow> 's \<Rightarrow> 's \<times> unit result) \<Rightarrow> 'k list \<Rightarrow> 's \<Rightarrow> go_error option \<Rightarrow> 's \<times> unit result" where
  "run_group f [] s err = (s, case err of None \<Rightarrow> Inr () | Some e \<Rightarrow> Inl (Fail e))"
| "run_group f (k # ks) s err =
     (case f k s of
        (s1, Inl (Panic p)) \<Rightarrow> (s1, Inl (Panic p))
      | (s1, Inl (Fail e)) \<Rightarrow> run_group f ks s1 (if err = None then Some e else err)
      | (s1, Inr u) \<Rightarrow> run_group f ks s1 err)"

definition convert_layers :: "'i convert_env \<Rightarrow> nat list \<Rightarrow> source_layer list \<Rightarrow> history list \<Rightarrow> disk \<Rightarrow> (disk \<times> addendum list) \<times> unit result" where
  "convert_layers env order layers hist d =
     run_group (\<lambda>i. toStarlightLayer env layers i (layer_map hist 0 ! i) (hist ! i)) order (d, replicate (length hist) zero_addendum) None"

text \<open>\<open>order\<close> is the order in which the goroutines run. The history is read before the error of the configuration is looked at.\<close>

definition convertSingleImage :: "'i convert_env \<Rightarrow> nat list \<Rightarrow> source_image \<Rightarrow> disk \<Rightarrow> disk \<times> 'i result" where
  "convertSingleImage env order img d =
     (case im_ConfigFile img of
        Inl (Panic p) \<Rightarrow> (d, Inl (Panic p))
      | Inl (Fail e) \<Rightarrow> (d, Inl (Panic ''nil pointer dereference''))
      | Inr cfg \<Rightarrow>
       (case im_Layers img of Inl e \<Rightarrow> (d, Inl e) | Inr layers \<Rightarrow>
        (case convert_layers env order layers (gc_History cfg) d of
           ((d1, adds), Inl e) \<Rightarrow> (d1, Inl (wrap ''failed to convert the image to Starlight format'' e))
         | ((d1, adds), Inr u) \<Rightarrow>
            (case cv_ConfigFile env (cfg\<lparr>gc_DiffIDs := [], gc_History := []\<rparr>) of
               Inl e \<Rightarrow> (d1, Inl e) | Inr configured \<Rightarrow> (d1, cv_Append env configured adds)))))"

section \<open>Converting an index\<close>

record v1_platform =
  vp_Architecture :: string
  vp_OS :: string
  vp_OSVersion :: string
  vp_OSFeatures :: "string list"
  vp_Variant :: string

record platform =
  pf_Architecture :: string
  pf_OS :: string
  pf_OSVersion :: string
  pf_OSFeatures :: "string list"
  pf_Variant :: string
  pf_Features :: "string list"

record descriptor =
  ds_MediaType :: string
  ds_Size :: int
  ds_Digest :: string
  ds_URLs :: "string list"
  ds_Annotations :: "(string \<times> string) list"
  ds_Platform :: "platform option"

record source_index =
  ix_IndexManifest :: "descriptor list result"
  ix_Image :: "string \<Rightarrow> source_image result"

record remote_descriptor =
  rm_MediaType :: string
  rm_Image :: "source_image result"
  rm_ImageIndex :: "source_index result"

definition DockerManifestSchema2 :: string where
  "DockerManifestSchema2 = ''application/vnd.docker.distribution.manifest.v2+json''"

definition platform_of :: "v1_platform \<Rightarrow> platform" where
  "platform_of p = \<lparr>pf_Architecture = vp_Architecture p, pf_OS = vp_OS p, pf_OSVersion = vp_OSVersion p, pf_OSFeatures = vp_OSFeatures p,
     pf_Variant = vp_Variant p, pf_Features = vp_OSFeatures p\<rparr>"

fun parse_platforms :: "(string \<Rightarrow> v1_platform result) \<Rightarrow> string list \<Rightarrow> platform list result" where
  "parse_platforms parse [] = Inr []"
| "parse_platforms parse (p # ps) =
     (case parse p of Inl e \<Rightarrow> Inl (wrap ''failed to parse platform'' e)
      | Inr plt \<Rightarrow> (case parse_platforms parse ps of Inl e \<Rightarrow> Inl e | Inr plts \<Rightarrow> Inr (platform_of plt # plts)))"

text \<open>\<open>None\<close> is the request for all platforms.\<close>

definition requested_platforms :: "(string \<Rightarrow> v1_platform result) \<Rightarrow> string \<Rightarrow> platform list option result" where
  "requested_platforms parse ps =
     (if ps \<noteq> [] \<and> ps \<noteq> ''all'' then (case parse_platforms parse (split_on (CHR '','') ps) of Inl e \<Rightarrow> Inl e | Inr plts \<Rightarrow> Inr (Some plts))
      else Inr None)"

text \<open>A manifest without a platform panics when platforms are requested. \<open>equals\<close> is \<^verbatim>\<open>Platform.Equals\<close>.\<close>

definition hasPlatform :: "(platform \<Rightarrow> platform \<Rightarrow> bool) \<Rightarrow> platform list option \<Rightarrow> platform option \<Rightarrow> bool result" where
  "hasPlatform equals req p =
     (case req of None \<Rightarrow> Inr True
      | Some [] \<Rightarrow> Inr False
      | Some plts \<Rightarrow> (case p of None \<Rightarrow> Inl (Panic ''nil pointer dereference'') | Some q \<Rightarrow> Inr (list_ex (\<lambda>plt. equals plt q) plts)))"

definition convert_manifest :: "'i convert_env \<Rightarrow> (platform \<Rightarrow> platform \<Rightarrow> bool) \<Rightarrow> platform list option \<Rightarrow> source_index \<Rightarrow> nat list \<Rightarrow> descriptor
    \<Rightarrow> disk \<times> ('i \<times> descriptor) list \<Rightarrow> (disk \<times> ('i \<times> descriptor) list) \<times> unit result" where
  "convert_manifest env equals req idx order m s =
     (case s of (d, ret) \<Rightarrow>
       (case hasPlatform equals req (ds_Platform m) of Inl e \<Rightarrow> (s, Inl e) | Inr False \<Rightarrow> (s, Inr ()) | Inr True \<Rightarrow>
        (case ix_Image idx (ds_Digest m) of Inl e \<Rightarrow> (s, Inl e) | Inr img \<Rightarrow>
         (case convertSingleImage env order img d of
            (d1, Inl e) \<Rightarrow> ((d1, ret), Inl (wrap ''failed to convert image format'' e))
          | (d1, Inr slImg) \<Rightarrow>
             (case cv_Digest env slImg of Inl e \<Rightarrow> ((d1, ret), Inl e)
              | Inr h \<Rightarrow> ((d1, ret @ [(slImg, m\<lparr>ds_Digest := h\<rparr>)]), Inr ()))))))"

text \<open>
  The receiver: the references \<open>'r\<close> of the two images and the platforms. \<open>parse_src\<close> and \<open>parse_dst\<close> are \<^verbatim>\<open>name.ParseReference\<close> with
  the options of the two.
\<close>

record 'r convertor =
  cr_src :: 'r
  cr_dst :: 'r
  cr_platforms :: string

definition NewConvertor :: "(string \<Rightarrow> 'r result) \<Rightarrow> (string \<Rightarrow> 'r result) \<Rightarrow> string \<Rightarrow> string \<Rightarrow> string \<Rightarrow> 'r convertor result" where
  "NewConvertor parse_src parse_dst src dst ps =
     (case parse_src src of Inl e \<Rightarrow> Inl (wrap ''convertor failed to parse source image'' e) | Inr s \<Rightarrow>
      (case parse_dst dst of Inl e \<Rightarrow> Inl (wrap ''convertor failed to parse destination image'' e) | Inr t \<Rightarrow>
         Inr \<lparr>cr_src = s, cr_dst = t, cr_platforms = ps\<rparr>))"

definition readImageDescriptor :: "('r \<Rightarrow> remote_descriptor result) \<Rightarrow> 'r convertor \<Rightarrow> remote_descriptor result" where
  "readImageDescriptor get c = get (cr_src c)"

text \<open>What is pushed to the registry; \<open>push\<close> gives the error of it.\<close>

datatype 'i pushed = PushImage 'i | PushIndex "('i \<times> descriptor) list"

definition writeImage :: "('r \<Rightarrow> 'i pushed \<Rightarrow> go_error option) \<Rightarrow> 'r convertor \<Rightarrow> 'i \<Rightarrow> go_error option" where
  "writeImage push c img = push (cr_dst c) (PushImage img)"

definition writeImageIndex :: "('r \<Rightarrow> 'i pushed \<Rightarrow> go_error option) \<Rightarrow> 'r convertor \<Rightarrow> ('i \<times> descriptor) list \<Rightarrow> go_error option" where
  "writeImageIndex push c idx = push (cr_dst c) (PushIndex idx)"

text \<open>The result is what was pushed.\<close>

definition ToStarlightImage :: "'i convert_env \<Rightarrow> (string \<Rightarrow> v1_platform result) \<Rightarrow> (platform \<Rightarrow> platform \<Rightarrow> bool) \<Rightarrow> ('r \<Rightarrow> remote_descriptor result)
    \<Rightarrow> ('r \<Rightarrow> 'i pushed \<Rightarrow> go_error option) \<Rightarrow> nat list \<Rightarrow> (nat \<Rightarrow> nat list) \<Rightarrow> 'r convertor \<Rightarrow> disk \<Rightarrow> disk \<times> 'i pushed result" where
  "ToStarlightImage env parse equals get push order orders c d =
     (case requested_platforms parse (cr_platforms c) of Inl e \<Rightarrow> (d, Inl e) | Inr req \<Rightarrow>
      (case readImageDescriptor get c of Inl e \<Rightarrow> (d, Inl (wrap ''failed to read image'' e)) | Inr imgDesc \<Rightarrow>
       if rm_MediaType imgDesc = DockerManifestSchema2 then
         (case rm_Image imgDesc of Inl e \<Rightarrow> (d, Inl (wrap ''failed to read image'' e)) | Inr img \<Rightarrow>
          (case convertSingleImage env order img d of
             (d1, Inl e) \<Rightarrow> (d1, Inl (wrap ''failed to convert image format'' e))
           | (d1, Inr slImg) \<Rightarrow>
              (case cv_Digest env slImg of Inl e \<Rightarrow> (d1, Inl e) | Inr h \<Rightarrow>
               (case writeImage push c slImg of
                  Some e \<Rightarrow> (d1, Inl (Fail (Wrapf e ''failed to upload image''))) | None \<Rightarrow> (d1, Inr (PushImage slImg))))))
       else
         (case rm_ImageIndex imgDesc of Inl e \<Rightarrow> (d, Inl (wrap ''failed to read image index'' e)) | Inr idx \<Rightarrow>
          (case ix_IndexManifest idx of Inl e \<Rightarrow> (d, Inl (wrap ''failed to read index manifest'' e)) | Inr ms \<Rightarrow>
           (case run_group (\<lambda>k. convert_manifest env equals req idx (orders k) (ms ! k)) order (d, []) None of
              ((d1, ret), Inl e) \<Rightarrow> (d1, Inl (wrap ''failed to convert the OCI image to Starlight format'' e))
            | ((d1, ret), Inr u) \<Rightarrow>
               (case writeImageIndex push c ret of Some e \<Rightarrow> (d1, Inl (Fail e)) | None \<Rightarrow> (d1, Inr (PushIndex ret))))))))"

end
