(* ===== verification/Util.thy ===== *)
theory Util
  imports Local_Disk Delta_Protocol "HOL-Library.Word"
begin

text \<open>
  The helpers of util/: log levels, random identifiers, numbers as bytes, JSON files, writers that hash, and the search for the
  root of the project, which decides where the configuration is. The number formats are on words of their width.
\<close>

section \<open>Log levels\<close>

datatype log_level = FatalLevel | ErrorLevel | WarnLevel | InfoLevel | DebugLevel | TraceLevel

text \<open>\<^verbatim>\<open>strings.ToLower\<close> on ASCII.\<close>

definition to_lower :: "string \<Rightarrow> string" where
  "to_lower = map (\<lambda>c. if 65 \<le> (of_char c :: nat) \<and> (of_char c :: nat) \<le> 90 then char_of (of_char c + (32 :: nat)) else c)"

definition ConfigLoggerWithLevel :: "string \<Rightarrow> log_level" where
  "ConfigLoggerWithLevel level =
     (let l = to_lower level
      in if l = ''fatal'' then FatalLevel else if l = ''error'' then ErrorLevel else if l = ''warning'' then WarnLevel
         else if l = ''info'' then InfoLevel else if l = ''debug'' then DebugLevel else if l = ''trace'' then TraceLevel else InfoLevel)"

definition ConfigLogger :: log_level where "ConfigLogger = ConfigLoggerWithLevel ''info''"

section \<open>Random identifiers\<close>

definition letters :: string where
  "letters = ''abcdefghijklmnopqrstuvwxyzABCDEFGHIJKLMNOPQRSTUVWXYZ0123456789''"

text \<open>\<open>intn k n\<close> is the \<open>k\<close>-th call of \<^verbatim>\<open>rand.Intn(n)\<close>.\<close>

definition randSequence :: "(nat \<Rightarrow> nat \<Rightarrow> nat) \<Rightarrow> nat \<Rightarrow> string" where
  "randSequence intn n = map (\<lambda>i. letters ! intn i (length letters)) [0..<n]"

definition GetRandomId :: "(nat \<Rightarrow> nat \<Rightarrow> nat) \<Rightarrow> string \<Rightarrow> string" where
  "GetRandomId intn pre = pre @ ''-'' @ randSequence intn 10"

lemma GetRandomId_chars:
  assumes "\<And>i n. 0 < n \<Longrightarrow> intn i n < n"
  shows "length (GetRandomId intn pre) = length pre + 11" "set (GetRandomId intn pre) \<subseteq> set pre \<union> insert (CHR ''-'') (set letters)"
proof -
  show "length (GetRandomId intn pre) = length pre + 11" by (simp add: GetRandomId_def randSequence_def)
  have "letters ! intn i (length letters) \<in> set letters" for i
    by (rule nth_mem) (rule assms, simp add: letters_def)
  then show "set (GetRandomId intn pre) \<subseteq> set pre \<union> insert (CHR ''-'') (set letters)"
    by (auto simp: GetRandomId_def randSequence_def)
qed

section \<open>Numbers as bytes\<close>

definition PutBigEndian :: "nat \<Rightarrow> 'a::len word \<Rightarrow> byte list" where
  "PutBigEndian n v = map (\<lambda>i. ucast (drop_bit (8 * (n - 1 - i)) v)) [0..<n]"

text \<open>\<^verbatim>\<open>binary.BigEndian\<close> panics on too few bytes and ignores those that follow.\<close>

definition BigEndian :: "nat \<Rightarrow> byte list \<Rightarrow> 'a::len word result" where
  "BigEndian n bs = (if length bs < n then Inl (Panic ''index out of range'')
     else Inr (foldl (\<lambda>v b. push_bit 8 v + ucast b) 0 (take n bs)))"

definition Int32ToB :: "32 word \<Rightarrow> byte list" where "Int32ToB v = PutBigEndian 4 v"

definition Int64ToB :: "64 word \<Rightarrow> byte list" where "Int64ToB v = PutBigEndian 8 v"

definition BToInt32 :: "byte list \<Rightarrow> 32 word result" where "BToInt32 v = BigEndian 4 v"

definition BToInt64 :: "byte list \<Rightarrow> 64 word result" where "BToInt64 v = BigEndian 8 v"

text \<open>The first \<open>k\<close> of the \<open>n\<close> bytes are the number without its last bytes.\<close>

lemma PutBigEndian_prefix:
  fixes v :: "'a::len word"
  assumes "k \<le> n" "LENGTH('a) = 8 * n"
  shows "foldl (\<lambda>v b. push_bit 8 v + ucast b) 0 (take k (PutBigEndian n v)) = drop_bit (8 * (n - k)) v"
  using assms(1)
proof (induction k)
  case 0
  have "drop_bit (8 * n) v = 0" using drop_bit_word_beyond [of "8 * n"] assms(2) by simp
  then show ?case by simp
next
  case (Suc k)
  have nx: "take (Suc k) (PutBigEndian n v) = take k (PutBigEndian n v) @ [ucast (drop_bit (8 * (n - Suc k)) v)]"
    using Suc.prems by (simp add: take_Suc_conv_app_nth PutBigEndian_def)
  let ?w = "drop_bit (8 * (n - Suc k)) v"
  have "8 * (n - k) = 8 + 8 * (n - Suc k)" using Suc.prems by simp
  then have "drop_bit (8 * (n - k)) v = drop_bit 8 ?w" by (simp add: add.commute)
  then have fold: "foldl (\<lambda>v b. push_bit 8 v + ucast b) 0 (take k (PutBigEndian n v)) = drop_bit 8 ?w" using Suc by simp
  have "(ucast (ucast ?w :: byte) :: 'a word) = take_bit 8 ?w" by (rule bit_word_eqI) (auto simp: bit_simps)
  moreover have "push_bit 8 (drop_bit 8 ?w) + take_bit 8 ?w = ?w" by (rule bits_ident)
  ultimately show ?case unfolding nx foldl_append fold by simp
qed

lemma BToInt32_Int32ToB: "BToInt32 (Int32ToB v @ rest) = Inr v"
  using PutBigEndian_prefix [of 4 4 v] by (simp add: BToInt32_def Int32ToB_def BigEndian_def PutBigEndian_def)

lemma BToInt64_Int64ToB: "BToInt64 (Int64ToB v @ rest) = Inr v"
  using PutBigEndian_prefix [of 8 8 v] by (simp add: BToInt64_def Int64ToB_def BigEndian_def PutBigEndian_def)

section \<open>Writers and files\<close>

text \<open>\<^verbatim>\<open>DigestWriter\<close>: what was written to the writer below is hashed; \<open>w\<close> gives the number of bytes it takes and its error.\<close>

record digest_writer =
  dw_written :: "byte list"
  dw_digest :: "byte list"

definition NewDigestWriter :: digest_writer where "NewDigestWriter = \<lparr>dw_written = [], dw_digest = []\<rparr>"

definition DigestWriter_Write :: "(byte list \<Rightarrow> nat \<times> go_error option) \<Rightarrow> byte list \<Rightarrow> digest_writer \<Rightarrow> digest_writer \<times> nat \<times> go_error option" where
  "DigestWriter_Write w p d =
     (case w p of
        (n, Some e) \<Rightarrow> (d\<lparr>dw_written := dw_written d @ take n p\<rparr>, n, Some e)
      | (n, None) \<Rightarrow> (d\<lparr>dw_written := dw_written d @ take n p, dw_digest := dw_digest d @ p\<rparr>, length p, None))"

definition GetDigest :: "(byte list \<Rightarrow> string) \<Rightarrow> digest_writer \<Rightarrow> string" where "GetDigest hash d = hash (dw_digest d)"

text \<open>The file is opened without \<^verbatim>\<open>O_TRUNC\<close>: bytes of an old file that are beyond the new text stay.\<close>

definition ExportToJsonFile :: "os \<Rightarrow> byte list result \<Rightarrow> string \<Rightarrow> disk \<Rightarrow> disk \<times> unit result" where
  "ExportToJsonFile os json p d =
     (let old = (case file_at d p of None \<Rightarrow> [] | Some bs \<Rightarrow> bs);
          (d1, opened) = (if file_at d p = None then Create os p d else (d, os ''open'' p))
      in case opened of Some e \<Rightarrow> (d1, Inl (Fail e)) | None \<Rightarrow>
        (case json of Inl e \<Rightarrow> (d1, Inl e) | Inr buf \<Rightarrow>
          (case os ''write'' p of Some e \<Rightarrow> (d1, Inl (Fail e)) | None \<Rightarrow>
            (let d2 = d1\<lparr>dk_files := AList.update p (buf @ drop (length buf) old) (dk_files d1)\<rparr>
             in case os ''sync'' p of Some e \<Rightarrow> (d2, Inl (Fail e)) | None \<Rightarrow> (d2, Inr ())))))"

lemma ExportToJsonFile_leftover:
  assumes "ExportToJsonFile os (Inr buf) p d = (d', Inr ())" "file_at d p = Some old"
  shows "file_at d' p = Some (buf @ drop (length buf) old)"
  using assms by (auto simp: ExportToJsonFile_def Let_def file_at_def update_conv' split: option.splits)

definition VersionAction :: string where "VersionAction = ''starlight version '' @ Version"

section \<open>The root of the project\<close>

definition production :: bool where "production = False"

definition ProjectIdentifier :: string where "ProjectIdentifier = ''module github.com/mc256/starlight''"

text \<open>Whether the file \<^verbatim>\<open>go.mod\<close> of a directory starts with the identifier; a file that cannot be opened reads as zeros.\<close>

definition is_project_root :: "os \<Rightarrow> disk \<Rightarrow> string \<Rightarrow> bool" where
  "is_project_root os d p =
     (case ReadFile os (path_join [p, ''go.mod'']) d of Inl e \<Rightarrow> False | Inr bs \<Rightarrow>
        take (length ProjectIdentifier) (string_of bs) = ProjectIdentifier)"

text \<open>The loop need not end when the working directory is not an absolute path: \<^verbatim>\<open>..\<close> is followed by \<^verbatim>\<open>../..\<close>.\<close>

partial_function (option) find_root :: "os \<Rightarrow> disk \<Rightarrow> string \<Rightarrow> string \<Rightarrow> string option" where
  "find_root os d r p =
     (if p = [slash] \<or> p = [] then Some r
      else if is_project_root os d p then Some p
      else find_root os d r (path_join [p, ''../'']))"

declare find_root.simps [code]

definition FindProjectRoot :: "os \<Rightarrow> disk \<Rightarrow> string result \<Rightarrow> string option" where
  "FindProjectRoot os d wd = (case wd of Inl e \<Rightarrow> Some [] | Inr r \<Rightarrow> find_root os d r r)"

definition GetEtcConfigPath :: "os \<Rightarrow> disk \<Rightarrow> string result \<Rightarrow> string option" where
  "GetEtcConfigPath os d wd =
     (if production then Some ''/etc/starlight/''
      else map_option (\<lambda>root. path_join [root, ''sandbox'', ''etc'', ''starlight'']) (FindProjectRoot os d wd))"

text \<open>The parent of an absolute path.\<close>

lemma path_join_parent:
  assumes "\<forall>c \<in> set (cs @ [c]). normal_comp c"
  shows "path_join [abs_path (cs @ [c]), ''../''] = abs_path cs"
proof -
  let ?cs = "cs @ [c]"
  have "join_with [slash] [abs_path ?cs, ''../''] = slash # join_with [slash] (?cs @ [dotdot, []])"
    using join_with_append [of ?cs "[dotdot, []]"] by (simp add: abs_path_def)
  moreover have "split_on slash (join_with [slash] (?cs @ [dotdot, []])) = ?cs @ [dotdot, []]"
    by (rule split_join_slash) (use assms in \<open>auto simp: normal_comp_def\<close>)
  moreover have "clean_comps True (?cs @ [dotdot, []]) = cs"
    using assms foldl_clean_id [of ?cs True "[]"] by (simp add: clean_comps_def normal_comp_def)
  moreover have "abs_path ?cs \<noteq> []" by (simp add: abs_path_def)
  ultimately show ?thesis by (simp add: path_join_def path_clean_def abs_path_def)
qed

lemma find_root_abs:
  "\<forall>c \<in> set cs. normal_comp c \<Longrightarrow> find_root os d r (abs_path cs) =
     Some (case find (\<lambda>k. is_project_root os d (abs_path (take k cs))) (rev [1..<length cs + 1]) of Some k \<Rightarrow> abs_path (take k cs) | None \<Rightarrow> r)"
proof (induction cs rule: rev_induct)
  case Nil
  then show ?case by (subst find_root.simps) (simp add: abs_path_def)
next
  case (snoc c cs)
  let ?root = "is_project_root os d (abs_path (cs @ [c]))"
  have "normal_comp c" using snoc.prems by simp
  then have ne: "abs_path (cs @ [c]) \<noteq> [slash]" "abs_path (cs @ [c]) \<noteq> []"
    using hd_join_normal [of "cs @ [c]"] snoc.prems by (auto simp: abs_path_def)
  have step: "find_root os d r (abs_path (cs @ [c])) = (if ?root then Some (abs_path (cs @ [c])) else find_root os d r (abs_path cs))"
    by (subst find_root.simps) (simp add: ne path_join_parent [OF snoc.prems])
  have cong: "find (\<lambda>k. is_project_root os d (abs_path (take k (cs @ [c])))) (rev [1..<length cs + 1]) =
      find (\<lambda>k. is_project_root os d (abs_path (take k cs))) (rev [1..<length cs + 1])"
    by (rule find_cong) auto
  have le: "k \<le> length cs" if "find P (rev [1..<length cs + 1]) = Some k" for P k
    using find_SomeD [OF that] by auto
  have range: "rev [1..<length (cs @ [c]) + 1] = Suc (length cs) # rev [1..<length cs + 1]" by simp
  show ?case
  proof (cases ?root)
    case True
    then show ?thesis unfolding step range by simp
  next
    case False
    then have found: "find (\<lambda>k. is_project_root os d (abs_path (take k (cs @ [c])))) (rev [1..<length (cs @ [c]) + 1]) =
        find (\<lambda>k. is_project_root os d (abs_path (take k cs))) (rev [1..<length cs + 1])"
      unfolding range find.simps cong by simp
    have "\<forall>c \<in> set cs. normal_comp c" using snoc.prems by simp
    note IH = snoc.IH [OF this]
    have lhs: "find_root os d r (abs_path (cs @ [c])) = find_root os d r (abs_path cs)" unfolding step using False by (simp only: if_False)
    show ?thesis
    proof (cases "find (\<lambda>k. is_project_root os d (abs_path (take k cs))) (rev [1..<length cs + 1])")
      case None
      then show ?thesis unfolding lhs IH found by (simp only: option.case)
    next
      case (Some k)
      have "take k (cs @ [c]) = take k cs" using le [OF Some] by simp
      then show ?thesis unfolding lhs IH found Some by (simp only: option.case)
    qed
  qed
qed

text \<open>
  The search for the root of the project ends. From an absolute working directory it returns the nearest directory on the
  way to the root of the file system whose \<^verbatim>\<open>go.mod\<close> names the project, or the working directory when there is none.
\<close>

theorem FindProjectRoot_nearest:
  assumes "\<forall>c \<in> set cs. normal_comp c"
  shows "FindProjectRoot os d (Inr (abs_path cs)) =
     Some (case find (\<lambda>k. is_project_root os d (abs_path (take k cs))) (rev [1..<length cs + 1]) of Some k \<Rightarrow> abs_path (take k cs) | None \<Rightarrow> abs_path cs)"
  using find_root_abs [OF assms] by (simp add: FindProjectRoot_def)

definition project_disk :: disk where
  "project_disk = \<lparr>dk_files = [(''/src/go.mod'', bytes_of (ProjectIdentifier @ '' ''))], dk_dirs = [''/src'', ''/src/cmd'']\<rparr>"

theorem FindProjectRoot_nearest_witness: "FindProjectRoot (\<lambda>a p. None) project_disk (Inr ''/src/cmd'') = Some ''/src''"
proof -
  have "abs_path [''src'', ''cmd''] = ''/src/cmd''" by (simp add: abs_path_def)
  moreover have "path_join [''/src'', ''go.mod''] = ''/src/go.mod''" "path_join [''/src/cmd'', ''go.mod''] = ''/src/cmd/go.mod''" by code_simp+
  then have "is_project_root (\<lambda>a p. None) project_disk ''/src''" "\<not> is_project_root (\<lambda>a p. None) project_disk ''/src/cmd''"
    by (simp_all add: is_project_root_def ReadFile_def file_at_def project_disk_def string_of_bytes_of)
  ultimately show ?thesis
    using FindProjectRoot_nearest [of "[''src'', ''cmd'']" "\<lambda>a p. None" project_disk] by (simp add: abs_path_def normal_comp_def)
qed

end
