(* ===== verification/Cli.thy ===== *)
theory Cli
  imports Daemon_API Convertor Util
begin

text \<open>
  The commands of ctr-starlight (cmd/ctr-starlight). A command is a function of the flags and arguments, the services it calls, and
  their state \<open>'w\<close>; its result is the new state, the lines it prints, and the error it returns. The parser of the flags is a
  parameter, and the tables of the flags with their help texts are left out.
\<close>

section \<open>Flags, lines and services\<close>

record cli_context =
  cx_String :: "string \<Rightarrow> string"
  cx_Bool :: "string \<Rightarrow> bool"
  cx_Int :: "string \<Rightarrow> int"
  cx_StringSlice :: "string \<Rightarrow> string list"
  cx_Args :: "string list"

text \<open>\<^verbatim>\<open>Args().Get\<close>.\<close>

definition cx_arg :: "cli_context \<Rightarrow> nat \<Rightarrow> string" where
  "cx_arg cx n = (if n < length (cx_Args cx) then cx_Args cx ! n else [])"

text \<open>A printed line: its format and the values; \<open>SizeB\<close> is a size in the units of 1024, \<open>Percent\<close> a share of a number.\<close>

datatype cli_value = Txt string | Num int | Err go_error | SizeB int | Percent int int

datatype printed = Printf string "cli_value list"

type_synonym 'w action = "'w \<times> printed list \<times> unit result"

text \<open>The client of the daemon, \<^verbatim>\<open>pb.DaemonClient\<close>: what a call answers, or the error of the transport.\<close>

record optimizer_answer =
  oa_Success :: bool
  oa_Message :: string
  oa_Response :: optimize_response

record 'w daemon_client =
  pb_GetVersion :: "'w \<Rightarrow> 'w \<times> string result"
  pb_AddProxyProfile :: "auth_request \<Rightarrow> 'w \<Rightarrow> 'w \<times> api_answer result"
  pb_GetProxyProfiles :: "'w \<Rightarrow> 'w \<times> (string \<times> string \<times> string) list result"
  pb_PullImage :: "image_reference \<Rightarrow> 'w \<Rightarrow> 'w \<times> pull_response result"
  pb_SetOptimizer :: "bool \<Rightarrow> string \<Rightarrow> 'w \<Rightarrow> 'w \<times> optimizer_answer result"
  pb_ReportTraces :: "string \<Rightarrow> 'w \<Rightarrow> 'w \<times> api_answer result"
  pb_NotifyProxy :: "string \<Rightarrow> bool \<Rightarrow> string \<Rightarrow> 'w \<Rightarrow> 'w \<times> api_answer result"
  pb_PingTest :: "string \<Rightarrow> 'w \<Rightarrow> 'w \<times> (bool \<times> string \<times> int) result"

type_synonym 'w dial = "string \<Rightarrow> 'w daemon_client result"

text \<open>Most commands print that they cannot connect, and return no error.\<close>

definition with_daemon :: "'w dial \<Rightarrow> cli_context \<Rightarrow> ('w daemon_client \<Rightarrow> 'w action) \<Rightarrow> 'w \<Rightarrow> 'w action" where
  "with_daemon dial cx f w =
     (case dial (cx_String cx ''address'') of
        Inl (Panic p) \<Rightarrow> (w, [], Inl (Panic p))
      | Inl (Fail e) \<Rightarrow> (w, [Printf ''connect to starlight daemon failed: %v'' [Err e]], Inr ())
      | Inr d \<Rightarrow> f d)"

definition and_print :: "printed list \<Rightarrow> 'w action \<Rightarrow> 'w action" where
  "and_print ls a = (case a of (w, out, r) \<Rightarrow> (w, ls @ out, r))"

section \<open>version, add-proxy, list-proxy, test\<close>

definition getVersion :: "'w daemon_client \<Rightarrow> 'w \<Rightarrow> 'w \<times> string result" where
  "getVersion d w = pb_GetVersion d w"

definition version_Action :: "'w dial \<Rightarrow> cli_context \<Rightarrow> 'w \<Rightarrow> 'w action" where
  "version_Action dial cx w = and_print [Printf ''ctr-starlight %s'' [Txt Version]]
     (with_daemon dial cx (\<lambda>d. case getVersion d w of
          (w1, Inl (Panic p)) \<Rightarrow> (w1, [], Inl (Panic p))
        | (w1, Inl (Fail e)) \<Rightarrow> (w1, [Printf ''failed to obtain starlight daemon version: %v'' [Err e]], Inr ())
        | (w1, Inr v) \<Rightarrow> (w1, [Printf ''starlight-daemon %s'' [Txt v]], Inr ())) w)"

definition addProxyProfile :: "'w daemon_client \<Rightarrow> string \<Rightarrow> string \<Rightarrow> string \<Rightarrow> string \<Rightarrow> string \<Rightarrow> bool \<Rightarrow> 'w \<Rightarrow> 'w action" where
  "addProxyProfile d nam protocol address username password quiet w =
     (case pb_AddProxyProfile d \<lparr>aq_ProfileName = nam, aq_Protocol = protocol, aq_Address = address, aq_Username = username, aq_Password = password\<rparr> w of
        (w1, Inl e) \<Rightarrow> (w1, [], Inl e)
      | (w1, Inr (True, msg)) \<Rightarrow> (w1, if quiet then [] else [Printf ''proxy profile %s added'' [Txt nam]], Inr ())
      | (w1, Inr (False, msg)) \<Rightarrow> (w1, [Printf ''failed to add proxy profile %s: %s'' [Txt nam, Txt msg]], Inr ()))"

text \<open>\<open>scanln\<close> is the password that is typed.\<close>

definition addproxy_Action :: "'w dial \<Rightarrow> string result \<Rightarrow> cli_context \<Rightarrow> 'w \<Rightarrow> 'w action" where
  "addproxy_Action dial scanln cx w =
     with_daemon dial cx (\<lambda>d.
       if length (cx_Args cx) = 3 then
         addProxyProfile d (cx_arg cx 0) (cx_arg cx 1) (cx_arg cx 2) [] [] (cx_Bool cx ''quiet'') w
       else if length (cx_Args cx) = 4 then
         and_print [Printf ''password for %s: '' [Txt (cx_arg cx 3)]]
           (case scanln of Inl e \<Rightarrow> (w, [], Inl e)
            | Inr password \<Rightarrow> addProxyProfile d (cx_arg cx 0) (cx_arg cx 1) (cx_arg cx 2) (cx_arg cx 3) password (cx_Bool cx ''quiet'') w)
       else (w, [], Inl (Fail (Errorf ''invalid number of arguments'')))) w"

definition listProxyProfile :: "'w daemon_client \<Rightarrow> 'w \<Rightarrow> 'w action" where
  "listProxyProfile d w =
     (case pb_GetProxyProfiles d w of
        (w1, Inl e) \<Rightarrow> (w1, [], Inl (wrap ''failed to list proxy profiles'' e))
      | (w1, Inr ps) \<Rightarrow>
          (let maxLen = fold (\<lambda>(n, _, _) m. if m < length n then length n else m) ps 0
           in (w1, map (\<lambda>(n, proto, address). Printf ''%*s %s://%s'' [Num (int maxLen + 2), Txt (''['' @ n @ '']''), Txt proto, Txt address]) ps, Inr ())))"

definition listproxy_Action :: "'w dial \<Rightarrow> cli_context \<Rightarrow> 'w \<Rightarrow> 'w action" where
  "listproxy_Action dial cx w = with_daemon dial cx (\<lambda>d.
     if cx_Args cx \<noteq> [] then (w, [], Inl (Fail (Errorf ''invalid number of arguments''))) else listProxyProfile d w) w"

definition ping :: "'w daemon_client \<Rightarrow> string \<Rightarrow> bool \<Rightarrow> 'w \<Rightarrow> 'w action" where
  "ping d profile quiet w =
     (case pb_PingTest d profile w of
        (w1, Inl (Panic p)) \<Rightarrow> (w1, [], Inl (Panic p))
      | (w1, Inl (Fail e)) \<Rightarrow> (w1, [Printf ''network test failed: %v'' [Err e]], Inr ())
      | (w1, Inr (True, msg, latency)) \<Rightarrow>
          (w1, if quiet then [] else [Printf ''ping test success: %v'' [Txt msg], Printf ''latency: %d ms'' [Num latency]], Inr ())
      | (w1, Inr (False, msg, latency)) \<Rightarrow> (w1, [Printf ''network test failed: %v'' [Txt msg]], Inr ()))"

definition ping_Action :: "'w dial \<Rightarrow> cli_context \<Rightarrow> 'w \<Rightarrow> 'w action" where
  "ping_Action dial cx w =
     (if 1 < length (cx_Args cx) then (w, [], Inl (Fail (Errorf ''wrong number of arguments, expected container image reference'')))
      else with_daemon dial cx (\<lambda>d. ping d (cx_arg cx 0) (cx_Bool cx ''quiet'') w) w)"

section \<open>notify, optimizer, report\<close>

definition notify_daemon :: "'w daemon_client \<Rightarrow> string \<Rightarrow> bool \<Rightarrow> string \<Rightarrow> 'w \<Rightarrow> 'w action" where
  "notify_daemon d profile insecure reference w =
     (case pb_NotifyProxy d profile insecure reference w of
        (w1, Inl e) \<Rightarrow> (w1, [], Inl (wrap ''notify starlight proxy server failed'' e))
      | (w1, Inr (True, msg)) \<Rightarrow> (w1, [], Inr ())
      | (w1, Inr (False, msg)) \<Rightarrow> (w1, [], Inl (Fail (Errorf msg))))"

text \<open>The reference is a nil interface when it could not be parsed.\<close>

definition SharedAction :: "'w dial \<Rightarrow> cli_context \<Rightarrow> string option \<Rightarrow> 'w \<Rightarrow> 'w action" where
  "SharedAction dial cx reference w =
     (case dial (cx_String cx ''address'') of
        Inl e \<Rightarrow> (w, [], Inl (wrap ''failed to connect starlight daemon'' e))
      | Inr d \<Rightarrow>
         (case reference of None \<Rightarrow> (w, [], Inl (Panic ''nil pointer dereference''))
          | Some r \<Rightarrow> notify_daemon d (cx_String cx ''profile'') (cx_Bool cx ''insecure'' \<or> cx_Bool cx ''insecure-destination'') r w))"

text \<open>The error of \<^verbatim>\<open>ParseReference\<close> is not looked at.\<close>

definition notify_Action :: "'w dial \<Rightarrow> (string \<Rightarrow> string result) \<Rightarrow> cli_context \<Rightarrow> 'w \<Rightarrow> 'w action" where
  "notify_Action dial parse cx w =
     (if length (cx_Args cx) \<noteq> 1 then (w, [], Inl (Fail (Errorf ''wrong number of arguments, expected container image reference'')))
      else if cx_arg cx 0 = [] then (w, [], Inl (Fail (Errorf ''no image reference provided'')))
      else case parse (cx_arg cx 0) of
             Inl (Panic p) \<Rightarrow> (w, [], Inl (Panic p))
           | Inl (Fail e) \<Rightarrow> SharedAction dial cx None w
           | Inr r \<Rightarrow> SharedAction dial cx (Some r) w)"

definition optimizer :: "'w daemon_client \<Rightarrow> bool \<Rightarrow> string \<Rightarrow> bool \<Rightarrow> 'w \<Rightarrow> 'w action" where
  "optimizer d enable grp quiet w =
     (case pb_SetOptimizer d enable grp w of
        (w1, Inl e) \<Rightarrow> (w1, [], Inl (wrap ''set optimizer status failed'' e))
      | (w1, Inr a) \<Rightarrow>
          if oa_Success a then
            (w1, if quiet then [] else Printf ''set optimizer: %s'' [Txt (oa_Message a)] #
                 map (\<lambda>(k, v). Printf ''%s: %s - okay '' [Txt k, Txt v]) (or_Okay (oa_Response a)) @
                 map (\<lambda>(k, v). Printf ''%s: %v '' [Txt k, Txt v]) (or_Failed (oa_Response a)), Inr ())
          else (w1, [Printf ''set optimizer status failed: %s'' [Txt (oa_Message a)]], Inr ()))"

definition optimizer_Action :: "'w dial \<Rightarrow> cli_context \<Rightarrow> 'w \<Rightarrow> 'w action" where
  "optimizer_Action dial cx w =
     (if length (cx_Args cx) \<noteq> 1 then (w, [], Inl (Fail (Errorf (''wrong number of arguments, expected 1, got '' @ itoa (int (length (cx_Args cx)))))))
      else if cx_arg cx 0 \<noteq> ''on'' \<and> cx_arg cx 0 \<noteq> ''off'' then (w, [], Inl (Fail (Errorf (''operation should be '' @ [CHR 0x27] @ ''on'' @ [CHR 0x27] @ '' or '' @ [CHR 0x27] @ ''off'' @ [CHR 0x27]))))
      else with_daemon dial cx (\<lambda>d. optimizer d (cx_arg cx 0 = ''on'') (cx_String cx ''group'') (cx_Bool cx ''quiet'') w) w)"

definition report_traces :: "'w daemon_client \<Rightarrow> string \<Rightarrow> bool \<Rightarrow> 'w \<Rightarrow> 'w action" where
  "report_traces d profile quiet w =
     (case pb_ReportTraces d profile w of
        (w1, Inl e) \<Rightarrow> (w1, [], Inl (wrap ''report traces failed'' e))
      | (w1, Inr (True, msg)) \<Rightarrow> (w1, if quiet then [] else [Printf ''reported traces: %s'' [Txt msg]], Inr ())
      | (w1, Inr (False, msg)) \<Rightarrow> (w1, [Printf ''report traces failed: %s'' [Txt msg]], Inr ()))"

definition report_Action :: "'w dial \<Rightarrow> cli_context \<Rightarrow> 'w \<Rightarrow> 'w action" where
  "report_Action dial cx w = with_daemon dial cx (\<lambda>d. report_traces d (cx_String cx ''profile'') (cx_Bool cx ''quiet'') w) w"

section \<open>pull\<close>

text \<open>\<open>ms\<close> is the time the call took. A failed pull is printed, and is no error of the command.\<close>

definition cli_pullImage :: "int \<Rightarrow> 'w daemon_client \<Rightarrow> image_reference \<Rightarrow> bool \<Rightarrow> 'w \<Rightarrow> 'w action" where
  "cli_pullImage ms d ref quiet w =
     and_print (if ir_DisableEarlyStart ref then [Printf ''early start has been disabled, this may take a while'' []] else [])
       (case pb_PullImage d ref w of
          (w1, Inl e) \<Rightarrow> (w1, [], Inl (wrap ''pull image failed'' e))
        | (w1, Inr resp) \<Rightarrow>
            if pr_Success resp then
              (w1,
               if quiet then []
               else (if pr_Message resp = ''ok'' then
                       (if pr_BaseImage resp = [] then [Printf ''requested to pull image %s in %dms '' [Txt (ir_Reference ref), Num ms]]
                        else [Printf ''requested to pull image %s based on %s in %dms '' [Txt (ir_Reference ref), Txt (pr_BaseImage resp), Num ms]])
                     else [Printf ''%s'' [Txt (pr_Message resp)]]) @
                    (if - 1 < pr_TotalImageSize resp then
                       (let skipSize = pr_OriginalImageSize resp - pr_TotalImageSize resp
                        in [Printf ''delta image %.1f / original %.1f (skipped: %.1f = %.2f%%)''
                              [SizeB (pr_TotalImageSize resp), SizeB (pr_OriginalImageSize resp), SizeB skipSize,
                               Percent skipSize (pr_OriginalImageSize resp)]])
                     else []),
               Inr ())
            else (w1, [Printf ''pull image failed: %s'' [Txt (pr_Message resp)]], Inr ()))"

definition pull_Action :: "int \<Rightarrow> 'w dial \<Rightarrow> cli_context \<Rightarrow> 'w \<Rightarrow> 'w action" where
  "pull_Action ms dial cx w =
     (if length (cx_Args cx) \<noteq> 1 \<and> length (cx_Args cx) \<noteq> 2 then (w, [], Inl (Fail (Errorf (''wrong number of arguments, expected 1 or 2, got '' @ itoa (int (length (cx_Args cx)))))))
      else (let (base, ref) = (if length (cx_Args cx) = 1 then ([], cx_arg cx 0) else (cx_arg cx 0, cx_arg cx 1))
            in with_daemon dial cx (\<lambda>d. cli_pullImage ms d
                 \<lparr>ir_Base = base, ir_Reference = ref, ir_ProxyConfig = cx_String cx ''profile'', ir_Namespace = cx_String cx ''namespace'',
                  ir_DisableEarlyStart = cx_Bool cx ''disable-early-start''\<rparr> (cx_Bool cx ''quiet'') w) w))"

section \<open>convert\<close>

text \<open>
  \<open>parse insecure\<close> is \<^verbatim>\<open>name.ParseReference\<close>, \<open>run\<close> is \<open>ToStarlightImage\<close>, and \<open>show_ref\<close> the name of a reference. A failed conversion is
  logged, and is no error of the command.
\<close>

definition convert_Action :: "(bool \<Rightarrow> string \<Rightarrow> 'r result) \<Rightarrow> ('r convertor \<Rightarrow> 'w \<Rightarrow> 'w \<times> unit result) \<Rightarrow> ('r \<Rightarrow> string) \<Rightarrow> 'w dial \<Rightarrow> cli_context \<Rightarrow> 'w \<Rightarrow> 'w action" where
  "convert_Action parse run show_ref dial cx w =
     (if length (cx_Args cx) \<noteq> 2 then (w, [], Inl (Fail (Errorf ''wrong number of arguments'')))
      else case NewConvertor (parse (cx_Bool cx ''insecure-source'')) (parse (cx_Bool cx ''insecure-destination'')) (cx_arg cx 0) (cx_arg cx 1) (cx_String cx ''platform'') of
        Inl (Panic p) \<Rightarrow> (w, [], Inl (Panic p))
      | Inl (Fail e) \<Rightarrow> (w, [], Inr ())
      | Inr c \<Rightarrow>
         (case run c w of
            (w1, Inl (Panic p)) \<Rightarrow> (w1, [], Inl (Panic p))
          | (w1, Inl (Fail e)) \<Rightarrow> (w1, [], Inr ())
          | (w1, Inr u) \<Rightarrow>
              if cx_Bool cx ''notify'' then
                (case SharedAction dial cx (Some (show_ref (cr_dst c))) w1 of
                   (w2, out, Inl (Panic p)) \<Rightarrow> (w2, out, Inl (Panic p))
                 | (w2, out, Inl (Fail e)) \<Rightarrow>
                     (let flags = '' '' @ (if cx_Bool cx ''insecure-destination'' then ''--insecure '' else []) @
                            (if cx_String cx ''profile'' \<noteq> [] then ''--profile='' @ cx_String cx ''profile'' @ '' '' else [])
                      in (w2, out, Inl (Fail (Errorf (''fail to notify the converted image, try again using `ctr-starlight'' @ flags @ ''notify '' @ cx_arg cx 1 @ ''`'')))))
                 | (w2, out, Inr v) \<Rightarrow> (w2, out, Inr ()))
              else (w1, [], Inr ())))"

end
