(* ===== verification/Cli_Host.thy ===== *)
theory Cli_Host
  imports Cli Snapshotter
begin

text \<open>
  The commands of ctr-starlight that change the host: \<^verbatim>\<open>install\<close>, which registers the snapshotter in the configuration of
  containerd, and \<^verbatim>\<open>reset\<close>, which stops the services and removes their files.
\<close>

section \<open>reset\<close>

text \<open>What is done on the host: a command that is run, or a tree that is removed. Their failures are only logged.\<close>

datatype host_step = Exec "string list" | Remove string

definition terminateContainerd :: "host_step list" where
  "terminateContainerd = [Exec [''systemctl'', ''stop'', ''containerd''], Remove ''/var/lib/containerd'', Remove ''/run/containerd'',
     Exec [''pkill'', ''-9'', ''containerd'']]"

text \<open>
  \<open>readdir\<close> gives the names and whether they are directories, \<open>is_dir\<close> is \<^verbatim>\<open>os.Stat\<close>, \<open>fails\<close> tells that \<^verbatim>\<open>umount\<close> fails. The paths
  are made of the bare names of the entries.
\<close>

definition unmountFs :: "(string \<Rightarrow> (string \<times> bool) list option) \<Rightarrow> (string \<Rightarrow> bool) \<Rightarrow> (string \<Rightarrow> bool) \<Rightarrow> host_step list" where
  "unmountFs readdir is_dir fails =
     (case readdir ''/var/lib/starlight/sfs'' of None \<Rightarrow> []
      | Some files \<Rightarrow> concat (map (\<lambda>(f, dir).
          (let p = path_join [f, ''m'']
           in if dir \<and> is_dir p then Exec [''umount'', p] # (if fails p then [Exec [''umount'', ''-l'', p]] else []) else [])) files))"

definition terminateStarlight :: "host_step list" where
  "terminateStarlight = [Exec [''systemctl'', ''stop'', ''starlight''], Remove ''/var/lib/starlight'', Remove ''/run/starlight'',
     Exec [''pkill'', ''-9'', ''starlight-d'']]"

definition reset_Action :: "(string \<Rightarrow> (string \<times> bool) list option) \<Rightarrow> (string \<Rightarrow> bool) \<Rightarrow> (string \<Rightarrow> bool) \<Rightarrow> cli_context \<Rightarrow> host_step list" where
  "reset_Action readdir is_dir fails cx =
     (let all = cx_Bool cx ''all''
      in (if cx_Bool cx ''containerd'' \<or> all then terminateContainerd else []) @
         (if cx_Bool cx ''umount'' \<or> all then unmountFs readdir is_dir fails else []) @
         (if cx_Bool cx ''starlight'' \<or> all then terminateStarlight else []))"

lemma path_join_name:
  assumes "normal_comp f"
  shows "path_join [f, ''m''] = f @ ''/m''"
  using path_clean_join [of "[f, ''m'']"] assms by (simp add: path_join_def normal_comp_def)


definition reset_flags :: cli_context where
  "reset_flags = \<lparr>cx_String = (\<lambda>s. []), cx_Bool = (\<lambda>s. s = ''all''), cx_Int = (\<lambda>s. 0), cx_StringSlice = (\<lambda>s. []), cx_Args = []\<rparr>"


section \<open>install\<close>

text \<open>
  The configuration of containerd \<open>'c\<close> is TOML: \<open>te_SetProxyPlugin\<close> adds a plugin with its type and address, \<open>te_SetCNI\<close> sets a key of the table
  \<^verbatim>\<open>cni\<close> of the CRI plugin, where there is such a table.
\<close>

record 'c toml_env =
  te_Unmarshal :: "byte list \<Rightarrow> 'c result"
  te_SetProxyPlugin :: "string \<Rightarrow> string \<times> string \<Rightarrow> 'c \<Rightarrow> 'c"
  te_SetCNI :: "string \<Rightarrow> string \<Rightarrow> 'c \<Rightarrow> 'c option"
  te_Marshal :: "'c \<Rightarrow> byte list result"

definition appendStarlightConfiguartion :: "'c toml_env \<Rightarrow> string \<Rightarrow> byte list \<Rightarrow> byte list result" where
  "appendStarlightConfiguartion te socketAddress reader =
     (case te_Unmarshal te reader of Inl e \<Rightarrow> Inl e | Inr config \<Rightarrow>
       (case te_SetCNI te ''snapshotter'' ''starlight'' (te_SetProxyPlugin te ''starlight'' (''snapshot'', socketAddress) config) of
          None \<Rightarrow> Inl (Panic ''interface conversion'')
        | Some config2 \<Rightarrow> te_Marshal te config2))"

text \<open>\<open>Some True\<close> when there is something at the path, \<open>Some False\<close> when not; an error of another kind is \<open>os ''stat''\<close>.\<close>

definition Stat :: "os \<Rightarrow> string \<Rightarrow> disk \<Rightarrow> bool result" where
  "Stat os p d = (case os ''stat'' p of Some e \<Rightarrow> Inl (Fail e) | None \<Rightarrow> Inr (file_at d p \<noteq> None \<or> p \<in> set (dk_dirs d)))"

text \<open>The file of the default configuration; \<open>default_config\<close> is the output of \<^verbatim>\<open>containerd config default\<close>.\<close>

definition write_default :: "os \<Rightarrow> byte list result \<Rightarrow> string \<Rightarrow> disk \<Rightarrow> disk \<times> unit result" where
  "write_default os default_config configPath d =
     (case default_config of Inl e \<Rightarrow> (d, Inl (wrap ''generate default config file failed'' e)) | Inr buf \<Rightarrow>
       (case MkdirAll os (path_dir configPath) d of
          (d1, Some e) \<Rightarrow> (d1, Inl (Fail (Wrapf e ''create directory for config file failed'')))
        | (d1, None) \<Rightarrow>
           (case WriteFile os configPath buf d1 of
              (d2, Some e) \<Rightarrow> (d2, Inl (Fail (Wrapf e ''write default config file failed'')))
            | (d2, None) \<Rightarrow> (d2, Inr ()))))"

definition append_config :: "os \<Rightarrow> 'c toml_env \<Rightarrow> string \<Rightarrow> string \<Rightarrow> string \<Rightarrow> string \<Rightarrow> string \<Rightarrow> disk \<Rightarrow> disk \<times> unit result" where
  "append_config os te what what2 configPath outPath socketAddr d =
     (case ReadFile os configPath d of Inl e \<Rightarrow> (d, Inl (wrap ''open config file failed'' e)) | Inr reader \<Rightarrow>
       (case appendStarlightConfiguartion te socketAddr reader of Inl e \<Rightarrow> (d, Inl (wrap what e)) | Inr bytes \<Rightarrow>
         (case WriteFile os outPath bytes d of
            (d1, Some e) \<Rightarrow> (d1, Inl (Fail (Wrapf e what2)))
          | (d1, None) \<Rightarrow> (d1, Inr ()))))"

definition InstallWithContainerd :: "os \<Rightarrow> 'c toml_env \<Rightarrow> byte list result \<Rightarrow> string \<Rightarrow> string \<Rightarrow> disk \<Rightarrow> disk \<times> unit result" where
  "InstallWithContainerd os te default_config configPath socketAddr d =
     (case Stat os configPath d of
        Inl e \<Rightarrow> (d, Inl (wrap ''check config file exist failed (do we need root permission?)'' e))
      | Inr there \<Rightarrow>
         (case (if there then (d, Inr ()) else write_default os default_config configPath d) of
            (d1, Inl e) \<Rightarrow> (d1, Inl e)
          | (d1, Inr u) \<Rightarrow>
              append_config os te ''append starlight config to containerd config failed'' ''write config file failed'' configPath configPath socketAddr d1))"

text \<open>The errors of loading the configuration of the daemon are dropped; it is saved to its default path, not to \<open>config\<close>.\<close>

definition InstallWithK3s :: "os \<Rightarrow> 'c toml_env \<Rightarrow> config_json \<Rightarrow> string \<Rightarrow> string \<Rightarrow> string \<Rightarrow> string \<Rightarrow> string \<Rightarrow> string \<Rightarrow> disk \<Rightarrow> disk \<times> unit result" where
  "InstallWithK3s os te js etcPath uuid configPath configTemplatePath socketAddr config d =
     (case Stat os configPath d of
        Inl e \<Rightarrow> (d, Inl (wrap ''check config file exist failed, do we need root permission?'' e))
      | Inr False \<Rightarrow> (d, Inl (Fail (Wrapf (ExtError ''ENOENT'') ''cannot find k3s config file, do we need root permission? or have you install k3s?'')))
      | Inr True \<Rightarrow>
         (case append_config os te ''append starlight config to k3s config failed'' ''write config template file failed'' configPath configTemplatePath socketAddr d of
            (d1, Inl e) \<Rightarrow> (d1, Inl e)
          | (d1, Inr u) \<Rightarrow>
             (case client_LoadConfig os js etcPath uuid config d1 of (d2, cfg, p, n, err) \<Rightarrow>
               (case client_SaveConfig os js etcPath (cfg\<lparr>cf_Containerd := ''/run/k3s/containerd/containerd.sock''\<rparr>) d2 of
                  (d3, Inl e) \<Rightarrow> (d3, Inl (wrap ''update starlight config failed'' e))
                | (d3, Inr v) \<Rightarrow> (d3, Inr ())))))"

definition install_Action :: "os \<Rightarrow> 'c toml_env \<Rightarrow> config_json \<Rightarrow> string \<Rightarrow> string \<Rightarrow> byte list result \<Rightarrow> cli_context \<Rightarrow> disk \<Rightarrow> disk \<times> unit result" where
  "install_Action os te js etcPath uuid default_config cx d =
     (if cx_Bool cx ''k3s'' \<and> cx_Bool cx ''containerd'' then (d, Inl (Fail (Errorf ''you can only specify excatly one runtime either --k3s or --containerd'')))
      else if \<not> cx_Bool cx ''k3s'' \<and> \<not> cx_Bool cx ''containerd'' then (d, Inl (Fail (Errorf ''you must specify excatly one runtime either --k3s or --containerd'')))
      else if cx_Bool cx ''containerd'' then InstallWithContainerd os te default_config (cx_String cx ''containerd-config'') (cx_String cx ''starlight-socket'') d
      else InstallWithK3s os te js etcPath uuid (cx_String cx ''k3s-config'') (cx_String cx ''k3s-config-template'') (cx_String cx ''starlight-socket'')
             (cx_String cx ''starlight-config'') d)"

end
