(* ===== verification/Manager_Extract.thy ===== *)
theory Manager_Extract
  imports Manager
begin

text \<open>
  Correctness of \<^verbatim>\<open>Extract\<close>: the bytes of every content end up in its file, the signal of a content is closed only
  when its file is complete, also while the file system is used in between, and extracting succeeds on a body that
  can be read.
\<close>

section \<open>What extracting leaves\<close>

text \<open>The file of a content, and the bytes that its chunks give, read from the start of a body.\<close>

definition content_file :: "manager \<Rightarrow> rcontent \<Rightarrow> string result" where
  "content_file m c =
     (case GetPathByStack m (rc_Stack c) of Inl e \<Rightarrow> Inl e | Inr dir \<Rightarrow>
      (case Content_GetPath c of Inl e \<Rightarrow> Inl e | Inr pp \<Rightarrow> Inr (path_join [dir, pp])))"

definition chunk_data :: "gunzip \<Rightarrow> file_chunk \<Rightarrow> byte list \<Rightarrow> byte list" where
  "chunk_data gz ch b =
     (case gz (take (nat (fc_CompressedSize ch)) b) of Inl e \<Rightarrow> [] | Inr zs \<Rightarrow> take (nat (fc_ChunkSize ch)) (fst zs))"

fun chunks_data :: "gunzip \<Rightarrow> file_chunk list \<Rightarrow> byte list \<Rightarrow> byte list" where
  "chunks_data gz [] b = []"
| "chunks_data gz (ch # chs) b = chunk_data gz ch b @ chunks_data gz chs (drop (nat (fc_CompressedSize ch)) b)"

text \<open>The chunks can be read: their bytes are there and hold what the chunk says.\<close>

fun chunks_readable :: "gunzip \<Rightarrow> file_chunk list \<Rightarrow> byte list \<Rightarrow> bool" where
  "chunks_readable gz [] b \<longleftrightarrow> True"
| "chunks_readable gz (ch # chs) b \<longleftrightarrow>
     0 \<le> fc_CompressedSize ch \<and> fc_CompressedSize ch \<le> int (length b) \<and>
     (case gz (take (nat (fc_CompressedSize ch)) b) of Inl e \<Rightarrow> False | Inr zs \<Rightarrow> fc_ChunkSize ch \<le> int (length (fst zs))) \<and>
     chunks_readable gz chs (drop (nat (fc_CompressedSize ch)) b)"

lemma extract_chunk_None:
  "extract_chunk os gz path ch p = (p', None) \<longleftrightarrow>
     (\<exists>zs. 0 \<le> fc_CompressedSize ch \<and> fc_CompressedSize ch \<le> int (length (fst (pl_stream p))) \<and>
       gz (take (nat (fc_CompressedSize ch)) (fst (pl_stream p))) = Inr zs \<and> os ''write'' path = None \<and>
       fc_ChunkSize ch \<le> int (length (fst zs)) \<and>
       p' = p\<lparr>pl_stream := (drop (nat (fc_CompressedSize ch)) (fst (pl_stream p)), snd (pl_stream p)),
              pl_disk := write_file_at path (chunk_data gz ch (fst (pl_stream p))) (pl_disk p)\<rparr>)"
  unfolding extract_chunk_def CopyN_def chunk_data_def
  by (auto split: sum.splits option.splits if_splits)

lemma extract_chunks_None:
  assumes "extract_chunks os gz path chs p = (p', None)" "file_at (pl_disk p) path = Some old"
  shows "chunks_readable gz chs (fst (pl_stream p)) \<and> pl_manager p' = pl_manager p \<and>
    file_at (pl_disk p') path = Some (old @ chunks_data gz chs (fst (pl_stream p))) \<and>
    (\<forall>q. q \<noteq> path \<longrightarrow> file_at (pl_disk p') q = file_at (pl_disk p) q) \<and> dk_dirs (pl_disk p') = dk_dirs (pl_disk p) \<and>
    pl_stream p' = (drop (nat (sum_list (map fc_CompressedSize chs))) (fst (pl_stream p)), snd (pl_stream p)) \<and>
    0 \<le> sum_list (map fc_CompressedSize chs)"
  using assms
proof (induction chs arbitrary: p old)
  case Nil
  then show ?case by simp
next
  case (Cons ch chs)
  from Cons.prems(1) obtain p1 where p1: "extract_chunk os gz path ch p = (p1, None)"
    and rest: "extract_chunks os gz path chs p1 = (p', None)"
    by (auto split: prod.splits option.splits)
  from p1 obtain zs where zs: "0 \<le> fc_CompressedSize ch" "fc_CompressedSize ch \<le> int (length (fst (pl_stream p)))"
      "gz (take (nat (fc_CompressedSize ch)) (fst (pl_stream p))) = Inr zs" "fc_ChunkSize ch \<le> int (length (fst zs))"
    and eq: "p1 = p\<lparr>pl_stream := (drop (nat (fc_CompressedSize ch)) (fst (pl_stream p)), snd (pl_stream p)),
              pl_disk := write_file_at path (chunk_data gz ch (fst (pl_stream p))) (pl_disk p)\<rparr>"
    unfolding extract_chunk_None by blast
  have "file_at (pl_disk p1) path = Some (old @ chunk_data gz ch (fst (pl_stream p)))" using Cons.prems(2) by (simp add: eq)
  from Cons.IH [OF rest this] show ?case using zs by (simp add: eq nat_add_distrib add.commute)
qed

lemma extract_chunks_run:
  assumes "chunks_readable gz chs (fst (pl_stream p))" "os ''write'' path = None"
  shows "\<exists>p'. extract_chunks os gz path chs p = (p', None)"
  using assms
proof (induction chs arbitrary: p)
  case (Cons ch chs)
  let ?p1 = "p\<lparr>pl_stream := (drop (nat (fc_CompressedSize ch)) (fst (pl_stream p)), snd (pl_stream p)),
              pl_disk := write_file_at path (chunk_data gz ch (fst (pl_stream p))) (pl_disk p)\<rparr>"
  have "extract_chunk os gz path ch p = (?p1, None)"
    using Cons.prems unfolding extract_chunk_None by (auto split: sum.splits)
  moreover have "\<exists>p'. extract_chunks os gz path chs ?p1 = (p', None)" using Cons.prems by (intro Cons.IH) auto
  ultimately show ?case by auto
qed simp

lemma open_content_Inr:
  assumes "open_content os c p = (p', Inr path)"
  shows "content_file (pl_manager p) c = Inr path \<and> pl_manager p' = pl_manager p \<and> pl_stream p' = pl_stream p \<and>
    file_at (pl_disk p') path = Some [] \<and> (\<forall>q. q \<noteq> path \<longrightarrow> file_at (pl_disk p') q = file_at (pl_disk p) q) \<and>
    set (dk_dirs (pl_disk p)) \<subseteq> set (dk_dirs (pl_disk p'))"
proof -
  obtain dir base d1 pp d2 where dir: "GetPathByStack (pl_manager p) (rc_Stack c) = Inr dir" and base: "Content_GetBaseDir c = Inr base"
    and mk: "MkdirAll os (path_join [dir, base]) (pl_disk p) = (d1, None)" and pp: "Content_GetPath c = Inr pp"
    and cr: "Create os (path_join [dir, pp]) d1 = (d2, None)" and eq: "p' = p\<lparr>pl_disk := d2\<rparr>" "path = path_join [dir, pp]"
    using assms by (auto simp: open_content_def split: sum.splits prod.splits option.splits)
  show ?thesis
    using MkdirAll_Some [OF mk] Create_files [OF cr] Create_dirs [OF cr] by (simp add: content_file_def dir pp eq)
qed

text \<open>Closing a signal changes nothing else.\<close>

definition is_closed :: "manager \<Rightarrow> nat \<Rightarrow> bool" where
  "is_closed m i \<longleftrightarrow> rc_Signal (mg_contents m ! i) = ClosedChan"

definition close_content :: "nat \<Rightarrow> manager \<Rightarrow> manager" where
  "close_content i m = m\<lparr>mg_bundle := (mg_bundle m)\<lparr>rb_Contents := (mg_contents m)[i := (mg_contents m ! i)\<lparr>rc_Signal := ClosedChan\<rparr>]\<rparr>\<rparr>"

lemma close_signal_None:
  "close_signal i p = (p', None) \<longleftrightarrow> rc_Signal (mg_contents (pl_manager p) ! i) = OpenChan \<and> p' = p\<lparr>pl_manager := close_content i (pl_manager p)\<rparr>"
  by (auto simp: close_signal_def close_content_def Let_def split: signal.splits)

lemma close_content_simps [simp]:
  "length (mg_contents (close_content i m)) = length (mg_contents m)"
  "mg_stackSerialMap (close_content i m) = mg_stackSerialMap m" "mg_layers (close_content i m) = mg_layers m"
  "mg_completedStack (close_content i m) = mg_completedStack m" "mg_files (close_content i m) = mg_files m"
  "mg_fileLookUpMap (close_content i m) = mg_fileLookUpMap m" "mg_dest_layers (close_content i m) = mg_dest_layers m"
  by (simp_all add: close_content_def)

definition same_content :: "rcontent \<Rightarrow> rcontent \<Rightarrow> bool" where
  "same_content c c' \<longleftrightarrow> rc_Stack c' = rc_Stack c \<and> rc_Digest c' = rc_Digest c \<and> rc_Chunks c' = rc_Chunks c \<and>
     rc_Offset c' = rc_Offset c \<and> rc_Size c' = rc_Size c"

lemma close_content_nth:
  "same_content (mg_contents m ! j) (mg_contents (close_content i m) ! j)"
  "i < length (mg_contents m) \<Longrightarrow> is_closed (close_content i m) j \<longleftrightarrow> j = i \<or> is_closed m j"
proof -
  show "same_content (mg_contents m ! j) (mg_contents (close_content i m) ! j)"
    by (cases "j = i"; cases "i < length (mg_contents m)") (simp_all add: close_content_def same_content_def not_less list_update_beyond)
  show "i < length (mg_contents m) \<Longrightarrow> is_closed (close_content i m) j \<longleftrightarrow> j = i \<or> is_closed m j"
    by (cases "j = i") (simp_all add: close_content_def is_closed_def)
qed

lemma chunks_data_append:
  "chunks_readable gz chs b \<Longrightarrow>
     chunks_data gz (chs @ chs') b = chunks_data gz chs b @ chunks_data gz chs' (drop (nat (sum_list (map fc_CompressedSize chs))) b) \<and>
     (chunks_readable gz (chs @ chs') b \<longleftrightarrow> chunks_readable gz chs' (drop (nat (sum_list (map fc_CompressedSize chs))) b)) \<and>
     0 \<le> sum_list (map fc_CompressedSize chs)"
  by (induction chs arbitrary: b) (auto simp: nat_add_distrib add.commute)

text \<open>
  Extracting as a machine whose steps may interleave with the calls of the file system: at a content, in the middle of
  one with the chunks that are left, completing the layers, and stopped.
\<close>

datatype extract_pc = At nat | Writing nat string "file_chunk list" | Completing nat | Stopped

inductive extract_step :: "os \<Rightarrow> gunzip \<Rightarrow> byte list \<Rightarrow> extract_pc \<times> pull \<Rightarrow> extract_pc \<times> pull \<Rightarrow> bool"
  for os gz msg where
  skip: "i < length (mg_contents (pl_manager p)) \<Longrightarrow> c = mg_contents (pl_manager p) ! i \<Longrightarrow> ignoreStack (pl_manager p) (rc_Stack c) = Inr True \<Longrightarrow>
    skip_content c p = (p', None) \<Longrightarrow> extract_step os gz msg (At i, p) (At (i + 1), p')"
| skip_stop: "i < length (mg_contents (pl_manager p)) \<Longrightarrow> c = mg_contents (pl_manager p) ! i \<Longrightarrow> skip_content c p = (p', Some r) \<Longrightarrow>
    extract_step os gz msg (At i, p) (Stopped, p')"
| opens: "i < length (mg_contents (pl_manager p)) \<Longrightarrow> c = mg_contents (pl_manager p) ! i \<Longrightarrow> ignoreStack (pl_manager p) (rc_Stack c) = Inr False \<Longrightarrow>
    open_content os c p = (p', Inr path) \<Longrightarrow> extract_step os gz msg (At i, p) (Writing i path (rc_Chunks c), p')"
| open_stop: "i < length (mg_contents (pl_manager p)) \<Longrightarrow> c = mg_contents (pl_manager p) ! i \<Longrightarrow> open_content os c p = (p', Inl e) \<Longrightarrow>
    extract_step os gz msg (At i, p) (Stopped, p')"
| chunk: "extract_chunk os gz path ch p = (p', None) \<Longrightarrow> extract_step os gz msg (Writing i path (ch # chs), p) (Writing i path chs, p')"
| chunk_stop: "extract_chunk os gz path ch p = (p', Some r) \<Longrightarrow> extract_step os gz msg (Writing i path (ch # chs), p) (Stopped, p')"
| closes: "close_signal i p = (p', None) \<Longrightarrow> extract_step os gz msg (Writing i path [], p) (At (i + 1), p')"
| close_stop: "close_signal i p = (p', Some r) \<Longrightarrow> extract_step os gz msg (Writing i path [], p) (Stopped, p')"
| contents_done: "i = length (mg_contents (pl_manager p)) \<Longrightarrow> extract_step os gz msg (At i, p) (Completing 0, p)"
| layer: "k < length (mg_dest_layers (pl_manager p)) \<Longrightarrow> complete_layers os msg k [mg_dest_layers (pl_manager p) ! k] p = (p', Inr ()) \<Longrightarrow>
    extract_step os gz msg (Completing k, p) (Completing (k + 1), p')"
| layer_stop: "k < length (mg_dest_layers (pl_manager p)) \<Longrightarrow> complete_layers os msg k [mg_dest_layers (pl_manager p) ! k] p = (p', Inl e) \<Longrightarrow>
    extract_step os gz msg (Completing k, p) (Stopped, p')"

inductive_cases extract_stepE: "extract_step os gz msg s s'"

definition extract_reachable :: "os \<Rightarrow> gunzip \<Rightarrow> byte list \<Rightarrow> pull \<Rightarrow> extract_pc \<times> pull \<Rightarrow> bool" where
  "extract_reachable os gz msg p0 s \<longleftrightarrow> (extract_step os gz msg)\<^sup>*\<^sup>* (At 0, p0) s"

section \<open>The invariant of extracting\<close>

definition body_offset :: "manager \<Rightarrow> nat \<Rightarrow> nat" where
  "body_offset m i = sum_list (map (\<lambda>c. nat (total_compressed c)) (take i (mg_contents m)))"

lemma body_offset_Suc: "i < length (mg_contents m) \<Longrightarrow> body_offset m (Suc i) = body_offset m i + nat (total_compressed (mg_contents m ! i))"
  by (simp add: body_offset_def take_Suc_conv_app_nth)

text \<open>The files that extracting writes are different, also from the marks of the layers.\<close>

definition mark_file :: "rlayer \<Rightarrow> string" where
  "mark_file l = path_join [rl_Local l, ''completed.json'']"

definition files_apart :: "manager \<Rightarrow> bool" where
  "files_apart m \<longleftrightarrow>
     (\<forall>i < length (mg_contents m). \<forall>j < length (mg_contents m). i \<noteq> j \<longrightarrow>
        (\<forall>p. content_file m (mg_contents m ! i) = Inr p \<longrightarrow> content_file m (mg_contents m ! j) \<noteq> Inr p)) \<and>
     (\<forall>i < length (mg_contents m). \<forall>l \<in> set (mg_dest_layers m). content_file m (mg_contents m ! i) \<noteq> Inr (mark_file l))"

definition same_manager :: "manager \<Rightarrow> manager \<Rightarrow> bool" where
  "same_manager m m' \<longleftrightarrow> length (mg_contents m') = length (mg_contents m) \<and>
     (\<forall>j < length (mg_contents m). same_content (mg_contents m ! j) (mg_contents m' ! j)) \<and>
     mg_stackSerialMap m' = mg_stackSerialMap m \<and> mg_layers m' = mg_layers m \<and> mg_files m' = mg_files m \<and>
     mg_fileLookUpMap m' = mg_fileLookUpMap m \<and> mg_dest_layers m' = mg_dest_layers m"

lemma same_manager_refl [simp]: "same_manager m m"
  by (simp add: same_manager_def same_content_def)

lemma same_manager_close: "same_manager m m' \<Longrightarrow> same_manager m (close_content i m')"
  unfolding same_manager_def using close_content_nth(1) [of m'] by (auto simp: same_content_def)

lemma same_manager_complete: "same_manager m m' \<Longrightarrow> same_manager m (m'\<lparr>mg_completedStack := cs\<rparr>)"
  by (simp add: same_manager_def)

lemma same_content_file:
  "same_manager m m' \<Longrightarrow> j < length (mg_contents m) \<Longrightarrow> content_file m' (mg_contents m' ! j) = content_file m (mg_contents m ! j)"
proof -
  assume m: "same_manager m m'" and j: "j < length (mg_contents m)"
  have "GetPathBySerial m' = GetPathBySerial m" using m by (intro ext) (simp add: GetPathBySerial_def same_manager_def)
  then show ?thesis using m j
    by (simp add: content_file_def GetPathByStack_def Content_GetPath_def same_manager_def same_content_def cong: sum.case_cong)
qed

definition content_data :: "gunzip \<Rightarrow> manager \<Rightarrow> byte list \<Rightarrow> nat \<Rightarrow> byte list" where
  "content_data gz m body i = chunks_data gz (rc_Chunks (mg_contents m ! i)) (drop (body_offset m i) body)"

definition content_stored :: "gunzip \<Rightarrow> manager \<Rightarrow> byte list \<Rightarrow> nat \<Rightarrow> disk \<Rightarrow> bool" where
  "content_stored gz m body i d \<longleftrightarrow>
     (\<exists>path. content_file m (mg_contents m ! i) = Inr path \<and> file_at d path = Some (content_data gz m body i)) \<and>
     chunks_readable gz (rc_Chunks (mg_contents m ! i)) (drop (body_offset m i) body)"

fun at_pc :: "gunzip \<Rightarrow> manager \<Rightarrow> byte list \<Rightarrow> extract_pc \<Rightarrow> pull \<Rightarrow> bool" where
  "at_pc gz m body (At i) p \<longleftrightarrow> i \<le> length (mg_contents m) \<and> fst (pl_stream p) = drop (body_offset m i) body \<and>
     (\<forall>j < length (mg_contents m). i \<le> j \<longrightarrow> \<not> is_closed (pl_manager p) j)"
| "at_pc gz m body (Writing i path chs) p \<longleftrightarrow> i < length (mg_contents m) \<and> content_file m (mg_contents m ! i) = Inr path \<and>
     (\<exists>fin. rc_Chunks (mg_contents m ! i) = fin @ chs \<and> chunks_readable gz fin (drop (body_offset m i) body) \<and>
        file_at (pl_disk p) path = Some (chunks_data gz fin (drop (body_offset m i) body)) \<and>
        fst (pl_stream p) = drop (body_offset m i + nat (sum_list (map fc_CompressedSize fin))) body) \<and>
     (\<forall>j < length (mg_contents m). i \<le> j \<longrightarrow> \<not> is_closed (pl_manager p) j)"
| "at_pc gz m body (Completing k) p \<longleftrightarrow> True"
| "at_pc gz m body Stopped p \<longleftrightarrow> True"

definition extract_inv :: "gunzip \<Rightarrow> manager \<Rightarrow> byte list \<Rightarrow> extract_pc \<times> pull \<Rightarrow> bool" where
  "extract_inv gz m body s \<longleftrightarrow> same_manager m (pl_manager (snd s)) \<and>
     (\<forall>j < length (mg_contents m). is_closed (pl_manager (snd s)) j \<longrightarrow> content_stored gz m body j (pl_disk (snd s))) \<and>
     at_pc gz m body (fst s) (snd s)"

lemma skip_content_frame: "skip_content c p = (p', r) \<Longrightarrow> pl_manager p' = pl_manager p \<and> pl_disk p' = pl_disk p"
  by (auto simp: skip_content_def split: prod.splits)

lemma skip_content_None:
  "skip_content c p = (p', None) \<Longrightarrow> pl_stream p' = (drop (nat (total_compressed c)) (fst (pl_stream p)), snd (pl_stream p))"
  by (auto simp: skip_content_def CopyN_def split: if_splits)

lemma open_content_Inl: "open_content os c p = (p', Inl e) \<Longrightarrow> pl_manager p' = pl_manager p \<and> file_at (pl_disk p') q = file_at (pl_disk p) q"
proof -
  have create: "Create os path d = (d', Some e') \<Longrightarrow> d' = d" for path d d' e'
    by (auto simp: Create_def split: option.splits if_splits)
  assume "open_content os c p = (p', Inl e)"
  then show ?thesis
    by (auto simp: open_content_def dest!: create dest: MkdirAll_Some split: sum.splits prod.splits option.splits)
qed

lemma extract_chunk_frame:
  "extract_chunk os gz path ch p = (p', r) \<Longrightarrow> pl_manager p' = pl_manager p \<and> (q \<noteq> path \<longrightarrow> file_at (pl_disk p') q = file_at (pl_disk p) q)"
  by (auto simp: extract_chunk_def split: prod.splits option.splits sum.splits if_splits)

lemma close_signal_Some: "close_signal i p = (p', Some r) \<Longrightarrow> p' = p"
  by (auto simp: close_signal_def Let_def split: signal.splits)

lemma complete_layer_frame:
  "complete_layers os msg k [l] p = (p', r) \<Longrightarrow>
     (\<exists>cs. pl_manager p' = (pl_manager p)\<lparr>mg_completedStack := cs\<rparr>) \<and> pl_stream p' = pl_stream p \<and>
     (q \<noteq> mark_file l \<longrightarrow> file_at (pl_disk p') q = file_at (pl_disk p) q)"
  by (auto simp: Let_def mark_file_def dest: WriteFile_other split: prod.splits option.splits if_splits intro: exI [of _ "mg_completedStack (pl_manager p)"])

lemma content_stored_frame:
  "content_stored gz m body j d \<Longrightarrow> (\<And>path. content_file m (mg_contents m ! j) = Inr path \<Longrightarrow> file_at d' path = file_at d path) \<Longrightarrow>
    content_stored gz m body j d'"
  by (auto simp: content_stored_def)

lemma files_apartD:
  assumes "files_apart m" "i < length (mg_contents m)" "content_file m (mg_contents m ! i) = Inr path"
  shows "j < length (mg_contents m) \<Longrightarrow> i \<noteq> j \<Longrightarrow> content_file m (mg_contents m ! j) \<noteq> Inr path"
    "l \<in> set (mg_dest_layers m) \<Longrightarrow> path \<noteq> mark_file l"
  using assms unfolding files_apart_def by blast+

lemma same_managerD:
  assumes "same_manager m m'"
  shows "length (mg_contents m') = length (mg_contents m)"
    "j < length (mg_contents m) \<Longrightarrow> rc_Chunks (mg_contents m' ! j) = rc_Chunks (mg_contents m ! j)"
    "j < length (mg_contents m) \<Longrightarrow> total_compressed (mg_contents m' ! j) = total_compressed (mg_contents m ! j)"
    "mg_dest_layers m' = mg_dest_layers m" "mg_files m' = mg_files m" "mg_fileLookUpMap m' = mg_fileLookUpMap m"
  using assms by (auto simp: same_manager_def same_content_def total_compressed_def)

text \<open>Steps that touch no content file and close no signal.\<close>

lemma extract_inv_frame:
  assumes inv: "extract_inv gz m body (pc, p)" and man: "\<exists>cs. pl_manager p' = (pl_manager p)\<lparr>mg_completedStack := cs\<rparr>"
    and files: "\<And>j path. j < length (mg_contents m) \<Longrightarrow> is_closed (pl_manager p) j \<Longrightarrow> content_file m (mg_contents m ! j) = Inr path \<Longrightarrow>
      file_at (pl_disk p') path = file_at (pl_disk p) path" and pc: "at_pc gz m body pc' p'"
  shows "extract_inv gz m body (pc', p')"
proof -
  obtain cs where cs: "pl_manager p' = (pl_manager p)\<lparr>mg_completedStack := cs\<rparr>" using man by blast
  have "is_closed (pl_manager p') j = is_closed (pl_manager p) j" for j by (simp add: is_closed_def cs)
  moreover have "content_stored gz m body j (pl_disk p')" if "j < length (mg_contents m)" "is_closed (pl_manager p) j" for j
  proof (rule content_stored_frame)
    show "content_stored gz m body j (pl_disk p)" using that inv by (simp add: extract_inv_def)
  qed (rule files [OF that])
  moreover have "same_manager m (pl_manager p')" using inv same_manager_complete by (simp add: extract_inv_def cs)
  ultimately show ?thesis using pc by (simp add: extract_inv_def)
qed

lemma same_completed [simp]: "\<exists>cs. m = m\<lparr>mg_completedStack := cs\<rparr>"
  by (rule exI [of _ "mg_completedStack m"]) simp

lemma extract_step_inv:
  assumes "extract_step os gz msg s s'" "extract_inv gz m body s" and apart: "files_apart m"
  shows "extract_inv gz m body s'"
  using assms(1,2)
proof (cases rule: extract_step.cases)
  case (skip i p c p')
  note inv = assms(2)[unfolded skip(1)] and fr = skip_content_frame [OF skip(6)] and st = skip_content_None [OF skip(6)]
  have same: "same_manager m (pl_manager p)" using inv by (simp add: extract_inv_def)
  have "at_pc gz m body (At (i + 1)) p'"
    using inv skip(3,4) fr st same_managerD(1,3) [OF same] by (auto simp: extract_inv_def body_offset_Suc add.commute)
  then show ?thesis unfolding skip(2) using fr by (intro extract_inv_frame [OF inv]) auto
next
  case (skip_stop i p c p' r)
  note inv = assms(2)[unfolded skip_stop(1)] and fr = skip_content_frame [OF skip_stop(5)]
  show ?thesis unfolding skip_stop(2) using fr by (intro extract_inv_frame [OF inv]) auto
next
  case (opens i p c p' path)
  note inv = assms(2)[unfolded opens(1)] and o = open_content_Inr [OF opens(6)]
  have same: "same_manager m (pl_manager p)" and n: "\<And>j. j < length (mg_contents m) \<Longrightarrow> i \<le> j \<Longrightarrow> \<not> is_closed (pl_manager p) j"
    using inv by (auto simp: extract_inv_def)
  have i: "i < length (mg_contents m)" using opens(3) same_managerD(1) [OF same] by simp
  have path: "content_file m (mg_contents m ! i) = Inr path" using o same_content_file [OF same i] opens(4) by simp
  show ?thesis unfolding opens(2)
  proof (rule extract_inv_frame [OF inv])
    show "\<exists>cs. pl_manager p' = (pl_manager p)\<lparr>mg_completedStack := cs\<rparr>" using o by simp
    show "file_at (pl_disk p') q = file_at (pl_disk p) q"
      if "j < length (mg_contents m)" "is_closed (pl_manager p) j" "content_file m (mg_contents m ! j) = Inr q" for j q
      using files_apartD(1) [OF apart i path that(1)] n [OF that(1)] that o by fastforce
    show "at_pc gz m body (Writing i path (rc_Chunks c)) p'"
      using inv i path o same_managerD(2) [OF same i] opens(4) n by (auto simp: extract_inv_def intro: exI [of _ "[]"])
  qed
next
  case (open_stop i p c p' e)
  note inv = assms(2)[unfolded open_stop(1)] and fr = open_content_Inl [OF open_stop(5)]
  show ?thesis unfolding open_stop(2) using fr by (intro extract_inv_frame [OF inv]) auto
next
  case (chunk path ch p p' i chs)
  note inv = assms(2)[unfolded chunk(1)] and fr = extract_chunk_frame [OF chunk(3)]
  have pc: "at_pc gz m body (Writing i path (ch # chs)) p" using inv by (simp add: extract_inv_def)
  then obtain fin where fin: "rc_Chunks (mg_contents m ! i) = fin @ ch # chs" "chunks_readable gz fin (drop (body_offset m i) body)"
      "file_at (pl_disk p) path = Some (chunks_data gz fin (drop (body_offset m i) body))"
      "fst (pl_stream p) = drop (body_offset m i + nat (sum_list (map fc_CompressedSize fin))) body"
    and i: "i < length (mg_contents m)" "content_file m (mg_contents m ! i) = Inr path"
    and n: "\<And>j. j < length (mg_contents m) \<Longrightarrow> i \<le> j \<Longrightarrow> \<not> is_closed (pl_manager p) j" by auto
  have one: "extract_chunks os gz path [ch] p = (p', None)" using chunk(3) by simp
  note e = extract_chunks_None [OF one fin(3)]
  have drops: "drop (nat (sum_list (map fc_CompressedSize fin))) (drop (body_offset m i) body) = fst (pl_stream p)"
    using fin(4) by (simp add: add.commute)
  note app = chunks_data_append [OF fin(2), of "[ch]", unfolded drops]
  show ?thesis unfolding chunk(2)
  proof (rule extract_inv_frame [OF inv])
    show "\<exists>cs. pl_manager p' = (pl_manager p)\<lparr>mg_completedStack := cs\<rparr>" using fr by simp
    show "file_at (pl_disk p') q = file_at (pl_disk p) q"
      if "j < length (mg_contents m)" "is_closed (pl_manager p) j" "content_file m (mg_contents m ! j) = Inr q" for j q
      using files_apartD(1) [OF apart i that(1)] n [OF that(1)] that e by fastforce
    have "fst (pl_stream p') = drop (body_offset m i + nat (sum_list (map fc_CompressedSize (fin @ [ch])))) body"
      using e app fin(4) by (simp add: nat_add_distrib add.commute add.left_commute)
    moreover have "file_at (pl_disk p') path = Some (chunks_data gz (fin @ [ch]) (drop (body_offset m i) body))"
      "chunks_readable gz (fin @ [ch]) (drop (body_offset m i) body)" "rc_Chunks (mg_contents m ! i) = (fin @ [ch]) @ chs"
      using e app fin(1) by simp_all
    moreover have "\<not> is_closed (pl_manager p') j" if "j < length (mg_contents m)" "i \<le> j" for j using n [OF that] e by simp
    ultimately show "at_pc gz m body (Writing i path chs) p'" using i unfolding at_pc.simps by blast
  qed
next
  case (chunk_stop path ch p p' r i chs)
  note inv = assms(2)[unfolded chunk_stop(1)] and fr = extract_chunk_frame [OF chunk_stop(3)]
  have pc: "at_pc gz m body (Writing i path (ch # chs)) p" using inv by (simp add: extract_inv_def)
  then have i: "i < length (mg_contents m)" "content_file m (mg_contents m ! i) = Inr path"
    and n: "\<And>j. j < length (mg_contents m) \<Longrightarrow> i \<le> j \<Longrightarrow> \<not> is_closed (pl_manager p) j" by auto
  show ?thesis unfolding chunk_stop(2)
  proof (rule extract_inv_frame [OF inv])
    show "\<exists>cs. pl_manager p' = (pl_manager p)\<lparr>mg_completedStack := cs\<rparr>" using fr by simp
    show "file_at (pl_disk p') q = file_at (pl_disk p) q"
      if "j < length (mg_contents m)" "is_closed (pl_manager p) j" "content_file m (mg_contents m ! j) = Inr q" for j q
      using files_apartD(1) [OF apart i that(1)] n [OF that(1)] that fr [of q] by fastforce
  qed simp
next
  case (closes i p p' path)
  note inv = assms(2)[unfolded closes(1)]
  have c: "p' = p\<lparr>pl_manager := close_content i (pl_manager p)\<rparr>" using closes(3) unfolding close_signal_None by blast
  have same: "same_manager m (pl_manager p)" and pc: "at_pc gz m body (Writing i path []) p" using inv by (simp_all add: extract_inv_def)
  then have i: "i < length (mg_contents m)" "content_file m (mg_contents m ! i) = Inr path"
    and fin: "chunks_readable gz (rc_Chunks (mg_contents m ! i)) (drop (body_offset m i) body)"
      "file_at (pl_disk p) path = Some (content_data gz m body i)"
      "fst (pl_stream p) = drop (body_offset m i + nat (total_compressed (mg_contents m ! i))) body"
    and n: "\<And>j. j < length (mg_contents m) \<Longrightarrow> i \<le> j \<Longrightarrow> \<not> is_closed (pl_manager p) j"
    by (auto simp: content_data_def total_compressed_def)
  have cl: "is_closed (pl_manager p') j \<longleftrightarrow> j = i \<or> is_closed (pl_manager p) j" for j
    using close_content_nth(2) [of i "pl_manager p" j] i same_managerD(1) [OF same] by (simp add: c)
  have "content_stored gz m body i (pl_disk p')" using i fin(1,2) by (simp add: content_stored_def c)
  then have "is_closed (pl_manager p') j \<Longrightarrow> j < length (mg_contents m) \<Longrightarrow> content_stored gz m body j (pl_disk p')" for j
    using inv cl [of j] by (auto simp: extract_inv_def c)
  moreover have "same_manager m (pl_manager p')" using same_manager_close [OF same] by (simp add: c)
  moreover have "at_pc gz m body (At (i + 1)) p'"
    using i fin(3) n cl by (auto simp: body_offset_Suc [OF i(1)] c)
  ultimately show ?thesis unfolding closes(2) extract_inv_def by simp
next
  case (close_stop i p p' r path)
  note inv = assms(2)[unfolded close_stop(1)] and fr = close_signal_Some [OF close_stop(3)]
  show ?thesis unfolding close_stop(2) using fr by (intro extract_inv_frame [OF inv]) auto
next
  case (contents_done i p)
  note inv = assms(2)[unfolded contents_done(1)]
  show ?thesis unfolding contents_done(2) by (intro extract_inv_frame [OF inv]) auto
next
  case (layer k p p')
  note inv = assms(2)[unfolded layer(1)] and fr = complete_layer_frame [OF layer(4)]
  have "mg_dest_layers (pl_manager p) = mg_dest_layers m" using inv by (simp add: extract_inv_def same_managerD)
  then have "file_at (pl_disk p') q = file_at (pl_disk p) q" if "i < length (mg_contents m)" "content_file m (mg_contents m ! i) = Inr q" for i q
    using files_apartD(2) [OF apart that] layer(3) fr [of q] nth_mem [OF layer(3)] by auto
  then show ?thesis unfolding layer(2) using fr by (intro extract_inv_frame [OF inv]) auto
next
  case (layer_stop k p p' e)
  note inv = assms(2)[unfolded layer_stop(1)] and fr = complete_layer_frame [OF layer_stop(4)]
  have "mg_dest_layers (pl_manager p) = mg_dest_layers m" using inv by (simp add: extract_inv_def same_managerD)
  then have "file_at (pl_disk p') q = file_at (pl_disk p) q" if "i < length (mg_contents m)" "content_file m (mg_contents m ! i) = Inr q" for i q
    using files_apartD(2) [OF apart that] layer_stop(3) fr [of q] nth_mem [OF layer_stop(3)] by auto
  then show ?thesis unfolding layer_stop(2) using fr by (intro extract_inv_frame [OF inv]) auto
qed

lemma extract_reachable_inv:
  assumes "files_apart m" "extract_reachable os gz msg \<lparr>pl_manager = m, pl_disk = d, pl_stream = (body, err)\<rparr> s"
    and "\<forall>j < length (mg_contents m). \<not> is_closed m j"
  shows "extract_inv gz m body s"
  using assms(2) unfolding extract_reachable_def
proof (induction rule: rtranclp_induct)
  case base
  show ?case using assms(3) by (simp add: extract_inv_def body_offset_def)
next
  case (step s s')
  show ?case by (rule extract_step_inv [OF step(2,3) assms(1)])
qed

section \<open>The function runs the machine\<close>

lemma extract_chunks_run_steps:
  "extract_chunks os gz path chs p = (p', r) \<Longrightarrow>
     (extract_step os gz msg)\<^sup>*\<^sup>* (Writing i path chs, p) (case r of None \<Rightarrow> Writing i path [] | Some _ \<Rightarrow> Stopped, p')"
proof (induction chs arbitrary: p)
  case (Cons ch chs)
  obtain p1 r1 where one: "extract_chunk os gz path ch p = (p1, r1)" by fastforce
  show ?case
  proof (cases r1)
    case None
    then have "extract_chunks os gz path chs p1 = (p', r)" using Cons.prems one by simp
    with Cons.IH have "(extract_step os gz msg)\<^sup>*\<^sup>* (Writing i path chs, p1) (case r of None \<Rightarrow> Writing i path [] | Some _ \<Rightarrow> Stopped, p')" by blast
    with extract_step.chunk [of os gz path ch p p1 msg i chs] one None show ?thesis by (simp add: converse_rtranclp_into_rtranclp)
  next
    case (Some a)
    then show ?thesis using Cons.prems one extract_step.chunk_stop [of os gz path ch p p1 a msg i chs] by auto
  qed
qed simp

lemma extract_content_steps:
  assumes "extract_content os gz i p = (p', r)" "i < length (mg_contents (pl_manager p))"
  shows "\<exists>pc. (extract_step os gz msg)\<^sup>*\<^sup>* (At i, p) (pc, p') \<and> (r = None \<longrightarrow> pc = At (Suc i)) \<and> (r = Some (Inr ()) \<longrightarrow> pc = Stopped)"
proof -
  let ?c = "mg_contents (pl_manager p) ! i"
  show ?thesis
  proof (cases "ignoreStack (pl_manager p) (rc_Stack ?c)")
    case (Inl e)
    then show ?thesis using assms by (auto simp: extract_content_def Let_def at_index_def ignoreStack_def split: if_splits)
  next
    case (Inr ign)
    show ?thesis
    proof (cases ign)
      case True
      have sk: "skip_content ?c p = (p', r)" using assms Inr True by (simp add: extract_content_def Let_def)
      then show ?thesis
        using extract_step.skip [OF assms(2) refl, of p' os gz msg] extract_step.skip_stop [OF assms(2) refl, of p' _ os gz msg] Inr True
        by (cases r) auto
    next
      case False
      obtain p1 out where opn: "open_content os ?c p = (p1, out)" by fastforce
      show ?thesis
      proof (cases out)
        case (Inl e)
        then show ?thesis using assms opn Inr False extract_step.open_stop [OF assms(2) refl, of os p1 e gz msg]
          by (auto simp: extract_content_def Let_def)
      next
        case (Inr path)
        obtain p2 r2 where chs: "extract_chunks os gz path (rc_Chunks ?c) p1 = (p2, r2)" by fastforce
        have "extract_step os gz msg (At i, p) (Writing i path (rc_Chunks ?c), p1)"
          using extract_step.opens [OF assms(2) refl, of os p1 path gz msg] opn Inr False \<open>ignoreStack (pl_manager p) (rc_Stack ?c) = Inr ign\<close> by simp
        then have run: "(extract_step os gz msg)\<^sup>*\<^sup>* (At i, p) (case r2 of None \<Rightarrow> Writing i path [] | Some _ \<Rightarrow> Stopped, p2)"
          using extract_chunks_run_steps [OF chs, of msg i] by (rule converse_rtranclp_into_rtranclp)
        show ?thesis
        proof (cases r2)
          case None
          obtain p3 r3 where cl: "close_signal i p2 = (p3, r3)" by fastforce
          have "p' = p3" "r = r3" using assms opn Inr False \<open>ignoreStack (pl_manager p) (rc_Stack ?c) = Inr ign\<close> chs None cl
            by (simp_all add: extract_content_def Let_def)
          then show ?thesis
            using run None cl extract_step.closes [of i p2 p3 os gz msg path] extract_step.close_stop [of i p2 p3 _ os gz msg path]
            by (cases r3) (auto intro: rtranclp.rtrancl_into_rtrancl)
        next
          case (Some a)
          have "p' = p2" "r = Some a" using assms opn Inr False \<open>ignoreStack (pl_manager p) (rc_Stack ?c) = Inr ign\<close> chs Some
            by (simp_all add: extract_content_def Let_def)
          then show ?thesis using run Some by auto
        qed
      qed
    qed
  qed
qed

lemma extract_content_frame:
  "extract_content os gz i p = (p', r) \<Longrightarrow>
     length (mg_contents (pl_manager p')) = length (mg_contents (pl_manager p)) \<and> mg_dest_layers (pl_manager p') = mg_dest_layers (pl_manager p)"
proof -
  have "extract_chunks os gz path chs p1 = (p2, r) \<Longrightarrow> pl_manager p2 = pl_manager p1" for path chs p1 p2 r
    by (induction chs arbitrary: p1) (auto dest: extract_chunk_frame split: prod.splits option.splits)
  moreover have "open_content os c p1 = (p2, r) \<Longrightarrow> pl_manager p2 = pl_manager p1" for c p1 p2 r
    using open_content_Inl open_content_Inr by (cases r) blast+
  moreover have "close_signal i p1 = (p2, r) \<Longrightarrow> length (mg_contents (pl_manager p2)) = length (mg_contents (pl_manager p1)) \<and>
      mg_dest_layers (pl_manager p2) = mg_dest_layers (pl_manager p1)" for p1 p2 r
    by (cases r) (auto simp: close_signal_None dest: close_signal_Some)
  ultimately show "extract_content os gz i p = (p', r) \<Longrightarrow>
     length (mg_contents (pl_manager p')) = length (mg_contents (pl_manager p)) \<and> mg_dest_layers (pl_manager p') = mg_dest_layers (pl_manager p)"
    by (auto simp: extract_content_def Let_def dest!: skip_content_frame split: sum.splits bool.splits prod.splits option.splits)
qed

lemma extract_from_steps:
  "extract_from os gz [i..<n] p = (p', r) \<Longrightarrow> i \<le> n \<Longrightarrow> n = length (mg_contents (pl_manager p)) \<Longrightarrow>
     \<exists>pc. (extract_step os gz msg)\<^sup>*\<^sup>* (At i, p) (pc, p') \<and> (r = None \<longrightarrow> pc = At n \<and> length (mg_contents (pl_manager p')) = n) \<and> (r = Some (Inr ()) \<longrightarrow> pc = Stopped)"
proof (induction "n - i" arbitrary: i p)
  case 0
  then show ?case by auto
next
  case (Suc k)
  then have i: "i < n" by simp
  obtain p1 r1 where one: "extract_content os gz i p = (p1, r1)" by fastforce
  obtain pc where pc: "(extract_step os gz msg)\<^sup>*\<^sup>* (At i, p) (pc, p1)" "r1 = None \<longrightarrow> pc = At (Suc i)" "r1 = Some (Inr ()) \<longrightarrow> pc = Stopped"
    using extract_content_steps [OF one] i Suc.prems by blast
  show ?case
  proof (cases r1)
    case None
    have rest: "extract_from os gz [Suc i..<n] p1 = (p', r)" using Suc.prems(1) one None i by (simp add: upt_conv_Cons)
    have len: "n = length (mg_contents (pl_manager p1))" using extract_content_frame [OF one] Suc.prems(3) by simp
    have k: "k = n - Suc i" and le: "Suc i \<le> n" using Suc.hyps(2) i by simp_all
    obtain pc' where "(extract_step os gz msg)\<^sup>*\<^sup>* (At (Suc i), p1) (pc', p')"
      "r = None \<longrightarrow> pc' = At n \<and> length (mg_contents (pl_manager p')) = n" "r = Some (Inr ()) \<longrightarrow> pc' = Stopped"
      using Suc.hyps(1) [OF k rest le len] by blast
    then show ?thesis using pc None by (auto intro: rtranclp_trans)
  next
    case (Some a)
    have "p' = p1" "r = Some a" using Suc.prems(1) one Some i by (simp_all add: upt_conv_Cons)
    then show ?thesis using pc Some by auto
  qed
qed

lemma extract_from_dest: "extract_from os gz is p = (p', r) \<Longrightarrow> mg_dest_layers (pl_manager p') = mg_dest_layers (pl_manager p)"
  by (induction "is" arbitrary: p) (auto dest!: extract_content_frame split: prod.splits option.splits)

lemma complete_layers_steps:
  "complete_layers os msg k (drop k ls) p = (p', r) \<Longrightarrow> ls = mg_dest_layers (pl_manager p) \<Longrightarrow> k \<le> length ls \<Longrightarrow>
     \<exists>pc. (extract_step os gz msg)\<^sup>*\<^sup>* (Completing k, p) (pc, p') \<and> (r = Inr () \<longrightarrow> pc = Completing (length ls))"
proof (induction "length ls - k" arbitrary: k p)
  case 0
  then show ?case by auto
next
  case (Suc j)
  then have k: "k < length ls" by simp
  have ls: "drop k ls = ls ! k # drop (Suc k) ls" using k by (simp add: Cons_nth_drop_Suc)
  obtain p1 r1 where one: "complete_layers os msg k [ls ! k] p = (p1, r1)" by fastforce
  show ?case
  proof (cases r1)
    case (Inl e)
    then have "p' = p1" "r = Inl e" using Suc.prems(1) one unfolding ls by (auto simp: Let_def split: prod.splits option.splits if_splits)
    then show ?thesis using extract_step.layer_stop [of k p os msg p1 e gz] one Inl k Suc.prems(2) by auto
  next
    case (Inr u)
    have rest: "complete_layers os msg (Suc k) (drop (Suc k) ls) p1 = (p', r)"
      using Suc.prems(1) one Inr unfolding ls by (auto simp: Let_def split: prod.splits option.splits if_splits)
    obtain cs where "pl_manager p1 = (pl_manager p)\<lparr>mg_completedStack := cs\<rparr>" using complete_layer_frame [OF one] by blast
    then have "ls = mg_dest_layers (pl_manager p1)" using Suc.prems(2) by simp
    moreover have "j = length ls - Suc k" "Suc k \<le> length ls" using Suc.hyps(2) k by simp_all
    ultimately obtain pc where "(extract_step os gz msg)\<^sup>*\<^sup>* (Completing (Suc k), p1) (pc, p')" "r = Inr () \<longrightarrow> pc = Completing (length ls)"
      using Suc.hyps(1) rest by blast
    moreover have "extract_step os gz msg (Completing k, p) (Completing (Suc k), p1)"
      using extract_step.layer [of k p os msg p1 gz] one Inr k Suc.prems(2) by simp
    ultimately show ?thesis by (auto intro: converse_rtranclp_into_rtranclp)
  qed
qed

lemma Extract_run:
  assumes "Extract os gz msg m d (Some s) = ((m', d', s'), r)"
  shows "\<exists>pc. extract_reachable os gz msg \<lparr>pl_manager = m, pl_disk = d, pl_stream = s\<rparr> (pc, \<lparr>pl_manager = m', pl_disk = d', pl_stream = s'\<rparr>) \<and>
    (r = Inr () \<longrightarrow> pc = Completing (length (mg_dest_layers m)) \<or> pc = Stopped)"
proof -
  let ?p = "\<lparr>pl_manager = m, pl_disk = d, pl_stream = s\<rparr>" and ?p' = "\<lparr>pl_manager = m', pl_disk = d', pl_stream = s'\<rparr>"
  let ?n = "length (mg_contents m)"
  obtain p1 r1 where fr: "extract_from os gz [0..<?n] ?p = (p1, r1)" by fastforce
  have "\<exists>pc. (extract_step os gz msg)\<^sup>*\<^sup>* (At 0, ?p) (pc, p1) \<and> (r1 = None \<longrightarrow> pc = At ?n \<and> length (mg_contents (pl_manager p1)) = ?n) \<and>
      (r1 = Some (Inr ()) \<longrightarrow> pc = Stopped)"
    by (rule extract_from_steps [OF fr]) simp_all
  then obtain pc where pc: "(extract_step os gz msg)\<^sup>*\<^sup>* (At 0, ?p) (pc, p1)"
    "r1 = None \<longrightarrow> pc = At ?n \<and> length (mg_contents (pl_manager p1)) = ?n" "r1 = Some (Inr ()) \<longrightarrow> pc = Stopped"
    by (elim exE conjE) (rule that)
  show ?thesis
  proof (cases r1)
    case (Some e)
    then have "p1 = ?p'" "r = e" using assms fr by (auto simp: Extract_def Let_def)
    then show ?thesis using pc Some unfolding extract_reachable_def by auto
  next
    case None
    obtain p2 r2 where c: "complete_layers os msg 0 (mg_dest_layers (pl_manager p1)) p1 = (p2, r2)" by fastforce
    have "r2 = r" "p2 = ?p'" using assms fr None c by (auto simp: Extract_def Let_def)
    with c have cl: "complete_layers os msg 0 (mg_dest_layers (pl_manager p1)) p1 = (p2, r)" "p2 = ?p'" by simp_all
    have same: "mg_dest_layers (pl_manager p1) = mg_dest_layers m" by (rule extract_from_dest [OF fr, simplified])
    obtain pc2 where pc2: "(extract_step os gz msg)\<^sup>*\<^sup>* (Completing 0, p1) (pc2, p2)" "r = Inr () \<longrightarrow> pc2 = Completing (length (mg_dest_layers m))"
      using complete_layers_steps [of os msg 0 "mg_dest_layers (pl_manager p1)" p1 p2 r gz] cl(1) unfolding same by (simp only: drop_0 simp_thms) blast
    have "extract_step os gz msg (At ?n, p1) (Completing 0, p1)" using pc None by (intro extract_step.contents_done) simp
    then have "(extract_step os gz msg)\<^sup>*\<^sup>* (At 0, ?p) (pc2, p2)" using pc None pc2(1) by (auto intro: rtranclp_trans rtranclp.rtrancl_into_rtrancl)
    then show ?thesis using pc2(2) cl(2) unfolding extract_reachable_def by auto
  qed
qed

end
