(* ===== verification/Manager_Store.thy ===== *)
theory Manager_Store
  imports Manager_Extract Digest_Path
begin

text \<open>
  Extracting succeeds: where the layers and contents of an image lie on the disk, why their files do not
  meet, and that the files are there when \<^verbatim>\<open>Extract\<close> returns.
\<close>

section \<open>The layout of an image\<close>

text \<open>
  The image lies below \<open>rs\<close>: the layers have SHA-256 digests and their directories, the contents have
  different SHA-256 digests and stacks of the image.
\<close>

definition layer_comps :: "string list \<Rightarrow> rlayer \<Rightarrow> string list" where
  "layer_comps rs l = rs @ ''layers'' # digest_comps (rl_Hash l)"

definition image_layout :: "string list \<Rightarrow> manager \<Rightarrow> bool" where
  "image_layout rs m \<longleftrightarrow> rs \<noteq> [] \<and> (\<forall>c \<in> set rs. normal_comp c) \<and>
     (\<forall>l \<in> set (mg_dest_layers m). sha256 (rl_Hash l) \<and> rl_Local l = abs_path (layer_comps rs l) \<and>
        GetPathBySerial m (rl_Serial l) = Inr (rl_Local l)) \<and>
     mg_stackSerialMap m = map rl_Serial (mg_dest_layers m) \<and>
     (\<forall>c \<in> set (mg_contents m). sha256 (rc_Digest c) \<and> 0 \<le> rc_Stack c \<and> rc_Stack c < int (length (mg_dest_layers m))) \<and>
     distinct (map rc_Digest (mg_contents m))"

definition content_comps :: "string list \<Rightarrow> manager \<Rightarrow> nat \<Rightarrow> string list" where
  "content_comps rs m i = layer_comps rs (mg_dest_layers m ! nat (rc_Stack (mg_contents m ! i))) @ digest_comps (rc_Digest (mg_contents m ! i))"

lemma content_comps_nonempty [simp]: "content_comps rs m i \<noteq> []"
  by (simp add: content_comps_def)

lemma image_layout_layer:
  assumes "image_layout rs m" "l \<in> set (mg_dest_layers m)"
  shows "rl_Local l = abs_path (layer_comps rs l)" "\<forall>c \<in> set (layer_comps rs l). normal_comp c" "layer_comps rs l \<noteq> []"
    "length (layer_comps rs l) = length rs + 5"
proof -
  show "rl_Local l = abs_path (layer_comps rs l)" using assms by (simp add: image_layout_def)
  have "normal_comp ''layers''" by (simp add: normal_comp_def)
  then show "\<forall>c \<in> set (layer_comps rs l). normal_comp c"
    using assms digest_comps_normal by (auto simp: image_layout_def layer_comps_def)
qed (simp_all add: layer_comps_def)

lemma image_layout_content:
  assumes lay: "image_layout rs m" and i: "i < length (mg_contents m)"
  shows "GetPathByStack m (rc_Stack (mg_contents m ! i)) = Inr (abs_path (layer_comps rs (mg_dest_layers m ! nat (rc_Stack (mg_contents m ! i)))))"
    "\<forall>c \<in> set (content_comps rs m i). normal_comp c" "length (content_comps rs m i) = length rs + 9"
    "sha256 (rc_Digest (mg_contents m ! i))" "mg_dest_layers m ! nat (rc_Stack (mg_contents m ! i)) \<in> set (mg_dest_layers m)"
    "0 \<le> rc_Stack (mg_contents m ! i)" "rc_Stack (mg_contents m ! i) < int (length (mg_dest_layers m))"
proof -
  let ?c = "mg_contents m ! i"
  have c: "sha256 (rc_Digest ?c)" "0 \<le> rc_Stack ?c" "rc_Stack ?c < int (length (mg_dest_layers m))"
    using lay i nth_mem [OF i] unfolding image_layout_def by blast+
  then show "sha256 (rc_Digest ?c)" "0 \<le> rc_Stack ?c" "rc_Stack ?c < int (length (mg_dest_layers m))" by simp_all
  show l: "mg_dest_layers m ! nat (rc_Stack ?c) \<in> set (mg_dest_layers m)" using c(2,3) by simp
  have n: "nat (rc_Stack ?c) < length (mg_dest_layers m)" using c(2,3) by simp
  have "mg_stackSerialMap m = map rl_Serial (mg_dest_layers m)" using lay by (simp add: image_layout_def)
  then have "at_index (mg_stackSerialMap m) (rc_Stack ?c) = Inr (rl_Serial (mg_dest_layers m ! nat (rc_Stack ?c)))"
    using c n by (simp add: at_index_def)
  then show "GetPathByStack m (rc_Stack ?c) = Inr (abs_path (layer_comps rs (mg_dest_layers m ! nat (rc_Stack ?c))))"
    using lay l by (simp add: GetPathByStack_def image_layout_def)
  note ll = image_layout_layer [OF lay l]
  show "\<forall>c \<in> set (content_comps rs m i). normal_comp c"
    using ll(2) digest_comps_normal [OF c(1)] by (auto simp: content_comps_def)
  show "length (content_comps rs m i) = length rs + 9" using ll(4) by (simp add: content_comps_def)
qed

lemma content_file_layout:
  assumes "image_layout rs m" "i < length (mg_contents m)"
  shows "content_file m (mg_contents m ! i) = Inr (abs_path (content_comps rs m i))"
proof -
  note c = image_layout_content [OF assms]
  have "path_join [abs_path (layer_comps rs (mg_dest_layers m ! nat (rc_Stack (mg_contents m ! i)))), join_with [slash] (digest_comps (rc_Digest (mg_contents m ! i)))]
      = abs_path (content_comps rs m i)"
    using c(2) image_layout_layer(3) [OF assms(1) c(5)] unfolding content_comps_def by (intro path_join_abs) auto
  then show ?thesis
    by (simp add: content_file_def c(1) Content_GetPath_def digest_path_sha [OF c(4)])
qed

lemma normal_no_slash: "normal_comp c \<Longrightarrow> slash \<notin> set c"
  by (simp add: normal_comp_def)

lemma abs_path_eq:
  "cs \<noteq> [] \<Longrightarrow> ds \<noteq> [] \<Longrightarrow> \<forall>c \<in> set cs. normal_comp c \<Longrightarrow> \<forall>c \<in> set ds. normal_comp c \<Longrightarrow> abs_path cs = abs_path ds \<longleftrightarrow> cs = ds"
  using abs_path_inject [of cs ds] normal_no_slash by blast

lemma mark_file_layout:
  assumes "image_layout rs m" "l \<in> set (mg_dest_layers m)"
  shows "mark_file l = abs_path (layer_comps rs l @ [''completed.json''])" "\<forall>c \<in> set (layer_comps rs l @ [''completed.json'']). normal_comp c"
proof -
  have n: "normal_comp ''completed.json''" by (simp add: normal_comp_def)
  note l = image_layout_layer [OF assms]
  show "\<forall>c \<in> set (layer_comps rs l @ [''completed.json'']). normal_comp c" using l(2) n by auto
  then show "mark_file l = abs_path (layer_comps rs l @ [''completed.json''])"
    using path_join_abs [of "layer_comps rs l" "[''completed.json'']"] l(1,3) by (simp add: mark_file_def)
qed

lemma image_layout_apart:
  assumes lay: "image_layout rs m"
  shows "files_apart m"
  unfolding files_apart_def
proof (intro conjI allI impI ballI)
  fix i j p assume ij: "i < length (mg_contents m)" "j < length (mg_contents m)" "i \<noteq> j"
    and p: "content_file m (mg_contents m ! i) = Inr p"
  note ci = image_layout_content [OF lay ij(1)] and cj = image_layout_content [OF lay ij(2)]
  have "distinct (map rc_Digest (mg_contents m))" using lay by (simp add: image_layout_def)
  then have "rc_Digest (mg_contents m ! i) \<noteq> rc_Digest (mg_contents m ! j)"
    using ij nth_eq_iff_index_eq [of "map rc_Digest (mg_contents m)" i j] by simp
  then have "digest_comps (rc_Digest (mg_contents m ! i)) \<noteq> digest_comps (rc_Digest (mg_contents m ! j))"
    using digest_comps_inject [OF ci(4) cj(4)] by simp
  then have "content_comps rs m i \<noteq> content_comps rs m j"
    using image_layout_layer(4) [OF lay ci(5)] image_layout_layer(4) [OF lay cj(5)] by (auto simp: content_comps_def)
  moreover have "content_comps rs m i \<noteq> []" "content_comps rs m j \<noteq> []" using ci(3) cj(3) by auto
  ultimately show "content_file m (mg_contents m ! j) \<noteq> Inr p"
    using p ci(2) cj(2) abs_path_eq by (auto simp: content_file_layout [OF lay] ij)
next
  fix i l assume i: "i < length (mg_contents m)" and l: "l \<in> set (mg_dest_layers m)"
  note ci = image_layout_content [OF lay i] and ml = mark_file_layout [OF lay l]
  have "length (content_comps rs m i) \<noteq> length (layer_comps rs l @ [''completed.json''])"
    using ci(3) image_layout_layer(4) [OF lay l] by simp
  then have "abs_path (content_comps rs m i) \<noteq> abs_path (layer_comps rs l @ [''completed.json''])"
    using ci(2,3) ml(2) abs_path_eq [of "content_comps rs m i" "layer_comps rs l @ [''completed.json'']"] by auto
  then show "content_file m (mg_contents m ! i) \<noteq> Inr (mark_file l)"
    by (simp add: content_file_layout [OF lay i] ml(1))
qed

section \<open>Room on the disk\<close>

text \<open>
  The layers' directories exist and no mark is a directory; no directory on the way to a content is a file, and no content is a directory.
\<close>

definition disk_room :: "string list \<Rightarrow> manager \<Rightarrow> disk \<Rightarrow> bool" where
  "disk_room rs m d \<longleftrightarrow>
     (\<forall>l \<in> set (mg_dest_layers m). rl_Local l \<in> set (dk_dirs d) \<and> mark_file l \<notin> set (dk_dirs d)) \<and>
     (\<forall>i < length (mg_contents m). abs_path (content_comps rs m i) \<notin> set (dk_dirs d) \<and>
        (\<forall>k \<in> {1..length rs + 8}. file_at d (abs_path (take k (content_comps rs m i))) = None))"

text \<open>Making the directory of a content and creating its file keeps the room.\<close>

lemma content_dirs:
  assumes "image_layout rs m" "i < length (mg_contents m)"
  shows "set (ancestors (abs_path (butlast (content_comps rs m i)))) = (\<lambda>k. abs_path (take k (content_comps rs m i))) ` {1..length rs + 8}"
proof -
  note c = image_layout_content [OF assms]
  have "length (butlast (content_comps rs m i)) \<noteq> 0" using c(3) by simp
  then have "butlast (content_comps rs m i) \<noteq> []" by (simp only: length_0_conv not_False_eq_True)
  then have "set (ancestors (abs_path (butlast (content_comps rs m i)))) =
      (\<lambda>k. abs_path (take k (butlast (content_comps rs m i)))) ` {1..length (butlast (content_comps rs m i))}"
    using c(2) normal_no_slash by (intro ancestors_abs) (auto dest: in_set_butlastD)
  also have "\<dots> = (\<lambda>k. abs_path (take k (content_comps rs m i))) ` {1..length rs + 8}"
    using c(3) by (intro image_cong) (auto simp: take_butlast)
  finally show ?thesis .
qed

lemma take_normal: "\<forall>c \<in> set cs. normal_comp c \<Longrightarrow> \<forall>c \<in> set (take k cs). normal_comp c"
  by (auto dest: in_set_takeD)

lemma content_not_dir:
  assumes lay: "image_layout rs m" and ij: "i < length (mg_contents m)" "j < length (mg_contents m)" and k: "k \<in> {1..length rs + 8}"
  shows "abs_path (content_comps rs m i) \<noteq> abs_path (take k (content_comps rs m j))"
proof -
  note ci = image_layout_content [OF lay ij(1)] and cj = image_layout_content [OF lay ij(2)]
  have "length (content_comps rs m i) \<noteq> length (take k (content_comps rs m j))" using ci(3) cj(3) k by simp
  moreover have "content_comps rs m i \<noteq> []" "take k (content_comps rs m j) \<noteq> []" using ci(3) cj(3) k by auto
  ultimately show ?thesis using abs_path_eq ci(2) take_normal [OF cj(2)] by metis
qed

lemma mark_not_dir:
  assumes lay: "image_layout rs m" and l: "l \<in> set (mg_dest_layers m)" and j: "j < length (mg_contents m)" and k: "k \<in> {1..length rs + 8}"
  shows "mark_file l \<noteq> abs_path (take k (content_comps rs m j))"
proof
  assume eq: "mark_file l = abs_path (take k (content_comps rs m j))"
  note ml = mark_file_layout [OF lay l] and cj = image_layout_content [OF lay j] and ll = image_layout_layer [OF lay l]
  note lj = image_layout_layer [OF lay cj(5)]
  have "take k (content_comps rs m j) \<noteq> []" using cj(3) k by auto
  then have eq: "layer_comps rs l @ [''completed.json''] = take k (content_comps rs m j)"
    using eq abs_path_eq [OF _ _ ml(2) take_normal [OF cj(2)]] ml(1) by auto
  have "length (layer_comps rs l @ [''completed.json'']) = length (take k (content_comps rs m j))" by (simp only: eq)
  then have "k = length rs + 6" using ll(4) cj(3) k by simp
  then have "last (take k (content_comps rs m j)) = digest_comps (rc_Digest (mg_contents m ! j)) ! 0"
    using lj(4) by (simp add: content_comps_def take_Suc_conv_app_nth last_append digest_comps_def)
  then have "digest_comps (rc_Digest (mg_contents m ! j)) ! 0 = ''completed.json''" by (simp add: eq [symmetric])
  moreover have "length (digest_comps (rc_Digest (mg_contents m ! j)) ! 0) \<le> 1" by (simp add: digest_comps_def)
  ultimately show False by simp
qed

section \<open>Extracting succeeds\<close>

definition no_os_faults :: os where "no_os_faults = (\<lambda>op path. None)"

definition completed :: "manager \<Rightarrow> nat \<Rightarrow> bool" where
  "completed m i \<longleftrightarrow> mg_completedStack m ! nat (rc_Stack (mg_contents m ! i))"

text \<open>Every content that is not there yet can be read from the body, and the others can be skipped.\<close>

definition body_readable :: "gunzip \<Rightarrow> manager \<Rightarrow> byte list \<Rightarrow> bool" where
  "body_readable gz m body \<longleftrightarrow> (\<forall>i < length (mg_contents m).
     if completed m i then 0 \<le> total_compressed (mg_contents m ! i) \<and> body_offset m i + nat (total_compressed (mg_contents m ! i)) \<le> length body
     else chunks_readable gz (rc_Chunks (mg_contents m ! i)) (drop (body_offset m i) body))"

definition run_state :: "string list \<Rightarrow> manager \<Rightarrow> byte list \<Rightarrow> nat \<Rightarrow> pull \<Rightarrow> bool" where
  "run_state rs m body i p \<longleftrightarrow> same_manager m (pl_manager p) \<and> mg_completedStack (pl_manager p) = mg_completedStack m \<and>
     disk_room rs m (pl_disk p) \<and> fst (pl_stream p) = drop (body_offset m i) body \<and>
     (\<forall>j < length (mg_contents m). rc_Signal (mg_contents (pl_manager p) ! j) = (if j < i \<and> \<not> completed m j then ClosedChan else OpenChan))"

lemma MkdirAll_run:
  "\<forall>q \<in> set (ancestors p). file_at d q = None \<Longrightarrow>
     \<exists>d'. MkdirAll no_os_faults p d = (d', None) \<and> set (dk_dirs d') = set (ancestors p) \<union> set (dk_dirs d) \<and> file_at d' = file_at d"
  by (auto simp: MkdirAll_def no_os_faults_def file_at_def fun_eq_iff list_ex_iff)

lemma Create_run:
  "p \<notin> set (dk_dirs d) \<Longrightarrow> path_dir p \<in> set (dk_dirs d) \<Longrightarrow>
     \<exists>d'. Create no_os_faults p d = (d', None) \<and> dk_dirs d' = dk_dirs d \<and> file_at d' = (file_at d)(p \<mapsto> [])"
  by (auto simp: Create_def no_os_faults_def file_at_def fun_eq_iff update_conv')

lemma path_self_ancestor: "p \<in> set (ancestors p)"
  by (simp add: ancestors_def)

lemma same_manager_content:
  assumes "same_manager m m'" "i < length (mg_contents m)"
  shows "rc_Stack (mg_contents m' ! i) = rc_Stack (mg_contents m ! i)" "rc_Digest (mg_contents m' ! i) = rc_Digest (mg_contents m ! i)"
    "GetPathByStack m' = GetPathByStack m"
proof -
  show "rc_Stack (mg_contents m' ! i) = rc_Stack (mg_contents m ! i)" "rc_Digest (mg_contents m' ! i) = rc_Digest (mg_contents m ! i)"
    using assms by (auto simp: same_manager_def same_content_def)
  have "GetPathBySerial m' = GetPathBySerial m" using assms(1) by (intro ext) (simp add: GetPathBySerial_def same_manager_def)
  then show "GetPathByStack m' = GetPathByStack m" using assms(1) by (intro ext) (simp add: GetPathByStack_def same_manager_def cong: sum.case_cong)
qed

lemma base_comps:
  assumes "image_layout rs m" "i < length (mg_contents m)"
  shows "path_join [abs_path (layer_comps rs (mg_dest_layers m ! nat (rc_Stack (mg_contents m ! i)))), join_with [slash] (take 3 (digest_comps (rc_Digest (mg_contents m ! i))))]
    = abs_path (butlast (content_comps rs m i))"
    "path_dir (abs_path (content_comps rs m i)) = abs_path (butlast (content_comps rs m i))"
proof -
  note c = image_layout_content [OF assms]
  let ?lc = "layer_comps rs (mg_dest_layers m ! nat (rc_Stack (mg_contents m ! i)))" and ?dc = "digest_comps (rc_Digest (mg_contents m ! i))"
  have bl: "butlast (content_comps rs m i) = ?lc @ take 3 ?dc" by (simp add: content_comps_def digest_comps_def butlast_append)
  show "path_join [abs_path ?lc, join_with [slash] (take 3 ?dc)] = abs_path (butlast (content_comps rs m i))"
    unfolding bl using image_layout_layer(2,3) [OF assms(1) c(5)] digest_comps_normal [OF c(4)]
    by (intro path_join_abs) (auto dest: in_set_takeD)
  have "content_comps rs m i = butlast (content_comps rs m i) @ [last (content_comps rs m i)]" by simp
  moreover have "butlast (content_comps rs m i) \<noteq> []" unfolding bl using image_layout_layer(3) [OF assms(1) c(5)] by simp
  ultimately show "path_dir (abs_path (content_comps rs m i)) = abs_path (butlast (content_comps rs m i))"
    using path_dir_abs c(2) by metis
qed

lemma open_content_run:
  assumes lay: "image_layout rs m" and i: "i < length (mg_contents m)" and same: "same_manager m (pl_manager p)" and room: "disk_room rs m (pl_disk p)"
  shows "\<exists>p'. open_content no_os_faults (mg_contents (pl_manager p) ! i) p = (p', Inr (abs_path (content_comps rs m i))) \<and>
    pl_manager p' = pl_manager p \<and> pl_stream p' = pl_stream p \<and>
    file_at (pl_disk p') = (file_at (pl_disk p))(abs_path (content_comps rs m i) \<mapsto> []) \<and> disk_room rs m (pl_disk p')"
proof -
  note c = image_layout_content [OF lay i] and sc = same_manager_content [OF same i] and bc = base_comps [OF lay i]
  let ?path = "abs_path (content_comps rs m i)" and ?dir = "abs_path (butlast (content_comps rs m i))"
  have free: "\<forall>q \<in> set (ancestors ?dir). file_at (pl_disk p) q = None"
    using room i by (auto simp: content_dirs [OF lay i] disk_room_def)
  obtain d1 where d1: "MkdirAll no_os_faults ?dir (pl_disk p) = (d1, None)"
    "set (dk_dirs d1) = set (ancestors ?dir) \<union> set (dk_dirs (pl_disk p))" "file_at d1 = file_at (pl_disk p)"
    using MkdirAll_run [OF free] by blast
  have "?path \<notin> set (ancestors ?dir)" unfolding content_dirs [OF lay i] using content_not_dir [OF lay i i] by blast
  then have "?path \<notin> set (dk_dirs d1)" using room i d1(2) by (simp add: disk_room_def)
  moreover have "path_dir ?path \<in> set (dk_dirs d1)" using d1(2) path_self_ancestor bc(2) by simp
  ultimately obtain d2 where d2: "Create no_os_faults ?path d1 = (d2, None)" "dk_dirs d2 = dk_dirs d1" "file_at d2 = (file_at d1)(?path \<mapsto> [])"
    using Create_run by blast
  have "path_join [abs_path (layer_comps rs (mg_dest_layers m ! nat (rc_Stack (mg_contents m ! i)))), join_with [slash] (digest_comps (rc_Digest (mg_contents m ! i)))] = ?path"
    using c(2) image_layout_layer(3) [OF lay c(5)] unfolding content_comps_def by (intro path_join_abs) auto
  then have "open_content no_os_faults (mg_contents (pl_manager p) ! i) p = (p\<lparr>pl_disk := d2\<rparr>, Inr ?path)"
    by (simp add: open_content_def sc Content_GetBaseDir_def Content_GetPath_def c(1) digest_base_dir_sha [OF c(4)] digest_path_sha [OF c(4)] bc(1) d1(1) d2(1))
  moreover have "disk_room rs m d2"
    unfolding disk_room_def
  proof (intro conjI ballI allI impI)
    fix l assume l: "l \<in> set (mg_dest_layers m)"
    show "rl_Local l \<in> set (dk_dirs d2)" using room l d1(2) d2(2) by (simp add: disk_room_def)
    show "mark_file l \<notin> set (dk_dirs d2)"
    proof -
      have "mark_file l \<notin> set (ancestors ?dir)" unfolding content_dirs [OF lay i] using mark_not_dir [OF lay l i] by blast
      then show ?thesis using room l d1(2) d2(2) by (simp add: disk_room_def)
    qed
  next
    fix j assume j: "j < length (mg_contents m)"
    show "abs_path (content_comps rs m j) \<notin> set (dk_dirs d2)"
    proof -
      have "abs_path (content_comps rs m j) \<notin> set (ancestors ?dir)" unfolding content_dirs [OF lay i] using content_not_dir [OF lay j i] by blast
      then show ?thesis using room j d1(2) d2(2) by (simp add: disk_room_def)
    qed
    fix k assume k: "k \<in> {1..length rs + 8}"
    then show "file_at d2 (abs_path (take k (content_comps rs m j))) = None"
      using room j d1(3) d2(3) content_not_dir [OF lay i j k] by (simp add: disk_room_def)
  qed
  ultimately show ?thesis using d1(3) d2(3) by (intro exI [of _ "p\<lparr>pl_disk := d2\<rparr>"]) simp
qed

lemma disk_room_cong: "disk_room rs m d \<Longrightarrow> dk_dirs d' = dk_dirs d \<Longrightarrow>
    (\<And>q. q \<noteq> path \<Longrightarrow> file_at d' q = file_at d q) \<Longrightarrow>
    (\<And>j k. j < length (mg_contents m) \<Longrightarrow> k \<in> {1..length rs + 8} \<Longrightarrow> path \<noteq> abs_path (take k (content_comps rs m j))) \<Longrightarrow> disk_room rs m d'"
  unfolding disk_room_def by metis

lemma chunks_file:
  assumes "chunks_readable gz chs (fst (pl_stream p))" "file_at (pl_disk p) path = Some old"
  shows "\<exists>p'. extract_chunks no_os_faults gz path chs p = (p', None) \<and> pl_manager p' = pl_manager p \<and>
    pl_stream p' = (drop (nat (sum_list (map fc_CompressedSize chs))) (fst (pl_stream p)), snd (pl_stream p)) \<and>
    dk_dirs (pl_disk p') = dk_dirs (pl_disk p) \<and> (\<forall>q. q \<noteq> path \<longrightarrow> file_at (pl_disk p') q = file_at (pl_disk p) q)"
proof -
  obtain p' where run: "extract_chunks no_os_faults gz path chs p = (p', None)"
    using extract_chunks_run [OF assms(1), of no_os_faults path] by (auto simp: no_os_faults_def)
  show ?thesis using extract_chunks_None [OF run assms(2)] run by blast
qed

lemma extract_content_run:
  assumes lay: "image_layout rs m" and i: "i < length (mg_contents m)" and st: "run_state rs m body i p"
    and len: "length (mg_completedStack m) = length (mg_dest_layers m)" and good: "body_readable gz m body"
  shows "\<exists>p'. extract_content no_os_faults gz i p = (p', None) \<and> run_state rs m body (Suc i) p'"
proof -
  note c = image_layout_content [OF lay i]
  have same: "same_manager m (pl_manager p)" and com: "mg_completedStack (pl_manager p) = mg_completedStack m"
    and room: "disk_room rs m (pl_disk p)" and str: "fst (pl_stream p) = drop (body_offset m i) body"
    and sig: "\<And>j. j < length (mg_contents m) \<Longrightarrow> rc_Signal (mg_contents (pl_manager p) ! j) = (if j < i \<and> \<not> completed m j then ClosedChan else OpenChan)"
    using st by (auto simp: run_state_def)
  note sc = same_manager_content [OF same i] and sm = same_managerD [OF same]
  have ign: "ignoreStack (pl_manager p) (rc_Stack (mg_contents (pl_manager p) ! i)) = Inr (completed m i)"
    using c(6,7) len by (simp add: ignoreStack_def at_index_def com sc completed_def)
  show ?thesis
  proof (cases "completed m i")
    case True
    let ?n = "total_compressed (mg_contents m ! i)"
    have n: "0 \<le> ?n" "body_offset m i + nat ?n \<le> length body" using good i True by (auto simp: body_readable_def)
    then have "skip_content (mg_contents (pl_manager p) ! i) p = (p\<lparr>pl_stream := (drop (nat ?n) (fst (pl_stream p)), snd (pl_stream p))\<rparr>, None)"
      using str by (auto simp: skip_content_def CopyN_def sm(3) [OF i])
    moreover have "run_state rs m body (Suc i) (p\<lparr>pl_stream := (drop (nat ?n) (fst (pl_stream p)), snd (pl_stream p))\<rparr>)"
      using same com room str sig True by (auto simp: run_state_def body_offset_Suc [OF i] add.commute less_Suc_eq)
    ultimately show ?thesis using ign True by (simp add: extract_content_def Let_def)
  next
    case False
    let ?path = "abs_path (content_comps rs m i)"
    have rd: "chunks_readable gz (rc_Chunks (mg_contents m ! i)) (drop (body_offset m i) body)" using good i False by (simp add: body_readable_def)
    obtain p1 where p1: "open_content no_os_faults (mg_contents (pl_manager p) ! i) p = (p1, Inr ?path)" "pl_manager p1 = pl_manager p"
      "pl_stream p1 = pl_stream p" "file_at (pl_disk p1) = (file_at (pl_disk p))(?path \<mapsto> [])" "disk_room rs m (pl_disk p1)"
      using open_content_run [OF lay i same room] by blast
    obtain p2 where p2: "extract_chunks no_os_faults gz ?path (rc_Chunks (mg_contents m ! i)) p1 = (p2, None)" "pl_manager p2 = pl_manager p"
      "pl_stream p2 = (drop (nat (total_compressed (mg_contents m ! i))) (fst (pl_stream p)), snd (pl_stream p))"
      "dk_dirs (pl_disk p2) = dk_dirs (pl_disk p1)" "\<And>q. q \<noteq> ?path \<Longrightarrow> file_at (pl_disk p2) q = file_at (pl_disk p1) q"
      using chunks_file [of gz "rc_Chunks (mg_contents m ! i)" p1 ?path "[]"] rd p1 str by (auto simp: total_compressed_def)
    have "disk_room rs m (pl_disk p2)"
      by (rule disk_room_cong [OF p1(5) p2(4), of ?path]) (use p2(5) content_not_dir [OF lay i] in blast)+
    moreover have "close_signal i p2 = (p2\<lparr>pl_manager := close_content i (pl_manager p)\<rparr>, None)"
      unfolding close_signal_None using sig [OF i] p2(2) by simp
    moreover have "rc_Signal (mg_contents (close_content i (pl_manager p)) ! j) = (if j < Suc i \<and> \<not> completed m j then ClosedChan else OpenChan)"
      if "j < length (mg_contents m)" for j
      using sig [OF that] False that i sm(1) by (cases "j = i") (auto simp: close_content_def less_Suc_eq)
    ultimately have "run_state rs m body (Suc i) (p2\<lparr>pl_manager := close_content i (pl_manager p)\<rparr>)"
      using same_manager_close [OF same] com p2(3) str by (simp add: run_state_def body_offset_Suc [OF i] add.commute)
    then show ?thesis
      using ign False p1(1) p2(1) \<open>close_signal i p2 = _\<close> sm(2) [OF i] by (simp add: extract_content_def Let_def)
  qed
qed

lemma extract_from_run:
  assumes lay: "image_layout rs m" and len: "length (mg_completedStack m) = length (mg_dest_layers m)" and good: "body_readable gz m body"
  shows "i \<le> length (mg_contents m) \<Longrightarrow> run_state rs m body i p \<Longrightarrow>
    \<exists>p'. extract_from no_os_faults gz [i..<length (mg_contents m)] p = (p', None) \<and> run_state rs m body (length (mg_contents m)) p'"
proof (induction "length (mg_contents m) - i" arbitrary: i p)
  case 0
  then show ?case by auto
next
  case (Suc k)
  then have i: "i < length (mg_contents m)" by simp
  obtain p1 where p1: "extract_content no_os_faults gz i p = (p1, None)" "run_state rs m body (Suc i) p1"
    using extract_content_run [OF lay i Suc.prems(2) len good] by blast
  have "k = length (mg_contents m) - Suc i" "Suc i \<le> length (mg_contents m)" using Suc.hyps(2) i by simp_all
  then obtain p2 where "extract_from no_os_faults gz [Suc i..<length (mg_contents m)] p1 = (p2, None)" "run_state rs m body (length (mg_contents m)) p2"
    using Suc.hyps(1) p1(2) by blast
  then show ?case using p1(1) i by (simp add: upt_conv_Cons)
qed

lemma complete_layers_run:
  assumes "\<forall>l \<in> set ls. path_dir (mark_file l) = rl_Local l \<and> rl_Local l \<in> set (dk_dirs (pl_disk p)) \<and> mark_file l \<notin> set (dk_dirs (pl_disk p))"
    "k + length ls \<le> length (mg_completedStack (pl_manager p))"
  shows "\<exists>p'. complete_layers no_os_faults msg k ls p = (p', Inr ()) \<and>
    pl_manager p' = (pl_manager p)\<lparr>mg_completedStack := take k (mg_completedStack (pl_manager p)) @ replicate (length ls) True @ drop (k + length ls) (mg_completedStack (pl_manager p))\<rparr> \<and>
    pl_stream p' = pl_stream p \<and> (\<forall>l \<in> set ls. file_at (pl_disk p') (mark_file l) = Some msg) \<and>
    (\<forall>q. q \<notin> mark_file ` set ls \<longrightarrow> file_at (pl_disk p') q = file_at (pl_disk p) q)"
  using assms
proof (induction ls arbitrary: k p)
  case Nil
  then show ?case by simp
next
  case (Cons l ls)
  let ?cs = "mg_completedStack (pl_manager p)"
  have l: "path_dir (mark_file l) = rl_Local l" "rl_Local l \<in> set (dk_dirs (pl_disk p))" "mark_file l \<notin> set (dk_dirs (pl_disk p))" using Cons.prems(1) by simp_all
  obtain d1 where d1: "Create no_os_faults (mark_file l) (pl_disk p) = (d1, None)" "dk_dirs d1 = dk_dirs (pl_disk p)"
    "file_at d1 = (file_at (pl_disk p))(mark_file l \<mapsto> [])" using Create_run [of "mark_file l" "pl_disk p"] l by auto
  let ?d = "write_file_at (mark_file l) msg d1"
  let ?p1 = "p\<lparr>pl_disk := ?d, pl_manager := (pl_manager p)\<lparr>mg_completedStack := ?cs[k := True]\<rparr>\<rparr>"
  have wf: "WriteFile no_os_faults (path_join [rl_Local l, ''completed.json'']) msg (pl_disk p) = (?d, None)"
    using d1(1) by (simp add: WriteFile_def mark_file_def no_os_faults_def)
  have k: "k < length ?cs" using Cons.prems(2) by simp
  obtain p' where p': "complete_layers no_os_faults msg (Suc k) ls ?p1 = (p', Inr ())"
    "pl_manager p' = (pl_manager ?p1)\<lparr>mg_completedStack := take (Suc k) (mg_completedStack (pl_manager ?p1)) @ replicate (length ls) True @ drop (Suc k + length ls) (mg_completedStack (pl_manager ?p1))\<rparr>"
    "pl_stream p' = pl_stream ?p1" "\<forall>l \<in> set ls. file_at (pl_disk p') (mark_file l) = Some msg"
    "\<forall>q. q \<notin> mark_file ` set ls \<longrightarrow> file_at (pl_disk p') q = file_at (pl_disk ?p1) q"
    using Cons.IH [of ?p1 "Suc k"] Cons.prems d1(2) by auto
  have "complete_layers no_os_faults msg k (l # ls) p = (p', Inr ())" using wf p'(1) k by (simp add: Let_def)
  moreover have "file_at (pl_disk p') (mark_file l) = Some msg" using p'(4,5) d1(3) by (cases "mark_file l \<in> mark_file ` set ls") auto
  ultimately show ?case using p' k d1(3) by (intro exI [of _ p']) (simp add: take_Suc_conv_app_nth)
qed

lemma Extract_succeeds:
  assumes lay: "image_layout rs m" and room: "disk_room rs m d" and len: "length (mg_completedStack m) = length (mg_dest_layers m)"
    and good: "body_readable gz m body" and sig: "\<forall>i < length (mg_contents m). rc_Signal (mg_contents m ! i) = OpenChan"
  shows "\<exists>m' d' s'. Extract no_os_faults gz msg m d (Some (body, err)) = ((m', d', s'), Inr ()) \<and> same_manager m m' \<and>
    (\<forall>i < length (mg_contents m). is_closed m' i \<longleftrightarrow> \<not> completed m i) \<and>
    mg_completedStack m' = replicate (length (mg_dest_layers m)) True \<and> (\<forall>l \<in> set (mg_dest_layers m). file_at d' (mark_file l) = Some msg)"
proof -
  let ?p = "\<lparr>pl_manager = m, pl_disk = d, pl_stream = (body, err)\<rparr>"
  have "run_state rs m body 0 ?p" using room sig by (simp add: run_state_def body_offset_def)
  then obtain p1 where p1: "extract_from no_os_faults gz [0..<length (mg_contents m)] ?p = (p1, None)" "run_state rs m body (length (mg_contents m)) p1"
    using extract_from_run [OF lay len good, of 0 ?p] by auto
  have same: "same_manager m (pl_manager p1)" and com: "mg_completedStack (pl_manager p1) = mg_completedStack m" and room1: "disk_room rs m (pl_disk p1)"
    using p1(2) by (simp_all add: run_state_def)
  have dir: "path_dir (mark_file l) = rl_Local l" if "l \<in> set (mg_dest_layers m)" for l
    using mark_file_layout [OF lay that] image_layout_layer(1,3) [OF lay that] path_dir_abs [of "layer_comps rs l" "''completed.json''"] by simp
  have "\<forall>l \<in> set (mg_dest_layers m). path_dir (mark_file l) = rl_Local l \<and> rl_Local l \<in> set (dk_dirs (pl_disk p1)) \<and> mark_file l \<notin> set (dk_dirs (pl_disk p1))"
    using room1 dir by (simp add: disk_room_def)
  from complete_layers_run [OF this, of 0 msg] len com obtain p2 where p2:
    "complete_layers no_os_faults msg 0 (mg_dest_layers m) p1 = (p2, Inr ())"
    "pl_manager p2 = (pl_manager p1)\<lparr>mg_completedStack := replicate (length (mg_dest_layers m)) True\<rparr>"
    "\<forall>l \<in> set (mg_dest_layers m). file_at (pl_disk p2) (mark_file l) = Some msg" by auto
  have dest: "mg_dest_layers (pl_manager p1) = mg_dest_layers m" using same_managerD(4) [OF same] .
  have "Extract no_os_faults gz msg m d (Some (body, err)) = ((pl_manager p2, pl_disk p2, pl_stream p2), Inr ())"
    using p1(1) p2(1) dest by (simp add: Extract_def)
  moreover have "same_manager m (pl_manager p2)" using same_manager_complete [OF same] by (simp add: p2(2))
  moreover have "is_closed (pl_manager p2) i \<longleftrightarrow> \<not> completed m i" if "i < length (mg_contents m)" for i
    using p1(2) that by (simp add: run_state_def is_closed_def p2(2))
  ultimately show ?thesis using p2(2,3) by (intro exI [of _ "pl_manager p2"] exI [of _ "pl_disk p2"] exI [of _ "pl_stream p2"]) simp
qed

text \<open>The files of the contents after \<^verbatim>\<open>Extract\<close>.\<close>

lemma Extract_stored:
  assumes lay: "image_layout rs m" and room: "disk_room rs m d" and len: "length (mg_completedStack m) = length (mg_dest_layers m)"
    and good: "body_readable gz m body" and sig: "\<forall>i < length (mg_contents m). rc_Signal (mg_contents m ! i) = OpenChan"
  shows "\<exists>m' d' s'. Extract no_os_faults gz msg m d (Some (body, err)) = ((m', d', s'), Inr ()) \<and>
    (\<forall>i < length (mg_contents m). is_closed m' i \<longleftrightarrow> \<not> completed m i) \<and>
    (\<forall>i < length (mg_contents m). completed m i \<or>
       (\<exists>path. content_file m (mg_contents m ! i) = Inr path \<and> file_at d' path = Some (content_data gz m body i))) \<and>
    mg_completedStack m' = replicate (length (mg_dest_layers m)) True \<and> (\<forall>l \<in> set (mg_dest_layers m). file_at d' (mark_file l) = Some msg)"
proof -
  obtain m' d' s' where ex: "Extract no_os_faults gz msg m d (Some (body, err)) = ((m', d', s'), Inr ())"
    and cl: "\<forall>i < length (mg_contents m). is_closed m' i \<longleftrightarrow> \<not> completed m i"
    and rest: "mg_completedStack m' = replicate (length (mg_dest_layers m)) True" "\<forall>l \<in> set (mg_dest_layers m). file_at d' (mark_file l) = Some msg"
    using Extract_succeeds [OF assms, of msg err] by (elim exE conjE) (rule that)
  obtain pc where reach: "extract_reachable no_os_faults gz msg \<lparr>pl_manager = m, pl_disk = d, pl_stream = (body, err)\<rparr>
      (pc, \<lparr>pl_manager = m', pl_disk = d', pl_stream = s'\<rparr>)" using Extract_run [OF ex] by blast
  have "extract_inv gz m body (pc, \<lparr>pl_manager = m', pl_disk = d', pl_stream = s'\<rparr>)"
    by (rule extract_reachable_inv [OF image_layout_apart [OF lay] reach]) (use sig in \<open>simp add: is_closed_def\<close>)
  then have "is_closed m' i \<Longrightarrow> i < length (mg_contents m) \<Longrightarrow> content_stored gz m body i d'" for i by (simp add: extract_inv_def)
  then have "\<forall>i < length (mg_contents m). completed m i \<or>
      (\<exists>path. content_file m (mg_contents m ! i) = Inr path \<and> file_at d' path = Some (content_data gz m body i))"
    using cl by (auto simp: content_stored_def)
  then show ?thesis using ex cl rest by (intro exI [of _ m'] exI [of _ d'] exI [of _ s']) simp
qed

section \<open>Properties\<close>

text \<open>
  C9: Extracting the body of a bundle. When the contents that the client lacks can be read from the body and the disk has room for
  them, \<^verbatim>\<open>Extract\<close> returns without an error, every such content is in its file with all the bytes of its chunks, its
  signal is closed, and every layer is marked as complete; the signals of the contents of layers that were there already stay
  open.
\<close>

theorem Extract_stores:
  assumes lay: "image_layout rs m" and room: "disk_room rs m d" and len: "length (mg_completedStack m) = length (mg_dest_layers m)"
    and good: "body_readable gz m body" and sig: "\<forall>i < length (mg_contents m). rc_Signal (mg_contents m ! i) = OpenChan"
  shows "\<exists>m' d' s'. Extract no_os_faults gz msg m d (Some (body, err)) = ((m', d', s'), Inr ()) \<and>
    (\<forall>i < length (mg_contents m). is_closed m' i \<longleftrightarrow> \<not> completed m i) \<and>
    (\<forall>i < length (mg_contents m). completed m i \<or>
       (\<exists>path. content_file m (mg_contents m ! i) = Inr path \<and> file_at d' path = Some (content_data gz m body i))) \<and>
    mg_completedStack m' = replicate (length (mg_dest_layers m)) True \<and> (\<forall>l \<in> set (mg_dest_layers m). file_at d' (mark_file l) = Some msg)"
  by (rule Extract_stored) (fact assms)+

text \<open>
  C10: No partial reads. While the contents are extracted, whatever fails on the way, a file of the image that waits for a
  content and resolves to its file is opened only when that file holds all the bytes of the content.
\<close>

definition waits_for :: "manager \<Rightarrow> fs_node \<Rightarrow> nat \<Rightarrow> bool" where
  "waits_for m n i \<longleftrightarrow> i < length (mg_contents m) \<and> r_Ready (mg_files m ! nd_File n) = Some i \<and>
     getRealPath (manager_interface m) n = content_file m (mg_contents m ! i)"

lemma getRealPath_same: "same_manager m m' \<Longrightarrow> getRealPath (manager_interface m') n = getRealPath (manager_interface m) n"
proof -
  assume m: "same_manager m m'"
  have "GetPathBySerial m' = GetPathBySerial m" using m by (intro ext) (simp add: GetPathBySerial_def same_manager_def)
  moreover have "GetPathByStack m' = GetPathByStack m"
    using m calculation by (intro ext) (simp add: GetPathByStack_def same_manager_def cong: sum.case_cong)
  ultimately show ?thesis using same_managerD(5) [OF m]
    by (simp add: getRealPath_def manager_interface_def cong: sum.case_cong prod.case_cong bool.case_cong)
qed

theorem no_partial_read:
  assumes apart: "files_apart m" and sig: "\<forall>i < length (mg_contents m). rc_Signal (mg_contents m ! i) = OpenChan"
    and reach: "extract_reachable os gz msg \<lparr>pl_manager = m, pl_disk = d, pl_stream = (body, err)\<rparr> (pc, p)"
    and w: "waits_for m n i" and opn: "Node_Open os' (manager_interface (pl_manager p)) n (pl_disk p) = (Opened path, lg)"
  shows "content_file m (mg_contents m ! i) = Inr path \<and> file_at (pl_disk p) path = Some (content_data gz m body i)"
proof -
  have inv: "extract_inv gz m body (pc, p)"
    by (rule extract_reachable_inv [OF apart reach]) (use sig in \<open>simp add: is_closed_def\<close>)
  then have same: "same_manager m (pl_manager p)" by (simp add: extract_inv_def)
  have ref: "mi_file (manager_interface (pl_manager p)) (nd_File n) = mg_files m ! nd_File n"
    using same_managerD(5) [OF same] by (simp add: manager_interface_def)
  have path: "content_file m (mg_contents m ! i) = Inr path" and ready: "\<not> waits (manager_interface (pl_manager p)) (mg_files m ! nd_File n)"
    using opn w unfolding Node_Open_def getRealPath_same [OF same] ref waits_for_def
    by (auto simp: sys_open_def split: sum.splits failure.splits option.splits if_splits)
  have "is_closed (pl_manager p) i" using ready w by (simp add: waits_def waits_for_def manager_interface_def is_closed_def)
  then have "content_stored gz m body i (pl_disk p)" using inv w by (simp add: extract_inv_def waits_for_def)
  then show ?thesis using path by (auto simp: content_stored_def)
qed

end
