(* ===== verification/Manager_Tree.thy ===== *)
theory Manager_Tree
  imports Manager_Store
begin

text \<open>
  What \<^verbatim>\<open>Init\<close> builds: the layers by serial and stack, the files of every layer by their names, and the tree that the file
  system serves. The laws of the interface \<^verbatim>\<open>ImageManager\<close> that the file system relies on are a locale, which an initialised
  manager satisfies.
\<close>

section \<open>Layers and signals\<close>

lemma init_locals_Inr:
  "init_locals fsroot ls = Inr ls' \<Longrightarrow>
     length ls' = length ls \<and> (\<forall>i < length ls. layer_directory fsroot (rl_Hash (ls ! i)) = Inr (rl_Local (ls' ! i)) \<and>
        ls' ! i = (ls ! i)\<lparr>rl_Local := rl_Local (ls' ! i)\<rparr>)"
proof (induction ls arbitrary: ls')
  case (Cons l ls)
  then obtain d ls1 where "layer_directory fsroot (rl_Hash l) = Inr d" "init_locals fsroot ls = Inr ls1" "ls' = l\<lparr>rl_Local := d\<rparr> # ls1"
    by (auto split: sum.splits)
  then show ?case using Cons.IH [of ls1] by (auto simp: nth_Cons split: nat.splits)
qed simp

text \<open>The layers of a serial are the last ones of that serial.\<close>

lemma fold_layers_some: "map_of (fold (\<lambda>l. AList.update (rl_Serial l) l) ls m) s = Some l \<Longrightarrow> l \<in> set ls \<and> rl_Serial l = s \<or> map_of m s = Some l"
proof (induction ls arbitrary: m)
  case (Cons a ls)
  then have "l \<in> set ls \<and> rl_Serial l = s \<or> map_of (AList.update (rl_Serial a) a m) s = Some l" by simp
  then show ?case by (auto simp: update_conv' split: if_splits)
qed simp

lemma fold_layers_dom: "s \<in> rl_Serial ` set ls \<or> map_of m s \<noteq> None \<Longrightarrow> \<exists>l. map_of (fold (\<lambda>l. AList.update (rl_Serial l) l) ls m) s = Some l"
proof (induction ls arbitrary: m)
  case (Cons l ls)
  have "s \<in> rl_Serial ` set ls \<or> map_of (AList.update (rl_Serial l) l m) s \<noteq> None" using Cons.prems by (auto simp: update_conv')
  from Cons.IH [OF this] show ?case by simp
qed auto

lemma link_signals_Inr:
  "link_signals n fs = Inr fs' \<Longrightarrow> length fs' = length fs \<and> (\<forall>i < length fs. fs' ! i = (fs ! i)\<lparr>r_Ready := r_Ready (fs' ! i)\<rparr> \<and>
     (r_Ready (fs' ! i) = (if InPayload (fs ! i) then Some (nat (r_PayloadOrder (fs ! i))) else None)) \<and> (InPayload (fs ! i) \<longrightarrow> r_PayloadOrder (fs ! i) < int n))"
proof (induction fs arbitrary: fs')
  case (Cons f fs)
  then obtain f1 fs1 where f1: "link_signal n f = Inr f1" "link_signals n fs = Inr fs1" "fs' = f1 # fs1" by (auto split: sum.splits)
  have "f1 = f\<lparr>r_Ready := r_Ready f1\<rparr> \<and> r_Ready f1 = (if InPayload f then Some (nat (r_PayloadOrder f)) else None) \<and> (InPayload f \<longrightarrow> r_PayloadOrder f < int n)"
    using f1(1) by (auto simp: link_signal_def split: if_splits)
  then show ?case using Cons.IH [OF f1(2)] f1(3) by (auto simp: nth_Cons split: nat.splits)
qed simp

section \<open>Files by name\<close>

text \<open>What the files keep while their tree is linked: all but the children and the fields that a whiteout or an opaque directory changes.\<close>

definition core :: "referenced_file \<Rightarrow> referenced_file" where
  "core f = f\<lparr>r_children := [], r_TOC := (r_TOC f)\<lparr>e_Name := [], e_Xattrs := [], e_DevMinor := 0, e_DevMajor := 0, e_GID := 0, e_UID := 0, e_Mode := 0\<rparr>\<rparr>"

lemma core_fields:
  assumes "core f = core g"
  shows "r_Stack f = r_Stack g" "r_Ready f = r_Ready g" "r_Ino f = r_Ino g" "r_Mode f = r_Mode g" "r_ReferenceFsId f = r_ReferenceFsId g"
    "r_ReferenceStack f = r_ReferenceStack g" "e_Digest (r_TOC f) = e_Digest (r_TOC g)" "e_Size (r_TOC f) = e_Size (r_TOC g)"
    "e_Type (r_TOC f) = e_Type (r_TOC g)" "r_PayloadOrder f = r_PayloadOrder g"
proof -
  note eq = assms [unfolded core_def]
  show "r_Stack f = r_Stack g" using arg_cong [OF eq, of r_Stack] by simp
  show "r_Ready f = r_Ready g" using arg_cong [OF eq, of r_Ready] by simp
  show "r_Ino f = r_Ino g" using arg_cong [OF eq, of r_Ino] by simp
  show "r_Mode f = r_Mode g" using arg_cong [OF eq, of r_Mode] by simp
  show "r_ReferenceFsId f = r_ReferenceFsId g" using arg_cong [OF eq, of r_ReferenceFsId] by simp
  show "r_ReferenceStack f = r_ReferenceStack g" using arg_cong [OF eq, of r_ReferenceStack] by simp
  show "e_Digest (r_TOC f) = e_Digest (r_TOC g)" using arg_cong [OF eq, of "\<lambda>x. e_Digest (r_TOC x)"] by simp
  show "e_Size (r_TOC f) = e_Size (r_TOC g)" using arg_cong [OF eq, of "\<lambda>x. e_Size (r_TOC x)"] by simp
  show "e_Type (r_TOC f) = e_Type (r_TOC g)" using arg_cong [OF eq, of "\<lambda>x. e_Type (r_TOC x)"] by simp
  show "r_PayloadOrder f = r_PayloadOrder g" using arg_cong [OF eq, of r_PayloadOrder] by simp
qed

lemma core_simps [simp]:
  "core (AppendChild f c) = core f" "core (set_opaque f) = core f" "core (make_whiteout d b f) = core f"
  "core (f\<lparr>r_TOC := (r_TOC f)\<lparr>e_Name := nm\<rparr>\<rparr>) = core f"
  by (simp_all add: core_def AppendChild_def set_opaque_def make_whiteout_def)

lemma build_lookup_Inr:
  assumes "build_lookup fs i tables = Inr tables'"
  shows "length tables' = length tables \<and> (\<forall>f \<in> set fs. 0 \<le> r_Stack f \<and> r_Stack f < int (length tables)) \<and>
    (\<forall>s < length tables. distinct (keys (tables ! s)) \<longrightarrow> distinct (keys (tables' ! s))) \<and>
    (\<forall>s < length tables. \<forall>fn k. map_of (tables' ! s) fn = Some k \<longrightarrow>
       map_of (tables ! s) fn = Some k \<or> (\<exists>j < length fs. k = i + j \<and> r_Stack (fs ! j) = int s \<and> GetName (fs ! j) = fn)) \<and>
    (\<forall>s < length tables. \<forall>fn. map_of (tables ! s) fn \<noteq> None \<or> (\<exists>f \<in> set fs. r_Stack f = int s \<and> GetName f = fn) \<longrightarrow> map_of (tables' ! s) fn \<noteq> None)"
  using assms
proof (induction fs arbitrary: i tables)
  case (Cons f fs)
  let ?s = "nat (r_Stack f)"
  let ?t = "tables[?s := AList.update (GetName f) i (tables ! ?s)]"
  from Cons.prems have st: "0 \<le> r_Stack f" "r_Stack f < int (length tables)" and rest: "build_lookup fs (i + 1) ?t = Inr tables'"
    by (auto split: if_splits)
  have ih_len: "length tables' = length ?t" and ih_set: "\<forall>f \<in> set fs. 0 \<le> r_Stack f \<and> r_Stack f < int (length ?t)"
    and ih_keys: "\<forall>s < length ?t. distinct (keys (?t ! s)) \<longrightarrow> distinct (keys (tables' ! s))"
    and ih_some: "\<forall>s < length ?t. \<forall>fn k. map_of (tables' ! s) fn = Some k \<longrightarrow>
       map_of (?t ! s) fn = Some k \<or> (\<exists>j < length fs. k = i + 1 + j \<and> r_Stack (fs ! j) = int s \<and> GetName (fs ! j) = fn)"
    and ih_none: "\<forall>s < length ?t. \<forall>fn. map_of (?t ! s) fn \<noteq> None \<or> (\<exists>f \<in> set fs. r_Stack f = int s \<and> GetName f = fn) \<longrightarrow> map_of (tables' ! s) fn \<noteq> None"
    using Cons.IH [OF rest] by blast+
  have len: "length ?t = length tables" by simp
  have one: "map_of (?t ! s) fn = (if int s = r_Stack f \<and> fn = GetName f then Some i else map_of (tables ! s) fn)" if "s < length tables" for s fn
    using st that by (cases "s = ?s") (auto simp: update_conv')
  have "distinct (keys (?t ! s))" if "s < length tables" "distinct (keys (tables ! s))" for s
    using that st by (cases "s = ?s") auto
  moreover have "map_of (tables ! s) fn = Some k \<or> (\<exists>j < length (f # fs). k = i + j \<and> r_Stack ((f # fs) ! j) = int s \<and> GetName ((f # fs) ! j) = fn)"
    if s: "s < length tables" and k: "map_of (tables' ! s) fn = Some k" for s fn k
  proof -
    from ih_some s k len have "map_of (?t ! s) fn = Some k \<or> (\<exists>j < length fs. k = i + 1 + j \<and> r_Stack (fs ! j) = int s \<and> GetName (fs ! j) = fn)" by metis
    then show ?thesis
    proof
      assume "map_of (?t ! s) fn = Some k"
      then show ?thesis unfolding one [OF s] by (auto split: if_splits intro: exI [of _ 0])
    next
      assume "\<exists>j < length fs. k = i + 1 + j \<and> r_Stack (fs ! j) = int s \<and> GetName (fs ! j) = fn"
      then obtain j where "j < length fs" "k = i + 1 + j" "r_Stack (fs ! j) = int s" "GetName (fs ! j) = fn" by blast
      then show ?thesis by (intro disjI2 exI [of _ "Suc j"]) simp
    qed
  qed
  moreover have "map_of (tables' ! s) fn \<noteq> None"
    if s: "s < length tables" and "map_of (tables ! s) fn \<noteq> None \<or> (\<exists>g \<in> set (f # fs). r_Stack g = int s \<and> GetName g = fn)" for s fn
  proof -
    have "map_of (?t ! s) fn \<noteq> None \<or> (\<exists>g \<in> set fs. r_Stack g = int s \<and> GetName g = fn)" using that(2) unfolding one [OF s] by auto
    then show ?thesis using ih_none s len by metis
  qed
  moreover have "\<forall>s < length tables. distinct (keys (tables ! s)) \<longrightarrow> distinct (keys (tables' ! s))"
    using ih_keys calculation(1) len by metis
  ultimately show ?case using ih_len ih_set st len by (intro conjI allI impI) auto
qed simp

section \<open>Linking one layer\<close>

text \<open>A table is injective when different names have different files, and its files are in range.\<close>

definition table_inj :: "nat \<Rightarrow> (string \<times> nat) list \<Rightarrow> bool" where
  "table_inj n layer \<longleftrightarrow> distinct (keys layer) \<and> (\<forall>fn i. map_of layer fn = Some i \<longrightarrow> i < n) \<and>
     (\<forall>fn gn i. map_of layer fn = Some i \<and> map_of layer gn = Some i \<longrightarrow> fn = gn)"

text \<open>Names that make their directory opaque.\<close>

definition opaque_entry :: "(string \<times> nat) list \<Rightarrow> string \<Rightarrow> bool" where
  "opaque_entry layer fn \<longleftrightarrow> fn \<noteq> ''.'' \<and> path_base fn = opaque_name \<and> map_of layer (path_dir fn) \<noteq> None"

text \<open>
  The state of the loop after the names \<open>done\<close> have been visited. No directory is named like an opaque marker.
\<close>

definition linked_state :: "(string \<times> nat) list \<Rightarrow> referenced_file list \<Rightarrow> string list \<Rightarrow> (string \<times> nat) list \<times> referenced_file list \<Rightarrow> bool" where
  "linked_state layer0 files0 fin s \<longleftrightarrow>
     length (snd s) = length files0 \<and>
     (\<forall>i < length files0. core (snd s ! i) = core (files0 ! i)) \<and>
     (\<forall>fn. map_of (fst s) fn = (if fn \<in> set fin \<and> opaque_entry layer0 fn then None else map_of layer0 fn)) \<and>
     distinct (keys (fst s)) \<and>
     (\<forall>d p. map_of layer0 d = Some p \<longrightarrow>
        r_children (snd s ! p) = r_children (files0 ! p) @ map (\<lambda>fn. the (map_of layer0 fn)) (filter (child_name d) fin)) \<and>
     (\<forall>i < length files0. (\<forall>fn. map_of layer0 fn \<noteq> Some i) \<longrightarrow> snd s ! i = files0 ! i) \<and>
     (\<forall>fn i. map_of layer0 fn = Some i \<longrightarrow> GetName (snd s ! i) =
        (if fn \<in> set fin \<and> fn \<noteq> ''.'' \<and> \<not> opaque_entry layer0 fn \<and> is_whiteout fn \<and> map_of layer0 (path_dir fn) \<noteq> None
         then path_join [path_dir fn, trim_prefix whiteout_prefix (path_base fn)] else GetName (files0 ! i)))"

lemma linked_state_step:
  assumes inj: "table_inj (length files0) layer0" and fn: "map_of layer0 fn = Some i" "fn \<notin> set fin"
    and nodir: "\<forall>gn. map_of layer0 gn \<noteq> None \<longrightarrow> path_base (path_dir gn) \<noteq> opaque_name"
    and st: "linked_state layer0 files0 fin s"
  shows "linked_state layer0 files0 (fin @ [fn]) (link_file fn s)"
proof -
  obtain layer files where s: "s = (layer, files)" by fastforce
  have len: "length files = length files0" and cores: "\<And>j. j < length files0 \<Longrightarrow> core (files ! j) = core (files0 ! j)"
    and maps: "\<And>gn. map_of layer gn = (if gn \<in> set fin \<and> opaque_entry layer0 gn then None else map_of layer0 gn)"
    and dist: "distinct (keys layer)"
    and chil: "\<And>d p. map_of layer0 d = Some p \<Longrightarrow>
        r_children (files ! p) = r_children (files0 ! p) @ map (\<lambda>fn. the (map_of layer0 fn)) (filter (child_name d) fin)"
    and rest: "\<And>j. j < length files0 \<Longrightarrow> (\<forall>fn. map_of layer0 fn \<noteq> Some j) \<Longrightarrow> files ! j = files0 ! j"
    and names: "\<And>gn j. map_of layer0 gn = Some j \<Longrightarrow> GetName (files ! j) =
        (if gn \<in> set fin \<and> gn \<noteq> ''.'' \<and> \<not> opaque_entry layer0 gn \<and> is_whiteout gn \<and> map_of layer0 (path_dir gn) \<noteq> None
         then path_join [path_dir gn, trim_prefix whiteout_prefix (path_base gn)] else GetName (files0 ! j))"
    using st unfolding linked_state_def s fst_conv snd_conv by blast+
  have range: "\<And>gn j. map_of layer0 gn = Some j \<Longrightarrow> j < length files0" and uniq: "\<And>gn hn j. map_of layer0 gn = Some j \<Longrightarrow> map_of layer0 hn = Some j \<Longrightarrow> gn = hn"
    using inj unfolding table_inj_def by blast+
  let ?d = "path_dir fn"
  have dmap: "map_of layer ?d = map_of layer0 ?d"
    using nodir fn(1) unfolding maps by (auto simp: opaque_entry_def)
  have fnmap: "map_of layer fn = Some i" using fn by (simp add: maps)
  consider (keep) "fn = ''.'' \<or> map_of layer0 ?d = None"
    | (opq) p where "fn \<noteq> ''.''" "map_of layer0 ?d = Some p" "path_base fn = opaque_name"
    | (child) p where "fn \<noteq> ''.''" "map_of layer0 ?d = Some p" "path_base fn \<noteq> opaque_name" by fastforce
  then show ?thesis
  proof cases
    case keep
    have eq: "link_file fn s = (layer, files)" using keep fnmap dmap by (auto simp: link_file_def s Let_def)
    have op: "\<not> opaque_entry layer0 fn" using keep by (auto simp: opaque_entry_def)
    have nc: "\<not> child_name d fn" if "map_of layer0 d = Some p" for d p using that keep by (auto simp: child_name_def)
    show ?thesis unfolding eq linked_state_def fst_conv snd_conv
    proof (intro conjI allI impI)
      show "map_of layer gn = (if gn \<in> set (fin @ [fn]) \<and> opaque_entry layer0 gn then None else map_of layer0 gn)" for gn
        using maps [of gn] op by auto
      show "r_children (files ! p) = r_children (files0 ! p) @ map (\<lambda>fn. the (map_of layer0 fn)) (filter (child_name d) (fin @ [fn]))"
        if "map_of layer0 d = Some p" for d p using chil [OF that] nc [OF that] by simp
      show "GetName (files ! j) =
        (if gn \<in> set (fin @ [fn]) \<and> gn \<noteq> ''.'' \<and> \<not> opaque_entry layer0 gn \<and> is_whiteout gn \<and> map_of layer0 (path_dir gn) \<noteq> None
         then path_join [path_dir gn, trim_prefix whiteout_prefix (path_base gn)] else GetName (files0 ! j))" if "map_of layer0 gn = Some j" for gn j
        using names [OF that] keep by auto
    qed (use len cores dist rest in auto)
  next
    case opq
    have eq: "link_file fn s = (AList.delete fn layer, files[p := set_opaque (files ! p)])"
      using opq fnmap dmap by (simp add: link_file_def s Let_def)
    have op: "opaque_entry layer0 fn" using opq by (simp add: opaque_entry_def)
    have nc: "\<not> child_name d fn" for d using opq by (simp add: child_name_def)
    have p: "p < length files" using range [OF opq(2)] len by simp
    have nm: "GetName (files[p := set_opaque (files ! p)] ! j) = GetName (files ! j)" for j
      using p by (cases "j = p") (simp_all add: GetName_def set_opaque_def)
    have ch: "r_children (files[p := set_opaque (files ! p)] ! j) = r_children (files ! j)" for j
      using p by (cases "j = p") (simp_all add: set_opaque_def)
    show ?thesis unfolding eq linked_state_def fst_conv snd_conv
    proof (intro conjI allI impI)
      show "map_of (AList.delete fn layer) gn = (if gn \<in> set (fin @ [fn]) \<and> opaque_entry layer0 gn then None else map_of layer0 gn)" for gn
        using maps [of gn] op by (auto simp: delete_conv')
      show "distinct (keys (AList.delete fn layer))" using dist by (simp add: keys_def distinct_delete)
      fix j assume j: "j < length files0"
      show "core (files[p := set_opaque (files ! p)] ! j) = core (files0 ! j)" using cores [OF j] p by (cases "j = p") simp_all
      show "files[p := set_opaque (files ! p)] ! j = files0 ! j" if "\<forall>fn. map_of layer0 fn \<noteq> Some j"
        using rest [OF j that] opq(2) that by (cases "j = p") simp_all
    next
      show "GetName (files[p := set_opaque (files ! p)] ! j) =
        (if gn \<in> set (fin @ [fn]) \<and> gn \<noteq> ''.'' \<and> \<not> opaque_entry layer0 gn \<and> is_whiteout gn \<and> map_of layer0 (path_dir gn) \<noteq> None
         then path_join [path_dir gn, trim_prefix whiteout_prefix (path_base gn)] else GetName (files0 ! j))" if "map_of layer0 gn = Some j" for gn j
        using names [OF that] op by (auto simp: nm)
    qed (use len chil nc in \<open>simp_all add: ch\<close>)
  next
    case child
    let ?files1 = "files[p := AppendChild (files ! p) i]"
    let ?files2 = "if is_whiteout fn then ?files1[i := make_whiteout ?d (path_base fn) (?files1 ! i)] else ?files1"
    have eq: "link_file fn s = (layer, ?files2)"
      using child fnmap dmap by (simp add: link_file_def s Let_def is_whiteout_def)
    have op: "\<not> opaque_entry layer0 fn" using child by (simp add: opaque_entry_def)
    have cn: "child_name d fn \<longleftrightarrow> d = ?d" for d using child by (auto simp: child_name_def)
    have p: "p < length files" and i: "i < length files" using range [OF child(2)] range [OF fn(1)] len by simp_all
    have ch: "r_children (?files2 ! j) = r_children (files ! j) @ (if j = p then [i] else [])" for j
      using p i by (cases "j = i"; cases "j = p") (simp_all add: AppendChild_def make_whiteout_def)
    have nm: "GetName (?files2 ! j) = (if j = i \<and> is_whiteout fn then path_join [?d, trim_prefix whiteout_prefix (path_base fn)] else GetName (files ! j))" for j
      using p i by (cases "j = i"; cases "j = p") (simp_all add: GetName_def AppendChild_def make_whiteout_def)
    have co: "core (?files2 ! j) = core (files ! j)" for j
      using p i by (cases "j = i"; cases "j = p") simp_all
    show ?thesis unfolding eq linked_state_def fst_conv snd_conv
    proof (intro conjI allI impI)
      show "length ?files2 = length files0" using len by simp
      show "map_of layer gn = (if gn \<in> set (fin @ [fn]) \<and> opaque_entry layer0 gn then None else map_of layer0 gn)" for gn
        using maps [of gn] op by auto
      show "distinct (keys layer)" by (rule dist)
      fix j assume j: "j < length files0"
      show "core (?files2 ! j) = core (files0 ! j)" using co cores [OF j] by simp
      show "?files2 ! j = files0 ! j" if "\<forall>fn. map_of layer0 fn \<noteq> Some j"
        using rest [OF j that] child(2) fn(1) that by (cases "j = p"; cases "j = i") simp_all
    next
      fix d q assume d: "map_of layer0 d = Some q"
      have "q = p \<longleftrightarrow> d = ?d" using uniq [OF d, of ?d] child(2) d by (metis option.inject)
      then show "r_children (?files2 ! q) = r_children (files0 ! q) @ map (\<lambda>fn. the (map_of layer0 fn)) (filter (child_name d) (fin @ [fn]))"
        using ch [of q] chil [OF d] cn [of d] fn(1) by simp
    next
      fix gn j assume g: "map_of layer0 gn = Some j"
      have "j = i \<longleftrightarrow> gn = fn" using uniq [OF g, of fn] fn(1) g by (metis option.inject)
      then show "GetName (?files2 ! j) =
        (if gn \<in> set (fin @ [fn]) \<and> gn \<noteq> ''.'' \<and> \<not> opaque_entry layer0 gn \<and> is_whiteout gn \<and> map_of layer0 (path_dir gn) \<noteq> None
         then path_join [path_dir gn, trim_prefix whiteout_prefix (path_base gn)] else GetName (files0 ! j))"
        using nm [of j] names [OF g] op child fn(2) by auto
    qed
  qed
qed

lemma linked_state_fold:
  assumes inj: "table_inj (length files0) layer0" and nodir: "\<forall>gn. map_of layer0 gn \<noteq> None \<longrightarrow> path_base (path_dir gn) \<noteq> opaque_name"
  shows "distinct fin \<Longrightarrow> set fin \<subseteq> dom (map_of layer0) \<Longrightarrow> linked_state layer0 files0 fin (fold link_file fin (layer0, files0))"
proof (induction fin rule: rev_induct)
  case Nil
  show ?case using inj by (auto simp: linked_state_def table_inj_def)
next
  case (snoc fn fin)
  then obtain i where "map_of layer0 fn = Some i" by auto
  then show ?case using linked_state_step [OF inj _ _ nodir] snoc by simp
qed

text \<open>A layer once it is linked, in terms of its table and files before.\<close>

definition linked_layer :: "(string \<times> nat) list \<Rightarrow> referenced_file list \<Rightarrow> (string \<times> nat) list \<Rightarrow> referenced_file list \<Rightarrow> bool" where
  "linked_layer layer files layer' files' \<longleftrightarrow>
     length files' = length files \<and> (\<forall>i < length files. core (files' ! i) = core (files ! i)) \<and>
     (\<forall>i < length files. (\<forall>fn. map_of layer fn \<noteq> Some i) \<longrightarrow> files' ! i = files ! i) \<and>
     (\<forall>fn. map_of layer' fn = (if opaque_entry layer fn then None else map_of layer fn)) \<and> distinct (keys layer') \<and>
     (\<forall>d p. map_of layer d = Some p \<longrightarrow> distinct (r_children (files' ! p)) \<and>
        set (r_children (files' ! p)) = {i. \<exists>fn. child_name d fn \<and> map_of layer fn = Some i}) \<and>
     (\<forall>fn i. map_of layer fn = Some i \<longrightarrow> GetName (files' ! i) =
        (if fn \<noteq> ''.'' \<and> \<not> opaque_entry layer fn \<and> is_whiteout fn \<and> map_of layer (path_dir fn) \<noteq> None
         then path_join [path_dir fn, trim_prefix whiteout_prefix (path_base fn)] else GetName (files ! i)))"

lemma linked_fold_layer:
  assumes inj: "table_inj (length files) layer" and nodir: "\<forall>gn. map_of layer gn \<noteq> None \<longrightarrow> path_base (path_dir gn) \<noteq> opaque_name"
    and iter: "mset (iter (keys layer)) = mset (keys layer)" and fresh: "\<And>fn i. map_of layer fn = Some i \<Longrightarrow> r_children (files ! i) = []"
    and run: "fold link_file (iter (keys layer)) (layer, files) = (layer', files')"
  shows "linked_layer layer files layer' files'"
proof -
  let ?ks = "iter (keys layer)"
  have set: "set ?ks = dom (map_of layer)" using mset_eq_setD [OF iter] set_keys by metis
  have dist: "distinct ?ks" using inj mset_eq_imp_distinct_iff [OF iter] by (simp add: table_inj_def)
  have st: "linked_state layer files ?ks (layer', files')" using linked_state_fold [OF inj nodir dist] set run by simp
  have range: "\<And>gn j. map_of layer gn = Some j \<Longrightarrow> j < length files" and uniq: "\<And>gn hn j. map_of layer gn = Some j \<Longrightarrow> map_of layer hn = Some j \<Longrightarrow> gn = hn"
    using inj unfolding table_inj_def by blast+
  have children: "distinct (r_children (files' ! p)) \<and> set (r_children (files' ! p)) = {i. \<exists>fn. child_name d fn \<and> map_of layer fn = Some i}"
    if d: "map_of layer d = Some p" for d p
  proof -
    have ch: "r_children (files' ! p) = map (\<lambda>fn. the (map_of layer fn)) (filter (child_name d) ?ks)"
      using st d fresh [OF d] unfolding linked_state_def by simp
    have in_dom: "\<And>fn. fn \<in> set (filter (child_name d) ?ks) \<Longrightarrow> \<exists>i. map_of layer fn = Some i" using set by auto
    have "inj_on (\<lambda>fn. the (map_of layer fn)) (set (filter (child_name d) ?ks))"
      using in_dom uniq by (intro inj_onI) (metis option.sel)
    moreover have "distinct (filter (child_name d) ?ks)" using dist by simp
    ultimately have "distinct (r_children (files' ! p))" unfolding ch by (simp add: distinct_map)
    moreover have "set (r_children (files' ! p)) = {i. \<exists>fn. child_name d fn \<and> map_of layer fn = Some i}"
      unfolding ch using set by force
    ultimately show ?thesis by blast
  qed
  have vis: "(gn \<in> set ?ks \<and> P) = P" if "P \<Longrightarrow> map_of layer gn \<noteq> None" for gn P using that set by auto
  have names: "GetName (files' ! i) = (if fn \<noteq> ''.'' \<and> \<not> opaque_entry layer fn \<and> is_whiteout fn \<and> map_of layer (path_dir fn) \<noteq> None
         then path_join [path_dir fn, trim_prefix whiteout_prefix (path_base fn)] else GetName (files ! i))" if "map_of layer fn = Some i" for fn i
    using st that vis [of _ fn] unfolding linked_state_def by simp
  have maps: "map_of layer' fn = (if opaque_entry layer fn then None else map_of layer fn)" for fn
  proof -
    have "map_of layer' fn = (if fn \<in> set ?ks \<and> opaque_entry layer fn then None else map_of layer fn)"
      using st unfolding linked_state_def by simp
    then show ?thesis using set by (cases "map_of layer fn") auto
  qed
  show ?thesis unfolding linked_layer_def
    using st children names maps unfolding linked_state_def fst_conv snd_conv by blast
qed

section \<open>A layer and its tree\<close>

text \<open>The table of a layer once the root has moved to the dot, and when the names of the table can be linked.\<close>

definition root_table :: "(string \<times> nat) list \<Rightarrow> (string \<times> nat) list" where
  "root_table t = (case map_of t [] of None \<Rightarrow> [] | Some r \<Rightarrow> AList.delete [] (AList.update ''.'' r t))"

definition names_ok :: "(string \<times> nat) list \<Rightarrow> referenced_file list \<Rightarrow> bool" where
  "names_ok t files \<longleftrightarrow> table_inj (length files) t \<and>
     (\<forall>fn i. map_of t fn = Some i \<longrightarrow> canonical fn \<and> GetName (files ! i) = fn \<and> r_children (files ! i) = [] \<and> path_base (path_dir fn) \<noteq> opaque_name)"

definition layer_tree :: "(string \<times> nat) list \<Rightarrow> (string \<times> nat) list \<Rightarrow> referenced_file list \<Rightarrow> bool" where
  "layer_tree t t' files' \<longleftrightarrow> map_of t [] \<noteq> None \<and> distinct (keys t') \<and>
     (\<forall>fn. map_of t' fn = (if opaque_entry (root_table t) fn then None else map_of (root_table t) fn)) \<and>
     (\<forall>d p. map_of (root_table t) d = Some p \<longrightarrow> distinct (r_children (files' ! p)) \<and>
        set (r_children (files' ! p)) = {i. \<exists>fn. child_name d fn \<and> map_of (root_table t) fn = Some i}) \<and>
     (\<forall>fn i. map_of (root_table t) fn = Some i \<longrightarrow> GetName (files' ! i) =
        (if fn \<noteq> ''.'' \<and> \<not> opaque_entry (root_table t) fn \<and> is_whiteout fn \<and> map_of (root_table t) (path_dir fn) \<noteq> None
         then path_join [path_dir fn, trim_prefix whiteout_prefix (path_base fn)] else fn))"

lemma dot_not_canonical: "\<not> canonical ''.''"
  by (simp add: canonical_def normal_comp_def)

lemma map_of_root_table:
  "map_of t [] = Some r \<Longrightarrow> map_of (root_table t) fn = (if fn = [] then None else if fn = ''.'' then Some r else map_of t fn)"
  by (simp add: root_table_def delete_conv' update_conv')

lemma path_base_path_dir_dot: "path_base (path_dir ''.'') \<noteq> opaque_name"
  by code_simp

lemma names_ok_root:
  assumes ok: "names_ok t files" and r: "map_of t [] = Some r"
  defines "files1 \<equiv> files[r := (files ! r)\<lparr>r_TOC := (r_TOC (files ! r))\<lparr>e_Name := ''.''\<rparr>\<rparr>]"
  shows "table_inj (length files1) (root_table t)" "\<forall>gn. map_of (root_table t) gn \<noteq> None \<longrightarrow> path_base (path_dir gn) \<noteq> opaque_name"
    "map_of (root_table t) fn = Some i \<Longrightarrow> GetName (files1 ! i) = fn \<and> r_children (files1 ! i) = []"
    "i < length files \<Longrightarrow> core (files1 ! i) = core (files ! i)" "i \<noteq> r \<Longrightarrow> files1 ! i = files ! i"
    "map_of (root_table t) fn = Some i \<Longrightarrow> (\<exists>gn. map_of t gn = Some i)" "\<exists>fn. map_of (root_table t) fn = Some r"
proof -
  have range: "\<And>gn j. map_of t gn = Some j \<Longrightarrow> j < length files" and uniq: "\<And>gn hn j. map_of t gn = Some j \<Longrightarrow> map_of t hn = Some j \<Longrightarrow> gn = hn"
    and dist: "distinct (keys t)" using ok unfolding names_ok_def table_inj_def by blast+
  have nm: "\<And>gn j. map_of t gn = Some j \<Longrightarrow> canonical gn \<and> GetName (files ! j) = gn \<and> r_children (files ! j) = [] \<and> path_base (path_dir gn) \<noteq> opaque_name"
    using ok unfolding names_ok_def by blast
  note rt = map_of_root_table [OF r]
  have nodot: "map_of t ''.'' = None" using nm dot_not_canonical by (cases "map_of t ''.''") auto
  have dk: "distinct (keys (root_table t))" using dist r by (simp add: root_table_def keys_def distinct_delete distinct_update)
  show "table_inj (length files1) (root_table t)"
    unfolding table_inj_def
  proof (intro conjI allI impI)
    show "distinct (keys (root_table t))" by (rule dk)
    show "i < length files1" if "map_of (root_table t) fn = Some i" for fn i
      using that range r by (auto simp: rt files1_def split: if_splits)
    fix fn gn i assume "map_of (root_table t) fn = Some i \<and> map_of (root_table t) gn = Some i"
    then show "fn = gn" using uniq [of fn i gn] uniq [of fn i "[]"] uniq [of gn i "[]"] r by (auto simp: rt split: if_splits)
  qed
  show "\<forall>gn. map_of (root_table t) gn \<noteq> None \<longrightarrow> path_base (path_dir gn) \<noteq> opaque_name"
    using nm path_base_path_dir_dot by (auto simp: rt split: if_splits)
  show "GetName (files1 ! i) = fn \<and> r_children (files1 ! i) = []" if "map_of (root_table t) fn = Some i"
  proof (cases "fn = ''.''")
    case True
    then have "i = r" using that by (simp add: rt)
    then show ?thesis using True range [OF r] nm [OF r] by (simp add: files1_def GetName_def)
  next
    case False
    then have f: "map_of t fn = Some i" "fn \<noteq> []" using that by (auto simp: rt split: if_splits)
    then have "i \<noteq> r" using uniq [of fn i "[]"] r by auto
    then show ?thesis using nm [OF f(1)] by (simp add: files1_def)
  qed
  show "core (files1 ! i) = core (files ! i)" if "i < length files" using that by (cases "i = r") (simp_all add: files1_def)
  show "i \<noteq> r \<Longrightarrow> files1 ! i = files ! i" by (simp add: files1_def)
  show "\<exists>gn. map_of t gn = Some i" if "map_of (root_table t) fn = Some i" using that r by (auto simp: rt split: if_splits)
  show "\<exists>fn. map_of (root_table t) fn = Some r" by (rule exI [of _ "''.''"]) (simp add: rt)
qed

lemma link_layer_tree:
  assumes ok: "names_ok t files" and iter: "\<And>ks. mset (iter ks) = mset ks" and run: "link_layer iter t files = Inr (t', files')"
  shows "layer_tree t t' files'" "length files' = length files" "i < length files \<Longrightarrow> core (files' ! i) = core (files ! i)"
    "i < length files \<Longrightarrow> \<forall>fn. map_of t fn \<noteq> Some i \<Longrightarrow> files' ! i = files ! i"
proof -
  obtain r where r: "map_of t [] = Some r" using run by (auto simp: link_layer_def move_root_def split: option.splits)
  let ?files1 = "files[r := (files ! r)\<lparr>r_TOC := (r_TOC (files ! r))\<lparr>e_Name := ''.''\<rparr>\<rparr>]"
  note root = names_ok_root [OF ok r]
  have mv: "move_root t files = Inr (root_table t, ?files1)" using r by (simp add: move_root_def root_table_def)
  have fo: "fold link_file (iter (keys (root_table t))) (root_table t, ?files1) = (t', files')"
    using run by (simp add: link_layer_def mv)
  have ll: "linked_layer (root_table t) ?files1 t' files'"
  proof (rule linked_fold_layer [where iter = iter])
    show "table_inj (length ?files1) (root_table t)" by (rule root(1))
    show "\<forall>gn. map_of (root_table t) gn \<noteq> None \<longrightarrow> path_base (path_dir gn) \<noteq> opaque_name" by (rule root(2))
    show "mset (iter (keys (root_table t))) = mset (keys (root_table t))" by (rule iter)
    show "fold link_file (iter (keys (root_table t))) (root_table t, ?files1) = (t', files')" by (rule fo)
    show "r_children (?files1 ! i) = []" if "map_of (root_table t) fn = Some i" for fn i using root(3) [OF that] by simp
  qed
  then show "length files' = length files" by (simp add: linked_layer_def)
  show "core (files' ! i) = core (files ! i)" if "i < length files" using ll root(4) [OF that] that by (simp add: linked_layer_def)
  show "files' ! i = files ! i" if i: "i < length files" and no: "\<forall>fn. map_of t fn \<noteq> Some i"
  proof -
    have "\<forall>fn. map_of (root_table t) fn \<noteq> Some i" using root(6) no by blast
    moreover have "i \<noteq> r" using no r by blast
    ultimately show ?thesis using ll i root(5) by (simp add: linked_layer_def)
  qed
  have "GetName (files' ! i) = (if fn \<noteq> ''.'' \<and> \<not> opaque_entry (root_table t) fn \<and> is_whiteout fn \<and> map_of (root_table t) (path_dir fn) \<noteq> None
         then path_join [path_dir fn, trim_prefix whiteout_prefix (path_base fn)] else fn)" if "map_of (root_table t) fn = Some i" for fn i
  proof -
    have "GetName (files' ! i) = (if fn \<noteq> ''.'' \<and> \<not> opaque_entry (root_table t) fn \<and> is_whiteout fn \<and> map_of (root_table t) (path_dir fn) \<noteq> None
         then path_join [path_dir fn, trim_prefix whiteout_prefix (path_base fn)] else GetName (?files1 ! i))"
      using ll that unfolding linked_layer_def by blast
    then show ?thesis by (simp only: root(3) [OF that, THEN conjunct1])
  qed
  moreover have "map_of t [] \<noteq> None" using r by simp
  ultimately show "layer_tree t t' files'" using ll unfolding layer_tree_def linked_layer_def by blast
qed

section \<open>All layers\<close>

definition in_table :: "(string \<times> nat) list \<Rightarrow> nat \<Rightarrow> bool" where
  "in_table t i \<longleftrightarrow> (\<exists>fn. map_of t fn = Some i)"

lemma names_ok_cong: "names_ok t files \<Longrightarrow> length files' = length files \<Longrightarrow> (\<And>i. in_table t i \<Longrightarrow> files' ! i = files ! i) \<Longrightarrow> names_ok t files'"
  unfolding names_ok_def in_table_def by (metis (no_types, lifting))

lemma in_root_table: "map_of t [] \<noteq> None \<Longrightarrow> map_of (root_table t) fn = Some i \<Longrightarrow> in_table t i"
  by (auto simp: map_of_root_table in_table_def split: if_splits)

lemma layer_tree_cong:
  assumes "layer_tree t t' files" "\<And>i. in_table t i \<Longrightarrow> files' ! i = files ! i"
  shows "layer_tree t t' files'"
proof -
  have "files' ! i = files ! i" if "map_of (root_table t) fn = Some i" for fn i
    using assms in_root_table [OF _ that] unfolding layer_tree_def by blast
  note eq = this
  show ?thesis unfolding layer_tree_def
  proof (intro conjI allI impI)
    fix d p assume d: "map_of (root_table t) d = Some p"
    show "distinct (r_children (files' ! p))" "set (r_children (files' ! p)) = {i. \<exists>fn. child_name d fn \<and> map_of (root_table t) fn = Some i}"
      using assms(1) d unfolding layer_tree_def eq [OF d] by blast+
  next
    fix fn i assume i: "map_of (root_table t) fn = Some i"
    show "GetName (files' ! i) = (if fn \<noteq> ''.'' \<and> \<not> opaque_entry (root_table t) fn \<and> is_whiteout fn \<and> map_of (root_table t) (path_dir fn) \<noteq> None
         then path_join [path_dir fn, trim_prefix whiteout_prefix (path_base fn)] else fn)"
      using assms(1) i unfolding layer_tree_def eq [OF i] by blast
  qed (use assms(1) in \<open>auto simp: layer_tree_def\<close>)
qed

lemma link_all_tree:
  assumes iter: "\<And>ks. mset (iter ks) = mset ks"
  shows "link_all iter ts files = Inr (ts', files') \<Longrightarrow> \<forall>t \<in> set ts. names_ok t files \<Longrightarrow>
    \<forall>a < length ts. \<forall>b < length ts. a \<noteq> b \<longrightarrow> (\<forall>i. \<not> (in_table (ts ! a) i \<and> in_table (ts ! b) i)) \<Longrightarrow>
    length ts' = length ts \<and> length files' = length files \<and> (\<forall>i < length files. core (files' ! i) = core (files ! i)) \<and>
    (\<forall>i < length files. (\<forall>t \<in> set ts. \<not> in_table t i) \<longrightarrow> files' ! i = files ! i) \<and>
    (\<forall>k < length ts. layer_tree (ts ! k) (ts' ! k) files')"
proof (induction ts arbitrary: files ts')
  case Nil
  then show ?case by simp
next
  case (Cons t ts)
  from Cons.prems(1) obtain t1 files1 ts1 where one: "link_layer iter t files = Inr (t1, files1)"
    and rest: "link_all iter ts files1 = Inr (ts1, files')" and ts': "ts' = t1 # ts1" by (auto split: sum.splits)
  have ok: "names_ok t files" using Cons.prems(2) by simp
  note ll = link_layer_tree [OF ok iter one]
  have apart: "\<not> (in_table t i \<and> in_table (ts ! b) i)" if "b < length ts" for b i
    using Cons.prems(3) [rule_format, of 0 "Suc b" i] that by simp
  have apart_set: "\<not> (in_table t i \<and> in_table u i)" if "u \<in> set ts" for u i using apart that by (metis in_set_conv_nth)
  have range: "\<And>u i. u \<in> set (t # ts) \<Longrightarrow> in_table u i \<Longrightarrow> i < length files"
    using Cons.prems(2) unfolding names_ok_def table_inj_def in_table_def by blast
  have same1: "files1 ! i = files ! i" if "i < length files" "\<not> in_table t i" for i
    using ll(4) [OF that(1)] that(2) by (simp add: in_table_def)
  have "\<forall>u \<in> set ts. names_ok u files1"
  proof
    fix u assume u: "u \<in> set ts"
    show "names_ok u files1"
    proof (rule names_ok_cong [OF _ ll(2)])
      show "names_ok u files" using Cons.prems(2) u by simp
      show "files1 ! i = files ! i" if "in_table u i" for i
        using same1 [of i] apart_set [OF u] that range [of u i] u by auto
    qed
  qed
  moreover have "\<forall>a < length ts. \<forall>b < length ts. a \<noteq> b \<longrightarrow> (\<forall>i. \<not> (in_table (ts ! a) i \<and> in_table (ts ! b) i))"
  proof (intro allI impI)
    fix a b i assume "a < length ts" "b < length ts" "a \<noteq> b"
    then show "\<not> (in_table (ts ! a) i \<and> in_table (ts ! b) i)" using Cons.prems(3) [rule_format, of "Suc a" "Suc b" i] by simp
  qed
  ultimately have ih: "length ts1 = length ts" "length files' = length files1" "\<forall>i < length files1. core (files' ! i) = core (files1 ! i)"
    "\<forall>i < length files1. (\<forall>t \<in> set ts. \<not> in_table t i) \<longrightarrow> files' ! i = files1 ! i" "\<forall>k < length ts. layer_tree (ts ! k) (ts1 ! k) files'"
    using Cons.IH [OF rest] by blast+
  have "layer_tree t t1 files'"
  proof (rule layer_tree_cong [OF ll(1)])
    show "files' ! i = files1 ! i" if "in_table t i" for i
      using ih(4) ll(2) range [of t i] that apart_set by auto
  qed
  then have trees: "layer_tree ((t # ts) ! k) (ts' ! k) files'" if "k < length (t # ts)" for k
    using ih(5) that ts' by (cases k) simp_all
  have "length ts' = length (t # ts)" "length files' = length files" using ih(1,2) ll(2) ts' by simp_all
  moreover have "core (files' ! i) = core (files ! i)" if "i < length files" for i using ih(3) ll(2) ll(3) [OF that] that by simp
  moreover have "files' ! i = files ! i" if "i < length files" "\<forall>u \<in> set (t # ts). \<not> in_table u i" for i
    using ih(4) ll(2) same1 [OF that(1)] that by simp
  ultimately show ?case using trees by blast
qed

section \<open>An initialised manager\<close>

text \<open>The names that a bundle brings: they are canonical, and none lies below an opaque marker.\<close>

definition bundle_names_ok :: "rbundle \<Rightarrow> bool" where
  "bundle_names_ok b \<longleftrightarrow> (\<forall>f \<in> set (rb_RequestedFiles b).
     canonical (GetName f) \<and> r_children f = [] \<and> path_base (path_dir (GetName f)) \<noteq> opaque_name)"

text \<open>A layer of a manager whose tree is linked.\<close>

definition tree_valid :: "manager \<Rightarrow> int \<Rightarrow> bool" where
  "tree_valid m k \<longleftrightarrow> 0 \<le> k \<and> k < int (length (mg_fileLookUpMap m)) \<and>
     (\<exists>t. layer_tree t (mg_fileLookUpMap m ! nat k) (mg_files m) \<and>
        (\<forall>fn i. map_of t fn = Some i \<longrightarrow> canonical fn \<and> path_base (path_dir fn) \<noteq> opaque_name))"

lemma tree_valid_lookup:
  assumes "tree_valid m k"
  shows "LookUpFile m k fn = Inr (map_of (mg_fileLookUpMap m ! nat k) fn)"
  using assms by (simp add: tree_valid_def LookUpFile_def at_index_def)

lemma child_of_opaque: "\<forall>fn i. map_of t fn = Some i \<longrightarrow> canonical fn \<and> path_base (path_dir fn) \<noteq> opaque_name \<Longrightarrow> map_of t [] = Some r \<Longrightarrow>
    map_of (root_table t) fn = Some i \<Longrightarrow> \<not> opaque_entry (root_table t) (path_dir fn)"
  using path_base_path_dir_dot by (auto simp: opaque_entry_def map_of_root_table split: if_splits)

interpretation manager_files: image_tree manager_interface tree_valid
proof
  fix m k
  assume v: "tree_valid m k"
  let ?T = "mg_fileLookUpMap m ! nat k"
  have lu: "mi_LookUpFile (manager_interface m) k fn = Inr (map_of ?T fn)" for fn
    using tree_valid_lookup [OF v] by (simp add: manager_interface_def)
  have fl: "mi_file (manager_interface m) i = mg_files m ! i" for i by (simp add: manager_interface_def)
  obtain t where t: "layer_tree t ?T (mg_files m)" "\<forall>fn i. map_of t fn = Some i \<longrightarrow> canonical fn \<and> path_base (path_dir fn) \<noteq> opaque_name"
    using v unfolding tree_valid_def by blast
  obtain r where r: "map_of t [] = Some r" using t(1) by (auto simp: layer_tree_def)
  note rt = map_of_root_table [OF r]
  have maps: "map_of ?T fn = (if opaque_entry (root_table t) fn then None else map_of (root_table t) fn)" for fn
    using t(1) unfolding layer_tree_def by blast
  have names: "map_of (root_table t) fn = Some i \<Longrightarrow> GetName (mg_files m ! i) =
        (if fn \<noteq> ''.'' \<and> \<not> opaque_entry (root_table t) fn \<and> is_whiteout fn \<and> map_of (root_table t) (path_dir fn) \<noteq> None
         then path_join [path_dir fn, trim_prefix whiteout_prefix (path_base fn)] else fn)" for fn i
    using t(1) unfolding layer_tree_def by blast
  show "is_ok (mi_LookUpFile (manager_interface m) k fn)" for fn by (simp add: lu)
  show "\<exists>i. mi_LookUpFile (manager_interface m) k ''.'' = Inr (Some i) \<and> GetName (mi_file (manager_interface m) i) = ''.''"
  proof (intro exI conjI)
    have "map_of (root_table t) ''.'' = Some r" by (simp add: rt)
    then show "mi_LookUpFile (manager_interface m) k ''.'' = Inr (Some r)" "GetName (mi_file (manager_interface m) r) = ''.''"
      using names [of "''.''" r] by (simp_all add: lu maps fl opaque_entry_def)
  qed
  show "canonical fn \<and> fn \<noteq> []" if "mi_LookUpFile (manager_interface m) k fn = Inr (Some i)" "fn \<noteq> ''.''" for fn i
    using that t(2) by (auto simp: lu maps rt split: if_splits)
  show "GetName (mi_file (manager_interface m) i) = fn" if "mi_LookUpFile (manager_interface m) k fn = Inr (Some i)" "\<not> is_whiteout fn" for fn i
  proof -
    have "map_of (root_table t) fn = Some i" using that(1) by (auto simp: lu maps split: if_splits)
    then show ?thesis using names that(2) by (simp add: fl)
  qed
  show "set (r_children (mi_file (manager_interface m) p)) = {i. \<exists>fn. child_name d fn \<and> mi_LookUpFile (manager_interface m) k fn = Inr (Some i)}"
    if "mi_LookUpFile (manager_interface m) k d = Inr (Some p)" for d p
  proof -
    have d: "map_of (root_table t) d = Some p" using that by (auto simp: lu maps split: if_splits)
    have "set (r_children (mg_files m ! p)) = {i. \<exists>fn. child_name d fn \<and> map_of (root_table t) fn = Some i}"
      using t(1) d unfolding layer_tree_def by blast
    also have "\<dots> = {i. \<exists>fn. child_name d fn \<and> map_of ?T fn = Some i}"
      by (auto simp: maps opaque_entry_def child_name_def)
    finally show ?thesis by (simp add: fl lu)
  qed
qed

lemma init_layers_Inr:
  assumes "init_layers m = Inr m'"
  obtains ds ss where "init_locals (mg_FileSystemRoot m) (mg_dest_layers m) = Inr ds"
    "case rb_Source (mg_bundle m) of None \<Rightarrow> ss = [] | Some src \<Rightarrow> init_locals (mg_FileSystemRoot m) (ri_Layers src) = Inr ss"
    "mg_layers m' = fold (\<lambda>l. AList.update (rl_Serial l) l) (ds @ ss) []" "mg_stackSerialMap m' = map rl_Serial ds" "mg_dest_layers m' = ds"
    "mg_contents m' = mg_contents m" "mg_files m' = mg_files m" "mg_tracer m' = mg_tracer m" "mg_FileSystemRoot m' = mg_FileSystemRoot m"
proof -
  obtain ds where ds: "init_locals (mg_FileSystemRoot m) (mg_dest_layers m) = Inr ds"
    using assms by (auto simp: init_layers_def Let_def split: sum.splits)
  show thesis
  proof (cases "rb_Source (mg_bundle m)")
    case None
    then show thesis using assms ds by (intro that [of ds "[]"]) (auto simp: init_layers_def Let_def)
  next
    case (Some src)
    then obtain ss where "init_locals (mg_FileSystemRoot m) (ri_Layers src) = Inr ss"
      using assms ds by (auto simp: init_layers_def Let_def split: sum.splits)
    then show thesis using assms ds Some by (intro that [of ds ss]) (auto simp: init_layers_def Let_def)
  qed
qed

lemma init_signals_Inr:
  assumes "init_signals ready b = Inr b'"
  shows "rb_Destination b' = rb_Destination b \<and> length (rb_Contents b') = length (rb_Contents b) \<and>
    (\<forall>i < length (rb_Contents b). same_content (rb_Contents b ! i) (rb_Contents b' ! i) \<and> (ready \<or> rc_Signal (rb_Contents b' ! i) = OpenChan)) \<and>
    length (rb_RequestedFiles b') = length (rb_RequestedFiles b) \<and>
    (\<forall>i < length (rb_RequestedFiles b). rb_RequestedFiles b' ! i = (rb_RequestedFiles b ! i)\<lparr>r_Ready := r_Ready (rb_RequestedFiles b' ! i)\<rparr> \<and>
      (ready \<or> r_Ready (rb_RequestedFiles b' ! i) = (if InPayload (rb_RequestedFiles b ! i) then Some (nat (r_PayloadOrder (rb_RequestedFiles b ! i))) else None)) \<and>
      (ready \<or> (InPayload (rb_RequestedFiles b ! i) \<longrightarrow> r_PayloadOrder (rb_RequestedFiles b ! i) < int (length (rb_Contents b)))))"
proof (cases ready)
  case True
  then show ?thesis using assms by (auto simp: init_signals_def same_content_def)
next
  case False
  then obtain fs where fs: "link_signals (length (rb_Contents b)) (rb_RequestedFiles b) = Inr fs"
    "b' = b\<lparr>rb_Contents := map (\<lambda>c. c\<lparr>rc_Signal := OpenChan\<rparr>) (rb_Contents b), rb_RequestedFiles := fs\<rparr>"
    using assms by (auto simp: init_signals_def split: sum.splits)
  have e: "rb_RequestedFiles b' = fs" "rb_Contents b' = map (\<lambda>c. c\<lparr>rc_Signal := OpenChan\<rparr>) (rb_Contents b)" "rb_Destination b' = rb_Destination b"
    by (simp_all add: fs(2))
  have c: "\<forall>i < length (rb_Contents b). same_content (rb_Contents b ! i) (map (\<lambda>c. c\<lparr>rc_Signal := OpenChan\<rparr>) (rb_Contents b) ! i) \<and>
      (ready \<or> rc_Signal (map (\<lambda>c. c\<lparr>rc_Signal := OpenChan\<rparr>) (rb_Contents b) ! i) = OpenChan)" by (simp add: same_content_def)
  have len: "length (map (\<lambda>c. c\<lparr>rc_Signal := OpenChan\<rparr>) (rb_Contents b)) = length (rb_Contents b)" by simp
  show ?thesis unfolding e using link_signals_Inr [OF fs(1)] c len by blast
qed

lemma Init_Inr:
  assumes "Init address ptime iter fsroot traces ready dfs dg m = Inr m'"
  obtains m2 b files tables files' where
    "init_layers (m\<lparr>mg_FileSystemRoot := fsroot, mg_TracesDir := traces, mg_layers := [], mg_stackSerialMap := [], mg_fs := [],
       mg_DiffIDs := dfs, mg_manifestDigest := dg\<rparr>) = Inr m2"
    "init_signals ready (mg_bundle m2) = Inr b"
    "files = map (\<lambda>(i, f). init_attrs address ptime i f) (List.enumerate 0 (rb_RequestedFiles b))"
    "build_lookup files 0 (replicate (length (ri_Layers (rb_Destination b))) []) = Inr tables"
    "link_all iter tables files = Inr (mg_fileLookUpMap m', files')"
    "m' = m2\<lparr>mg_bundle := b\<lparr>rb_RequestedFiles := files'\<rparr>, mg_fileLookUpMap := mg_fileLookUpMap m'\<rparr>"
proof -
  let ?m1 = "m\<lparr>mg_FileSystemRoot := fsroot, mg_TracesDir := traces, mg_layers := [], mg_stackSerialMap := [], mg_fs := [],
       mg_DiffIDs := dfs, mg_manifestDigest := dg\<rparr>"
  obtain m2 where m2: "init_layers ?m1 = Inr m2" using assms by (auto simp: Init_def Let_def split: sum.splits)
  obtain b where b: "init_signals ready (mg_bundle m2) = Inr b" using assms m2 by (auto simp: Init_def Let_def split: sum.splits)
  let ?files = "map (\<lambda>(i, f). init_attrs address ptime i f) (List.enumerate 0 (rb_RequestedFiles b))"
  obtain tables where t: "build_lookup ?files 0 (replicate (length (ri_Layers (rb_Destination b))) []) = Inr tables"
    using assms m2 b by (auto simp: Init_def Let_def split: sum.splits)
  obtain tables' files' where l: "link_all iter tables ?files = Inr (tables', files')"
    using assms m2 b t by (auto simp: Init_def Let_def split: sum.splits)
  have m': "m' = m2\<lparr>mg_bundle := b\<lparr>rb_RequestedFiles := files'\<rparr>, mg_fileLookUpMap := tables'\<rparr>"
    using assms m2 b t l by (simp add: Init_def Let_def)
  then have "mg_fileLookUpMap m' = tables'" by simp
  then show thesis using that [OF m2 b refl t] l m' by simp
qed

lemma init_attrs_simps [simp]:
  "GetName (init_attrs address ptime i f) = GetName f" "r_children (init_attrs address ptime i f) = r_children f"
  "r_Stack (init_attrs address ptime i f) = r_Stack f" "r_Ready (init_attrs address ptime i f) = r_Ready f"
  "r_ReferenceFsId (init_attrs address ptime i f) = r_ReferenceFsId f" "r_ReferenceStack (init_attrs address ptime i f) = r_ReferenceStack f"
  "e_Digest (r_TOC (init_attrs address ptime i f)) = e_Digest (r_TOC f)" "e_Size (r_TOC (init_attrs address ptime i f)) = e_Size (r_TOC f)"
  "e_Type (r_TOC (init_attrs address ptime i f)) = e_Type (r_TOC f)" "r_PayloadOrder (init_attrs address ptime i f) = r_PayloadOrder f"
  "r_Ino (init_attrs address ptime i f) = address i" "r_Mode (init_attrs address ptime i f) = modeOfEntry (r_TOC f)"
  by (simp_all add: init_attrs_def Let_def GetName_def InitFuseStableAttr_def InitModTime_def)

text \<open>The tables that are built from the files, before they are linked.\<close>

lemma build_lookup_ok:
  assumes run: "build_lookup files 0 (replicate n []) = Inr tables"
    and names: "\<forall>f \<in> set files. canonical (GetName f) \<and> r_children f = [] \<and> path_base (path_dir (GetName f)) \<noteq> opaque_name"
  shows "length tables = n" "\<forall>t \<in> set tables. names_ok t files"
    "\<forall>a < length tables. \<forall>b < length tables. a \<noteq> b \<longrightarrow> (\<forall>i. \<not> (in_table (tables ! a) i \<and> in_table (tables ! b) i))"
    "\<And>s fn i. s < n \<Longrightarrow> map_of (tables ! s) fn = Some i \<Longrightarrow> i < length files \<and> r_Stack (files ! i) = int s \<and> GetName (files ! i) = fn"
    "\<And>f. f \<in> set files \<Longrightarrow> 0 \<le> r_Stack f \<and> r_Stack f < int n"
    "\<And>f. f \<in> set files \<Longrightarrow> \<exists>i. map_of (tables ! nat (r_Stack f)) (GetName f) = Some i"
proof -
  note bl = build_lookup_Inr [OF run, unfolded length_replicate]
  show len: "length tables = n" using bl by blast
  have entry: "i < length files \<and> r_Stack (files ! i) = int s \<and> GetName (files ! i) = fn" if "s < n" "map_of (tables ! s) fn = Some i" for s fn i
  proof -
    have "map_of (replicate n [] ! s) fn = Some i \<or> (\<exists>j < length files. i = 0 + j \<and> r_Stack (files ! j) = int s \<and> GetName (files ! j) = fn)"
      using bl that by blast
    then show ?thesis using that(1) by auto
  qed
  then show "\<And>s fn i. s < n \<Longrightarrow> map_of (tables ! s) fn = Some i \<Longrightarrow> i < length files \<and> r_Stack (files ! i) = int s \<and> GetName (files ! i) = fn" by blast
  show st: "0 \<le> r_Stack f \<and> r_Stack f < int n" if "f \<in> set files" for f using bl that by blast
  show "\<exists>i. map_of (tables ! nat (r_Stack f)) (GetName f) = Some i" if "f \<in> set files" for f
  proof -
    have s: "nat (r_Stack f) < n" "r_Stack f = int (nat (r_Stack f))" using st [OF that] by auto
    then have "map_of (tables ! nat (r_Stack f)) (GetName f) \<noteq> None" using bl that by blast
    then show ?thesis by blast
  qed
  show "\<forall>t \<in> set tables. names_ok t files"
  proof
    fix t assume "t \<in> set tables"
    then obtain s where s: "s < n" "t = tables ! s" using len by (auto simp: in_set_conv_nth)
    have "distinct (keys (replicate n [] ! s))" using s(1) by (simp add: keys_def)
    then have "distinct (keys t)" using bl s by blast
    moreover have "canonical fn \<and> GetName (files ! i) = fn \<and> r_children (files ! i) = [] \<and> path_base (path_dir fn) \<noteq> opaque_name"
      if "map_of t fn = Some i" for fn i
      using entry [OF s(1)] that names nth_mem s(2) by fastforce
    moreover have "fn = gn" if "map_of t fn = Some i" "map_of t gn = Some i" for fn gn i
      using entry [OF s(1), of fn i] entry [OF s(1), of gn i] that s(2) by auto
    moreover have "i < length files" if "map_of t fn = Some i" for fn i using entry [OF s(1)] that s(2) by blast
    ultimately show "names_ok t files" unfolding names_ok_def table_inj_def by blast
  qed
  show "\<forall>a < length tables. \<forall>b < length tables. a \<noteq> b \<longrightarrow> (\<forall>i. \<not> (in_table (tables ! a) i \<and> in_table (tables ! b) i))"
  proof (intro allI impI notI)
    fix a b i assume ab: "a < length tables" "b < length tables" "a \<noteq> b" and "in_table (tables ! a) i \<and> in_table (tables ! b) i"
    then obtain fn gn where "map_of (tables ! a) fn = Some i" "map_of (tables ! b) gn = Some i" by (auto simp: in_table_def)
    then have "r_Stack (files ! i) = int a" "r_Stack (files ! i) = int b" using entry [of a fn i] entry [of b gn i] ab len by simp_all
    then show False using ab(3) by simp
  qed
qed

lemma map_enumerate_nth: "i < length xs \<Longrightarrow> map (\<lambda>(i, x). f i x) (List.enumerate 0 xs) ! i = f i (xs ! i)"
  by (simp add: nth_enumerate_eq)

text \<open>What \<^verbatim>\<open>Init\<close> makes of the files: everything but the children, the ready channel and the stable attributes is kept where it counts.\<close>

lemma Init_tables:
  assumes run: "Init address ptime iter fsroot traces ready dfs dg m = Inr m'" and iter: "\<And>ks. mset (iter ks) = mset ks"
    and names: "bundle_names_ok (mg_bundle m)"
  obtains files tables where "length files = length (mg_files m)"
    "\<And>i. i < length files \<Longrightarrow> GetName (files ! i) = GetName (mg_files m ! i) \<and> r_Stack (files ! i) = r_Stack (mg_files m ! i) \<and>
       e_Digest (r_TOC (files ! i)) = e_Digest (r_TOC (mg_files m ! i)) \<and> r_ReferenceFsId (files ! i) = r_ReferenceFsId (mg_files m ! i) \<and>
       r_ReferenceStack (files ! i) = r_ReferenceStack (mg_files m ! i) \<and> e_Size (r_TOC (files ! i)) = e_Size (r_TOC (mg_files m ! i)) \<and>
       (ready \<or> r_Ready (files ! i) = (if InPayload (mg_files m ! i) then Some (nat (r_PayloadOrder (mg_files m ! i))) else None))"
    "length tables = length (mg_dest_layers m)" "length (mg_fileLookUpMap m') = length tables" "length (mg_files m') = length files"
    "\<And>i. i < length files \<Longrightarrow> core (mg_files m' ! i) = core (files ! i)"
    "\<And>k. k < length tables \<Longrightarrow> layer_tree (tables ! k) (mg_fileLookUpMap m' ! k) (mg_files m') \<and> names_ok (tables ! k) files"
    "\<And>k fn i. k < length tables \<Longrightarrow> map_of (tables ! k) fn = Some i \<Longrightarrow> i < length files \<and> r_Stack (files ! i) = int k \<and> GetName (files ! i) = fn"
    "\<And>f. f \<in> set (mg_files m) \<Longrightarrow> 0 \<le> r_Stack f \<and> r_Stack f < int (length tables) \<and> (\<exists>i. map_of (tables ! nat (r_Stack f)) (GetName f) = Some i)"
proof -
  obtain m2 b files tables files' where
    m2: "init_layers (m\<lparr>mg_FileSystemRoot := fsroot, mg_TracesDir := traces, mg_layers := [], mg_stackSerialMap := [], mg_fs := [],
       mg_DiffIDs := dfs, mg_manifestDigest := dg\<rparr>) = Inr m2"
    and b: "init_signals ready (mg_bundle m2) = Inr b"
    and files: "files = map (\<lambda>(i, f). init_attrs address ptime i f) (List.enumerate 0 (rb_RequestedFiles b))"
    and t: "build_lookup files 0 (replicate (length (ri_Layers (rb_Destination b))) []) = Inr tables"
    and l: "link_all iter tables files = Inr (mg_fileLookUpMap m', files')"
    and m': "m' = m2\<lparr>mg_bundle := b\<lparr>rb_RequestedFiles := files'\<rparr>, mg_fileLookUpMap := mg_fileLookUpMap m'\<rparr>"
    by (rule Init_Inr [OF run])
  obtain ds ss where ds: "init_locals fsroot (mg_dest_layers m) = Inr ds" "mg_dest_layers m2 = ds" "mg_files m2 = mg_files m"
    by (rule init_layers_Inr [OF m2]) simp
  note sig = init_signals_Inr [OF b]
  have len: "length files = length (mg_files m)" using sig ds(3) files by simp
  have nl: "length (ri_Layers (rb_Destination b)) = length (mg_dest_layers m)" using sig ds(1,2) init_locals_Inr [OF ds(1)] by simp
  have fld: "GetName (files ! i) = GetName (mg_files m ! i) \<and> r_Stack (files ! i) = r_Stack (mg_files m ! i) \<and>
       e_Digest (r_TOC (files ! i)) = e_Digest (r_TOC (mg_files m ! i)) \<and> r_ReferenceFsId (files ! i) = r_ReferenceFsId (mg_files m ! i) \<and>
       r_ReferenceStack (files ! i) = r_ReferenceStack (mg_files m ! i) \<and> e_Size (r_TOC (files ! i)) = e_Size (r_TOC (mg_files m ! i)) \<and>
       (ready \<or> r_Ready (files ! i) = (if InPayload (mg_files m ! i) then Some (nat (r_PayloadOrder (mg_files m ! i))) else None)) \<and>
       r_children (files ! i) = r_children (mg_files m ! i)"
    if "i < length files" for i
  proof -
    let ?g = "rb_RequestedFiles b ! i"
    have i: "i < length (rb_RequestedFiles b)" "i < length (mg_files m2)" using that files sig by simp_all
    have f: "files ! i = init_attrs address ptime i ?g" unfolding files using i(1) by (rule map_enumerate_nth)
    have g: "?g = (mg_files m ! i)\<lparr>r_Ready := r_Ready ?g\<rparr>" using sig i(2) ds(3) by metis
    have rd: "ready \<or> r_Ready ?g = (if InPayload (mg_files m ! i) then Some (nat (r_PayloadOrder (mg_files m ! i))) else None)"
      using sig i(2) ds(3) by metis
    obtain x where x: "?g = (mg_files m ! i)\<lparr>r_Ready := x\<rparr>" using g by blast
    show ?thesis unfolding f init_attrs_simps using rd unfolding x by (simp add: GetName_def)
  qed
  have ok: "\<forall>f \<in> set files. canonical (GetName f) \<and> r_children f = [] \<and> path_base (path_dir (GetName f)) \<noteq> opaque_name"
  proof
    fix f assume "f \<in> set files"
    then obtain i where i: "i < length files" "f = files ! i" by (auto simp: in_set_conv_nth)
    then have "mg_files m ! i \<in> set (mg_files m)" using len by simp
    then show "canonical (GetName f) \<and> r_children f = [] \<and> path_base (path_dir (GetName f)) \<noteq> opaque_name"
      using fld [OF i(1)] i(2) names unfolding bundle_names_ok_def by simp
  qed
  note bo = build_lookup_ok [OF t ok]
  note la = link_all_tree [where iter = iter, OF iter l bo(2,3)]
  have mf: "mg_files m' = files'" by (subst m') simp
  have "0 \<le> r_Stack f \<and> r_Stack f < int (length tables) \<and> (\<exists>i. map_of (tables ! nat (r_Stack f)) (GetName f) = Some i)" if f: "f \<in> set (mg_files m)" for f
  proof -
    obtain i where i: "i < length files" "f = mg_files m ! i" using f len by (auto simp: in_set_conv_nth)
    then have "files ! i \<in> set files" by simp
    then show ?thesis using bo(1) bo(5,6) [of "files ! i"] fld [OF i(1)] i(2) by simp
  qed
  then show thesis
  proof (intro that [OF len, of tables])
    show "length tables = length (mg_dest_layers m)" using bo(1) nl by simp
    show "length (mg_fileLookUpMap m') = length tables" "length (mg_files m') = length files" using la mf by blast+
    show "core (mg_files m' ! i) = core (files ! i)" if "i < length files" for i using la mf that by simp
    show "layer_tree (tables ! k) (mg_fileLookUpMap m' ! k) (mg_files m') \<and> names_ok (tables ! k) files" if "k < length tables" for k
      using la mf bo(2) that by simp
    show "i < length files \<and> r_Stack (files ! i) = int k \<and> GetName (files ! i) = fn" if "k < length tables" "map_of (tables ! k) fn = Some i" for k fn i
      using bo(4) [of k fn i] bo(1) that by simp
  qed (use fld in blast)+
qed

end
