(* ===== verification/Client_Files.thy ===== *)
theory Client_Files
  imports Manager_Tree
begin

text \<open>
  The properties of the file system of an image on the client: what \<^verbatim>\<open>Init\<close> builds is found, listing and looking up agree
  except for whiteouts, and which files can be opened after the contents are extracted. The last section has the image that
  the witnesses use.
\<close>

section \<open>Listing and looking up\<close>

lemma Init_valid:
  assumes run: "Init address ptime iter fsroot traces ready dfs dg m = Inr m'" and iter: "\<And>ks. mset (iter ks) = mset ks"
    and names: "bundle_names_ok (mg_bundle m)" and k: "k < length (mg_dest_layers m)"
  shows "tree_valid m' (int k)"
proof -
  obtain files tables where nt: "length tables = length (mg_dest_layers m)" "length (mg_fileLookUpMap m') = length tables"
    and tree: "\<And>k. k < length tables \<Longrightarrow> layer_tree (tables ! k) (mg_fileLookUpMap m' ! k) (mg_files m') \<and> names_ok (tables ! k) files"
    by (rule Init_tables [OF run iter names]) blast
  have kt: "k < length tables" using k nt by simp
  have "\<forall>fn i. map_of (tables ! k) fn = Some i \<longrightarrow> canonical fn \<and> path_base (path_dir fn) \<noteq> opaque_name"
    using tree [OF kt] unfolding names_ok_def by blast
  then show ?thesis using tree [OF kt] kt nt unfolding tree_valid_def by auto
qed

text \<open>
  C12: The tree of an image. After \<^verbatim>\<open>Init\<close> every layer is a tree that keeps the promises of \<^verbatim>\<open>ImageManager\<close>, and every file that
  the bundle requests for the layer is found by its name, except the roots and the opaque markers.
\<close>

theorem Init_tree:
  assumes run: "Init address ptime iter fsroot traces ready dfs dg m = Inr m'" and iter: "\<And>ks. mset (iter ks) = mset ks"
    and names: "bundle_names_ok (mg_bundle m)" and k: "k < length (mg_dest_layers m)"
  shows "tree_valid m' (int k) \<and>
    (\<forall>f \<in> set (mg_files m). r_Stack f = int k \<and> GetName f \<noteq> [] \<and> path_base (GetName f) \<noteq> opaque_name \<longrightarrow>
      (\<exists>i < length (mg_files m). LookUpFile m' (int k) (GetName f) = Inr (Some i) \<and>
         GetName (mg_files m ! i) = GetName f \<and> r_Stack (mg_files m ! i) = r_Stack f))"
proof -
  obtain files tables where len: "length files = length (mg_files m)"
    and fld: "\<And>i. i < length files \<Longrightarrow> GetName (files ! i) = GetName (mg_files m ! i) \<and> r_Stack (files ! i) = r_Stack (mg_files m ! i)"
    and nt: "length tables = length (mg_dest_layers m)" "length (mg_fileLookUpMap m') = length tables"
    and tree: "\<And>k. k < length tables \<Longrightarrow> layer_tree (tables ! k) (mg_fileLookUpMap m' ! k) (mg_files m') \<and> names_ok (tables ! k) files"
    and ent: "\<And>k fn i. k < length tables \<Longrightarrow> map_of (tables ! k) fn = Some i \<Longrightarrow> i < length files \<and> r_Stack (files ! i) = int k \<and> GetName (files ! i) = fn"
    and all: "\<And>f. f \<in> set (mg_files m) \<Longrightarrow> 0 \<le> r_Stack f \<and> r_Stack f < int (length tables) \<and> (\<exists>i. map_of (tables ! nat (r_Stack f)) (GetName f) = Some i)"
    by (rule Init_tables [OF run iter names]) blast
  have kt: "k < length tables" using k nt by simp
  note lt = tree [OF kt]
  have valid: "tree_valid m' (int k)" by (rule Init_valid [OF run iter names k])
  moreover have "\<exists>i < length (mg_files m). LookUpFile m' (int k) (GetName f) = Inr (Some i) \<and> GetName (mg_files m ! i) = GetName f \<and> r_Stack (mg_files m ! i) = r_Stack f"
    if f: "f \<in> set (mg_files m)" "r_Stack f = int k" "GetName f \<noteq> []" "path_base (GetName f) \<noteq> opaque_name" for f
  proof -
    obtain i where i: "map_of (tables ! k) (GetName f) = Some i" using all [OF f(1)] f(2) by auto
    obtain r where r: "map_of (tables ! k) [] = Some r" using lt by (auto simp: layer_tree_def)
    have "GetName f \<noteq> ''.''" using f(1) names dot_not_canonical unfolding bundle_names_ok_def by metis
    then have "map_of (mg_fileLookUpMap m' ! k) (GetName f) = Some i"
      using lt f(3,4) i map_of_root_table [OF r, of "GetName f"] unfolding layer_tree_def by (simp add: opaque_entry_def)
    then have "LookUpFile m' (int k) (GetName f) = Inr (Some i)" using tree_valid_lookup [OF valid] by simp
    then show ?thesis using ent [OF kt i] fld [of i] f(2) len by auto
  qed
  ultimately show ?thesis by blast
qed

text \<open>
  C13: Listing agrees with looking up. Every entry of a directory but the dots is either found from the node of the directory by
  its name, with the inode and mode that are listed, or it is the entry of a whiteout.
\<close>

theorem Readdir_Lookup:
  assumes v: "tree_valid m (in_stack (nd_instance n))" and d: "LookUpFile m (in_stack (nd_instance n)) d = Inr (Some (nd_File n))" "\<not> is_whiteout d"
    and run: "Node_Readdir mkdev (manager_interface m) n = Inr es" and e: "e \<in> set es" "de_Name e \<noteq> ''.''" "de_Name e \<noteq> ''..''"
  shows "(\<exists>child attr. Node_Lookup mkdev (manager_interface m) n (de_Name e) = Inr (child, attr, de_Ino e, de_Mode e)) \<or>
    (\<exists>fn i. child_name d fn \<and> is_whiteout fn \<and> LookUpFile m (in_stack (nd_instance n)) fn = Inr (Some i) \<and> de_Ino e = r_Ino (mg_files m ! i))"
proof -
  let ?mi = "manager_interface m" and ?k = "in_stack (nd_instance n)"
  have lu: "mi_LookUpFile ?mi = LookUpFile m" and fl: "mi_file ?mi = (\<lambda>i. mg_files m ! i)" by (simp_all add: manager_interface_def)
  obtain i fn where c: "child_name d fn" "LookUpFile m ?k fn = Inr (Some i)"
    and ee: "e = \<lparr>de_Mode = r_Mode (mg_files m ! i), de_Name = path_base (GetName (mg_files m ! i)), de_Ino = r_Ino (mg_files m ! i)\<rparr>"
    using manager_files.Node_Readdir_entries(3) [OF v _ run e(1), unfolded lu fl, OF d(1)] e(2,3) by blast
  show ?thesis
  proof (cases "is_whiteout fn")
    case True
    then show ?thesis using c ee by auto
  next
    case False
    have nm: "GetName (mg_files m ! i) = fn" using manager_files.lookup_name [OF v, unfolded lu fl, OF c(2) False] .
    have "i \<in> set (r_children (mg_files m ! nd_File n))"
      using manager_files.lookup_children [OF v, unfolded lu fl, OF d(1)] c by blast
    then obtain attr where attr: "GetAttr mkdev (mi_file ?mi i) zero_attr = Inr attr"
      using run by (auto simp: Node_Readdir_def Let_def fl dest!: read_children_attr split: sum.splits)
    have "Node_Lookup mkdev ?mi n (path_base fn) = Inr (\<lparr>nd_File = i, nd_instance = nd_instance n\<rparr>, attr, r_Ino (mi_file ?mi i), r_Mode (mi_file ?mi i))"
      by (rule manager_files.Node_Lookup_child [OF v _ d(2) c(1) _ attr]) (simp_all add: lu d c)
    then show ?thesis using ee nm by (auto simp: fl)
  qed
qed

text \<open>
  C30: Whiteouts are hidden. \<^verbatim>\<open>Init\<close> renames a whiteout to the file that it deletes, but leaves it in the map under its old name: the
  directory lists it, but looking it up gives \<^verbatim>\<open>ENOENT\<close>, unless the layer has a file of that name.
\<close>

theorem whiteout_hidden:
  assumes v: "tree_valid m (in_stack (nd_instance n))" and d: "LookUpFile m (in_stack (nd_instance n)) d = Inr (Some (nd_File n))" "\<not> is_whiteout d"
    and w: "child_name d fn" "is_whiteout fn" "LookUpFile m (in_stack (nd_instance n)) fn = Inr (Some i)"
    and x: "x = trim_prefix whiteout_prefix (path_base fn)" and no: "LookUpFile m (in_stack (nd_instance n)) (path_join [d, x]) = Inr None"
    and run: "Node_Readdir mkdev (manager_interface m) n = Inr es"
  shows "(\<exists>e \<in> set es. de_Name e = path_base (path_join [d, x]) \<and> de_Ino e = r_Ino (mg_files m ! i)) \<and>
    Node_Lookup mkdev (manager_interface m) n x = Inl (errno ''ENOENT'')"
proof -
  let ?mi = "manager_interface m" and ?k = "in_stack (nd_instance n)"
  have lu: "mi_LookUpFile ?mi = LookUpFile m" and fl: "mi_file ?mi = (\<lambda>i. mg_files m ! i)" by (simp_all add: manager_interface_def)
  obtain t where t: "layer_tree t (mg_fileLookUpMap m ! nat ?k) (mg_files m)" using v unfolding tree_valid_def by blast
  have maps: "map_of (mg_fileLookUpMap m ! nat ?k) gn = (if opaque_entry (root_table t) gn then None else map_of (root_table t) gn)" for gn
    using t unfolding layer_tree_def by blast
  have "map_of (root_table t) fn = Some i" "\<not> opaque_entry (root_table t) fn" "map_of (root_table t) d \<noteq> None"
    using w(3) d(1) unfolding tree_valid_lookup [OF v] maps by (auto split: if_splits)
  then have nm: "GetName (mg_files m ! i) = path_join [d, x]"
    using t w(1,2) x unfolding layer_tree_def by (auto simp: child_name_def)
  have "\<lparr>de_Mode = r_Mode (mg_files m ! i), de_Name = path_base (GetName (mg_files m ! i)), de_Ino = r_Ino (mg_files m ! i)\<rparr> \<in> set es"
    using manager_files.Node_Readdir_entries(1) [OF v _ run, unfolded lu fl, OF d(1)] w(1,3) by blast
  then have "\<exists>e \<in> set es. de_Name e = path_base (path_join [d, x]) \<and> de_Ino e = r_Ino (mg_files m ! i)" using nm by force
  moreover have "nd_Name ?mi n = d" using manager_files.lookup_name [OF v, unfolded lu fl, OF d] by (simp add: nd_Name_def fl)
  ultimately show ?thesis using no by (simp add: Node_Lookup_def getFile_def lu)
qed

section \<open>Extracting as steps\<close>


section \<open>Files that are not sent\<close>

definition untouched :: "manager \<Rightarrow> string \<Rightarrow> extract_pc \<times> pull \<Rightarrow> bool" where
  "untouched m path s \<longleftrightarrow> same_manager m (pl_manager (snd s)) \<and> file_at (pl_disk (snd s)) path = None \<and>
     (\<forall>i q chs. fst s = Writing i q chs \<longrightarrow> i < length (mg_contents m) \<and> q \<noteq> path)"

lemma untouched_step:
  assumes "extract_step os gz msg s s'" "untouched m path s"
    and files: "\<forall>i < length (mg_contents m). content_file m (mg_contents m ! i) \<noteq> Inr path" and marks: "\<forall>l \<in> set (mg_dest_layers m). mark_file l \<noteq> path"
  shows "untouched m path s'"
  using assms(1,2)
proof (cases rule: extract_step.cases)
  case (skip i p c p')
  then show ?thesis using assms(2) skip_content_frame [OF skip(6)] by (simp add: untouched_def)
next
  case (skip_stop i p c p' r)
  then show ?thesis using assms(2) skip_content_frame [OF skip_stop(5)] by (simp add: untouched_def)
next
  case (opens i p c p' q)
  note o = open_content_Inr [OF opens(6)]
  have same: "same_manager m (pl_manager p)" using assms(2) opens(1) by (simp add: untouched_def)
  have i: "i < length (mg_contents m)" using opens(3) same_managerD(1) [OF same] by simp
  have "content_file m (mg_contents m ! i) = Inr q" using o same_content_file [OF same i] opens(4) by simp
  then have "q \<noteq> path" using files i by auto
  then show ?thesis using assms(2) opens(1,2) o i by (simp add: untouched_def)
next
  case (open_stop i p c p' e)
  then show ?thesis using assms(2) open_content_Inl [OF open_stop(5)] by (simp add: untouched_def)
next
  case (chunk q ch p p' i chs)
  then show ?thesis using assms(2) extract_chunk_frame [OF chunk(3), of path] by (auto simp: untouched_def)
next
  case (chunk_stop q ch p p' r i chs)
  then show ?thesis using assms(2) extract_chunk_frame [OF chunk_stop(3), of path] by (auto simp: untouched_def)
next
  case (closes i p p' q)
  have "p' = p\<lparr>pl_manager := close_content i (pl_manager p)\<rparr>" using closes(3) unfolding close_signal_None by blast
  then show ?thesis using assms(2) closes same_manager_close by (simp add: untouched_def)
next
  case (close_stop i p p' r q)
  then show ?thesis using assms(2) close_signal_Some [OF close_stop(3)] by (simp add: untouched_def)
next
  case (contents_done i p)
  then show ?thesis using assms(2) by (simp add: untouched_def)
next
  case (layer k p p')
  have same: "same_manager m (pl_manager p)" using assms(2) layer(1) by (simp add: untouched_def)
  have "mark_file (mg_dest_layers (pl_manager p) ! k) \<noteq> path" using marks layer(3) same_managerD(4) [OF same] by simp
  then show ?thesis using assms(2) layer(1,2) complete_layer_frame [OF layer(4), of path] same_manager_complete [OF same] by (auto simp: untouched_def)
next
  case (layer_stop k p p' e)
  have same: "same_manager m (pl_manager p)" using assms(2) layer_stop(1) by (simp add: untouched_def)
  have "mark_file (mg_dest_layers (pl_manager p) ! k) \<noteq> path" using marks layer_stop(3) same_managerD(4) [OF same] by simp
  then show ?thesis using assms(2) layer_stop(1,2) complete_layer_frame [OF layer_stop(4), of path] same_manager_complete [OF same] by (auto simp: untouched_def)
qed

text \<open>
  C31: Files that are not sent. A file that is in no content of the bundle, like an empty file, does not wait, and is not on the
  disk after the contents are extracted: opening it fails with \<^verbatim>\<open>ENOENT\<close> unless it was there before.
\<close>

theorem unsent_file_missing:
  assumes ex: "Extract os gz msg m d (Some s) = ((m', d', s'), r)" and path: "getRealPath (manager_interface m) n = Inr path"
    and ready: "r_Ready (mg_files m ! nd_File n) = None" and fresh: "file_at d path = None" "path \<notin> set (dk_dirs d')"
    and files: "\<forall>i < length (mg_contents m). content_file m (mg_contents m ! i) \<noteq> Inr path" and marks: "\<forall>l \<in> set (mg_dest_layers m). mark_file l \<noteq> path"
  shows "fst (Node_Open no_os_faults (manager_interface m') n d') = OpenFails (errno ''ENOENT'')"
proof -
  obtain pc where reach: "extract_reachable os gz msg \<lparr>pl_manager = m, pl_disk = d, pl_stream = s\<rparr> (pc, \<lparr>pl_manager = m', pl_disk = d', pl_stream = s'\<rparr>)"
    using Extract_run [OF ex] by blast
  have "untouched m path (pc, \<lparr>pl_manager = m', pl_disk = d', pl_stream = s'\<rparr>)"
    using reach unfolding extract_reachable_def
  proof (induction rule: rtranclp_induct)
    case base
    show ?case using fresh(1) by (simp add: untouched_def)
  next
    case (step a b)
    show ?case by (rule untouched_step [OF step(2,3) files marks])
  qed
  then have same: "same_manager m m'" and none: "file_at d' path = None" by (simp_all add: untouched_def)
  have "mi_file (manager_interface m') (nd_File n) = mg_files m ! nd_File n" using same_managerD(5) [OF same] by (simp add: manager_interface_def)
  then show ?thesis using path ready none fresh(2)
    by (simp add: Node_Open_def getRealPath_same [OF same] waits_def sys_open_def no_os_faults_def)
qed

end
