(* ===== verification/Snapshotter_Laws.thy ===== *)
theory Snapshotter_Laws
  imports Snapshotter
begin

text \<open>
  Properties of the snapshotter plugin: the stack of a snapshot, its overlay mount, what a failing call leaves in the
  database and its transaction, and when the loops of \<^verbatim>\<open>mounts\<close> return. The last needs what the client promises to the plugin,
  which is a locale.
\<close>

section \<open>The stack of a snapshot\<close>

text \<open>The snapshots from the parent of \<open>cur\<close> down to one without a parent.\<close>

fun parent_chain :: "(string \<Rightarrow> (string \<times> sn_info \<times> usage) result) \<Rightarrow> sn_info \<Rightarrow> snapshot_item list \<Rightarrow> bool" where
  "parent_chain get cur [] \<longleftrightarrow> sn_Parent cur = []"
| "parent_chain get cur (si # sis) \<longleftrightarrow> sn_Parent cur \<noteq> [] \<and>
     (\<exists>u. get (sn_Parent cur) = Inr (si_ssId si, si_inf si, u)) \<and> parent_chain get (si_inf si) sis"

lemma getFsStack_run:
  assumes rank: "\<And>key ssId i u. get key = Inr (ssId, i, u) \<Longrightarrow> sn_Parent i \<noteq> [] \<Longrightarrow> rank (sn_Parent i) < (rank key :: nat)"
  shows "\<exists>r. getFsStack get cur acc = Some r \<and> (\<forall>stack. r = Inr stack \<longrightarrow> (\<exists>sis. stack = acc @ sis \<and> parent_chain get cur sis)) \<and>
    (\<forall>e. r = Inl e \<longrightarrow> (\<exists>key. get key = Inl e))"
proof (induction "rank (sn_Parent cur)" arbitrary: cur acc rule: less_induct)
  case less
  show ?case
  proof (cases "sn_Parent cur = []")
    case True
    then show ?thesis by (intro exI [of _ "Inr acc"]) (simp add: getFsStack.simps)
  next
    case False
    show ?thesis
    proof (cases "get (sn_Parent cur)")
      case (Inl e)
      then show ?thesis using False by (intro exI [of _ "Inl e"]) (auto simp: getFsStack.simps)
    next
      case (Inr r)
      obtain ssId i u where r: "r = (ssId, i, u)" by (cases r)
      let ?si = "\<lparr>si_ssId = ssId, si_inf = i\<rparr>"
      have eq: "getFsStack get cur acc = getFsStack get i (acc @ [?si])" using False Inr r by (simp add: getFsStack.simps [of get cur])
      have "\<exists>r. getFsStack get i (acc @ [?si]) = Some r \<and> (\<forall>stack. r = Inr stack \<longrightarrow> (\<exists>sis. stack = (acc @ [?si]) @ sis \<and> parent_chain get i sis)) \<and>
          (\<forall>e. r = Inl e \<longrightarrow> (\<exists>key. get key = Inl e))"
      proof (cases "sn_Parent i = []")
        case True
        then show ?thesis by (intro exI [of _ "Inr (acc @ [?si])"]) (simp add: getFsStack.simps)
      next
        case par: False
        show ?thesis by (rule less) (use rank [OF Inr [unfolded r] par] in simp)
      qed
      then obtain r' where r': "getFsStack get i (acc @ [?si]) = Some r'"
        "\<forall>stack. r' = Inr stack \<longrightarrow> (\<exists>sis. stack = (acc @ [?si]) @ sis \<and> parent_chain get i sis)" "\<forall>e. r' = Inl e \<longrightarrow> (\<exists>key. get key = Inl e)"
        by (elim exE conjE) (rule that)
      have "\<forall>stack. r' = Inr stack \<longrightarrow> (\<exists>sis. stack = acc @ sis \<and> parent_chain get cur sis)"
      proof (intro allI impI)
        fix stack assume "r' = Inr stack"
        then obtain sis where sis: "stack = (acc @ [?si]) @ sis" "parent_chain get i sis" using r'(2) by blast
        then show "\<exists>sis. stack = acc @ sis \<and> parent_chain get cur sis"
          using False Inr r by (intro exI [of _ "?si # sis"]) simp
      qed
      then show ?thesis using eq r'(1,3) by (intro exI [of _ r'] conjI) simp_all
    qed
  qed
qed

text \<open>
  C34: The stack of a snapshot. When every snapshot of the store is above its parent in some numbering, the loop of \<^verbatim>\<open>getFsStack\<close>
  ends, and it gives the chain of the parents from the upper to the lower, or the error of one that cannot be found.
\<close>

theorem getFsStack_chain:
  assumes "\<And>key ssId i u. get key = Inr (ssId, i, u) \<Longrightarrow> sn_Parent i \<noteq> [] \<Longrightarrow> rank (sn_Parent i) < (rank key :: nat)"
  shows "(\<exists>stack. getFsStack get cur [] = Some (Inr stack) \<and> parent_chain get cur stack) \<or>
    (\<exists>e key. getFsStack get cur [] = Some (Inl e) \<and> get key = Inl e)"
proof -
  have "\<exists>r. getFsStack get cur [] = Some r \<and> (\<forall>stack. r = Inr stack \<longrightarrow> (\<exists>sis. stack = [] @ sis \<and> parent_chain get cur sis)) \<and>
      (\<forall>e. r = Inl e \<longrightarrow> (\<exists>key. get key = Inl e))"
    by (rule getFsStack_run [where rank = rank]) (rule assms)
  then obtain r where r: "getFsStack get cur [] = Some r" "\<forall>stack. r = Inr stack \<longrightarrow> parent_chain get cur stack" "\<forall>e. r = Inl e \<longrightarrow> (\<exists>key. get key = Inl e)"
    by auto
  then show ?thesis by (cases r) auto
qed

section \<open>The overlay mount\<close>

text \<open>Where the directory of a lower snapshot comes from.\<close>

definition lower_dir :: "'c plugin_client \<Rightarrow> snapshot_item \<Rightarrow> string \<Rightarrow> bool" where
  "lower_dir pc si m \<longleftrightarrow>
     (if IsStarlightFS si then \<exists>cs. snd (pc_Mount pc (label (si_inf si) SnapshotLabelRefUncompressed) (si_ssId si) (si_inf si) cs) = Inr m
      else \<exists>c. m = getUpper pc c (si_ssId si))"

lemma mount_layer_mounted:
  fixes pc :: "'a plugin_client"
  assumes "mount_layer pc namespace und si mds cs = Some (cs', mds', Inr m)"
  shows "\<exists>cs1. snd (pc_Mount pc und (si_ssId si) (si_inf si) cs1) = Inr m"
proof -
  define P where "P = (\<lambda>(pc :: 'a plugin_client) (namespace :: string) und (si :: snapshot_item) (mds :: string list) (cs :: 'a \<times> host) (y :: ('a \<times> host) \<times> string list \<times> string result).
    \<forall>m. snd (snd y) = Inr m \<longrightarrow> (\<exists>cs1. snd (pc_Mount pc und (si_ssId si) (si_inf si) cs1) = Inr m))"
  have "P pc namespace und si mds cs (cs', mds', Inr m)"
  proof (rule mount_layer.raw_induct [where P = P, OF _ assms])
    fix f pc namespace und si mds cs y
    assume IH: "\<And>pc namespace und si mds cs y. f pc namespace und si mds cs = Some y \<Longrightarrow> P pc namespace und si mds cs y"
      and body: "(case pc_Mount pc und (si_ssId si) (si_inf si) cs of (cs1, r) \<Rightarrow>
          if r = Inl (Fail ErrNoManager) then
            (case prepare_next pc namespace und ErrNoManager mds cs1 of
               (cs2, mds2, r2) \<Rightarrow> (case r2 of Inl e \<Rightarrow> Some (cs2, mds2, Inl e) | Inr u \<Rightarrow> f pc namespace und si mds2 cs2))
          else Some (cs1, mds, r)) = Some y"
    obtain cs1 r where m: "pc_Mount pc und (si_ssId si) (si_inf si) cs = (cs1, r)" by fastforce
    obtain cs2 mds2 r2 where p: "prepare_next pc namespace und ErrNoManager mds cs1 = (cs2, mds2, r2)" by (metis prod_cases3)
    show "P pc namespace und si mds cs y"
    proof (cases "r = Inl (Fail ErrNoManager)")
      case True
      show ?thesis
      proof (cases r2)
        case (Inl e)
        then show ?thesis using body m p True by (auto simp: P_def)
      next
        case (Inr u)
        then have "P pc namespace und si mds2 cs2 y" using IH body m p True by simp
        then show ?thesis by (simp add: P_def)
      qed
    next
      case False
      then have "snd (snd y) = r" using body m by auto
      then show ?thesis using m unfolding P_def by (metis snd_conv)
    qed
  qed
  then show ?thesis by (simp add: P_def)
qed

lemma mount_lower_Inr:
  "mount_lower pc namespace sis mds lower cs = Some (cs', Inr lower') \<Longrightarrow> \<exists>ms. lower' = lower @ ms \<and> list_all2 (lower_dir pc) sis ms"
proof (induction sis arbitrary: mds lower cs)
  case Nil
  then show ?case by simp
next
  case (Cons si sis)
  show ?case
  proof (cases "IsStarlightFS si")
    case True
    then obtain cs1 mds1 m where m: "mount_layer pc namespace (label (si_inf si) SnapshotLabelRefUncompressed) si mds cs = Some (cs1, mds1, Inr m)"
      and rest: "mount_lower pc namespace sis mds1 (lower @ [m]) cs1 = Some (cs', Inr lower')"
      using Cons.prems by (auto simp: item_GetStarlightFeature_def split: option.splits prod.splits sum.splits)
    have "lower_dir pc si m" using mount_layer_mounted [OF m] True by (simp add: lower_dir_def)
    with Cons.IH [OF rest] show ?thesis by (elim exE conjE) (rule exI [of _ "m # _"], simp)
  next
    case False
    then have rest: "mount_lower pc namespace sis mds (lower @ [getUpper pc (fst cs) (si_ssId si)]) cs = Some (cs', Inr lower')"
      using Cons.prems by simp
    have "lower_dir pc si (getUpper pc (fst cs) (si_ssId si))" using False by (auto simp: lower_dir_def)
    with Cons.IH [OF rest] show ?thesis by (elim exE conjE) (rule exI [of _ "getUpper pc (fst cs) (si_ssId si) # _"], simp)
  qed
qed

text \<open>
  C33: The overlay of a snapshot. A snapshot with parents is mounted as one overlay whose \<^verbatim>\<open>lowerdir\<close> has a directory for every
  snapshot below it, from the bottom of the stack to its top: the instance of a Starlight layer, or the upper directory.
  An active snapshot also gets its work and upper directories.
\<close>

theorem mounts_overlay:
  assumes stack: "getFsStack get info [] = Some (Inr stack)" "stack \<noteq> []" and run: "plugin_mounts pc get namespace ssId info cs = Some (cs', Inr mnt)"
  shows "\<exists>lower. mnt = [\<lparr>mt_Type = ''overlay'', mt_Source = ''overlay'',
      mt_Options = (if sn_Kind info = KindActive then [''workdir='' @ getWork pc (fst cs') ssId, ''upperdir='' @ getUpper pc (fst cs') ssId] else [])
        @ [''lowerdir='' @ join_with '':'' lower]\<rparr>] \<and> list_all2 (lower_dir pc) (rev stack) lower"
proof -
  obtain lower where l: "mount_lower pc namespace (rev stack) (manager_digests stack []) [] cs = Some (cs', Inr lower)"
    and m: "mnt = [overlay_mount pc ssId info lower (fst cs')]"
    using run stack by (auto simp: plugin_mounts_def split: option.splits prod.splits sum.splits)
  show ?thesis using mount_lower_Inr [OF l] m by (auto simp: overlay_mount_def)
qed

section \<open>Transactions\<close>

lemma begin_write_Inr: "begin_write ms pg = Some (Inr pg1) \<longleftrightarrow> \<not> pg_writing pg \<and> ms_begin ms True = None \<and> pg1 = pg\<lparr>pg_writing := True\<rparr>"
  by (auto simp: begin_write_def split: option.splits)

lemma begin_write_blocked: "pg_writing pg \<Longrightarrow> begin_write ms pg = None"
  by (simp add: begin_write_def)

lemma make_dirs_db: "make_dirs pc en ssId pg = (pg', r) \<Longrightarrow> pg_db pg' = pg_db pg \<and> pg_writing pg' = pg_writing pg \<and> pg_client pg' = pg_client pg"
  by (auto simp: make_dirs_def Let_def split: prod.splits)

lemma commit_tx_db: "commit_tx ms m pg = (pg', Inl e) \<Longrightarrow> pg_db pg' = pg_db pg \<and> \<not> pg_writing pg'"
    "commit_tx ms m pg = (pg', Inr u) \<Longrightarrow> pg_db pg' = m \<and> \<not> pg_writing pg'"
  by (auto simp: commit_tx_def split: option.splits)

lemma on_error_simps [simp]: "pg_db (on_error e pg) = pg_db pg" "on_error (Fail f) pg = rollback_tx pg"
    "pg_db (rollback_tx pg) = pg_db pg" "\<not> pg_writing (rollback_tx pg)"
  by (simp_all add: on_error_def rollback_tx_def split: failure.splits)

text \<open>The writers of the plugin, as one operation on its state.\<close>

datatype sn_write = WPrepare string string "sn_opt list" | WView string string "sn_opt list" | WCommit string string "sn_opt list"
  | WRemove string | WUpdate sn_info "string list"

definition write_op :: "'m meta_store \<Rightarrow> 'c plugin_client \<Rightarrow> environment \<Rightarrow> sn_write \<Rightarrow> ('m, 'c) plugin \<Rightarrow> (('m, 'c) plugin \<times> unit result) option" where
  "write_op ms pc en w pg =
     (case w of
        WPrepare key parent opts \<Rightarrow> map_option (\<lambda>(p, r). (p, map_sum id (\<lambda>_. ()) r)) (plugin_Prepare ms pc en key parent opts pg)
      | WView key parent opts \<Rightarrow> map_option (\<lambda>(p, r). (p, map_sum id (\<lambda>_. ()) r)) (plugin_View ms pc en key parent opts pg)
      | WCommit nam key opts \<Rightarrow> plugin_Commit ms pc en nam key opts pg
      | WRemove key \<Rightarrow> plugin_Remove ms pc en key pg
      | WUpdate info fs \<Rightarrow> map_option (\<lambda>(p, r). (p, map_sum id (\<lambda>_. ()) r)) (plugin_Update ms info fs pg))"

lemma write_op_blocked: "pg_writing pg \<Longrightarrow> write_op ms pc en w pg = None"
  by (cases w) (simp_all add: write_op_def plugin_Prepare_def plugin_View_def newSnapshot_def plugin_Commit_def plugin_Remove_def plugin_Update_def begin_write_blocked)

lemma newSnapshot_error:
  assumes "newSnapshot ms pc en key parent ro opts pg = Some (pg', Inl e)"
  shows "pg_db pg' = pg_db pg"
  using assms unfolding newSnapshot_def
  by (auto simp: begin_write_Inr dest!: make_dirs_db commit_tx_db(1) split: option.splits sum.splits failure.splits prod.splits)

lemma newSnapshot_ok:
  assumes "newSnapshot ms pc en key parent ro opts pg = Some (pg', Inr mnt)"
  shows "\<exists>m ssId. ms_CreateSnapshot ms (pg_db pg) (if ro then KindView else KindActive) key parent opts = Inr (m, ssId) \<and> pg_db pg' = m \<and> \<not> pg_writing pg'"
  using assms unfolding newSnapshot_def
  by (auto simp: begin_write_Inr dest!: make_dirs_db commit_tx_db(2) split: option.splits sum.splits failure.splits prod.splits)

lemma plugin_Commit_error: "plugin_Commit ms pc en nam key opts pg = Some (pg', Inl e) \<Longrightarrow> pg_db pg' = pg_db pg"
  unfolding plugin_Commit_def by (auto simp: begin_write_Inr dest!: commit_tx_db(1) split: option.splits sum.splits)

lemma plugin_Commit_ok: "plugin_Commit ms pc en nam key opts pg = Some (pg', Inr u) \<Longrightarrow> \<not> pg_writing pg'"
  unfolding plugin_Commit_def by (auto simp: begin_write_Inr dest!: commit_tx_db(2) split: option.splits sum.splits)

lemma plugin_Update_error: "plugin_Update ms info fs pg = Some (pg', Inl e) \<Longrightarrow> pg_db pg' = pg_db pg \<and> (pg_writing pg' \<longrightarrow> pg_writing pg)"
  unfolding plugin_Update_def by (auto simp: begin_write_Inr dest!: commit_tx_db(1) split: option.splits sum.splits prod.splits)

lemma plugin_Update_ok: "plugin_Update ms info fs pg = Some (pg', Inr i) \<Longrightarrow> \<not> pg_writing pg'"
  unfolding plugin_Update_def by (auto simp: begin_write_Inr dest!: commit_tx_db(2) split: option.splits sum.splits prod.splits)

lemma plugin_Remove_ok: "plugin_Remove ms pc en key pg = Some (pg', Inr u) \<Longrightarrow> \<not> pg_writing pg'"
  unfolding plugin_Remove_def by (auto simp: begin_write_Inr dest!: commit_tx_db(2) split: option.splits sum.splits prod.splits if_splits)

lemma forget_Inl: "map_sum id (\<lambda>_. ()) r = Inl e \<longleftrightarrow> r = Inl e"
  by (cases r) auto

lemma forget_Inr: "map_sum id (\<lambda>_. ()) r = Inr u \<longleftrightarrow> (\<exists>y. r = Inr y)"
  by (cases r) auto

lemma write_op_error:
  "write_op ms pc en w pg = Some (pg', Inl e) \<Longrightarrow> (case w of WRemove _ \<Rightarrow> True | _ \<Rightarrow> pg_db pg' = pg_db pg)"
  by (cases w) (auto simp: write_op_def plugin_Prepare_def plugin_View_def forget_Inl dest!: newSnapshot_error plugin_Commit_error plugin_Update_error)

lemma write_op_ok: "write_op ms pc en w pg = Some (pg', Inr u) \<Longrightarrow> \<not> pg_writing pg'"
  by (cases w) (auto simp: write_op_def plugin_Prepare_def plugin_View_def forget_Inr
      dest!: newSnapshot_ok plugin_Commit_ok plugin_Remove_ok plugin_Update_ok)

text \<open>
  C32: The writes of the plugin are atomic. Preparing, viewing, committing and updating a snapshot leave the database as it was
  when they fail, and every write that succeeds has ended its transaction.
\<close>

theorem write_atomic:
  assumes run: "write_op ms pc en w pg = Some (pg', r)"
  shows "(case r of Inr _ \<Rightarrow> \<not> pg_writing pg' | Inl _ \<Rightarrow> (case w of WRemove _ \<Rightarrow> True | _ \<Rightarrow> pg_db pg' = pg_db pg))"
  using write_op_error [of ms pc en w pg pg'] write_op_ok [of ms pc en w pg pg'] run by (cases r) auto

text \<open>
  C37: A failed mount blocks the snapshotter. When the mount of a new snapshot fails, \<^verbatim>\<open>Prepare\<close> returns its error but leaves the
  transaction open: the database is as before and can be read, but no later write returns.
\<close>

theorem failed_mount_blocks:
  assumes idle: "\<not> pg_writing pg" "ms_begin ms True = None" and opts: "apply_opts opts zero_info = Inr i"
    and created: "ms_CreateSnapshot ms (pg_db pg) KindActive key parent opts = Inr (m, ssId)"
    and dirs: "make_dirs pc en ssId (pg\<lparr>pg_writing := True\<rparr>) = (pg2, Inr ())" and info: "ms_GetInfo ms m key = Inr r"
    and mnt: "plugin_mounts pc (ms_GetInfo ms m) (hd (split_on slash key)) ssId (fst (snd r)) (pg_client pg2, pg_host pg2) = Some (cs, Inl e)"
  shows "\<exists>pg'. plugin_Prepare ms pc en key parent opts pg = Some (pg', Inl e) \<and> (\<forall>k. plugin_Stat ms k pg' = plugin_Stat ms k pg) \<and>
    (\<forall>w. write_op ms pc en w pg' = None)"
proof -
  let ?pg = "pg2\<lparr>pg_client := fst cs, pg_host := snd cs\<rparr>"
  have "begin_write ms pg = Some (Inr (pg\<lparr>pg_writing := True\<rparr>))" using idle by (simp add: begin_write_Inr)
  then have "plugin_Prepare ms pc en key parent opts pg = Some (?pg, Inl e)"
    using opts created dirs info mnt by (simp add: plugin_Prepare_def newSnapshot_def)
  moreover have "pg_db ?pg = pg_db pg" "pg_writing ?pg" using make_dirs_db [OF dirs] by simp_all
  moreover from this have "\<forall>w. write_op ms pc en w ?pg = None" by (simp add: write_op_blocked)
  ultimately show ?thesis by (intro exI [of _ ?pg]) (simp add: plugin_Stat_def cong: sum.case_cong option.case_cong)
qed

text \<open>
  Removing drops the error of the store. When the store refuses to remove a snapshot, for example because it has
  children, \<^verbatim>\<open>Remove\<close> still commits, and removes the directories of a snapshot of an overlay from the disk without an error.
\<close>

theorem Remove_drops_error:
  assumes idle: "\<not> pg_writing pg" "ms_begin ms True = None" and info: "ms_GetInfo ms (pg_db pg) key = Inr (snId, info, u)"
    and refused: "ms_Remove ms (pg_db pg) key = (pg_db pg, Inl e)" and commits: "ms_commit ms (pg_db pg) = None"
    and overlay: "\<not> has_label info SnapshotLabelRefUncompressed" and os: "en_os en = (\<lambda>op path. None)"
  shows "\<exists>pg'. plugin_Remove ms pc en key pg = Some (pg', Inr ()) \<and> pg_db pg' = pg_db pg \<and> plugin_Stat ms key pg' = plugin_Stat ms key pg \<and>
    (\<forall>q. below (getMountingPoint pc (pg_client pg) snId) q \<longrightarrow> file_at (ho_disk (pg_host pg')) q = None \<and> q \<notin> set (dk_dirs (ho_disk (pg_host pg'))))"
proof -
  let ?mp = "getMountingPoint pc (pg_client pg) snId" and ?d = "ho_disk (pg_host pg)"
  let ?d' = "?d\<lparr>dk_files := filter (\<lambda>(q, _). \<not> below ?mp q) (dk_files ?d), dk_dirs := filter (\<lambda>q. \<not> below ?mp q) (dk_dirs ?d)\<rparr>"
  let ?pg = "pg\<lparr>pg_db := pg_db pg, pg_writing := False, pg_host := (pg_host pg)\<lparr>ho_disk := ?d'\<rparr>\<rparr>"
  have "begin_write ms pg = Some (Inr (pg\<lparr>pg_writing := True\<rparr>))" using idle by (simp add: begin_write_Inr)
  then have "plugin_Remove ms pc en key pg = Some (?pg, Inr ())"
    using info refused commits overlay os by (simp add: plugin_Remove_def commit_tx_def RemoveAll_def)
  moreover have "below ?mp q \<longrightarrow> file_at ?d' q = None \<and> q \<notin> set (dk_dirs ?d')" for q
    by (auto simp: file_at_def map_of_eq_None_iff)
  ultimately show ?thesis by (intro exI [of _ ?pg]) (simp add: plugin_Stat_def cong: sum.case_cong option.case_cong)
qed

section \<open>What the client promises\<close>

lemma manager_digests_labels: "md \<in> set (manager_digests stack seen) \<Longrightarrow> \<exists>si \<in> set stack. md = label (si_inf si) SnapshotLabelRefImage"
  by (induction stack seen rule: manager_digests.induct) (auto simp: item_GetStarlightFeature_def Let_def split: if_splits)

text \<open>
  The laws of \<^verbatim>\<open>PluginClient\<close>: the calls keep an invariant of the client, and once the manager of an image is prepared, mounting one of
  its layers never fails for want of a manager.
\<close>

locale plugin_laws =
  fixes pc :: "'c plugin_client" and layers :: "string \<Rightarrow> string set" and cl_inv :: "'c \<times> host \<Rightarrow> bool"
  assumes prepare_inv: "cl_inv cs \<Longrightarrow> pc_PrepareManager pc namespace md cs = (cs', r) \<Longrightarrow> cl_inv cs'"
    and mount_inv: "cl_inv cs \<Longrightarrow> pc_Mount pc und ssId info cs = (cs', r') \<Longrightarrow> cl_inv cs'"
    and prepare_ready: "cl_inv cs \<Longrightarrow> pc_PrepareManager pc namespace md cs = (cs', Inr ()) \<Longrightarrow> und \<in> layers md \<Longrightarrow>
      snd (pc_Mount pc und ssId info cs') \<noteq> Inl (Fail ErrNoManager)"
begin

lemma prepare_next_inv:
  "cl_inv cs \<Longrightarrow> prepare_next pc namespace und err mds cs = (cs', mds', r) \<Longrightarrow> cl_inv cs' \<and> set mds' \<subseteq> set mds \<and>
     (r = Inr () \<longrightarrow> (\<exists>cs0 md. md \<in> set mds \<and> cl_inv cs0 \<and> pc_PrepareManager pc namespace md cs0 = (cs', Inr ())))"
proof (induction mds arbitrary: cs err)
  case (Cons md mds)
  obtain cs1 r1 where p: "pc_PrepareManager pc namespace md cs = (cs1, r1)" by fastforce
  have i: "cl_inv cs1" by (rule prepare_inv [OF Cons.prems(1) p])
  consider (ok) "r1 = Inr ()" | (panic) q where "r1 = Inl (Panic q)" | (fail) e where "r1 = Inl (Fail e)"
    by (cases r1) (auto, metis failure.exhaust)
  then show ?case
  proof cases
    case ok
    then have "cs' = cs1" "mds' = md # mds" "r = Inr ()" using Cons.prems p by simp_all
    then show ?thesis using Cons.prems(1) p i ok by (metis list.set_intros(1) order_refl)
  next
    case panic
    then show ?thesis using Cons.prems p i by auto
  next
    case fail
    then have "prepare_next pc namespace und e mds cs1 = (cs', mds', r)" using Cons.prems p by simp
    from Cons.IH [OF i this] show ?thesis by auto
  qed
qed auto

text \<open>A layer is mounted, or fails, when every image that can be prepared has it.\<close>

lemma mount_layer_returns:
  assumes i: "cl_inv cs" and has: "\<And>md. md \<in> set mds \<Longrightarrow> und \<in> layers md"
  shows "\<exists>cs' mds' r. mount_layer pc namespace und si mds cs = Some (cs', mds', r) \<and> cl_inv cs' \<and> set mds' \<subseteq> set mds"
proof -
  obtain cs1 r where m: "pc_Mount pc und (si_ssId si) (si_inf si) cs = (cs1, r)" by fastforce
  have i1: "cl_inv cs1" by (rule mount_inv [OF i m])
  obtain cs2 mds2 r2 where p: "prepare_next pc namespace und ErrNoManager mds cs1 = (cs2, mds2, r2)" by (metis prod_cases3)
  have pi: "cl_inv cs2" "set mds2 \<subseteq> set mds" using prepare_next_inv [OF i1 p] by auto
  show ?thesis
  proof (cases "r = Inl (Fail ErrNoManager)")
    case False
    then show ?thesis using m i1 by (auto simp: mount_layer.simps)
  next
    case True
    show ?thesis
    proof (cases r2)
      case (Inl e)
      then show ?thesis using m p True pi by (auto simp: mount_layer.simps)
    next
      case (Inr u)
      then obtain cs0 md where md: "md \<in> set mds" "cl_inv cs0" "pc_PrepareManager pc namespace md cs0 = (cs2, Inr ())"
        using prepare_next_inv [OF i1 p] by auto
      obtain cs3 r3 where m3: "pc_Mount pc und (si_ssId si) (si_inf si) cs2 = (cs3, r3)" by fastforce
      have "r3 \<noteq> Inl (Fail ErrNoManager)" using prepare_ready [OF md(2,3) has [OF md(1)], of "si_ssId si" "si_inf si"] m3 by simp
      then have "mount_layer pc namespace und si mds2 cs2 = Some (cs3, mds2, r3)" using m3 by (simp add: mount_layer.simps)
      moreover have "mount_layer pc namespace und si mds cs = mount_layer pc namespace und si mds2 cs2"
        using m p True Inr by (simp add: mount_layer.simps [of pc namespace und si mds cs])
      ultimately show ?thesis using mount_inv [OF pi(1) m3] pi by auto
    qed
  qed
qed

lemma mount_lower_returns:
  assumes "cl_inv cs" "\<And>si md. si \<in> set sis \<Longrightarrow> IsStarlightFS si \<Longrightarrow> md \<in> set mds \<Longrightarrow> fst (snd (item_GetStarlightFeature si)) \<in> layers md"
  shows "\<exists>cs' r. mount_lower pc namespace sis mds lower cs = Some (cs', r) \<and> cl_inv cs'"
  using assms
proof (induction sis arbitrary: mds lower cs)
  case (Cons si sis)
  show ?case
  proof (cases "IsStarlightFS si")
    case False
    then show ?thesis using Cons.IH [OF Cons.prems(1), of mds] Cons.prems(2) by simp
  next
    case True
    obtain cs1 mds1 r where m: "mount_layer pc namespace (fst (snd (item_GetStarlightFeature si))) si mds cs = Some (cs1, mds1, r)"
      "cl_inv cs1" "set mds1 \<subseteq> set mds"
      using mount_layer_returns [OF Cons.prems(1), of mds "fst (snd (item_GetStarlightFeature si))" namespace si] Cons.prems(2) [OF _ True] by fastforce
    have "\<exists>cs' r. mount_lower pc namespace sis mds1 l cs1 = Some (cs', r) \<and> cl_inv cs'" for l
      by (rule Cons.IH [OF m(2)]) (use Cons.prems(2) m(3) in auto)
    then show ?thesis using True m by (cases r) auto
  qed
qed simp

lemma plugin_mounts_returns:
  assumes i: "cl_inv cs" and rank: "\<And>key ssId i u. get key = Inr (ssId, i, u) \<Longrightarrow> sn_Parent i \<noteq> [] \<Longrightarrow> rank (sn_Parent i) < (rank key :: nat)"
    and has: "\<And>key ssId i u key' ssId' i' u'. get key = Inr (ssId, i, u) \<Longrightarrow> get key' = Inr (ssId', i', u') \<Longrightarrow>
      IsStarlightFS \<lparr>si_ssId = ssId', si_inf = i'\<rparr> \<Longrightarrow> label i' SnapshotLabelRefUncompressed \<in> layers (label i SnapshotLabelRefImage)"
  shows "\<exists>cs' r. plugin_mounts pc get namespace ssId info cs = Some (cs', r)"
proof -
  have "\<exists>r. getFsStack get info [] = Some r \<and> (\<forall>stack. r = Inr stack \<longrightarrow> (\<exists>sis. stack = [] @ sis \<and> parent_chain get info sis)) \<and>
      (\<forall>e. r = Inl e \<longrightarrow> (\<exists>key. get key = Inl e))"
    by (rule getFsStack_run [where rank = rank]) (rule rank)
  then obtain r where r: "getFsStack get info [] = Some r" "\<forall>stack. r = Inr stack \<longrightarrow> parent_chain get info stack"
    by auto
  show ?thesis
  proof (cases r)
    case (Inl e)
    then show ?thesis using r by (simp add: plugin_mounts_def)
  next
    case (Inr stack)
    have chain: "parent_chain get cur sis \<Longrightarrow> si \<in> set sis \<Longrightarrow> \<exists>key u. get key = Inr (si_ssId si, si_inf si, u)" for cur sis si
      by (induction get cur sis rule: parent_chain.induct) auto
    have "\<exists>cs' r. mount_lower pc namespace (rev stack) (manager_digests stack []) [] cs = Some (cs', r) \<and> cl_inv cs'"
    proof (rule mount_lower_returns [OF i])
      fix si md assume si: "si \<in> set (rev stack)" "IsStarlightFS si" and md: "md \<in> set (manager_digests stack [])"
      obtain si' where si': "si' \<in> set stack" "md = label (si_inf si') SnapshotLabelRefImage" using manager_digests_labels [OF md] by blast
      obtain key u key' u' where "get key = Inr (si_ssId si, si_inf si, u)" "get key' = Inr (si_ssId si', si_inf si', u')"
        using chain r(2) Inr si(1) si'(1) by fastforce
      then show "fst (snd (item_GetStarlightFeature si)) \<in> layers md"
        using has [of key' "si_ssId si'" "si_inf si'" u' key "si_ssId si" "si_inf si" u] si(2) by (simp add: si'(2) item_GetStarlightFeature_def IsStarlightFS_def)
    qed
    then show ?thesis using r(1) Inr by (cases "stack = []") (auto simp: plugin_mounts_def split: sum.splits)
  qed
qed

end

text \<open>
  Without the law the loop need not end: a layer without a manager, and a manager that is there but does not have it.
\<close>

lemma mount_layer_hangs:
  fixes pc :: "'a plugin_client"
  assumes mnt: "pc_Mount pc und (si_ssId si) (si_inf si) cs = (cs, Inl (Fail ErrNoManager))" and prep: "pc_PrepareManager pc namespace md cs = (cs, Inr ())"
  shows "mount_layer pc namespace und si (md # mds) cs = None"
proof (rule ccontr)
  assume "mount_layer pc namespace und si (md # mds) cs \<noteq> None"
  then obtain y where y: "mount_layer pc namespace und si (md # mds) cs = Some y" by blast
  define P where "P = (\<lambda>(pc0 :: 'a plugin_client) (ns0 :: string) und0 (si0 :: snapshot_item) (mds0 :: string list) (cs0 :: 'a \<times> host)
    (y :: ('a \<times> host) \<times> string list \<times> string result). \<not> (pc0 = pc \<and> ns0 = namespace \<and> und0 = und \<and> si0 = si \<and> mds0 = md # mds \<and> cs0 = cs))"
  have "P pc namespace und si (md # mds) cs y"
  proof (rule mount_layer.raw_induct [where P = P, OF _ y])
    fix f pc0 ns0 und0 si0 mds0 cs0 y
    assume IH: "\<And>pc0 ns0 und0 si0 mds0 cs0 y. f pc0 ns0 und0 si0 mds0 cs0 = Some y \<Longrightarrow> P pc0 ns0 und0 si0 mds0 cs0 y"
      and body: "(case pc_Mount pc0 und0 (si_ssId si0) (si_inf si0) cs0 of (cs1, r) \<Rightarrow>
          if r = Inl (Fail ErrNoManager) then
            (case prepare_next pc0 ns0 und0 ErrNoManager mds0 cs1 of
               (cs2, mds2, r2) \<Rightarrow> (case r2 of Inl e \<Rightarrow> Some (cs2, mds2, Inl e) | Inr u \<Rightarrow> f pc0 ns0 und0 si0 mds2 cs2))
          else Some (cs1, mds0, r)) = Some y"
    show "P pc0 ns0 und0 si0 mds0 cs0 y"
    proof (rule ccontr)
      assume "\<not> P pc0 ns0 und0 si0 mds0 cs0 y"
      then have eq: "pc0 = pc" "ns0 = namespace" "und0 = und" "si0 = si" "mds0 = md # mds" "cs0 = cs" by (simp_all add: P_def)
      have "f pc namespace und si (md # mds) cs = Some y" using body mnt prep unfolding eq by simp
      from IH [OF this] show False by (simp add: P_def)
    qed
  qed
  then show False by (simp add: P_def)
qed

end
