(* ===== verification/Client_Mounts.thy ===== *)
theory Client_Mounts
  imports Client_Core Snapshotter_Laws Manager_Tree
begin

text \<open>
  The client as the \<^verbatim>\<open>PluginClient\<close> of the snapshotter: every layer of a loaded image has a manager, so that preparing the manager
  of an image lets its layers be mounted. The mounts of a snapshot return when every prepared image has the layers; otherwise they need
  not.
\<close>

section \<open>The invariant of the client\<close>

definition linked :: "client \<Rightarrow> nat \<Rightarrow> bool" where
  "linked c i \<longleftrightarrow> i < length (cl_managers c) \<and> (\<forall>serial \<in> set (mg_stackSerialMap (cl_managers c ! i)).
     \<exists>d mp. layer_hash (cl_managers c ! i) serial = Inr d \<and> map_of (cl_layerMap c) d = Some mp \<and> mp_manager mp \<noteq> None)"

definition manager_layers :: "manager \<Rightarrow> string set" where
  "manager_layers m = {d. \<exists>serial \<in> set (mg_stackSerialMap m). layer_hash m serial = Inr d}"

text \<open>The layers that every manager made of the stored bundle of an image has; a manager in memory has them too.\<close>

definition stored_layers :: "'ct client_env \<Rightarrow> string \<Rightarrow> string set" where
  "stored_layers ce md = {d. \<forall>namespace ctr ct labels b c dfs m. ce_connect ce namespace = Inr ctr \<longrightarrow> ct_Info ctr md ct = Inr labels \<longrightarrow>
     read_json ctr (ce_bundle ce) (find_label labels (ContentLabelContainerdGC @ ''.starlight'')) ct = Inr b \<longrightarrow>
     init_manager ce c True dfs md b = Inr m \<longrightarrow> d \<in> manager_layers m}"

definition images_inv :: "'ct client_env \<Rightarrow> client \<Rightarrow> bool" where
  "images_inv ce c \<longleftrightarrow> (\<forall>md i. map_of (cl_managerMap c) md = Some i \<longrightarrow> stored_layers ce md \<subseteq> manager_layers (cl_managers c ! i))"

definition client_inv :: "'ct client_env \<Rightarrow> client \<Rightarrow> bool" where
  "client_inv ce c \<longleftrightarrow> (\<forall>md i. map_of (cl_managerMap c) md = Some i \<longrightarrow> linked c i) \<and>
     (\<forall>d mp i. map_of (cl_layerMap c) d = Some mp \<longrightarrow> mp_manager mp = Some i \<longrightarrow> i < length (cl_managers c)) \<and>
     (cl_defaultOptimizer c \<longrightarrow> ce_open_log ce = None)"

text \<open>What changes keep it: the managers keep their layers, and the layers their managers.\<close>

definition same_layers :: "manager \<Rightarrow> manager \<Rightarrow> bool" where
  "same_layers m m' \<longleftrightarrow> mg_stackSerialMap m' = mg_stackSerialMap m \<and> mg_layers m' = mg_layers m"

definition extends_client :: "client \<Rightarrow> client \<Rightarrow> bool" where
  "extends_client c c' \<longleftrightarrow> length (cl_managers c) \<le> length (cl_managers c') \<and>
     (\<forall>i < length (cl_managers c). same_layers (cl_managers c ! i) (cl_managers c' ! i)) \<and>
     (\<forall>d mp. map_of (cl_layerMap c) d = Some mp \<longrightarrow> mp_manager mp \<noteq> None \<longrightarrow>
        (\<exists>mp'. map_of (cl_layerMap c') d = Some mp' \<and> mp_manager mp' \<noteq> None)) \<and>
     cl_defaultOptimizer c' = cl_defaultOptimizer c"

definition pointers_ok :: "client \<Rightarrow> bool" where
  "pointers_ok c \<longleftrightarrow> (\<forall>d mp i. map_of (cl_layerMap c) d = Some mp \<longrightarrow> mp_manager mp = Some i \<longrightarrow> i < length (cl_managers c))"

lemma extends_client_refl [simp]: "extends_client c c"
  by (simp add: extends_client_def same_layers_def)

lemma extends_managerD: "extends_client c c' \<Longrightarrow> i < length (cl_managers c) \<Longrightarrow> i < length (cl_managers c') \<and> same_layers (cl_managers c ! i) (cl_managers c' ! i)"
  by (simp add: extends_client_def)

lemma extends_layerD: "extends_client c c' \<Longrightarrow> map_of (cl_layerMap c) d = Some mp \<Longrightarrow> mp_manager mp \<noteq> None \<Longrightarrow>
    \<exists>mp'. map_of (cl_layerMap c') d = Some mp' \<and> mp_manager mp' \<noteq> None"
  by (simp add: extends_client_def)

lemma extends_client_trans:
  assumes ab: "extends_client a b" and bc: "extends_client b c"
  shows "extends_client a c"
  unfolding extends_client_def
proof (intro conjI allI impI)
  show "length (cl_managers a) \<le> length (cl_managers c)" "cl_defaultOptimizer c = cl_defaultOptimizer a"
    using ab bc by (simp_all add: extends_client_def)
  show "same_layers (cl_managers a ! i) (cl_managers c ! i)" if "i < length (cl_managers a)" for i
    using extends_managerD [OF ab that] extends_managerD [OF bc, of i] by (simp add: same_layers_def)
  show "\<exists>mp'. map_of (cl_layerMap c) d = Some mp' \<and> mp_manager mp' \<noteq> None" if "map_of (cl_layerMap a) d = Some mp" "mp_manager mp \<noteq> None" for d mp
    using extends_layerD [OF ab that] extends_layerD [OF bc] by blast
qed

lemma same_layers_hash: "same_layers m m' \<Longrightarrow> layer_hash m' = layer_hash m"
  by (simp add: fun_eq_iff layer_hash_def same_layers_def)

lemma linked_extends:
  assumes l: "linked c i" and e: "extends_client c c'"
  shows "linked c' i"
proof -
  have i: "i < length (cl_managers c)" using l by (simp add: linked_def)
  note m = extends_managerD [OF e i]
  have eq: "mg_stackSerialMap (cl_managers c' ! i) = mg_stackSerialMap (cl_managers c ! i)" "layer_hash (cl_managers c' ! i) = layer_hash (cl_managers c ! i)"
    using m same_layers_hash [of "cl_managers c ! i" "cl_managers c' ! i"] by (simp_all add: same_layers_def)
  show ?thesis
    unfolding linked_def eq
  proof (intro conjI ballI)
    show "i < length (cl_managers c')" using m by simp
    fix serial assume "serial \<in> set (mg_stackSerialMap (cl_managers c ! i))"
    then obtain d mp where d: "layer_hash (cl_managers c ! i) serial = Inr d" "map_of (cl_layerMap c) d = Some mp" "mp_manager mp \<noteq> None"
      using l unfolding linked_def by meson
    then show "\<exists>d mp. layer_hash (cl_managers c ! i) serial = Inr d \<and> map_of (cl_layerMap c') d = Some mp \<and> mp_manager mp \<noteq> None"
      using extends_layerD [OF e d(2,3)] by meson
  qed
qed

text \<open>A step of the client, which also keeps its images in memory and links the ones that it adds.\<close>

definition client_step :: "client \<Rightarrow> client \<Rightarrow> bool" where
  "client_step c c' \<longleftrightarrow> extends_client c c' \<and> (pointers_ok c \<longrightarrow> pointers_ok c') \<and>
     (\<forall>md i. map_of (cl_managerMap c) md = Some i \<longrightarrow> map_of (cl_managerMap c') md = Some i) \<and>
     (\<forall>md i. map_of (cl_managerMap c') md = Some i \<longrightarrow> map_of (cl_managerMap c) md = Some i \<or> linked c' i)"

lemma client_step_refl [simp]: "client_step c c"
  by (simp add: client_step_def)

lemma client_stepI:
  "extends_client c c' \<Longrightarrow> (pointers_ok c \<Longrightarrow> pointers_ok c') \<Longrightarrow> cl_managerMap c' = cl_managerMap c \<Longrightarrow> client_step c c'"
  by (simp add: client_step_def)

lemma client_step_trans: "client_step a b \<Longrightarrow> client_step b c \<Longrightarrow> client_step a c"
  unfolding client_step_def using extends_client_trans linked_extends by blast

lemma client_inv_step: "client_inv ce c \<Longrightarrow> client_step c c' \<Longrightarrow> client_inv ce c'"
proof -
  assume i: "client_inv ce c" and st: "client_step c c'"
  have e: "extends_client c c'" and p: "pointers_ok c'" using i st by (simp_all add: client_step_def client_inv_def pointers_ok_def)
  have "linked c' j" if "map_of (cl_managerMap c') md = Some j" for md j
  proof -
    have "map_of (cl_managerMap c) md = Some j \<or> linked c' j" using st that by (simp add: client_step_def)
    then show ?thesis using i linked_extends [OF _ e] by (auto simp: client_inv_def)
  qed
  moreover have "cl_defaultOptimizer c' \<longrightarrow> ce_open_log ce = None" using i e by (simp add: client_inv_def extends_client_def)
  ultimately show "client_inv ce c'" using p unfolding client_inv_def pointers_ok_def by blast
qed

lemma same_manager_layers: "same_layers m m' \<Longrightarrow> manager_layers m' = manager_layers m"
  using same_layers_hash [of m m'] by (simp add: manager_layers_def same_layers_def)

lemma images_inv_step:
  assumes inv: "images_inv ce c" "client_inv ce c" and st: "extends_client c c'"
    and new: "\<And>md i. map_of (cl_managerMap c') md = Some i \<Longrightarrow> map_of (cl_managerMap c) md = Some i \<or> stored_layers ce md \<subseteq> manager_layers (cl_managers c' ! i)"
  shows "images_inv ce c'"
  unfolding images_inv_def
proof (intro allI impI)
  fix md i assume i: "map_of (cl_managerMap c') md = Some i"
  show "stored_layers ce md \<subseteq> manager_layers (cl_managers c' ! i)"
  proof (cases "map_of (cl_managerMap c) md = Some i")
    case True
    then have "i < length (cl_managers c)" using inv(2) by (simp add: client_inv_def linked_def)
    then have "same_layers (cl_managers c ! i) (cl_managers c' ! i)" using extends_managerD [OF st] by simp
    then show ?thesis using same_manager_layers inv(1) True by (simp add: images_inv_def)
  next
    case False
    then show ?thesis using new [OF i] by simp
  qed
qed

lemma client_inv_pointers: "client_inv ce c \<Longrightarrow> pointers_ok c"
  by (simp add: client_inv_def pointers_ok_def)

lemma set_manager_extends:
  "i < length (cl_managers c) \<Longrightarrow> same_layers (cl_managers c ! i) m \<Longrightarrow> extends_client c (set_manager i m c)"
  by (auto simp: extends_client_def set_manager_def nth_list_update same_layers_def)

lemma set_mount_point_extends:
  "map_of (cl_layerMap c) d = Some mp \<Longrightarrow> (mp_manager mp \<noteq> None \<Longrightarrow> mp_manager mp' \<noteq> None) \<Longrightarrow> extends_client c (set_mount_point d mp' c)"
  "map_of (cl_layerMap c) d = None \<Longrightarrow> extends_client c (set_mount_point d mp' c)"
  by (auto simp: extends_client_def set_mount_point_def update_conv' same_layers_def)

lemma set_mount_point_pointers:
  "pointers_ok c \<Longrightarrow> (\<And>i. mp_manager mp = Some i \<Longrightarrow> i < length (cl_managers c)) \<Longrightarrow> pointers_ok (set_mount_point d mp c)"
  by (auto simp: pointers_ok_def set_mount_point_def update_conv' split: if_splits)

lemma set_manager_pointers [simp]: "pointers_ok (set_manager i m c) \<longleftrightarrow> pointers_ok c"
  by (simp add: pointers_ok_def set_manager_def)

lemma set_simps [simp]:
  "cl_managerMap (set_mount_point d mp c) = cl_managerMap c" "cl_managerMap (set_manager i m c) = cl_managerMap c"
  "cl_managers (set_mount_point d mp c) = cl_managers c" "cl_layerMap (set_manager i m c) = cl_layerMap c"
  "length (cl_managers (set_manager i m c)) = length (cl_managers c)"
  "cl_defaultOptimizer (set_manager i m c) = cl_defaultOptimizer c" "cl_defaultOptimizer (set_mount_point d mp c) = cl_defaultOptimizer c"
  by (simp_all add: set_mount_point_def set_manager_def)

section \<open>Mounting\<close>

lemma NewStarlightFS_layers: "NewStarlightFS fe mnt stack m mounts = ((m', mounts'), r) \<Longrightarrow> same_layers m m'"
  by (auto simp: NewStarlightFS_def Let_def same_layers_def split: option.splits sum.splits prod.splits)

lemma Mount_step:
  assumes p: "pointers_ok c" and run: "Mount en ld ssId sn (c, h) = ((c', h'), r)"
  shows "client_step c c'"
proof (cases "map_of (cl_layerMap c) ld")
  case None
  then show ?thesis using run by (simp add: Mount_def)
next
  case (Some mp)
  note ld = Some
  show ?thesis
  proof (cases "mp_fs mp")
    case (Some f)
    let ?mp = "mp\<lparr>mp_snapshots := AList.update (sn_Name sn) sn (mp_snapshots mp)\<rparr>"
    have c': "c' = set_mount_point ld ?mp c" using run ld Some by (simp add: Mount_def)
    have "extends_client c c'" unfolding c' by (rule set_mount_point_extends(1) [OF ld]) simp
    moreover have "pointers_ok c'" unfolding c' by (rule set_mount_point_pointers [OF p]) (use p ld in \<open>simp add: pointers_ok_def\<close>)
    ultimately show ?thesis by (intro client_stepI) (simp_all add: c')
  next
    case fs: None
    show ?thesis
    proof (cases "mp_manager mp")
      case None
      then show ?thesis using run ld fs by (simp add: Mount_def)
    next
      case mg: (Some j)
      have j: "j < length (cl_managers c)" using p ld mg by (simp add: pointers_ok_def)
      let ?mnt = "path_join [GetMountingPoint c ssId, ''slfs'']"
      obtain m mounts res where n: "NewStarlightFS (en_fuse en) ?mnt (mp_stack mp) (cl_managers c ! j) (ho_mounts h) = ((m, mounts), res)"
        by (metis prod.collapse)
      have e1: "extends_client c (set_manager j m c)" by (rule set_manager_extends [OF j NewStarlightFS_layers [OF n]])
      show ?thesis
      proof (cases res)
        case (Inl e)
        then have "c' = set_manager j m c" using run ld fs mg n by (simp add: Mount_def Let_def)
        then show ?thesis using e1 p by (intro client_stepI) simp_all
      next
        case (Inr f)
        let ?mp = "mp\<lparr>mp_fs := Some f, mp_snapshots := AList.update (sn_Name sn) sn (mp_snapshots mp)\<rparr>"
        have c': "c' = set_mount_point ld ?mp (set_manager j m c)" using run ld fs mg n Inr by (simp add: Mount_def Let_def)
        have "extends_client (set_manager j m c) c'" unfolding c' using ld mg by (intro set_mount_point_extends(1)) simp_all
        then have "extends_client c c'" by (rule extends_client_trans [OF e1])
        moreover have "pointers_ok c'" unfolding c' using p mg j by (intro set_mount_point_pointers) simp_all
        ultimately show ?thesis by (intro client_stepI) (simp_all add: c')
      qed
    qed
  qed
qed

lemma Mount_images: "Mount en ld ssId sn (c, h) = ((c', h'), r) \<Longrightarrow> cl_managerMap c' = cl_managerMap c"
  by (auto simp: Mount_def Let_def split: option.splits sum.splits prod.splits)

lemma Mount_manager:
  assumes "map_of (cl_layerMap c) ld = Some mp" "mp_manager mp \<noteq> None"
  shows "snd (Mount en ld ssId sn (c, h)) \<noteq> Inl (Fail ErrNoManager)"
proof -
  have "wrap w e \<noteq> Fail ErrNoManager" for w e by (cases e) auto
  then show ?thesis using assms by (auto simp: Mount_def Let_def split: option.splits sum.splits prod.splits)
qed

section \<open>Loading an image\<close>

lemma SetOptimizerOn_layers: "SetOptimizerOn ol now grp m = (m', r) \<Longrightarrow> same_layers m m' \<and> (ol = None \<longrightarrow> (\<exists>t. r = Inr t))"
  by (auto simp: SetOptimizerOn_def Let_def same_layers_def split: option.splits)

lemma default_optimizer_extends:
  assumes "default_optimizer ce i c = (c', r)" "i < length (cl_managers c)"
  shows "extends_client c c' \<and> (pointers_ok c' \<longleftrightarrow> pointers_ok c) \<and> cl_managerMap c' = cl_managerMap c \<and> cl_layerMap c' = cl_layerMap c \<and>
    length (cl_managers c') = length (cl_managers c) \<and> (\<forall>j. j \<noteq> i \<longrightarrow> cl_managers c' ! j = cl_managers c ! j) \<and>
    ((cl_defaultOptimizer c \<longrightarrow> ce_open_log ce = None) \<longrightarrow> r = Inr ())"
proof (cases "cl_defaultOptimizer c")
  case True
  obtain m t where s: "SetOptimizerOn (ce_open_log ce) (ce_now ce) (cl_defaultOptimizeGroup c) (cl_managers c ! i) = (m, t)" by fastforce
  then have "c' = set_manager i m c" using assms(1) True by (auto simp: default_optimizer_def split: sum.splits)
  then show ?thesis using SetOptimizerOn_layers [OF s] set_manager_extends [OF assms(2)] assms(1) s True
    by (auto simp: default_optimizer_def set_manager_def pointers_ok_def split: sum.splits)
next
  case False
  then show ?thesis using assms by (auto simp: default_optimizer_def)
qed

lemma link_mount_point_links:
  assumes "i < length (cl_managers c)"
  shows "extends_client c (link_mount_point i stack d c) \<and> (pointers_ok c \<longrightarrow> pointers_ok (link_mount_point i stack d c)) \<and>
    cl_managerMap (link_mount_point i stack d c) = cl_managerMap c \<and> cl_managers (link_mount_point i stack d c) = cl_managers c \<and>
    (\<exists>mp. map_of (cl_layerMap (link_mount_point i stack d c)) d = Some mp \<and> mp_manager mp \<noteq> None)"
  using assms
  by (auto simp: link_mount_point_def new_mount_point_def set_mount_point_def update_conv' extends_client_def same_layers_def pointers_ok_def split: option.splits if_splits)

lemma link_stack_links:
  assumes "i < length (cl_managers c)" "link_stack m i idx serials c = (c', r)" "\<forall>s \<in> set serials. \<exists>d. layer_hash m s = Inr d"
  shows "extends_client c c' \<and> (pointers_ok c \<longrightarrow> pointers_ok c') \<and> cl_managerMap c' = cl_managerMap c \<and> cl_managers c' = cl_managers c \<and> r = Inr () \<and>
    (\<forall>s \<in> set serials. \<exists>d mp. layer_hash m s = Inr d \<and> map_of (cl_layerMap c') d = Some mp \<and> mp_manager mp \<noteq> None)"
  using assms
proof (induction serials arbitrary: idx c)
  case Nil
  then show ?case by simp
next
  case (Cons s serials)
  obtain d where d: "layer_hash m s = Inr d" using Cons.prems(3) by auto
  note l = link_mount_point_links [OF Cons.prems(1), of idx d]
  have run: "link_stack m i (idx + 1) serials (link_mount_point i idx d c) = (c', r)" using Cons.prems(2) d by simp
  have IH: "extends_client (link_mount_point i idx d c) c' \<and> (pointers_ok (link_mount_point i idx d c) \<longrightarrow> pointers_ok c') \<and>
      cl_managerMap c' = cl_managerMap (link_mount_point i idx d c) \<and> cl_managers c' = cl_managers (link_mount_point i idx d c) \<and> r = Inr () \<and>
      (\<forall>s \<in> set serials. \<exists>d mp. layer_hash m s = Inr d \<and> map_of (cl_layerMap c') d = Some mp \<and> mp_manager mp \<noteq> None)"
    by (rule Cons.IH [OF _ run]) (use l Cons.prems in auto)
  have "\<exists>mp. map_of (cl_layerMap c') d = Some mp \<and> mp_manager mp \<noteq> None"
    using l IH unfolding extends_client_def by metis
  then show ?case using l IH d extends_client_trans by auto
qed

lemma Init_serials:
  assumes "Init address ptime iter fsroot traces ready dfs dg m = Inr m'"
  shows "\<forall>s \<in> set (mg_stackSerialMap m'). \<exists>d. layer_hash m' s = Inr d"
proof -
  obtain m2 b files' where m2: "init_layers (m\<lparr>mg_FileSystemRoot := fsroot, mg_TracesDir := traces, mg_layers := [], mg_stackSerialMap := [], mg_fs := [],
       mg_DiffIDs := dfs, mg_manifestDigest := dg\<rparr>) = Inr m2"
    and m': "m' = m2\<lparr>mg_bundle := b\<lparr>rb_RequestedFiles := files'\<rparr>, mg_fileLookUpMap := mg_fileLookUpMap m'\<rparr>"
    by (rule Init_Inr [OF assms]) blast
  obtain ds ss where ls: "mg_layers m2 = fold (\<lambda>l. AList.update (rl_Serial l) l) (ds @ ss) []" "mg_stackSerialMap m2 = map rl_Serial ds"
    by (rule init_layers_Inr [OF m2]) blast
  have "map_of (mg_layers m2) (rl_Serial l) \<noteq> None" if "l \<in> set ds" for l
    unfolding ls(1) using that fold_layers_dom [of "rl_Serial l" "ds @ ss" "[]"] by auto
  then have "\<forall>s \<in> set (mg_stackSerialMap m2). map_of (mg_layers m2) s \<noteq> None" using ls(2) by auto
  moreover have "mg_layers m' = mg_layers m2" "mg_stackSerialMap m' = mg_stackSerialMap m2" by (subst m', simp)+
  ultimately show ?thesis by (auto simp: layer_hash_def split: option.splits)
qed

lemma link_image:
  assumes p: "pointers_ok c" and opt: "cl_defaultOptimizer c \<longrightarrow> ce_open_log ce = None" and hashes: "\<forall>s \<in> set (mg_stackSerialMap m). \<exists>d. layer_hash m s = Inr d"
    and new: "map_of (cl_managerMap c) md = None"
    and o: "default_optimizer ce (length (cl_managers c)) (add_manager md m c) = (c1, r1)" and l: "link_stack m (length (cl_managers c)) 0 (mg_stackSerialMap m) c1 = (c2, r2)"
  shows "client_step c c2 \<and> r1 = Inr () \<and> r2 = Inr () \<and> map_of (cl_managerMap c2) = (map_of (cl_managerMap c))(md \<mapsto> length (cl_managers c)) \<and>
    same_layers m (cl_managers c2 ! length (cl_managers c))"
proof -
  let ?j = "length (cl_managers c)" and ?c0 = "add_manager md m c"
  have e0: "extends_client c ?c0" by (simp add: extends_client_def add_manager_def same_layers_def nth_append)
  have p0: "pointers_ok ?c0" using p unfolding pointers_ok_def add_manager_def by fastforce
  have lt: "?j < length (cl_managers ?c0)" by (simp add: add_manager_def)
  note oe = default_optimizer_extends [OF o lt]
  have "cl_defaultOptimizer ?c0 = cl_defaultOptimizer c" by (simp add: add_manager_def)
  then have r1: "r1 = Inr ()" using oe opt by simp
  have le: "extends_client c1 c2 \<and> (pointers_ok c1 \<longrightarrow> pointers_ok c2) \<and> cl_managerMap c2 = cl_managerMap c1 \<and> cl_managers c2 = cl_managers c1 \<and> r2 = Inr () \<and>
      (\<forall>s \<in> set (mg_stackSerialMap m). \<exists>d mp. layer_hash m s = Inr d \<and> map_of (cl_layerMap c2) d = Some mp \<and> mp_manager mp \<noteq> None)"
    by (rule link_stack_links [OF _ l hashes]) (use oe lt in simp)
  have sl: "same_layers m (cl_managers c1 ! ?j)" using oe extends_managerD [of ?c0 c1 ?j] lt by (simp add: add_manager_def)
  have h: "layer_hash (cl_managers c1 ! ?j) = layer_hash m" by (rule same_layers_hash [OF sl])
  have ser: "mg_stackSerialMap (cl_managers c1 ! ?j) = mg_stackSerialMap m" using sl by (simp add: same_layers_def)
  have cm: "cl_managers c2 = cl_managers c1" "length (cl_managers c1) = length (cl_managers ?c0)" using le oe by simp_all
  have "linked c2 ?j" unfolding linked_def cm(1) h ser using cm(2) lt le by simp
  moreover have mm: "map_of (cl_managerMap c2) = (map_of (cl_managerMap c))(md \<mapsto> ?j)" using le oe by (simp add: add_manager_def update_conv')
  moreover have "extends_client c c2" using extends_client_trans [OF e0] extends_client_trans oe le by blast
  ultimately have "client_step c c2" using le oe p0 new unfolding client_step_def by simp
  then show ?thesis using r1 le mm sl cm by simp
qed

lemma LoadImage_cases:
  assumes p: "pointers_ok c" and opt: "cl_defaultOptimizer c \<longrightarrow> ce_open_log ce = None" and run: "LoadImage ce ctr md ct c = (c', r)"
  obtains (known) j where "c' = c" "r = Inr j" "map_of (cl_managerMap c) md = Some j"
    | (fails) e where "c' = c" "r = Inl e"
    | (loads) m labels b dfs where "ct_Info ctr md ct = Inr labels" "read_json ctr (ce_bundle ce) (find_label labels (ContentLabelContainerdGC @ ''.starlight'')) ct = Inr b"
        "init_manager ce c True dfs md b = Inr m" "client_step c c'" "map_of (cl_managerMap c') = (map_of (cl_managerMap c))(md \<mapsto> length (cl_managers c))"
        "same_layers m (cl_managers c' ! length (cl_managers c))" "r = Inr (length (cl_managers c))"
proof (cases "map_of (cl_managerMap c) md")
  case (Some j)
  then show ?thesis using run known by (auto simp: LoadImage_def)
next
  case None
  consider e where "c' = c" "r = Inl e" | m labels b dfs where "ct_Info ctr md ct = Inr labels"
      "read_json ctr (ce_bundle ce) (find_label labels (ContentLabelContainerdGC @ ''.starlight'')) ct = Inr b" "init_manager ce c True dfs md b = Inr m"
      "(case default_optimizer ce (length (cl_managers c)) (add_manager md m c) of
              (c1, Inl e) \<Rightarrow> (c1, Inl e)
            | (c1, Inr u) \<Rightarrow> (case link_stack m (length (cl_managers c)) 0 (mg_stackSerialMap m) c1 of
                  (c2, Inl e) \<Rightarrow> (c2, Inl e) | (c2, Inr v) \<Rightarrow> (c2, Inr (length (cl_managers c))))) = (c', r)"
    using run None unfolding LoadImage_def Let_def by (auto split: sum.splits)
  then show ?thesis
  proof cases
    case 1
    then show ?thesis by (rule fails)
  next
    case (2 m labels b dfs)
    have hashes: "\<forall>s \<in> set (mg_stackSerialMap m). \<exists>d. layer_hash m s = Inr d" using 2(3) Init_serials unfolding init_manager_def by blast
    obtain c1 r1 where o: "default_optimizer ce (length (cl_managers c)) (add_manager md m c) = (c1, r1)" by fastforce
    obtain c2 r2 where l: "link_stack m (length (cl_managers c)) 0 (mg_stackSerialMap m) c1 = (c2, r2)" by fastforce
    note li = link_image [OF p opt hashes None o l]
    have "c' = c2" "r = Inr (length (cl_managers c))" using 2(4) o l li by simp_all
    then show ?thesis using li by (intro loads [OF 2(1-3)]) simp_all
  qed
qed

lemma LoadImage_inv:
  assumes i: "client_inv ce c" and run: "LoadImage ce ctr md ct c = (c', r)"
  shows "client_inv ce c' \<and> (\<forall>j. r = Inr j \<longrightarrow> map_of (cl_managerMap c') md = Some j)"
proof -
  have opt: "cl_defaultOptimizer c \<longrightarrow> ce_open_log ce = None" using i by (simp add: client_inv_def)
  show ?thesis
    by (cases rule: LoadImage_cases [OF client_inv_pointers [OF i] opt run]) (use i client_inv_step [OF i] in simp_all)
qed

lemma LoadImage_images:
  assumes i: "client_inv ce c" "images_inv ce c" and conn: "ce_connect ce namespace = Inr ctr" and run: "LoadImage ce ctr md ct c = (c', r)"
  shows "images_inv ce c'"
proof -
  have opt: "cl_defaultOptimizer c \<longrightarrow> ce_open_log ce = None" using i by (simp add: client_inv_def)
  show ?thesis
  proof (cases rule: LoadImage_cases [OF client_inv_pointers [OF i(1)] opt run])
    case (3 m labels b dfs)
    have "stored_layers ce md \<subseteq> manager_layers m" using conn 3(1-3) unfolding stored_layers_def by blast
    also have "\<dots> = manager_layers (cl_managers c' ! length (cl_managers c))" using same_manager_layers [OF 3(6)] by simp
    finally have "stored_layers ce md \<subseteq> manager_layers (cl_managers c' ! length (cl_managers c))" .
    then show ?thesis using 3(4,5) by (intro images_inv_step [OF i(2,1)]) (auto simp: client_step_def split: if_splits)
  qed (use i in simp_all)
qed

text \<open>
  C36: Loading an image. When the optimizer can be set on, \<^verbatim>\<open>LoadImage\<close> keeps the links between images, managers and layers, whether it
  succeeds or not; when it succeeds the image is in memory, and every layer of it has a manager.
\<close>

theorem LoadImage_links:
  assumes i: "client_inv ce c" and run: "LoadImage ce ctr md ct c = (c', r)"
  shows "client_inv ce c' \<and> (\<forall>j. r = Inr j \<longrightarrow> map_of (cl_managerMap c') md = Some j \<and> linked c' j)"
  using LoadImage_inv [OF i run] unfolding client_inv_def by blast

section \<open>The client keeps what the plugin relies on\<close>

definition plugin_inv :: "'ct client_env \<Rightarrow> 'ct world \<Rightarrow> bool" where
  "plugin_inv ce w \<longleftrightarrow> client_inv ce (fst (fst w)) \<and> images_inv ce (fst (fst w))"

lemma PrepareManager_inv:
  assumes i: "client_inv ce c" "images_inv ce c" and run: "PrepareManager ce namespace md ct c = (c', r)"
  shows "client_inv ce c' \<and> images_inv ce c' \<and> (r = Inr () \<longrightarrow> (\<exists>j. map_of (cl_managerMap c') md = Some j))"
proof (cases "ce_connect ce namespace")
  case (Inl e)
  then show ?thesis using assms by (auto simp: PrepareManager_def)
next
  case (Inr ctr)
  obtain c1 r1 where l: "LoadImage ce ctr md ct c = (c1, r1)" by fastforce
  have "c' = c1" using run Inr l by (auto simp: PrepareManager_def split: sum.splits)
  moreover have "r = Inr () \<longrightarrow> (\<exists>j. r1 = Inr j)" using run Inr l by (auto simp: PrepareManager_def split: sum.splits)
  ultimately show ?thesis using LoadImage_inv [OF i(1) l] LoadImage_images [OF i Inr l] by blast
qed

interpretation client_laws: plugin_laws "client_plugin ce" "stored_layers ce" "plugin_inv ce"
  for ce :: "'ct client_env"
proof
  fix cs cs' :: "'ct world" and namespace md r
  assume i: "plugin_inv ce cs" and run: "pc_PrepareManager (client_plugin ce) namespace md cs = (cs', r)"
  obtain c ct h where cs: "cs = ((c, ct), h)" by (metis prod.collapse)
  obtain c1 r1 where p: "PrepareManager ce namespace md ct c = (c1, r1)" by fastforce
  have "cs' = ((c1, ct), h)" using run by (simp add: client_plugin_def cs p)
  then show "plugin_inv ce cs'" using PrepareManager_inv [OF _ _ p] i cs by (simp add: plugin_inv_def)
next
  fix cs cs' :: "'ct world" and und ssId info r'
  assume i: "plugin_inv ce cs" and run: "pc_Mount (client_plugin ce) und ssId info cs = (cs', r')"
  obtain c ct h where cs: "cs = ((c, ct), h)" by (metis prod.collapse)
  obtain c1 h1 r1 where p: "Mount (ce_env ce) und ssId info (c, h) = ((c1, h1), r1)" by (metis prod.collapse)
  have cs': "cs' = ((c1, ct), h1)" using run by (simp add: client_plugin_def cs p)
  have inv: "client_inv ce c" "images_inv ce c" using i cs by (simp_all add: plugin_inv_def)
  have st: "client_step c c1" "cl_managerMap c1 = cl_managerMap c" using Mount_step [OF client_inv_pointers [OF inv(1)] p] Mount_images [OF p] by simp_all
  have "images_inv ce c1" by (rule images_inv_step [OF inv(2,1)]) (use st in \<open>simp_all add: client_step_def\<close>)
  then show "plugin_inv ce cs'" using client_inv_step [OF inv(1) st(1)] cs' by (simp add: plugin_inv_def)
next
  fix cs cs' :: "'ct world" and namespace md und ssId info
  assume i: "plugin_inv ce cs" and run: "pc_PrepareManager (client_plugin ce) namespace md cs = (cs', Inr ())" and und: "und \<in> stored_layers ce md"
  obtain c ct h where cs: "cs = ((c, ct), h)" by (metis prod.collapse)
  obtain c1 r1 where p: "PrepareManager ce namespace md ct c = (c1, r1)" by fastforce
  have cs': "cs' = ((c1, ct), h)" and r1: "r1 = Inr ()" using run by (simp_all add: client_plugin_def cs p)
  have inv: "client_inv ce c1" "images_inv ce c1" "\<exists>j. map_of (cl_managerMap c1) md = Some j"
    using PrepareManager_inv [OF _ _ p] i cs r1 by (simp_all add: plugin_inv_def)
  then obtain j where j: "map_of (cl_managerMap c1) md = Some j" by blast
  have "und \<in> manager_layers (cl_managers c1 ! j)" using inv(2) j und unfolding images_inv_def by blast
  moreover have "linked c1 j" using inv(1) j by (simp add: client_inv_def)
  ultimately obtain mp where mp: "map_of (cl_layerMap c1) und = Some mp" "mp_manager mp \<noteq> None"
    unfolding linked_def manager_layers_def by fastforce
  show "snd (pc_Mount (client_plugin ce) und ssId info cs') \<noteq> Inl (Fail ErrNoManager)"
    using Mount_manager [OF mp, of "ce_env ce" ssId info h]
    by (cases "Mount (ce_env ce) und ssId info (c1, h)") (simp add: client_plugin_def cs' split: prod.splits)
qed


text \<open>
  The mounts of a snapshot may never return. When the lowest snapshot names a layer that was only found on the disk,
  and the image that the upper snapshot names is in memory, \<^verbatim>\<open>mounts\<close> tries the two forever, and a new snapshot never returns.
\<close>

theorem mounts_hang:
  assumes stack: "getFsStack get info [] = Some (Inr (si # sis))" and bottom: "IsStarlightFS (last (si # sis))"
    "map_of (cl_layerMap c) (label (si_inf (last (si # sis))) SnapshotLabelRefUncompressed) = Some mp" "mp_fs mp = None" "mp_manager mp = None"
    and top: "map_of (cl_managerMap c) (label (si_inf si) SnapshotLabelRefImage) = Some i" and conn: "ce_connect ce namespace = Inr ctr"
  shows "plugin_mounts (client_plugin ce) get namespace ssId info ((c, ct), h) = None"
proof -
  let ?b = "last (si # sis)" and ?md = "label (si_inf si) SnapshotLabelRefImage" and ?pc = "client_plugin ce" and ?cs = "((c, ct), h)"
  let ?und = "label (si_inf ?b) SnapshotLabelRefUncompressed"
  have mnt: "pc_Mount ?pc ?und (si_ssId ?b) (si_inf ?b) ?cs = (?cs, Inl (Fail ErrNoManager))"
    using bottom(2-4) by (simp add: client_plugin_def Mount_def)
  have prep: "pc_PrepareManager ?pc namespace ?md ?cs = (?cs, Inr ())"
    using top conn by (simp add: client_plugin_def PrepareManager_def LoadImage_def)
  obtain mds where mds: "manager_digests (si # sis) [] = ?md # mds" by (simp add: item_GetStarlightFeature_def Let_def)
  obtain rest where rev: "rev (si # sis) = ?b # rest" by (metis append_butlast_last_id list.distinct(1) rev_eq_Cons_iff rev_rev_ident)
  have "mount_lower ?pc namespace (?b # rest) (?md # mds) [] ?cs = None"
    using mount_layer_hangs [OF mnt prep, of mds] bottom(1) by (simp add: item_GetStarlightFeature_def)
  then have "mount_lower ?pc namespace (rev (si # sis)) (manager_digests (si # sis) []) [] ?cs = None" unfolding mds rev .
  then show ?thesis using stack unfolding plugin_mounts_def by simp
qed

section \<open>Unmounting\<close>

text \<open>
  An unmounted layer stays stale. After the last snapshot of a layer is unmounted its directory is neither mounted nor on the disk, but
  the next mount of the layer answers with that directory and mounts nothing.
\<close>

theorem Unmount_stale:
  assumes mp: "map_of (cl_layerMap c) d = Some mp" "mp_fs mp = Some f" "mp_snapshots mp = [(key, sn)]"
    and um: "fe_unmount (en_fuse en) (in_mountPoint f) = None" "in_mountPoint f \<notin> set (remove1 (in_mountPoint f) (ho_mounts h))"
    and os: "en_os en = (\<lambda>op path. None)"
  shows "\<exists>c' h'. Unmount en d key (c, h) = ((c', h'), Inr ()) \<and> in_mountPoint f \<notin> set (ho_mounts h') \<and> in_mountPoint f \<notin> set (dk_dirs (ho_disk h')) \<and>
    (\<forall>ssId sn'. \<exists>c2. Mount en d ssId sn' (c', h') = ((c2, h'), Inr (in_mountPoint f)))"
proof -
  let ?c = "set_mount_point d (mp\<lparr>mp_snapshots := []\<rparr>) c"
  let ?h = "h\<lparr>ho_mounts := remove1 (in_mountPoint f) (ho_mounts h), ho_disk := fst (RemoveAll (en_os en) (in_mountPoint f) (ho_disk h))\<rparr>"
  have "Unmount en d key (c, h) = ((?c, ?h), Inr ())"
    using mp um(1) by (simp add: Unmount_def Let_def Instance_Teardown_def kernel_unmount_def)
  moreover have "in_mountPoint f \<notin> set (dk_dirs (ho_disk ?h))" by (simp add: os RemoveAll_def below_def)
  moreover have "\<exists>c2. Mount en d ssId sn' (?c, ?h) = ((c2, ?h), Inr (in_mountPoint f))" for ssId sn'
    using mp(2) by (simp add: Mount_def set_mount_point_def update_conv')
  ultimately show ?thesis using um(2) by (intro exI [of _ ?c] exI [of _ ?h]) simp
qed

end
