(* ===== verification/Client_Ready.thy ===== *)
theory Client_Ready
  imports Manager_Store Manager_Tree
begin

text \<open>
  From a bundle to a manager that can extract: what \<^verbatim>\<open>Init\<close> makes of a well-formed bundle is the layout of an image, and
  \<^verbatim>\<open>PrepareDirectories\<close> makes the room for it on the disk.
\<close>

section \<open>Init makes the layout\<close>

definition bundle_layers :: "rbundle \<Rightarrow> rlayer list" where
  "bundle_layers b = ri_Layers (rb_Destination b) @ (case rb_Source b of None \<Rightarrow> [] | Some src \<Rightarrow> ri_Layers src)"

text \<open>The layers of a bundle have digests, which their serials determine; its contents are on layers of the image, each digest once.\<close>

definition bundle_ok :: "rbundle \<Rightarrow> bool" where
  "bundle_ok b \<longleftrightarrow> (\<forall>l \<in> set (bundle_layers b). sha256 (rl_Hash l)) \<and>
     (\<forall>l \<in> set (bundle_layers b). \<forall>l' \<in> set (bundle_layers b). rl_Serial l = rl_Serial l' \<longrightarrow> rl_Hash l = rl_Hash l') \<and>
     (\<forall>c \<in> set (rb_Contents b). sha256 (rc_Digest c) \<and> 0 \<le> rc_Stack c \<and> rc_Stack c < int (length (ri_Layers (rb_Destination b)))) \<and>
     distinct (map rc_Digest (rb_Contents b))"

definition located :: "string list \<Rightarrow> rlayer \<Rightarrow> rlayer" where
  "located rs l = l\<lparr>rl_Local := abs_path (layer_comps rs l)\<rparr>"

lemma located_simps [simp]: "rl_Serial (located rs l) = rl_Serial l" "rl_Hash (located rs l) = rl_Hash l"
    "rl_Local (located rs l) = abs_path (layer_comps rs l)" "layer_comps rs (located rs l) = layer_comps rs l"
  by (simp_all add: located_def layer_comps_def)

lemma init_locals_located:
  assumes "rs \<noteq> []" "\<forall>c \<in> set rs. normal_comp c" "\<forall>l \<in> set ls. sha256 (rl_Hash l)" "init_locals (abs_path rs) ls = Inr ls'"
  shows "ls' = map (located rs) ls"
proof (rule nth_equalityI)
  note i = init_locals_Inr [OF assms(4)]
  show "length ls' = length (map (located rs) ls)" using i by simp
  fix k assume "k < length ls'"
  then have k: "k < length ls" using i by simp
  then have "layer_directory (abs_path rs) (rl_Hash (ls ! k)) = Inr (abs_path (layer_comps rs (ls ! k)))"
    using layer_directory_sha [OF _ assms(1,2)] assms(3) by (simp add: layer_comps_def)
  moreover have "layer_directory (abs_path rs) (rl_Hash (ls ! k)) = Inr (rl_Local (ls' ! k))" and eq: "ls' ! k = (ls ! k)\<lparr>rl_Local := rl_Local (ls' ! k)\<rparr>"
    using i k by blast+
  ultimately have loc: "rl_Local (ls' ! k) = abs_path (layer_comps rs (ls ! k))" by simp
  have "ls' ! k = located rs (ls ! k)" unfolding located_def loc [symmetric] by (fact eq)
  then show "ls' ! k = map (located rs) ls ! k" using k by simp
qed

lemma Init_layout:
  assumes run: "Init address ptime iter (abs_path rs) traces False dfs dg (unmarshal_manager b) = Inr m" and ok: "bundle_ok b"
    and rs: "rs \<noteq> []" "\<forall>c \<in> set rs. normal_comp c"
  shows "image_layout rs m" "mg_dest_layers m = map (located rs) (ri_Layers (rb_Destination b))" "length (mg_contents m) = length (rb_Contents b)"
    "i < length (rb_Contents b) \<Longrightarrow> same_content (rb_Contents b ! i) (mg_contents m ! i) \<and> rc_Signal (mg_contents m ! i) = OpenChan"
proof -
  define m1 where "m1 = unmarshal_manager b\<lparr>mg_FileSystemRoot := abs_path rs, mg_TracesDir := traces, mg_layers := [], mg_stackSerialMap := [], mg_fs := [],
       mg_DiffIDs := dfs, mg_manifestDigest := dg\<rparr>"
  let ?dest = "ri_Layers (rb_Destination b)"
  obtain m2 b2 files' where m2: "init_layers m1 = Inr m2" and b2: "init_signals False (mg_bundle m2) = Inr b2"
    and m: "m = m2\<lparr>mg_bundle := b2\<lparr>rb_RequestedFiles := files'\<rparr>, mg_fileLookUpMap := mg_fileLookUpMap m\<rparr>"
    unfolding m1_def by (rule Init_Inr [OF run]) blast
  have src: "rb_Source (mg_bundle m1) = rb_Source b" "mg_dest_layers m1 = ?dest" "mg_contents m1 = rb_Contents b" "mg_FileSystemRoot m1 = abs_path rs"
    by (simp_all add: m1_def unmarshal_manager_def)
  obtain ds ss where i: "init_locals (mg_FileSystemRoot m1) (mg_dest_layers m1) = Inr ds"
      "case rb_Source (mg_bundle m1) of None \<Rightarrow> ss = [] | Some src \<Rightarrow> init_locals (mg_FileSystemRoot m1) (ri_Layers src) = Inr ss"
    and l2: "mg_layers m2 = fold (\<lambda>l. AList.update (rl_Serial l) l) (ds @ ss) []" "mg_stackSerialMap m2 = map rl_Serial ds" "mg_dest_layers m2 = ds"
      "mg_contents m2 = mg_contents m1"
    by (rule init_layers_Inr [OF m2]) (rule that)
  have ds: "init_locals (abs_path rs) ?dest = Inr ds" using i(1) unfolding src .
  have ss: "case rb_Source b of None \<Rightarrow> ss = [] | Some src \<Rightarrow> init_locals (abs_path rs) (ri_Layers src) = Inr ss" using i(2) unfolding src .
  have c2: "mg_contents m2 = rb_Contents b" using l2(4) unfolding src .
  have sha: "\<forall>l \<in> set (bundle_layers b). sha256 (rl_Hash l)"
    and same: "\<forall>l \<in> set (bundle_layers b). \<forall>l' \<in> set (bundle_layers b). rl_Serial l = rl_Serial l' \<longrightarrow> rl_Hash l = rl_Hash l'"
    and cs: "\<forall>c \<in> set (rb_Contents b). sha256 (rc_Digest c) \<and> 0 \<le> rc_Stack c \<and> rc_Stack c < int (length ?dest)"
    and dist: "distinct (map rc_Digest (rb_Contents b))"
    using ok unfolding bundle_ok_def by blast+
  have "\<forall>l \<in> set ?dest. sha256 (rl_Hash l)" using sha unfolding bundle_layers_def by simp
  then have dse: "ds = map (located rs) ?dest" by (rule init_locals_located [OF rs _ ds])
  have sse: "ds @ ss = map (located rs) (bundle_layers b)"
  proof (cases "rb_Source b")
    case None
    then show ?thesis using ss dse by (simp add: bundle_layers_def)
  next
    case (Some src)
    have "\<forall>l \<in> set (ri_Layers src). sha256 (rl_Hash l)" using sha Some unfolding bundle_layers_def by simp
    moreover have "init_locals (abs_path rs) (ri_Layers src) = Inr ss" using ss Some by simp
    ultimately have "ss = map (located rs) (ri_Layers src)" by (rule init_locals_located [OF rs])
    then show ?thesis using dse Some by (simp add: bundle_layers_def)
  qed
  note s2 = init_signals_Inr [OF b2]
  have mb: "mg_bundle m = b2\<lparr>rb_RequestedFiles := files'\<rparr>" "mg_layers m = mg_layers m2" "mg_stackSerialMap m = mg_stackSerialMap m2" by (subst m, simp)+
  show dest: "mg_dest_layers m = map (located rs) ?dest" using s2 l2(3) dse by (simp add: mb)
  show len: "length (mg_contents m) = length (rb_Contents b)" using s2 c2 by (simp add: mb)
  show con: "same_content (rb_Contents b ! i) (mg_contents m ! i) \<and> rc_Signal (mg_contents m ! i) = OpenChan" if "i < length (rb_Contents b)" for i
    using s2 c2 that by (simp add: mb)
  have cm: "\<exists>c' \<in> set (rb_Contents b). same_content c' c" if "c \<in> set (mg_contents m)" for c
    using con that len by (metis in_set_conv_nth)
  have serial: "GetPathBySerial m (rl_Serial l) = Inr (rl_Local l)" if l: "l \<in> set (mg_dest_layers m)" for l
  proof -
    obtain l' where l': "map_of (mg_layers m) (rl_Serial l) = Some l'"
      using fold_layers_dom [of "rl_Serial l" "ds @ ss" "[]"] l dest dse by (auto simp: mb l2(1))
    then have "l' \<in> set (ds @ ss)" "rl_Serial l' = rl_Serial l" using fold_layers_some [of "ds @ ss" "[]" "rl_Serial l" l'] by (auto simp: mb l2(1))
    moreover obtain k where "k \<in> set ?dest" "l = located rs k" using l dest by auto
    ultimately obtain k' where k': "k' \<in> set (bundle_layers b)" "l' = located rs k'" "rl_Serial k' = rl_Serial k" using sse by auto
    have "k \<in> set (bundle_layers b)" using \<open>k \<in> set ?dest\<close> by (simp add: bundle_layers_def)
    then have "rl_Hash k' = rl_Hash k" using same k'(1,3) by blast
    then show ?thesis using l' k'(2) \<open>l = located rs k\<close> by (simp add: GetPathBySerial_def layer_comps_def)
  qed
  have digests: "map rc_Digest (mg_contents m) = map rc_Digest (rb_Contents b)"
    by (rule nth_equalityI) (use len con in \<open>auto simp: same_content_def\<close>)
  show "image_layout rs m"
    unfolding image_layout_def
  proof (intro conjI ballI)
    show "rs \<noteq> []" "distinct (map rc_Digest (mg_contents m))" "mg_stackSerialMap m = map rl_Serial (mg_dest_layers m)"
      using rs(1) digests dist dest dse l2(2) by (simp_all add: mb(3))
    show "normal_comp c" if "c \<in> set rs" for c using rs(2) that by simp
    show "sha256 (rl_Hash l)" "rl_Local l = abs_path (layer_comps rs l)" "GetPathBySerial m (rl_Serial l) = Inr (rl_Local l)"
      if "l \<in> set (mg_dest_layers m)" for l
      using that serial [OF that] dest sha by (auto simp: bundle_layers_def)
    show "sha256 (rc_Digest c)" "0 \<le> rc_Stack c" "rc_Stack c < int (length (mg_dest_layers m))" if c: "c \<in> set (mg_contents m)" for c
      using cm [OF c] cs dest by (auto simp: same_content_def)
  qed
qed

section \<open>PrepareDirectories makes the room\<close>

lemma prepare_layers_run:
  assumes "idx + length ls = length (mg_completedStack m)" "\<forall>l \<in> set ls. \<forall>q \<in> set (ancestors (rl_Local l)). file_at d q = None"
  shows "\<exists>d'. prepare_layers no_os_faults lm idx ls m d =
      ((m\<lparr>mg_completedStack := take idx (mg_completedStack m) @ map (\<lambda>l. lm (rl_Hash l) \<noteq> None) ls\<rparr>, d'), Inr ()) \<and> file_at d' = file_at d \<and>
      set (dk_dirs d') = set (dk_dirs d) \<union> (\<Union>l \<in> {l \<in> set ls. lm (rl_Hash l) = None}. set (ancestors (rl_Local l)))"
  using assms
proof (induction ls arbitrary: idx m d)
  case Nil
  then show ?case by simp
next
  case (Cons l ls)
  let ?p = "lm (rl_Hash l) \<noteq> None"
  let ?m = "m\<lparr>mg_completedStack := (mg_completedStack m)[idx := ?p]\<rparr>"
  have idx: "idx < length (mg_completedStack m)" "Suc idx + length ls = length (mg_completedStack ?m)" using Cons.prems(1) by simp_all
  have stack: "take (Suc idx) (mg_completedStack ?m) = take idx (mg_completedStack m) @ [?p]" using idx(1) by (simp add: take_Suc_conv_app_nth)
  obtain d1 where d1: "file_at d1 = file_at d" "set (dk_dirs d1) = set (dk_dirs d) \<union> (if ?p then {} else set (ancestors (rl_Local l)))"
    and step: "prepare_layers no_os_faults lm idx (l # ls) m d = prepare_layers no_os_faults lm (Suc idx) ls ?m d1"
  proof (cases ?p)
    case True
    then show thesis using idx(1) by (intro that [of d]) (auto simp: Let_def)
  next
    case False
    obtain d1 where "MkdirAll no_os_faults (rl_Local l) d = (d1, None)" "set (dk_dirs d1) = set (ancestors (rl_Local l)) \<union> set (dk_dirs d)"
      "file_at d1 = file_at d"
      using MkdirAll_run [of "rl_Local l" d] Cons.prems(2) by auto
    then show thesis using idx(1) False by (intro that [of d1]) (auto simp: Let_def)
  qed
  have "\<forall>l \<in> set ls. \<forall>q \<in> set (ancestors (rl_Local l)). file_at d1 q = None" using Cons.prems(2) d1(1) by simp
  from Cons.IH [OF idx(2) this] obtain d' where d': "prepare_layers no_os_faults lm (Suc idx) ls ?m d1 =
      ((?m\<lparr>mg_completedStack := take (Suc idx) (mg_completedStack ?m) @ map (\<lambda>l. lm (rl_Hash l) \<noteq> None) ls\<rparr>, d'), Inr ())"
    "file_at d' = file_at d1" "set (dk_dirs d') = set (dk_dirs d1) \<union> (\<Union>l \<in> {l \<in> set ls. lm (rl_Hash l) = None}. set (ancestors (rl_Local l)))"
    by (elim exE conjE) (rule that)
  have "set (dk_dirs d') = set (dk_dirs d) \<union> (\<Union>l' \<in> {l' \<in> set (l # ls). lm (rl_Hash l') = None}. set (ancestors (rl_Local l')))"
    unfolding d'(3) d1(2) by auto
  then show ?case using d'(1,2) d1(1) unfolding step stack by (intro exI [of _ d']) simp
qed

text \<open>
  A disk for an image: directories of the layers that the client has are there; no directory of a layer or a content is a file, and no
  mark and no content is a directory.
\<close>

definition fresh_room :: "string list \<Rightarrow> (string \<rightharpoonup> 'mp) \<Rightarrow> manager \<Rightarrow> disk \<Rightarrow> bool" where
  "fresh_room rs lm m d \<longleftrightarrow>
     (\<forall>l \<in> set (mg_dest_layers m). (lm (rl_Hash l) \<noteq> None \<longrightarrow> rl_Local l \<in> set (dk_dirs d)) \<and> mark_file l \<notin> set (dk_dirs d) \<and>
        (\<forall>k \<in> {1..length rs + 5}. file_at d (abs_path (take k (layer_comps rs l))) = None)) \<and>
     (\<forall>i < length (mg_contents m). abs_path (content_comps rs m i) \<notin> set (dk_dirs d) \<and>
        (\<forall>k \<in> {1..length rs + 8}. file_at d (abs_path (take k (content_comps rs m i))) = None))"

lemma layer_dirs:
  assumes "image_layout rs m" "l \<in> set (mg_dest_layers m)"
  shows "set (ancestors (rl_Local l)) = (\<lambda>k. abs_path (take k (layer_comps rs l))) ` {1..length rs + 5}"
  using ancestors_abs [of "layer_comps rs l"] image_layout_layer [OF assms] normal_no_slash by auto

lemma deeper_not_dir:
  assumes lay: "image_layout rs m" "l \<in> set (mg_dest_layers m)" and cs: "\<forall>c \<in> set cs. normal_comp c" "length rs + 5 < length cs"
  shows "abs_path cs \<notin> set (ancestors (rl_Local l))"
proof
  assume "abs_path cs \<in> set (ancestors (rl_Local l))"
  then obtain k where k: "1 \<le> k" "k \<le> length rs + 5" "abs_path cs = abs_path (take k (layer_comps rs l))" using layer_dirs [OF lay] by auto
  note ll = image_layout_layer [OF lay]
  have "take k (layer_comps rs l) \<noteq> []" "cs \<noteq> []" using k(1) ll(3) cs(2) by auto
  then have "cs = take k (layer_comps rs l)" using k(3) abs_path_eq cs(1) take_normal [OF ll(2)] by blast
  then show False using cs(2) k(2) by simp
qed

lemma PrepareDirectories_run:
  assumes lay: "image_layout rs m" and fresh: "fresh_room rs lm m d"
  shows "\<exists>d'. PrepareDirectories no_os_faults lm m d = ((m\<lparr>mg_completedStack := map (\<lambda>l. lm (rl_Hash l) \<noteq> None) (mg_dest_layers m)\<rparr>, d'), Inr ()) \<and>
    disk_room rs m d' \<and> file_at d' = file_at d"
proof -
  let ?m = "m\<lparr>mg_completedStack := replicate (length (mg_stackSerialMap m)) False\<rparr>"
  have len: "0 + length (mg_dest_layers m) = length (mg_completedStack ?m)" using lay by (simp add: image_layout_def)
  have "\<forall>l \<in> set (mg_dest_layers m). \<forall>q \<in> set (ancestors (rl_Local l)). file_at d q = None"
    using fresh layer_dirs [OF lay] by (auto simp: fresh_room_def)
  from prepare_layers_run [OF len this, of lm] obtain d' where d': "PrepareDirectories no_os_faults lm m d =
      ((m\<lparr>mg_completedStack := map (\<lambda>l. lm (rl_Hash l) \<noteq> None) (mg_dest_layers m)\<rparr>, d'), Inr ())" "file_at d' = file_at d"
    and dirs: "set (dk_dirs d') = set (dk_dirs d) \<union> (\<Union>l \<in> {l \<in> set (mg_dest_layers m). lm (rl_Hash l) = None}. set (ancestors (rl_Local l)))"
    by (auto simp: PrepareDirectories_def)
  have "disk_room rs m d'"
    unfolding disk_room_def
  proof (intro conjI ballI allI impI)
    fix l assume l: "l \<in> set (mg_dest_layers m)"
    show "rl_Local l \<in> set (dk_dirs d')"
      using l fresh dirs path_self_ancestor [of "rl_Local l"] by (cases "lm (rl_Hash l) = None") (auto simp: fresh_room_def)
    note ml = mark_file_layout [OF lay l] and ll = image_layout_layer(4) [OF lay l]
    have "mark_file l \<notin> set (ancestors (rl_Local l'))" if "l' \<in> set (mg_dest_layers m)" for l'
      unfolding ml(1) by (rule deeper_not_dir [OF lay that ml(2)]) (simp add: ll)
    then show "mark_file l \<notin> set (dk_dirs d')" using l fresh dirs by (auto simp: fresh_room_def)
  next
    fix i assume i: "i < length (mg_contents m)"
    note ci = image_layout_content [OF lay i]
    have "abs_path (content_comps rs m i) \<notin> set (ancestors (rl_Local l'))" if "l' \<in> set (mg_dest_layers m)" for l'
      by (rule deeper_not_dir [OF lay that ci(2)]) (simp add: ci(3))
    then show "abs_path (content_comps rs m i) \<notin> set (dk_dirs d')" using i fresh dirs by (auto simp: fresh_room_def)
    fix k assume "k \<in> {1..length rs + 8}"
    then show "file_at d' (abs_path (take k (content_comps rs m i))) = None" using i fresh d'(2) by (simp add: fresh_room_def)
  qed
  with d' show ?thesis by blast
qed

end
