(* ===== verification/Client_Sample.thy ===== *)
theory Client_Sample
  imports Client_Files
begin

text \<open>
  One image on the client, with a directory, files of two contents, an empty file and a whiteout; the properties of the
  manager and of the file system are applied to it.
\<close>

section \<open>An image\<close>

definition sample_digest :: "char \<Rightarrow> string" where
  "sample_digest c = ''sha256:'' @ replicate 64 c"

definition sample_rfile :: "string \<Rightarrow> string \<Rightarrow> int \<Rightarrow> string \<Rightarrow> int \<Rightarrow> referenced_file" where
  "sample_rfile name ty sz dg order =
     \<lparr>r_TOC = zero_entry\<lparr>e_Name := name, e_Type := ty, e_Size := sz, e_Digest := dg\<rparr>, r_Chunks = [], r_FsId = 0, r_Stack = 0,
      r_ReferenceFsId = 0, r_ReferenceStack = 0, r_PayloadOrder = order, r_Ready = None, r_Ino = 0, r_Gen = 0, r_Mode = 0, r_children = []\<rparr>"

definition sample_rcontent :: "string \<Rightarrow> int \<Rightarrow> int \<Rightarrow> rcontent" where
  "sample_rcontent dg offset sz = \<lparr>rc_Signal = NilChan, rc_Stack = 0, rc_Offset = offset, rc_Size = sz,
     rc_Chunks = [\<lparr>fc_Offset = offset, fc_ChunkOffset = 0, fc_ChunkSize = sz, fc_CompressedSize = sz\<rparr>], rc_Digest = dg\<rparr>"

definition sample_bundle :: rbundle where
  "sample_bundle = \<lparr>rb_Source = None,
     rb_Destination = \<lparr>ri_Serial = 1, ri_Layers = [\<lparr>rl_Size = 9, rl_Serial = 7, rl_Hash = sample_digest (CHR ''a''), rl_Local = []\<rparr>]\<rparr>,
     rb_Contents = [sample_rcontent (sample_digest (CHR ''b'')) 0 2, sample_rcontent (sample_digest (CHR ''c'')) 2 3],
     rb_BodyLength = 5,
     rb_RequestedFiles = [sample_rfile [] ''dir'' 0 [] 0, sample_rfile ''etc'' ''dir'' 0 [] 0,
       sample_rfile ''etc/hosts'' ''reg'' 2 (sample_digest (CHR ''b'')) 0, sample_rfile ''etc/passwd'' ''reg'' 3 (sample_digest (CHR ''c'')) 1,
       sample_rfile ''etc/empty'' ''reg'' 0 (sample_digest (CHR ''e'')) 0, sample_rfile ''etc/.wh.old'' ''reg'' 0 [] 0]\<rparr>"

text \<open>The same image after \<^verbatim>\<open>Init\<close> and \<^verbatim>\<open>PrepareDirectories\<close>.\<close>

definition sample_local :: string where
  "sample_local = ''/sl/layers/a/aa/aa/'' @ replicate 59 (CHR ''a'')"

definition sample_file_init :: "64 word \<Rightarrow> 32 word \<Rightarrow> nat list \<Rightarrow> nat option \<Rightarrow> referenced_file \<Rightarrow> referenced_file" where
  "sample_file_init ino mode ch rd f = f\<lparr>r_Ino := ino, r_Mode := mode, r_children := ch, r_Ready := rd\<rparr>"

definition sample_manager :: manager where
  "sample_manager = \<lparr>mg_bundle = sample_bundle
       \<lparr>rb_Destination := \<lparr>ri_Serial = 1, ri_Layers = [\<lparr>rl_Size = 9, rl_Serial = 7, rl_Hash = sample_digest (CHR ''a''), rl_Local = sample_local\<rparr>]\<rparr>,
        rb_Contents := map (\<lambda>c. c\<lparr>rc_Signal := OpenChan\<rparr>) (rb_Contents sample_bundle),
        rb_RequestedFiles := [sample_file_init 100 0x4000 [1] None (sample_rfile ''.'' ''dir'' 0 [] 0),
          sample_file_init 101 0x4000 [2, 3, 4, 5] None (sample_rfile ''etc'' ''dir'' 0 [] 0),
          sample_file_init 102 0x8000 [] None (sample_rfile ''etc/hosts'' ''reg'' 2 (sample_digest (CHR ''b'')) 0),
          sample_file_init 103 0x8000 [] (Some 1) (sample_rfile ''etc/passwd'' ''reg'' 3 (sample_digest (CHR ''c'')) 1),
          sample_file_init 104 0x8000 [] None (sample_rfile ''etc/empty'' ''reg'' 0 (sample_digest (CHR ''e'')) 0),
          make_whiteout ''etc'' ''.wh.old'' (sample_file_init 105 0x8000 [] None (sample_rfile ''etc/.wh.old'' ''reg'' 0 [] 0))]\<rparr>,
     mg_FileSystemRoot = ''/sl'', mg_TracesDir = ''/tr'',
     mg_layers = [(7, \<lparr>rl_Size = 9, rl_Serial = 7, rl_Hash = sample_digest (CHR ''a''), rl_Local = sample_local\<rparr>)],
     mg_stackSerialMap = [7], mg_completedStack = [], mg_DiffIDs = [], mg_manifestDigest = sample_digest (CHR ''f''),
     mg_fileLookUpMap = [[(''etc'', 1), (''etc/hosts'', 2), (''etc/passwd'', 3), (''etc/empty'', 4), (''etc/.wh.old'', 5), (''.'', 0)]],
     mg_tracer = None, mg_fs = []\<rparr>"

lemma sample_Init:
  "Init (\<lambda>i. word_of_nat (100 + i)) (\<lambda>t. 0) (\<lambda>ks. ks) ''/sl'' ''/tr'' False [] (sample_digest (CHR ''f'')) (unmarshal_manager sample_bundle) = Inr sample_manager"
  by code_simp

definition sample_m :: manager where "sample_m = sample_manager\<lparr>mg_completedStack := [False]\<rparr>"

definition sample_disk :: disk where
  "sample_disk = \<lparr>dk_files = [], dk_dirs = [''/sl/layers/a/aa/aa'', ''/sl/layers/a/aa'', ''/sl/layers/a'', ''/sl/layers'', ''/sl'', sample_local]\<rparr>"

lemma sample_Prepare:
  "PrepareDirectories no_os_faults (\<lambda>h. None :: string option) sample_manager \<lparr>dk_files = [], dk_dirs = []\<rparr> = ((sample_m, sample_disk), Inr ())"
  by code_simp

definition sample_gz :: gunzip where "sample_gz = (\<lambda>bs. Inr (bs, None))"

definition sample_body :: "byte list" where "sample_body = [1, 2, 3, 4, 5]"

definition sample_inst :: fs_instance where "sample_inst = \<lparr>in_rootInode = Some 0, in_stack = 0, in_mountPoint = ''/mnt''\<rparr>"

lemma sample_names: "bundle_names_ok sample_bundle"
  by code_simp

definition sample_extracted :: "(manager \<times> disk \<times> stream) \<times> unit result" where
  "sample_extracted = Extract no_os_faults sample_gz [9] sample_m sample_disk (Some (sample_body, None))"

definition sample_path :: "char \<Rightarrow> string" where
  "sample_path c = sample_local @ [slash, c, slash, c, c, slash, c, c, slash] @ replicate 59 c"

definition sample_node :: "nat \<Rightarrow> fs_node" where "sample_node i = \<lparr>nd_File = i, nd_instance = sample_inst\<rparr>"

definition sample_mkdev :: "32 word \<Rightarrow> 32 word \<Rightarrow> 64 word" where "sample_mkdev = (\<lambda>a b. 0)"

section \<open>Extracting it\<close>


lemma sample_signals: "length (mg_completedStack sample_m) = length (mg_dest_layers sample_m)" "length (mg_contents sample_m) = 2"
    "\<forall>i < length (mg_contents sample_m). rc_Signal (mg_contents sample_m ! i) = OpenChan"
  by code_simp+

lemma sample_room: "disk_room [''sl''] sample_m sample_disk"
proof -
  have l: "\<forall>l \<in> set (mg_dest_layers sample_m). rl_Local l \<in> set (dk_dirs sample_disk) \<and> mark_file l \<notin> set (dk_dirs sample_disk)" by code_simp
  have c: "abs_path (content_comps [''sl''] sample_m 0) \<notin> set (dk_dirs sample_disk)" "abs_path (content_comps [''sl''] sample_m 1) \<notin> set (dk_dirs sample_disk)"
    by code_simp+
  have "file_at sample_disk q = None" for q by (simp add: file_at_def sample_disk_def)
  then show ?thesis using l c sample_signals(2) by (auto simp: disk_room_def less_Suc_eq numeral_2_eq_2)
qed

lemma sample_layout: "image_layout [''sl''] sample_m" "disk_room [''sl''] sample_m sample_disk" "body_readable sample_gz sample_m sample_body"
  by (code_simp, rule sample_room, code_simp)

lemma sample_content:
  "content_file sample_m (mg_contents sample_m ! 0) = Inr (sample_path (CHR ''b'')) \<and>
   content_file sample_m (mg_contents sample_m ! 1) = Inr (sample_path (CHR ''c'')) \<and>
   content_data sample_gz sample_m sample_body 0 = [1, 2] \<and> content_data sample_gz sample_m sample_body 1 = [3, 4, 5] \<and>
   \<not> completed sample_m 0 \<and> \<not> completed sample_m 1"
  by code_simp

theorem Extract_stores_witness:
  "\<exists>m' d' s'. Extract no_os_faults sample_gz [9] sample_m sample_disk (Some (sample_body, None)) = ((m', d', s'), Inr ()) \<and>
    file_at d' (sample_path (CHR ''b'')) = Some [1, 2] \<and> file_at d' (sample_path (CHR ''c'')) = Some [3, 4, 5] \<and> mg_completedStack m' = [True]"
proof -
  obtain m' d' s' where ex: "Extract no_os_faults sample_gz [9] sample_m sample_disk (Some (sample_body, None)) = ((m', d', s'), Inr ())"
    and st: "\<forall>i < length (mg_contents sample_m). completed sample_m i \<or>
       (\<exists>path. content_file sample_m (mg_contents sample_m ! i) = Inr path \<and> file_at d' path = Some (content_data sample_gz sample_m sample_body i))"
    and cs: "mg_completedStack m' = replicate (length (mg_dest_layers sample_m)) True"
    using Extract_stores [OF sample_layout(1,2) sample_signals(1) sample_layout(3) sample_signals(3), of "[9]" None]
    by (elim exE conjE) (rule that)
  have "length (mg_dest_layers sample_m) = 1" by code_simp
  then have "mg_completedStack m' = [True]" using cs by simp
  moreover have "file_at d' (sample_path (CHR ''b'')) = Some [1, 2]" "file_at d' (sample_path (CHR ''c'')) = Some [3, 4, 5]"
    using st [rule_format, of 0] st [rule_format, of 1] sample_content sample_signals(2) by auto
  ultimately show ?thesis using ex by (intro exI [of _ m'] exI [of _ d'] exI [of _ s']) simp
qed

lemma sample_extracted_ok:
  "case sample_extracted of ((m', d', s'), r) \<Rightarrow> r = Inr () \<and> sample_path (CHR ''e'') \<notin> set (dk_dirs d') \<and>
     fst (Node_Open no_os_faults (manager_interface m') (sample_node 3) d') = Opened (sample_path (CHR ''c''))"
  by code_simp

lemma sample_extracted_run:
  obtains m' d' s' where "Extract no_os_faults sample_gz [9] sample_m sample_disk (Some (sample_body, None)) = ((m', d', s'), Inr ())"
    "sample_path (CHR ''e'') \<notin> set (dk_dirs d')"
    "fst (Node_Open no_os_faults (manager_interface m') (sample_node 3) d') = Opened (sample_path (CHR ''c''))"
  using sample_extracted_ok by (auto simp: sample_extracted_def split: prod.splits)


lemma sample_waits: "waits_for sample_m (sample_node 3) 1"
proof -
  have "r_Ready (mg_files sample_m ! 3) = Some 1 \<and> getRealPath (manager_interface sample_m) (sample_node 3) = Inr (sample_path (CHR ''c''))" by code_simp
  then show ?thesis using sample_content sample_signals(2) by (simp add: waits_for_def sample_node_def)
qed

theorem no_partial_read_witness:
  "\<exists>m' d' s' lg. Extract no_os_faults sample_gz [9] sample_m sample_disk (Some (sample_body, None)) = ((m', d', s'), Inr ()) \<and>
    Node_Open no_os_faults (manager_interface m') (sample_node 3) d' = (Opened (sample_path (CHR ''c'')), lg) \<and>
    file_at d' (sample_path (CHR ''c'')) = Some [3, 4, 5]"
proof (rule sample_extracted_run)
  fix m' d' s'
  assume ex: "Extract no_os_faults sample_gz [9] sample_m sample_disk (Some (sample_body, None)) = ((m', d', s'), Inr ())"
    and "fst (Node_Open no_os_faults (manager_interface m') (sample_node 3) d') = Opened (sample_path (CHR ''c''))"
  then obtain lg where opn: "Node_Open no_os_faults (manager_interface m') (sample_node 3) d' = (Opened (sample_path (CHR ''c'')), lg)"
    by (metis prod.collapse)
  obtain pc where reach: "extract_reachable no_os_faults sample_gz [9] \<lparr>pl_manager = sample_m, pl_disk = sample_disk, pl_stream = (sample_body, None)\<rparr>
      (pc, \<lparr>pl_manager = m', pl_disk = d', pl_stream = s'\<rparr>)" using Extract_run [OF ex] by blast
  have "content_file sample_m (mg_contents sample_m ! 1) = Inr (sample_path (CHR ''c'')) \<and>
      file_at d' (sample_path (CHR ''c'')) = Some (content_data sample_gz sample_m sample_body 1)"
    using no_partial_read [OF image_layout_apart [OF sample_layout(1)] sample_signals(3) reach sample_waits, of no_os_faults, simplified, OF opn] by simp
  then show ?thesis using ex opn sample_content by (intro exI [of _ m'] exI [of _ d'] exI [of _ s'] exI [of _ lg]) simp
qed

theorem unsent_file_missing_witness:
  "\<exists>m' d' s'. Extract no_os_faults sample_gz [9] sample_m sample_disk (Some (sample_body, None)) = ((m', d', s'), Inr ()) \<and>
    fst (Node_Open no_os_faults (manager_interface m') (sample_node 4) d') = OpenFails (errno ''ENOENT'')"
proof (rule sample_extracted_run)
  fix m' d' s'
  assume ex: "Extract no_os_faults sample_gz [9] sample_m sample_disk (Some (sample_body, None)) = ((m', d', s'), Inr ())"
    and nd: "sample_path (CHR ''e'') \<notin> set (dk_dirs d')"
  have path: "getRealPath (manager_interface sample_m) (sample_node 4) = Inr (sample_path (CHR ''e''))"
    and rd: "r_Ready (mg_files sample_m ! nd_File (sample_node 4)) = None" and fr: "file_at sample_disk (sample_path (CHR ''e'')) = None"
    and fl: "\<forall>i < length (mg_contents sample_m). content_file sample_m (mg_contents sample_m ! i) \<noteq> Inr (sample_path (CHR ''e''))"
    and mk: "\<forall>l \<in> set (mg_dest_layers sample_m). mark_file l \<noteq> sample_path (CHR ''e'')"
    by code_simp+
  show ?thesis using ex unsent_file_missing [OF ex path rd fr nd fl mk] by (intro exI [of _ m'] exI [of _ d'] exI [of _ s']) simp
qed

section \<open>Its tree\<close>

lemma sample_tree: "tree_valid sample_manager 0"
  using Init_valid [OF sample_Init _ _, of 0] sample_names by (simp add: unmarshal_manager_def sample_bundle_def)

theorem Init_tree_witness:
  "tree_valid sample_manager 0 \<and> (\<exists>i < 6. LookUpFile sample_manager 0 ''etc/hosts'' = Inr (Some i))"
proof -
  let ?m = "unmarshal_manager sample_bundle" and ?f = "sample_rfile ''etc/hosts'' ''reg'' 2 (sample_digest (CHR ''b'')) 0"
  have f: "?f \<in> set (mg_files ?m)" "GetName ?f = ''etc/hosts''" "r_Stack ?f = 0" "length (mg_files ?m) = 6" "0 < length (mg_dest_layers ?m)"
    by (simp_all add: unmarshal_manager_def sample_bundle_def sample_rfile_def GetName_def)
  have "path_base ''etc/hosts'' \<noteq> opaque_name" by code_simp
  then show ?thesis
    using Init_tree [OF sample_Init _ _ f(5)] f sample_names by (auto simp: unmarshal_manager_def)
qed

lemma sample_etc: "LookUpFile sample_manager (in_stack (nd_instance (sample_node 1))) ''etc'' = Inr (Some (nd_File (sample_node 1)))" "\<not> is_whiteout ''etc''"
  by code_simp+

lemma sample_readdir:
  "Node_Readdir sample_mkdev (manager_interface sample_manager) (sample_node 1) =
     Inr [\<lparr>de_Mode = 0x8000, de_Name = ''hosts'', de_Ino = 102\<rparr>, \<lparr>de_Mode = 0x8000, de_Name = ''passwd'', de_Ino = 103\<rparr>,
          \<lparr>de_Mode = 0x8000, de_Name = ''empty'', de_Ino = 104\<rparr>, \<lparr>de_Mode = 0x8000, de_Name = ''old'', de_Ino = 105\<rparr>,
          \<lparr>de_Mode = 0x4000, de_Name = ''.'', de_Ino = 101\<rparr>, \<lparr>de_Mode = 0x4000, de_Name = ''..'', de_Ino = 100\<rparr>]"
  by code_simp

theorem Readdir_Lookup_witness:
  "(\<exists>child attr. Node_Lookup sample_mkdev (manager_interface sample_manager) (sample_node 1) ''hosts'' = Inr (child, attr, 102, 0x8000)) \<or>
    (\<exists>fn i. child_name ''etc'' fn \<and> is_whiteout fn \<and> LookUpFile sample_manager 0 fn = Inr (Some i) \<and> 102 = r_Ino (mg_files sample_manager ! i))"
proof -
  have v: "tree_valid sample_manager (in_stack (nd_instance (sample_node 1)))" using sample_tree by (simp add: sample_node_def sample_inst_def)
  have ino: "in_stack (nd_instance (sample_node 1)) = 0" by (simp add: sample_node_def sample_inst_def)
  show ?thesis
    using Readdir_Lookup [OF v sample_etc sample_readdir, of "\<lparr>de_Mode = 0x8000, de_Name = ''hosts'', de_Ino = 102\<rparr>"] ino by simp
qed

theorem whiteout_hidden_witness:
  "\<exists>es. Node_Readdir sample_mkdev (manager_interface sample_manager) (sample_node 1) = Inr es \<and>
    (\<exists>e \<in> set es. de_Name e = ''old'' \<and> de_Ino e = 105) \<and>
    Node_Lookup sample_mkdev (manager_interface sample_manager) (sample_node 1) ''old'' = Inl (errno ''ENOENT'')"
proof -
  have v: "tree_valid sample_manager (in_stack (nd_instance (sample_node 1)))" using sample_tree by (simp add: sample_node_def sample_inst_def)
  have w: "child_name ''etc'' ''etc/.wh.old''" "is_whiteout ''etc/.wh.old''"
    "LookUpFile sample_manager (in_stack (nd_instance (sample_node 1))) ''etc/.wh.old'' = Inr (Some 5)"
    "LookUpFile sample_manager (in_stack (nd_instance (sample_node 1))) (path_join [''etc'', ''old'']) = Inr None"
    "path_base (path_join [''etc'', ''old'']) = ''old''" "r_Ino (mg_files sample_manager ! 5) = 105" "''old'' = trim_prefix whiteout_prefix (path_base ''etc/.wh.old'')"
    by code_simp+
  show ?thesis
    using whiteout_hidden [OF v sample_etc w(1-3) w(7) w(4) sample_readdir] sample_readdir unfolding w(5,6) by blast
qed

end
