(* ===== verification/Convertor_Laws.thy ===== *)
theory Convertor_Laws
  imports Convertor Manager_Store
begin

text \<open>
  Properties of the convertor. The goroutines of an image do not depend on their order: each entry of the history gets its own
  slot and file, whose name starts with the index of the entry. The blob of a layer can be opened again.
\<close>

section \<open>The names of the temporary files\<close>

lemma digits_chars: "2 \<le> b \<Longrightarrow> b \<le> 36 \<Longrightarrow> c \<in> set (digits b n) \<Longrightarrow> \<exists>d < 36. c = digit_char d"
proof (induction b n rule: digits.induct)
  case (1 b n)
  show ?case
  proof (cases "n < b")
    case True
    then have "c = digit_char n" using 1(4) by (simp add: digits.simps [of b n])
    then show ?thesis using True 1(3) by (intro exI [of _ n]) simp
  next
    case False
    then have "c \<in> set (digits b (n div b)) \<or> c = digit_char (n mod b)" using 1(2-4) by (auto simp: digits.simps [of b n])
    moreover have "n mod b < 36" using 1(2,3) by (meson less_le_trans mod_less_divisor zero_less_numeral order_less_le_trans)
    ultimately show ?thesis using 1(1) False 1(2,3) by auto
  qed
qed

lemma itoa_int_chars: "c \<in> set (itoa (int n)) \<Longrightarrow> c \<noteq> CHR ''-'' \<and> c \<noteq> slash"
proof -
  assume "c \<in> set (itoa (int n))"
  then obtain d where "d < 36" "c = digit_char d" using digits_chars [of 10 c n] by (auto simp: itoa_def)
  then have "digit_val c = Some d" by simp
  then show ?thesis by (auto simp: digit_val_def)
qed

lemma before_dash: "takeWhile (\<lambda>c. c \<noteq> CHR ''-'') (itoa (int n) @ CHR ''-'' # r) = itoa (int n)"
  using itoa_int_chars by (subst takeWhile_append2) auto

definition temp_name :: "nat \<Rightarrow> string \<Rightarrow> string" where
  "temp_name idx d = ''starlight-convert-'' @ itoa (int idx) @ ''-'' @ d @ ''.sll''"

lemma temp_name_inject: "temp_name i d = temp_name j e \<Longrightarrow> i = j"
proof -
  assume "temp_name i d = temp_name j e"
  then have "itoa (int i) @ CHR ''-'' # d @ ''.sll'' = itoa (int j) @ CHR ''-'' # e @ ''.sll''" by (simp add: temp_name_def)
  then have "itoa (int i) = itoa (int j)" using before_dash [of i "d @ ''.sll''"] before_dash [of j "e @ ''.sll''"] by metis
  then show ?thesis by (simp add: itoa_inject)
qed

lemma temp_name_normal: "slash \<notin> set d \<Longrightarrow> normal_comp (temp_name i d)"
  using itoa_int_chars by (auto simp: temp_name_def normal_comp_def)

text \<open>The temporary directory is there, under names of its own.\<close>

definition temp_room :: "string list \<Rightarrow> 'i convert_env \<Rightarrow> disk \<Rightarrow> bool" where
  "temp_room ts env d \<longleftrightarrow> ts \<noteq> [] \<and> (\<forall>c \<in> set ts. normal_comp c) \<and> cv_TempDir env = abs_path ts \<and> abs_path ts \<in> set (dk_dirs d) \<and>
     (\<forall>i dg. slash \<notin> set dg \<longrightarrow> temp_file env i dg \<notin> set (dk_dirs d)) \<and> cv_os env = no_os_faults"

lemma temp_file_path:
  assumes "temp_room ts env d" "slash \<notin> set dg"
  shows "temp_file env i dg = abs_path (ts @ [temp_name i dg])"
  using assms path_join_root [of ts "[temp_name i dg]"] temp_name_normal [OF assms(2)]
  by (simp add: temp_room_def temp_file_def temp_name_def)

lemma temp_file_inject:
  assumes r: "temp_room ts env d" "slash \<notin> set dg" "slash \<notin> set dg'" and eq: "temp_file env i dg = temp_file env j dg'"
  shows "i = j"
proof -
  have "ts @ [temp_name i dg] = ts @ [temp_name j dg']"
    using eq r temp_name_normal by (subst abs_path_inject [symmetric]) (auto simp: temp_file_path [OF r(1)] temp_room_def normal_comp_def)
  then show ?thesis using temp_name_inject by simp
qed

section \<open>Converting an entry\<close>

text \<open>What an entry of the history becomes: its addendum, and the file of its layer.\<close>

definition converted :: "'i convert_env \<Rightarrow> source_layer list \<Rightarrow> history list \<Rightarrow> nat \<Rightarrow> (addendum \<times> (string \<times> byte list) option) result" where
  "converted env layers hist i =
     (let h = hist ! i in
      if hs_EmptyLayer h then Inr (\<lparr>ad_Layer = None, ad_History = h, ad_Annotations = []\<rparr>, None)
      else case at_index layers (layer_map hist 0 ! i) of Inl e \<Rightarrow> Inl e | Inr layer \<Rightarrow>
       (case ly_Digest layer of Inl e \<Rightarrow> Inl e | Inr dg \<Rightarrow>
        (case ly_Uncompressed layer of Inl e \<Rightarrow> Inl e | Inr l \<Rightarrow>
         (case write_blob env l of Inl e \<Rightarrow> Inl e | Inr (toc, w) \<Rightarrow>
          (case cv_NewHash env (DiffID (cv_writer env) w) of Inl e \<Rightarrow> Inl e | Inr diff \<Rightarrow>
           (case cv_NewHash env (Digest (cv_writer env) w) of Inl e \<Rightarrow> Inl e | Inr hs \<Rightarrow>
             Inr (\<lparr>ad_Layer = Some \<lparr>sl_R = temp_file env i dg, sl_Diff = diff, sl_Hash = hs, sl_SizeVal = int (length (wr_out w))\<rparr>,
                   ad_History = h, ad_Annotations = layer_annotations env i toc\<rparr>, Some (temp_file env i dg, wr_out w))))))))"

definition digests_ok :: "source_layer list \<Rightarrow> bool" where
  "digests_ok layers \<longleftrightarrow> (\<forall>l \<in> set layers. \<forall>dg. ly_Digest l = Inr dg \<longrightarrow> slash \<notin> set dg)"

lemma at_index_digest: "digests_ok layers \<Longrightarrow> at_index layers j = Inr l \<Longrightarrow> ly_Digest l = Inr dg \<Longrightarrow> slash \<notin> set dg"
  by (auto simp: digests_ok_def at_index_def split: if_splits)

lemma converted_file:
  assumes "digests_ok layers" "converted env layers hist i = Inr (ad, Some (fn, bs))"
  obtains dg where "slash \<notin> set dg" "fn = temp_file env i dg"
proof -
  obtain layer dg where "at_index layers (layer_map hist 0 ! i) = Inr layer" "ly_Digest layer = Inr dg" "fn = temp_file env i dg"
    using assms(2) by (auto simp: converted_def Let_def split: if_splits sum.splits)
  then show thesis using at_index_digest [OF assms(1)] by (intro that) simp_all
qed

lemma toStarlightLayer_run:
  assumes dgs: "digests_ok layers" and room: "temp_room ts env d" and c: "converted env layers hist i = Inr (ad, fl)"
  shows "\<exists>d'. toStarlightLayer env layers i (layer_map hist 0 ! i) (hist ! i) (d, adds) = ((d', adds[i := ad]), Inr ()) \<and> dk_dirs d' = dk_dirs d \<and>
    file_at d' = (case fl of None \<Rightarrow> file_at d | Some (fn, bs) \<Rightarrow> (file_at d)(fn \<mapsto> bs))"
proof (cases "hs_EmptyLayer (hist ! i)")
  case True
  then show ?thesis using c by (auto simp: converted_def toStarlightLayer_def Let_def)
next
  case False
  then obtain layer dg l toc w diff hs where
    step: "at_index layers (layer_map hist 0 ! i) = Inr layer" "ly_Digest layer = Inr dg" "slash \<notin> set dg" "ly_Uncompressed layer = Inr l"
      "write_blob env l = Inr (toc, w)" "cv_NewHash env (DiffID (cv_writer env) w) = Inr diff" "cv_NewHash env (Digest (cv_writer env) w) = Inr hs"
    and ad: "ad = \<lparr>ad_Layer = Some \<lparr>sl_R = temp_file env i dg, sl_Diff = diff, sl_Hash = hs, sl_SizeVal = int (length (wr_out w))\<rparr>,
       ad_History = hist ! i, ad_Annotations = layer_annotations env i toc\<rparr>" and fl: "fl = Some (temp_file env i dg, wr_out w)"
    using c at_index_digest [OF dgs] by (auto simp: converted_def Let_def split: if_splits sum.splits prod.splits)
  let ?fn = "temp_file env i dg"
  have "?fn \<notin> set (dk_dirs d)" "cv_os env = no_os_faults" using room step(3) unfolding temp_room_def by blast+
  moreover have "path_dir ?fn \<in> set (dk_dirs d)"
    using room path_dir_abs [of ts "temp_name i dg"] temp_name_normal [OF step(3)] by (simp add: temp_room_def temp_file_path [OF room step(3)])
  ultimately obtain d1 where d1: "Create (cv_os env) ?fn d = (d1, None)" "dk_dirs d1 = dk_dirs d" "file_at d1 = (file_at d)(?fn \<mapsto> [])"
    using Create_run [of ?fn d] by auto
  let ?d2 = "write_file_at ?fn (wr_out w) d1"
  have d2: "file_at ?d2 = (file_at d)(?fn \<mapsto> wr_out w)" "dk_dirs ?d2 = dk_dirs d"
    using d1(2,3) by (auto simp: write_file_at_def file_at_def fun_eq_iff map_of_map_entry)
  have "NewStarlightLayer env ?fn w ?d2 = Inr \<lparr>sl_R = ?fn, sl_Diff = diff, sl_Hash = hs, sl_SizeVal = int (length (wr_out w))\<rparr>"
    using step d2(1) room by (simp add: NewStarlightLayer_def fileSectionReader_def temp_room_def no_os_faults_def)
  then have "toStarlightLayer env layers i (layer_map hist 0 ! i) (hist ! i) (d, adds) = ((?d2, adds[i := ad]), Inr ())"
    using False step d1(1) ad by (simp add: toStarlightLayer_def Let_def)
  then show ?thesis using d2 fl by (intro exI [of _ ?d2]) simp
qed

section \<open>All entries, in any order\<close>

lemma convert_entries:
  assumes ok: "\<forall>i \<in> set order. converted env layers hist i = Inr (ad i, fl i)" and d: "distinct order"
    and dgs: "digests_ok layers" and room: "temp_room ts env d"
  shows "\<exists>d'. run_group (\<lambda>i. toStarlightLayer env layers i (layer_map hist 0 ! i) (hist ! i)) order (d, adds) None =
      ((d', fold (\<lambda>i as. as[i := ad i]) order adds), Inr ()) \<and> dk_dirs d' = dk_dirs d \<and>
    (\<forall>i \<in> set order. \<forall>fn bs. fl i = Some (fn, bs) \<longrightarrow> file_at d' fn = Some bs) \<and>
    (\<forall>q. (\<forall>i \<in> set order. \<forall>fn bs. fl i = Some (fn, bs) \<longrightarrow> q \<noteq> fn) \<longrightarrow> file_at d' q = file_at d q)"
  using ok d room
proof (induction order arbitrary: d adds)
  case (Cons i order)
  let ?run = "\<lambda>i. toStarlightLayer env layers i (layer_map hist 0 ! i) (hist ! i)"
  have ci: "converted env layers hist i = Inr (ad i, fl i)" using Cons.prems(1) by simp
  obtain d1 where d1: "?run i (d, adds) = ((d1, adds[i := ad i]), Inr ())" "dk_dirs d1 = dk_dirs d"
    "file_at d1 = (case fl i of None \<Rightarrow> file_at d | Some (fn, bs) \<Rightarrow> (file_at d)(fn \<mapsto> bs))"
    using toStarlightLayer_run [OF dgs Cons.prems(3) ci, of adds] by (elim exE conjE) (rule that)
  have room1: "temp_room ts env d1" using Cons.prems(3) d1(2) by (simp add: temp_room_def)
  have ok1: "\<forall>j \<in> set order. converted env layers hist j = Inr (ad j, fl j)" using Cons.prems(1) by simp
  have dist1: "distinct order" using Cons.prems(2) by simp
  obtain d' where d': "run_group ?run order (d1, adds[i := ad i]) None = ((d', fold (\<lambda>i as. as[i := ad i]) order (adds[i := ad i])), Inr ())"
    "dk_dirs d' = dk_dirs d1" and files: "\<forall>i \<in> set order. \<forall>fn bs. fl i = Some (fn, bs) \<longrightarrow> file_at d' fn = Some bs"
    and rest: "\<forall>q. (\<forall>i \<in> set order. \<forall>fn bs. fl i = Some (fn, bs) \<longrightarrow> q \<noteq> fn) \<longrightarrow> file_at d' q = file_at d1 q"
    using Cons.IH [OF ok1 dist1 room1, of "adds[i := ad i]"] by (elim exE conjE) (rule that)
  have apart: "fn \<noteq> fn'" if "fl i = Some (fn, bs)" "j \<in> set order" "fl j = Some (fn', bs')" for fn bs j fn' bs'
  proof
    assume eq: "fn = fn'"
    have ci': "converted env layers hist i = Inr (ad i, Some (fn, bs))" and cj': "converted env layers hist j = Inr (ad j, Some (fn', bs'))"
      using ci that(1,3) bspec [OF ok1 that(2)] by simp_all
    obtain dg where dg: "slash \<notin> set dg" "fn = temp_file env i dg" by (rule converted_file [OF dgs ci'])
    obtain dg' where dg': "slash \<notin> set dg'" "fn' = temp_file env j dg'" by (rule converted_file [OF dgs cj'])
    have "i = j" by (rule temp_file_inject [OF room1 dg(1) dg'(1)]) (use eq dg dg' in simp)
    then show False using Cons.prems(2) that(2) by simp
  qed
  have "file_at d' fn = Some bs" if "fl i = Some (fn, bs)" for fn bs
  proof -
    have "file_at d' fn = file_at d1 fn" using rest apart [OF that] by metis
    then show ?thesis using d1(3) that by simp
  qed
  moreover have "file_at d' q = file_at d q" if q: "\<forall>j \<in> set (i # order). \<forall>fn bs. fl j = Some (fn, bs) \<longrightarrow> q \<noteq> fn" for q
  proof -
    have "file_at d' q = file_at d1 q" using rest q by simp
    then show ?thesis using d1(3) q by (auto split: option.splits)
  qed
  ultimately show ?case using d1(1,2) d' files by (intro exI [of _ d']) auto
qed simp

lemma fold_slots: "length as = n \<Longrightarrow> fold (\<lambda>i as. as[i := ad i]) order as = map (\<lambda>i. if i \<in> set order then ad i else as ! i) [0..<n]"
proof (induction order arbitrary: as)
  case Nil
  then show ?case using map_nth [of as] by simp
next
  case (Cons i order)
  then show ?case by (auto simp: nth_list_update)
qed

text \<open>
  C21: Converting an image does not depend on the order of its goroutines. When every entry of the history can be converted on its own,
  the image is made of their addenda in the order of the history, in whatever order the goroutines run, and every temporary file
  holds the blob of its layer.
\<close>

theorem convertSingleImage_order:
  assumes img: "im_ConfigFile img = Inr cfg" "im_Layers img = Inr layers" and order: "distinct order" "set order = {..<length (gc_History cfg)}"
    and ok: "\<And>i. i < length (gc_History cfg) \<Longrightarrow> converted env layers (gc_History cfg) i = Inr (ad i, fl i)"
    and dgs: "digests_ok layers" and room: "temp_room ts env d"
  shows "\<exists>d'. convertSingleImage env order img d =
      (d', case cv_ConfigFile env (cfg\<lparr>gc_DiffIDs := [], gc_History := []\<rparr>) of Inl e \<Rightarrow> Inl e
             | Inr configured \<Rightarrow> cv_Append env configured (map ad [0..<length (gc_History cfg)])) \<and>
    (\<forall>i < length (gc_History cfg). \<forall>fn bs. fl i = Some (fn, bs) \<longrightarrow> file_at d' fn = Some bs)"
proof -
  let ?n = "length (gc_History cfg)"
  have ok': "\<forall>i \<in> set order. converted env layers (gc_History cfg) i = Inr (ad i, fl i)" using ok order(2) by simp
  obtain d' where d': "convert_layers env order layers (gc_History cfg) d =
      ((d', fold (\<lambda>i as. as[i := ad i]) order (replicate ?n zero_addendum)), Inr ())"
    and files: "\<forall>i \<in> set order. \<forall>fn bs. fl i = Some (fn, bs) \<longrightarrow> file_at d' fn = Some bs"
    using convert_entries [OF ok' order(1) dgs room, of "replicate ?n zero_addendum", folded convert_layers_def] by (elim exE conjE) (rule that)
  have "fold (\<lambda>i as. as[i := ad i]) order (replicate ?n zero_addendum) = map ad [0..<?n]"
    using order(2) by (subst fold_slots [of _ ?n]) simp_all
  then show ?thesis using d' files order(2) img by (intro exI [of _ d']) (simp add: convertSingleImage_def split: sum.splits)
qed

section \<open>The converted layers\<close>

lemma append_entry_opened:
  assumes run: "append_entry env x w = Inr w'" and opened: "\<not> wr_closed w"
  shows "\<not> wr_closed w'"
proof -
  obtain h data where x: "x = (h, data)" by (cases x)
  show ?thesis
  proof (cases "h_Name h = TOCTarName")
    case True
    then show ?thesis using run opened x by (simp add: append_entry_def)
  next
    case False
    obtain ent0 w1 hb w3 ent w4 where ne: "new_entry env h w = (ent0, w1)" and w3: "cgw_Write hb (condOpenGz w1) = Inr w3"
      and body: "if h_Typeflag h = TypeReg \<and> 0 < e_Size ent then write_file env h data ent w3 = Inr w4 else w4 = w3\<lparr>wr_entries := wr_entries w3 @ [ent]\<rparr>"
      and last: "cgw_Write (if h_Typeflag h = TypeReg then tar_padding (h_Size h) else [])
         (if h_Typeflag h = TypeReg
          then w4\<lparr>wr_entries := (wr_entries w4)[length (wr_entries w3) := (wr_entries w4 ! length (wr_entries w3))
                \<lparr>e_Digest := we_hash env (take (nat (e_Size ent)) data)\<rparr>]\<rparr>
          else w4) = Inr w'"
      using append_entry_Inr [OF run [unfolded x] False] by blast
    have "\<not> wr_closed w3" using new_entry_keeps [OF ne] w3 opened by (auto simp: cgw_Write_def condOpenGz_def split: option.splits if_splits)
    then have "\<not> wr_closed w4"
      using body by (auto simp: write_file_def finish_chunk_def condOpenGz_def dest!: closeGz_Inr split: if_splits sum.splits option.splits)
    then show ?thesis using last by (auto simp: cgw_Write_def split: if_splits option.splits)
  qed
qed

lemma write_blob_Inr:
  assumes "write_blob env l = Inr (toc, w)"
  obtains w1 where "AppendTar (cv_writer env) (cv_gunzip env) (cv_untar env) l NewWriter = Inr w1" "Close (cv_writer env) w1 = Inr (toc, w)" "\<not> wr_closed w1"
proof -
  obtain w1 where w1: "AppendTar (cv_writer env) (cv_gunzip env) (cv_untar env) l NewWriter = Inr w1" "Close (cv_writer env) w1 = Inr (toc, w)"
    using assms by (auto simp: write_blob_def split: sum.splits)
  have "fold_result (append_entry (cv_writer env)) (fst (cv_untar env (if isGzip l then cv_gunzip env l else l))) NewWriter = Inr w1"
    using w1(1) by (auto simp: AppendTar_def split: prod.splits sum.splits option.splits)
  then have "\<not> wr_closed w1"
    by (rule fold_result_invariant [where P = "\<lambda>w. \<not> wr_closed w"]) (auto simp: NewWriter_def dest: append_entry_opened)
  with w1 show thesis by (rule that)
qed

text \<open>The headers and the data of the tar stream of a layer.\<close>

definition tar_items :: "'i convert_env \<Rightarrow> byte list \<Rightarrow> (tar_header \<times> byte list) list" where
  "tar_items env l = fst (cv_untar env (if isGzip l then cv_gunzip env l else l))"


section \<open>Histories that do not fit\<close>

lemma layer_map_count: "i < length hist \<Longrightarrow> \<not> hs_EmptyLayer (hist ! i) \<Longrightarrow>
    layer_map hist c ! i = c + int (length (filter (\<lambda>h. \<not> hs_EmptyLayer h) (take i hist)))"
proof (induction hist c arbitrary: i rule: layer_map.induct)
  case (2 h hs cnt)
  then show ?case by (cases i) auto
qed simp

text \<open>
  C24: Layers without history are lost. Layers beyond the non-empty entries of the history are never looked at: the converted
  image is the same without them, and nothing reports it. An image without history loses all its layers.
\<close>

theorem convert_drops_layers:
  assumes order: "set order \<subseteq> {..<length hist}" and fit: "length (filter (\<lambda>h. \<not> hs_EmptyLayer h) hist) \<le> length layers"
  shows "convert_layers env order (layers @ extra) hist d = convert_layers env order layers hist d"
proof -
  have eq: "toStarlightLayer env (layers @ extra) i (layer_map hist 0 ! i) (hist ! i) = toStarlightLayer env layers i (layer_map hist 0 ! i) (hist ! i)"
    if i: "i < length hist" for i
  proof (cases "hs_EmptyLayer (hist ! i)")
    case True
    then show ?thesis by (simp add: toStarlightLayer_def fun_eq_iff)
  next
    case False
    have "length (filter (\<lambda>h. \<not> hs_EmptyLayer h) hist) =
        length (filter (\<lambda>h. \<not> hs_EmptyLayer h) (take i hist @ hist ! i # drop (Suc i) hist))" by (rule arg_cong [OF id_take_nth_drop [OF i]])
    then have "length (filter (\<lambda>h. \<not> hs_EmptyLayer h) (take i hist)) < length (filter (\<lambda>h. \<not> hs_EmptyLayer h) hist)" using False by simp
    then have "at_index (layers @ extra) (layer_map hist 0 ! i) = at_index layers (layer_map hist 0 ! i)"
      using layer_map_count [OF i False, of 0] fit by (simp add: at_index_def nth_append)
    then show ?thesis by (simp add: toStarlightLayer_def fun_eq_iff)
  qed
  have "run_group (\<lambda>i. toStarlightLayer env (layers @ extra) i (layer_map hist 0 ! i) (hist ! i)) order s err =
      run_group (\<lambda>i. toStarlightLayer env layers i (layer_map hist 0 ! i) (hist ! i)) order s err" for s err
    using order
  proof (induction order arbitrary: s err)
    case (Cons k ks)
    then show ?case using eq [of k] by (simp cong: prod.case_cong sum.case_cong failure.case_cong)
  qed simp
  then show ?thesis by (simp add: convert_layers_def)
qed

end
