(* ===== verification/Convert_Sample.thy ===== *)
theory Convert_Sample
  imports Convertor_Laws
begin

text \<open>An image of two layers with an empty entry between them in its history; the properties of the convertor are applied to it.\<close>

definition sample_history :: "bool \<Rightarrow> history" where
  "sample_history e = zero_history\<lparr>hs_EmptyLayer := e\<rparr>"

definition sample_source_layer :: "char \<Rightarrow> byte \<Rightarrow> source_layer" where
  "sample_source_layer c b = \<lparr>ly_Digest = Inr [c], ly_Uncompressed = Inr [b]\<rparr>"

definition sample_layers :: "source_layer list" where
  "sample_layers = [sample_source_layer (CHR ''a'') 1, sample_source_layer (CHR ''b'') 2]"

definition sample_config :: goreg_config where
  "sample_config = \<lparr>gc_DiffIDs = [''x'', ''y''], gc_History = [sample_history False, sample_history True, sample_history False], gc_Other = []\<rparr>"

definition sample_source :: source_image where
  "sample_source = \<lparr>im_ConfigFile = Inr sample_config, im_Layers = Inr sample_layers\<rparr>"

text \<open>
  An image is the list of its addenda; a layer is one file of its bytes. A tar header carries the name in one byte and the length in
  unary, and the JSON text of a table of contents is the byte of its file.
\<close>

definition sample_tar :: "byte list \<Rightarrow> (tar_header \<times> byte list) list \<times> go_error option" where
  "sample_tar l = ([(zero_header\<lparr>h_Typeflag := TypeReg, h_Name := ''f'', h_Size := int (length l)\<rparr>, l)], None)"

definition unary_header :: "tar_header \<Rightarrow> byte list result" where
  "unary_header h = (if h_Name h = TOCTarName then Inr (2 # replicate (nat (h_Size h)) 1 @ [0])
     else if h_Name h = ''f'' then Inr (3 # replicate (nat (h_Size h)) 1 @ [0]) else Inl (Fail (ExtError ''name'')))"

definition unary_tar :: "byte list \<Rightarrow> (string \<times> byte list) result" where
  "unary_tar p = (let n = length (takeWhile (\<lambda>b. b = 1) (tl p)) in Inr (if hd p = 2 then TOCTarName else ''f'', take n (drop (n + 2) p)))"

definition blob_writer :: "(toc_entry list \<Rightarrow> byte list result) \<Rightarrow> writer_env" where
  "blob_writer json = \<lparr>we_gzip = (\<lambda>b. b), we_sink = (\<lambda>n. None), we_header = unary_header, we_hash = string_of, we_unix = (\<lambda>t. t),
     we_rfc3339 = itoa, we_json = json\<rparr>"

definition blob_entries :: "byte \<Rightarrow> toc_entry list" where
  "blob_entries b = (case AppendTar (blob_writer (\<lambda>es. Inr [])) (\<lambda>b. b) sample_tar [b] NewWriter of Inr w \<Rightarrow> wr_entries w | Inl e \<Rightarrow> [])"

definition blob_json :: "toc_entry list \<Rightarrow> byte list result" where
  "blob_json es = (if es = blob_entries 1 then Inr [1] else if es = blob_entries 2 then Inr [2] else Inl (Fail (ExtError ''json'')))"

definition blob_reader :: reader_env where
  "blob_reader = \<lparr>re_crc = length, re_gunzip = Inr, re_tar = unary_tar,
     re_json = (\<lambda>js. Inr (map json_entry (if js = [1] then blob_entries 1 else blob_entries 2))), re_digest = string_of, re_ptime = (\<lambda>s. 0)\<rparr>"

definition sample_convert :: "addendum list convert_env" where
  "sample_convert = \<lparr>cv_writer = blob_writer blob_json, cv_gunzip = (\<lambda>b. b), cv_untar = sample_tar,
     cv_NewHash = (\<lambda>s. Inr s), cv_now = (\<lambda>i. ''now''), cv_TempDir = ''/tmp'', cv_os = no_os_faults,
     cv_ConfigFile = (\<lambda>c. Inr []), cv_Append = (\<lambda>i as. Inr (i @ as)), cv_Digest = (\<lambda>i. Inr ''d'')\<rparr>"

lemma blob_format: "format_ok (blob_writer blob_json) blob_reader"
proof -
  have "takeWhile (\<lambda>b. b = 1) (replicate n (1 :: byte) @ 0 # rest) = replicate n 1" for n rest
    by (induction n) auto
  then show ?thesis
    by (auto simp: format_ok_def blob_writer_def blob_reader_def unary_header_def unary_tar_def blob_json_def Let_def split: if_splits)
qed

definition sample_tmp :: disk where "sample_tmp = \<lparr>dk_files = [], dk_dirs = [''/tmp'']\<rparr>"

definition sample_converted :: "nat \<Rightarrow> addendum \<times> (string \<times> byte list) option" where
  "sample_converted i = (case converted sample_convert sample_layers (gc_History sample_config) i of Inr x \<Rightarrow> x | Inl e \<Rightarrow> (zero_addendum, None))"

lemma sample_entry_0: "is_ok (converted sample_convert sample_layers (gc_History sample_config) 0)" by code_simp

lemma sample_entry_1: "is_ok (converted sample_convert sample_layers (gc_History sample_config) 1)" by code_simp

lemma sample_entry_2: "is_ok (converted sample_convert sample_layers (gc_History sample_config) 2)" by code_simp

lemma sample_entries:
  assumes "i < length (gc_History sample_config)"
  shows "converted sample_convert sample_layers (gc_History sample_config) i = Inr (fst (sample_converted i), snd (sample_converted i))"
proof -
  have "length (gc_History sample_config) = 3" by (simp add: sample_config_def)
  with assms have "i = 0 \<or> i = 1 \<or> i = 2" by arith
  then have "is_ok (converted sample_convert sample_layers (gc_History sample_config) i)"
    by (elim disjE) (simp_all only: sample_entry_0 sample_entry_1 sample_entry_2)
  then show ?thesis unfolding sample_converted_def by (auto split: sum.splits)
qed

lemma sample_digests: "digests_ok sample_layers"
  by (simp add: digests_ok_def sample_layers_def sample_source_layer_def)

lemma sample_temp: "temp_room [''tmp''] sample_convert sample_tmp"
proof -
  have "temp_file sample_convert i dg \<noteq> ''/tmp''" if "slash \<notin> set dg" for i dg
  proof -
    have "temp_file sample_convert i dg = abs_path ([''tmp''] @ [temp_name i dg])"
      using path_join_root [of "[''tmp'']" "[temp_name i dg]"] temp_name_normal [OF that]
      by (simp add: temp_file_def temp_name_def sample_convert_def abs_path_def normal_comp_def)
    then show ?thesis by (simp add: abs_path_def)
  qed
  then show ?thesis by (simp add: temp_room_def sample_convert_def sample_tmp_def abs_path_def normal_comp_def)
qed

theorem convertSingleImage_order_witness:
  "\<exists>d'. convertSingleImage sample_convert [2, 0, 1] sample_source sample_tmp = (d', Inr (map (fst \<circ> sample_converted) [0, 1, 2])) \<and>
    (\<forall>fn bs. snd (sample_converted 2) = Some (fn, bs) \<longrightarrow> file_at d' fn = Some bs)"
proof -
  have len: "length (gc_History sample_config) = 3" by (simp add: sample_config_def)
  have three: "map (\<lambda>i. fst (sample_converted i)) [0..<3] = map (fst \<circ> sample_converted) [0, 1, 2]"
    by (simp add: numeral_3_eq_3 numeral_2_eq_2)
  have run: "(case cv_ConfigFile sample_convert c of Inl e \<Rightarrow> Inl e | Inr configured \<Rightarrow> cv_Append sample_convert configured as) = Inr as" for c as
    by (simp add: sample_convert_def)
  have img: "im_ConfigFile sample_source = Inr sample_config" "im_Layers sample_source = Inr sample_layers" by (simp_all add: sample_source_def)
  have "\<exists>d'. convertSingleImage sample_convert [2, 0, 1] sample_source sample_tmp =
      (d', case cv_ConfigFile sample_convert (sample_config\<lparr>gc_DiffIDs := [], gc_History := []\<rparr>) of Inl e \<Rightarrow> Inl e
             | Inr configured \<Rightarrow> cv_Append sample_convert configured (map (\<lambda>i. fst (sample_converted i)) [0..<length (gc_History sample_config)])) \<and>
    (\<forall>i < length (gc_History sample_config). \<forall>fn bs. snd (sample_converted i) = Some (fn, bs) \<longrightarrow> file_at d' fn = Some bs)"
    by (rule convertSingleImage_order [OF img _ _ sample_entries sample_digests sample_temp]) (auto simp: len)
  then obtain d' where d': "convertSingleImage sample_convert [2, 0, 1] sample_source sample_tmp = (d', Inr (map (fst \<circ> sample_converted) [0, 1, 2]))"
    and files: "\<forall>i < 3. \<forall>fn bs. snd (sample_converted i) = Some (fn, bs) \<longrightarrow> file_at d' fn = Some bs"
    by (elim exE conjE) (rule that, simp_all only: run len three)
  then show ?thesis using spec [OF files, of 2] by (intro exI [of _ d']) simp
qed


theorem convert_drops_layers_witness:
  "convert_layers sample_convert [] sample_layers [] sample_tmp = convert_layers sample_convert [] [] [] sample_tmp"
  using convert_drops_layers [of "[]" "[]" "[]" sample_convert sample_layers sample_tmp] by simp

end
