(* ===== verification/Convertor_Index.thy ===== *)
theory Convertor_Index
  imports Convertor_Laws
begin

text \<open>The conversion of an index: the requested manifests, each converted and named by its new digest, and nothing else, are pushed.\<close>

lemma run_group_failed: "run_group f ks s (Some e) \<noteq> (s', Inr u)"
proof (induction ks arbitrary: s e)
  case (Cons k ks)
  then show ?case by (auto split: prod.splits sum.splits failure.splits)
qed simp

lemma run_group_Cons_Inr:
  assumes "run_group f (k # ks) s None = (s', Inr ())"
  obtains s1 where "f k s = (s1, Inr ())" "run_group f ks s1 None = (s', Inr ())"
  using assms by (auto simp: run_group_failed split: prod.splits sum.splits failure.splits)

definition manifest_entry :: "'i convert_env \<Rightarrow> source_index \<Rightarrow> (nat \<Rightarrow> nat list) \<Rightarrow> descriptor list \<Rightarrow> nat \<Rightarrow> 'i \<times> descriptor \<Rightarrow> bool" where
  "manifest_entry env idx orders ms k r \<longleftrightarrow>
     snd r = (ms ! k)\<lparr>ds_Digest := ds_Digest (snd r)\<rparr> \<and> cv_Digest env (fst r) = Inr (ds_Digest (snd r)) \<and>
     (\<exists>img d1 d2. ix_Image idx (ds_Digest (ms ! k)) = Inr img \<and> convertSingleImage env (orders k) img d1 = (d2, Inr (fst r)))"

lemma convert_manifest_Inr:
  assumes "convert_manifest env equals req idx (orders k) (ms ! k) (d, ret) = ((d1, ret1), Inr ())"
  obtains "hasPlatform equals req (ds_Platform (ms ! k)) = Inr False" "ret1 = ret"
  | r where "hasPlatform equals req (ds_Platform (ms ! k)) = Inr True" "ret1 = ret @ [r]" "manifest_entry env idx orders ms k r"
  using assms by (auto simp: convert_manifest_def manifest_entry_def split: sum.splits bool.splits prod.splits) blast

lemma run_manifests:
  assumes "run_group (\<lambda>k. convert_manifest env equals req idx (orders k) (ms ! k)) order (d, ret) None = ((d1, ret1), Inr ())"
  shows "(\<forall>k \<in> set order. \<exists>b. hasPlatform equals req (ds_Platform (ms ! k)) = Inr b) \<and>
    (\<exists>rs. ret1 = ret @ rs \<and> list_all2 (manifest_entry env idx orders ms) (filter (\<lambda>k. hasPlatform equals req (ds_Platform (ms ! k)) = Inr True) order) rs)"
  using assms
proof (induction order arbitrary: d ret)
  case (Cons k order)
  obtain s1 where s1: "convert_manifest env equals req idx (orders k) (ms ! k) (d, ret) = (s1, Inr ())"
    "run_group (\<lambda>k. convert_manifest env equals req idx (orders k) (ms ! k)) order s1 None = ((d1, ret1), Inr ())"
    by (rule run_group_Cons_Inr [OF Cons.prems])
  obtain d2 ret2 where [simp]: "s1 = (d2, ret2)" by (cases s1)
  note IH = Cons.IH [OF s1(2) [simplified]]
  from s1(1) [simplified] show ?case
  proof (cases rule: convert_manifest_Inr)
    case 1
    then show ?thesis using IH by auto
  next
    case (2 r)
    then show ?thesis using IH by auto
  qed
qed simp

text \<open>
  C23: An index that is pushed is complete. When converting an index succeeds, the pushed index has, in the order in which the goroutines
  finished, exactly one entry for every manifest whose platform is requested: the converted image of that manifest, described
  by the descriptor of the manifest with the digest of the converted image.
\<close>

theorem ToStarlightImage_index:
  assumes run: "ToStarlightImage env parse equals get push order orders c d = (d', Inr (PushIndex ret))"
  shows "\<exists>req desc idx ms. requested_platforms parse (cr_platforms c) = Inr req \<and> get (cr_src c) = Inr desc \<and>
    rm_ImageIndex desc = Inr idx \<and> ix_IndexManifest idx = Inr ms \<and> push (cr_dst c) (PushIndex ret) = None \<and>
    (\<forall>k \<in> set order. \<exists>b. hasPlatform equals req (ds_Platform (ms ! k)) = Inr b) \<and>
    list_all2 (manifest_entry env idx orders ms) (filter (\<lambda>k. hasPlatform equals req (ds_Platform (ms ! k)) = Inr True) order) ret"
proof -
  obtain req desc idx ms d1 where parts: "requested_platforms parse (cr_platforms c) = Inr req" "get (cr_src c) = Inr desc"
    "rm_ImageIndex desc = Inr idx" "ix_IndexManifest idx = Inr ms" "push (cr_dst c) (PushIndex ret) = None"
    and r: "run_group (\<lambda>k. convert_manifest env equals req idx (orders k) (ms ! k)) order (d, []) None = ((d1, ret), Inr ())"
    using run by (auto simp: ToStarlightImage_def readImageDescriptor_def writeImage_def writeImageIndex_def split: sum.splits prod.splits option.splits if_splits)
  show ?thesis using parts run_manifests [OF r] by auto
qed

end
