(* ===== verification/Index_Sample.thy ===== *)
theory Index_Sample
  imports Convertor_Index Convert_Sample
begin

text \<open>An index of an image for two platforms, one of which is requested.\<close>

definition meta_image :: source_image where
  "meta_image = \<lparr>im_ConfigFile = Inr (sample_config\<lparr>gc_History := [sample_history True]\<rparr>), im_Layers = Inr []\<rparr>"

definition sample_platform :: "string \<Rightarrow> platform" where
  "sample_platform a = \<lparr>pf_Architecture = a, pf_OS = ''linux'', pf_OSVersion = [], pf_OSFeatures = [], pf_Variant = [], pf_Features = []\<rparr>"

definition sample_manifest :: "string \<Rightarrow> descriptor" where
  "sample_manifest a = \<lparr>ds_MediaType = ''m'', ds_Size = 7, ds_Digest = a, ds_URLs = [], ds_Annotations = [], ds_Platform = Some (sample_platform a)\<rparr>"

definition sample_index :: source_index where
  "sample_index = \<lparr>ix_IndexManifest = Inr [sample_manifest ''x'', sample_manifest ''y''], ix_Image = (\<lambda>dg. Inr meta_image)\<rparr>"

definition sample_remote :: remote_descriptor where
  "sample_remote = \<lparr>rm_MediaType = ''index'', rm_Image = Inl (Fail (ExtError ''not an image'')), rm_ImageIndex = Inr sample_index\<rparr>"

definition sample_parse :: "string \<Rightarrow> v1_platform result" where
  "sample_parse a = Inr \<lparr>vp_Architecture = a, vp_OS = ''linux'', vp_OSVersion = [], vp_OSFeatures = [], vp_Variant = []\<rparr>"

definition sample_convertor :: "string convertor" where
  "sample_convertor = \<lparr>cr_src = ''src'', cr_dst = ''dst'', cr_platforms = ''y''\<rparr>"

definition meta_addendum :: addendum where
  "meta_addendum = \<lparr>ad_Layer = None, ad_History = sample_history True, ad_Annotations = []\<rparr>"

lemma meta_run: "ToStarlightImage sample_convert sample_parse (=) (\<lambda>r. Inr sample_remote) (\<lambda>r x. None) [1, 0] (\<lambda>k. [0]) sample_convertor sample_tmp =
    (sample_tmp, Inr (PushIndex [([meta_addendum], (sample_manifest ''y'')\<lparr>ds_Digest := ''d''\<rparr>)]))"
  by code_simp

theorem ToStarlightImage_index_witness:
  "\<exists>req (desc :: remote_descriptor) idx ms. requested_platforms sample_parse ''y'' = Inr req \<and> rm_ImageIndex desc = Inr idx \<and> ix_IndexManifest idx = Inr ms \<and>
    list_all2 (manifest_entry sample_convert idx (\<lambda>k. [0]) ms) (filter (\<lambda>k. hasPlatform (=) req (ds_Platform (ms ! k)) = Inr True) [1, 0])
      [([meta_addendum], (sample_manifest ''y'')\<lparr>ds_Digest := ''d''\<rparr>)]"
proof -
  have "cr_platforms sample_convertor = ''y''" by (simp add: sample_convertor_def)
  from ToStarlightImage_index [OF meta_run, unfolded this] show ?thesis
    by blast
qed

end
