(* ===== verification/Proxy_Extractor.thy ===== *)
theory Proxy_Extractor
  imports Meta_DB Stargz_Writer Delta_Protocol
begin

text \<open>
  The extractor of proxy/extractor.go, which saves the tables of contents of an image to the metadata
  database, one transaction for each layer. The registry's answers are parameters; the reader is that of
  \<open>Stargz_Writer\<close>.
\<close>

section \<open>Images of the registry\<close>

record v1_layer =
  vl_Size :: "int result"
  vl_Digest :: "string result"
  vl_Compressed :: "byte list result"

text \<open>
  An image: the configuration and the manifest are given as what \<^verbatim>\<open>json.Marshal\<close> makes of them later, the
  manifest with its number of layers.
\<close>

record v1_image =
  vi_Digest :: "string result"
  vi_ConfigFile :: "string result result"
  vi_Manifest :: "(string result \<times> nat) result"
  vi_Layers :: "v1_layer list result"

type_synonym v1_platform = "string \<times> string \<times> string"

text \<open>What \<^verbatim>\<open>remote.Get\<close> describes: one image, or an index with its manifests.\<close>

datatype remote_desc =
    DockerManifest "v1_image result" "v1_platform option"
  | OtherMediaType "((v1_image result \<times> v1_platform option) list result) result"

section \<open>The extractor\<close>

record extractor =
  ex_Image :: string
  ex_ParsedName :: string
  ex_ParsedTag :: string

definition NewExtractor :: "(bool \<Rightarrow> string \<Rightarrow> reference result) \<Rightarrow> string \<Rightarrow> string list \<Rightarrow> string \<Rightarrow> bool \<Rightarrow> extractor result" where
  "NewExtractor parse defaultRegistry alias image_ref insecure =
     (if image_ref = [] then Inl (Fail (Errorf ''image cannot be nil''))
      else case parse insecure image_ref of
        Inl e \<Rightarrow> Inl (wrap ''failed to cache ToC'' e)
      | Inr ref \<Rightarrow> (let (n, t) = ParseImageReference ref defaultRegistry alias
                   in Inr \<lparr>ex_Image = image_ref, ex_ParsedName = n, ex_ParsedTag = t\<rparr>))"

definition saveImage :: "faults \<Rightarrow> extractor \<Rightarrow> v1_image \<Rightarrow> meta_db \<Rightarrow> meta_db \<times> (int \<times> bool) result" where
  "saveImage flt ex img db =
     (case vi_Digest img of Inl e \<Rightarrow> (db, Inl e) | Inr digest \<Rightarrow>
     (case vi_ConfigFile img of Inl e \<Rightarrow> (db, Inl e) | Inr config \<Rightarrow>
     (case vi_Manifest img of Inl e \<Rightarrow> (db, Inl e) | Inr (manifest, nlayers) \<Rightarrow>
        InsertImage flt (ex_ParsedName ex) digest config manifest (int nlayers) db)))"

definition setImageTag :: "faults \<Rightarrow> extractor \<Rightarrow> int \<Rightarrow> string \<Rightarrow> meta_db \<Rightarrow> meta_db result" where
  "setImageTag flt ex serial platform db = SetImageTag flt (ex_ParsedName ex) (ex_ParsedTag ex) platform serial db"

definition enableImage :: "faults \<Rightarrow> int \<Rightarrow> int \<Rightarrow> meta_db \<Rightarrow> meta_db result" where
  "enableImage flt now serial db = SetImageReady flt now True serial db"

subsection \<open>The files of a layer\<close>

definition attach_chunks :: "string \<times> toc_entry list \<Rightarrow> (string \<times> traceable_entry) list \<Rightarrow> (string \<times> traceable_entry) list result" where
  "attach_chunks kv entBuffer =
     (case map_of entBuffer (fst kv) of
        None \<Rightarrow> Inl (Panic ''invalid memory address or nil pointer dereference'')
      | Some extEntry \<Rightarrow> Inr (AList.update (fst kv) (extEntry\<lparr>t_Chunks := t_Chunks extEntry @ snd kv\<rparr>) entBuffer))"

definition layer_entries :: "reader \<Rightarrow> (string \<times> traceable_entry) list result" where
  "layer_entries r =
     (let (entryMap, chunks) = GetTOC r
      in fold_result attach_chunks chunks (map (\<lambda>(k, v). (k, traceable v)) entryMap))"

subsection \<open>Saving a layer\<close>

text \<open>
  A transaction that is rolled back keeps the values that were drawn from the sequences. One that
  PostgreSQL has marked as failed, because a statement failed, is rolled back by \<^verbatim>\<open>Commit\<close>; so is one whose
  commit fails.
\<close>

definition rollback :: "meta_db \<Rightarrow> meta_db \<Rightarrow> meta_db" where
  "rollback db db1 = db\<lparr>md_seq_image := md_seq_image db1, md_seq_layer := md_seq_layer db1,
     md_seq_fs := md_seq_fs db1, md_seq_file := md_seq_file db1\<rparr>"

definition commit :: "faults \<Rightarrow> meta_db \<Rightarrow> meta_db \<Rightarrow> meta_db" where
  "commit flt db db1 = (if f_stmt flt ''commit layer'' = None then db1 else rollback db db1)"

text \<open>
  \<^verbatim>\<open>saveLayer\<close>: \<^verbatim>\<open>defer txn.Commit()\<close> runs on every return, also with an error, and its own error is
  dropped. \<open>dbc\<close> is what the lookup of the filesystem sees, \<open>iter\<close> the order in which the map of the
  entries is traversed.
\<close>

definition saveLayer :: "reader_env \<Rightarrow> faults \<Rightarrow> ((string \<times> traceable_entry) list \<Rightarrow> (string \<times> traceable_entry) list) \<Rightarrow> int
    \<Rightarrow> meta_db \<Rightarrow> int \<Rightarrow> int \<Rightarrow> v1_layer \<Rightarrow> meta_db \<Rightarrow> meta_db \<times> unit result" where
  "saveLayer renv flt iter now dbc imageSerial idx layer db =
     (case f_stmt flt ''begin layer'' of Some e \<Rightarrow> (db, Inl (Fail e)) | None \<Rightarrow>
     (case vl_Size layer of Inl e \<Rightarrow> (db, Inl e) | Inr sz \<Rightarrow>
     (case vl_Digest layer of Inl e \<Rightarrow> (db, Inl e) | Inr digest \<Rightarrow>
     (case InsertLayer flt now dbc sz imageSerial idx digest db of
        (db1, Inl e) \<Rightarrow> (rollback db db1, Inl e)
      | (db1, Inr (layerRef, existing)) \<Rightarrow>
          (if existing then (commit flt db db1, Inr ())
           else case vl_Compressed layer of Inl e \<Rightarrow> (commit flt db db1, Inl e) | Inr buf \<Rightarrow>
           (case OpenStargz renv buf of
              Inl (Fail e) \<Rightarrow> (commit flt db db1, Inl (Fail e))
            | Inl (Panic m) \<Rightarrow> (rollback db db1, Inl (Panic m))
            | Inr layerFile \<Rightarrow>
           (case layer_entries layerFile of Inl e \<Rightarrow> (rollback db db1, Inl e) | Inr entBuffer \<Rightarrow>
           (case InsertFiles flt layerRef (iter entBuffer) db1 of
              (db2, Inl e) \<Rightarrow> (rollback db db2, Inl e)
            | (db2, Inr _) \<Rightarrow> (commit flt db db2, Inr ())))))))))"

text \<open>
  The tasks of the layers, in the order in which their transactions run; each runs to its end, and the
  first error is the result. A panic ends the process.
\<close>

fun save_layers :: "reader_env \<Rightarrow> faults \<Rightarrow> ((string \<times> traceable_entry) list \<Rightarrow> (string \<times> traceable_entry) list) \<Rightarrow> int
    \<Rightarrow> int \<Rightarrow> (nat \<times> v1_layer) list \<Rightarrow> meta_db \<Rightarrow> meta_db \<times> failure option" where
  "save_layers renv flt iter now serial [] db = (db, None)"
| "save_layers renv flt iter now serial ((idx, layer) # ls) db =
     (case saveLayer renv flt iter now db serial (int idx) layer db of
        (db1, Inl (Panic m)) \<Rightarrow> (db1, Some (Panic m))
      | (db1, Inl (Fail e)) \<Rightarrow> (case save_layers renv flt iter now serial ls db1 of
            (db2, Some (Panic m)) \<Rightarrow> (db2, Some (Panic m))
          | (db2, _) \<Rightarrow> (db2, Some (Fail e)))
      | (db1, Inr _) \<Rightarrow> save_layers renv flt iter now serial ls db1)"

definition platform_string :: "v1_platform option \<Rightarrow> string" where
  "platform_string plt = (case plt of None \<Rightarrow> ''uni-arch'' | Some (os, arch, variant) \<Rightarrow> path_join [os, arch, variant])"

text \<open>
  \<^verbatim>\<open>saveToCPerImage\<close>. The error of \<^verbatim>\<open>img.Layers()\<close> is overwritten by that of \<^verbatim>\<open>saveImage\<close>, and the list is
  then empty. \<open>order\<close> arranges the tasks of the layers.
\<close>

definition saveToCPerImage :: "reader_env \<Rightarrow> faults \<Rightarrow> ((string \<times> traceable_entry) list \<Rightarrow> (string \<times> traceable_entry) list)
    \<Rightarrow> ((nat \<times> v1_layer) list \<Rightarrow> (nat \<times> v1_layer) list) \<Rightarrow> int \<Rightarrow> extractor \<Rightarrow> v1_image \<Rightarrow> v1_platform option \<Rightarrow> meta_db
    \<Rightarrow> meta_db \<times> unit result" where
  "saveToCPerImage renv flt iter order now ex img plt db =
     (let pltStr = platform_string plt;
          layers = (case vi_Layers img of Inl e \<Rightarrow> [] | Inr ls \<Rightarrow> ls)
      in case saveImage flt ex img db of
           (db1, Inl e) \<Rightarrow> (db1, Inl (wrap ''failed to save image'' e))
         | (db1, Inr (serial, existing)) \<Rightarrow>
             (case (if existing then (db1, Inr ())
                    else case save_layers renv flt iter now serial (order (List.enumerate 0 layers)) db1 of
                      (db2, Some e) \<Rightarrow> (db2, Inl (wrap ''failed to cache ToC'' e))
                    | (db2, None) \<Rightarrow>
                        (case enableImage flt now serial db2 of
                           Inl e \<Rightarrow> (db2, Inl (wrap ''failed to enable image'' e))
                         | Inr db3 \<Rightarrow> (db3, Inr ()))) of
                (db4, Inl e) \<Rightarrow> (db4, Inl e)
              | (db4, Inr _) \<Rightarrow>
                  (case setImageTag flt ex serial pltStr db4 of
                     Inl e \<Rightarrow> (db4, Inl (wrap ''failed to cache ToC'' e))
                   | Inr db5 \<Rightarrow> (db5, Inr ()))))"

fun save_manifests :: "reader_env \<Rightarrow> faults \<Rightarrow> ((string \<times> traceable_entry) list \<Rightarrow> (string \<times> traceable_entry) list)
    \<Rightarrow> ((nat \<times> v1_layer) list \<Rightarrow> (nat \<times> v1_layer) list) \<Rightarrow> int \<Rightarrow> extractor \<Rightarrow> (v1_image result \<times> v1_platform option) list
    \<Rightarrow> meta_db \<Rightarrow> meta_db \<times> unit result" where
  "save_manifests renv flt iter order now ex [] db = (db, Inr ())"
| "save_manifests renv flt iter order now ex ((image_r, plt) # ms) db =
     (case image_r of Inl e \<Rightarrow> (db, Inl (wrap ''failed to get image'' e))
      | Inr img \<Rightarrow>
          (case saveToCPerImage renv flt iter order now ex img plt db of
             (db1, Inl e) \<Rightarrow> (db1, Inl (wrap ''failed to cache ToC'' e))
           | (db1, Inr _) \<Rightarrow> save_manifests renv flt iter order now ex ms db1))"

definition SaveToC :: "reader_env \<Rightarrow> faults \<Rightarrow> ((string \<times> traceable_entry) list \<Rightarrow> (string \<times> traceable_entry) list)
    \<Rightarrow> ((nat \<times> v1_layer) list \<Rightarrow> (nat \<times> v1_layer) list) \<Rightarrow> int \<Rightarrow> extractor \<Rightarrow> remote_desc result \<Rightarrow> meta_db
    \<Rightarrow> meta_db \<times> api_response result" where
  "SaveToC renv flt iter order now ex desc db =
     (let (db1, r) =
        (case desc of
           Inl e \<Rightarrow> (db, Inl (wrap ''failed to cache ToC'' e))
         | Inr (DockerManifest (Inl e) plt) \<Rightarrow> (db, Inl (wrap ''failed to get single image'' e))
         | Inr (DockerManifest (Inr img) plt) \<Rightarrow>
             (case saveToCPerImage renv flt iter order now ex img plt db of
                (db1, Inl e) \<Rightarrow> (db1, Inl (wrap ''failed to cache ToC'' e))
              | (db1, Inr _) \<Rightarrow> (db1, Inr ()))
         | Inr (OtherMediaType (Inl e)) \<Rightarrow> (db, Inl (wrap ''failed to get image index'' e))
         | Inr (OtherMediaType (Inr (Inl e))) \<Rightarrow> (db, Inl (wrap ''failed to get index manifest'' e))
         | Inr (OtherMediaType (Inr (Inr ms))) \<Rightarrow> save_manifests renv flt iter order now ex ms db)
      in (db1, map_sum id (\<lambda>_. \<lparr>ar_Status = ''OK'', ar_Code = 200, ar_Message = ''cached ToC'', ar_Error = [],
           ar_Extractor = Some (ex_Image ex, ex_ParsedName ex, ex_ParsedTag ex)\<rparr>) r))"

section \<open>The invariant of the database\<close>

text \<open>The names of a reader are the keys of a map.\<close>

lemma getOrCreateDir_keys:
  "getOrCreateDir d st m = (a, st', m') \<Longrightarrow> distinct (keys m) \<Longrightarrow> distinct (keys m')"
proof (induction d st m arbitrary: a st' m' rule: getOrCreateDir.induct)
  case (1 d st m)
  show ?case
  proof (cases "map_of m d")
    case None
    show ?thesis
    proof (cases "d = []")
      case True
      then show ?thesis using "1.prems" None by (auto simp: getOrCreateDir.simps [of "[]"] Let_def)
    next
      case False
      let ?e = "length st" and ?st1 = "st @ [new_dir d]" and ?m1 = "AList.update d (length st) m"
      obtain p st2 m2 where rec: "getOrCreateDir (parentDir d) ?st1 ?m1 = (p, st2, m2)" by (metis prod_cases3)
      have "m' = m2" using "1.prems"(1) None False rec by (auto simp: getOrCreateDir.simps [of d] Let_def)
      then show ?thesis using "1.IH" [OF None refl refl refl False rec] "1.prems"(2) by simp
    qed
  next
    case (Some e)
    then show ?thesis using "1.prems" by (simp add: getOrCreateDir.simps [of d])
  qed
qed

lemma link_entry_keys: "link_entry i sm = Inr sm' \<Longrightarrow> distinct (keys (snd sm)) \<Longrightarrow> distinct (keys (snd sm'))"
  using getOrCreateDir_keys by (auto simp: link_entry_def Let_def split: prod.splits if_splits option.splits)

lemma init_step_keys: "distinct (keys (is_m s)) \<Longrightarrow> distinct (keys (is_m (init_step ptime s i)))"
  by (simp add: init_step_def init_names_def init_chunk_def init_entry_def init_sizes_def Let_def)

lemma init_first_keys: "distinct (keys (is_m (init_first ptime entries)))"
proof -
  have "distinct (keys (is_m s)) \<Longrightarrow> distinct (keys (is_m (foldl (init_step ptime) s xs)))" for s xs
    by (induction xs arbitrary: s) (simp_all add: init_step_keys)
  then show ?thesis by (simp add: init_first_def)
qed

lemma initFields_keys: "initFields ptime sz d entries = Inr r \<Longrightarrow> distinct (keys (rd_m r))"
proof -
  assume run: "initFields ptime sz d entries = Inr r"
  let ?s = "init_first ptime entries"
  obtain sm where sm: "fold_result link_entry [0..<length entries] (is_store ?s, is_m ?s) = Inr sm" "rd_m r = snd sm"
    using run by (auto simp: initFields_def Let_def split: sum.splits)
  have "distinct (keys (snd sm))"
    by (rule fold_result_invariant [OF sm(1), where P = "\<lambda>sm. distinct (keys (snd sm))"])
      (use init_first_keys link_entry_keys in auto)
  then show ?thesis by (simp add: sm(2))
qed

lemma layer_entries_keys:
  assumes "OpenStargz renv buf = Inr r" "layer_entries r = Inr es"
  shows "distinct (keys es)"
proof -
  have "distinct (keys (rd_m r))"
    using assms(1) by (auto simp: OpenStargz_def Let_def intro: initFields_keys split: sum.splits prod.splits if_splits failure.splits)
  then have start: "distinct (keys (map (\<lambda>(k, v). (k, traceable v)) (fst (GetTOC r))))"
    by (simp add: GetTOC_def keys_def comp_def case_prod_beta)
  show ?thesis
    by (rule fold_result_invariant [of attach_chunks "snd (GetTOC r)" _ es "\<lambda>es. distinct (keys es)"])
      (use assms(2) start in \<open>auto simp: layer_entries_def attach_chunks_def case_prod_beta split: option.splits\<close>)
qed

definition seq_le :: "meta_db \<Rightarrow> meta_db \<Rightarrow> bool" where
  "seq_le db db1 \<longleftrightarrow> md_seq_image db \<le> md_seq_image db1 \<and> md_seq_layer db \<le> md_seq_layer db1 \<and>
     md_seq_fs db \<le> md_seq_fs db1 \<and> md_seq_file db \<le> md_seq_file db1"

lemma rollback_inv: "db_inv db \<Longrightarrow> seq_le db db1 \<Longrightarrow> db_inv (rollback db db1)"
  by (auto simp: db_inv_def rollback_def seq_le_def intro: table_ok_next)

lemma InsertLayer_seq: "InsertLayer flt now dbc sz img k dg db = (db1, r) \<Longrightarrow> seq_le db db1"
  by (auto simp: InsertLayer_def resolve_fs_def insert_fs_def upsert_layer_def seq_le_def Let_def
      split: option.splits if_splits sum.splits prod.splits)

lemma InsertFiles_seq: "InsertFiles flt fsId es db = (db1, r) \<Longrightarrow> seq_le db db1"
  by (auto simp: InsertFiles_def seq_le_def Let_def split: option.splits if_splits)

lemma seq_le_trans: "seq_le a b \<Longrightarrow> seq_le b c \<Longrightarrow> seq_le a c"
  by (auto simp: seq_le_def)

lemma commit_inv: "db_inv db \<Longrightarrow> db_inv db1 \<Longrightarrow> seq_le db db1 \<Longrightarrow> db_inv (commit flt db db1)"
  by (simp add: commit_def rollback_inv)

lemma saveLayer_inv:
  assumes inv: "db_inv db" and sub: "set (md_fs dbc) \<subseteq> set (md_fs db)" and iter: "\<And>es. mset (iter es) = mset es"
    and run: "saveLayer renv flt iter now dbc serial idx layer db = (db', r)"
  shows "db_inv db'"
proof (cases "f_stmt flt ''begin layer'' = None \<and> (\<exists>sz. vl_Size layer = Inr sz) \<and> (\<exists>dg. vl_Digest layer = Inr dg)")
  case False
  then show ?thesis using run inv by (auto simp: saveLayer_def split: option.splits sum.splits)
next
  case True
  then obtain sz dg where ok: "f_stmt flt ''begin layer'' = None" "vl_Size layer = Inr sz" "vl_Digest layer = Inr dg" by blast
  obtain db1 q where ins: "InsertLayer flt now dbc sz serial idx dg db = (db1, q)" by fastforce
  have inv1: "db_inv db1" by (rule InsertLayer_inv [OF inv sub ins])
  note s1 = InsertLayer_seq [OF ins]
  show ?thesis
  proof (cases q)
    case (Inl e)
    then show ?thesis using run ok ins rollback_inv [OF inv s1] by (simp add: saveLayer_def)
  next
    case (Inr p)
    obtain layerRef existing where p: "p = (layerRef, existing)" by (cases p)
    have c1: "db_inv (commit flt db db1)" by (rule commit_inv [OF inv inv1 s1])
    have r1: "db_inv (rollback db db1)" by (rule rollback_inv [OF inv s1])
    have files: "db_inv (rollback db db2)" "db_inv (commit flt db db2)"
      if "OpenStargz renv buf = Inr lf" "layer_entries lf = Inr es" "InsertFiles flt layerRef (iter es) db1 = (db2, x)" for buf lf es db2 x
    proof -
      have "distinct (keys (iter es))"
        using layer_entries_keys [OF that(1,2)] mset_map [of fst] iter by (metis keys_def mset_eq_imp_distinct_iff)
      then have inv2: "db_inv db2" by (rule InsertFiles_inv [OF inv1 _ that(3)])
      have s2: "seq_le db db2" by (rule seq_le_trans [OF s1 InsertFiles_seq [OF that(3)]])
      show "db_inv (rollback db db2)" "db_inv (commit flt db db2)"
        using rollback_inv [OF inv s2] commit_inv [OF inv inv2 s2] by blast+
    qed
    show ?thesis
      using run ok ins c1 r1 files unfolding saveLayer_def p Inr
      by (auto split: sum.splits prod.splits if_splits failure.splits)
  qed
qed

lemma save_layers_inv:
  assumes iter: "\<And>es. mset (iter es) = mset es"
  shows "db_inv db \<Longrightarrow> save_layers renv flt iter now serial ls db = (db', r) \<Longrightarrow> db_inv db'"
proof (induction ls arbitrary: db r)
  case Nil
  then show ?case by simp
next
  case (Cons x ls)
  obtain idx layer where x: "x = (idx, layer)" by (cases x)
  obtain db1 q where one: "saveLayer renv flt iter now db serial (int idx) layer db = (db1, q)" by fastforce
  have inv1: "db_inv db1" by (rule saveLayer_inv [OF Cons.prems(1) order_refl iter one])
  show ?case
    using Cons.prems(2) Cons.IH [OF inv1] inv1 unfolding x save_layers.simps one
    by (auto split: sum.splits prod.splits failure.splits option.splits)
qed

lemma saveToCPerImage_inv:
  assumes iter: "\<And>es. mset (iter es) = mset es" and inv: "db_inv db"
    and run: "saveToCPerImage renv flt iter order now ex img plt db = (db', r)"
  shows "db_inv db'"
proof -
  obtain db1 q where img: "saveImage flt ex img db = (db1, q)" by fastforce
  have inv1: "db_inv db1"
    using img inv InsertImage_inv [OF inv] by (auto simp: saveImage_def split: sum.splits prod.splits)
  have ls: "db_inv db2" if "save_layers renv flt iter now serial ls db1 = (db2, e)" for serial ls db2 e
    by (rule save_layers_inv [OF iter inv1 that])
  have en: "db_inv db3" if "enableImage flt now serial db2 = Inr db3" "db_inv db2" for serial db2 db3
    using SetImageReady_inv that by (auto simp: enableImage_def)
  have tag: "db_inv db3" if "setImageTag flt ex serial p db2 = Inr db3" "db_inv db2" for serial p db2 db3
    using SetImageTag_inv that by (auto simp: setImageTag_def)
  show ?thesis
    using run inv1 ls en tag unfolding saveToCPerImage_def img Let_def
    by (auto split: sum.splits prod.splits option.splits if_splits)
qed

lemma save_manifests_inv:
  assumes iter: "\<And>es. mset (iter es) = mset es"
  shows "db_inv db \<Longrightarrow> save_manifests renv flt iter order now ex ms db = (db', r) \<Longrightarrow> db_inv db'"
proof (induction ms arbitrary: db)
  case Nil
  then show ?case by simp
next
  case (Cons m ms)
  obtain image_r plt where m: "m = (image_r, plt)" by (cases m)
  have one: "db_inv db1" if "saveToCPerImage renv flt iter order now ex img plt db = (db1, q)" for img db1 q
    by (rule saveToCPerImage_inv [OF iter Cons.prems(1) that])
  show ?case
    using Cons.prems Cons.IH one unfolding m save_manifests.simps by (auto split: sum.splits prod.splits)
qed

lemma SaveToC_inv:
  assumes iter: "\<And>es. mset (iter es) = mset es" and inv: "db_inv db"
    and run: "SaveToC renv flt iter order now ex desc db = (db', r)"
  shows "db_inv db'"
  using run inv saveToCPerImage_inv [OF iter inv] save_manifests_inv [OF iter inv]
  by (auto simp: SaveToC_def Let_def split: sum.splits prod.splits remote_desc.splits)

section \<open>What is saved\<close>

text \<open>
  A layer is saved at an index of an image when the image has a layer there that refers to the filesystem
  with the digest and the size, and the files of that filesystem are the entries of the table of contents.
\<close>

definition files_of :: "int \<Rightarrow> meta_db \<Rightarrow> (string \<times> metadata) set" where
  "files_of fsId db = (\<lambda>x. (xr_file x, xr_metadata x)) ` {x \<in> set (md_files db). xr_fs x = fsId}"

definition layer_saved :: "reader_env \<Rightarrow> meta_db \<Rightarrow> int \<Rightarrow> int \<Rightarrow> v1_layer \<Rightarrow> bool" where
  "layer_saved renv db serial idx layer \<longleftrightarrow>
     (\<exists>sz dg blob lf es l f. vl_Size layer = Inr sz \<and> vl_Digest layer = Inr dg \<and> vl_Compressed layer = Inr blob \<and>
        OpenStargz renv blob = Inr lf \<and> layer_entries lf = Inr es \<and> l \<in> set (md_layers db) \<and> f \<in> set (md_fs db) \<and>
        layer_key l = (serial, idx) \<and> lr_layer l = fr_id f \<and> fs_key f = (dg, sz) \<and>
        files_of (fr_id f) db = (\<lambda>(k, v). (k, marshal_entry v)) ` set es)"

lemma InsertLayer_ok:
  assumes "InsertLayer flt now db sz serial k dg db = (db1, Inr (ref, existing))"
  shows "existing = False \<and> (\<exists>f \<in> set (md_fs db1). fr_id f = ref \<and> fs_key f = (dg, sz)) \<and> set (md_fs db) \<subseteq> set (md_fs db1) \<and>
    md_images db1 = md_images db \<and> md_tags db1 = md_tags db \<and> md_files db1 = md_files db \<and>
    (\<exists>l \<in> set (md_layers db1). layer_key l = (serial, k) \<and> lr_layer l = ref) \<and>
    (\<forall>l \<in> set (md_layers db). layer_key l \<noteq> (serial, k) \<longrightarrow> l \<in> set (md_layers db1)) \<and>
    layer_key ` set (md_layers db1) = insert (serial, k) (layer_key ` set (md_layers db))"
proof -
  obtain dbf where rs: "resolve_fs flt now db dg sz db = (dbf, Inr ref)" and up: "upsert_layer flt sz serial k ref dbf = (db1, Inr ())"
    and ex: "existing = False"
    using assms by (auto simp: InsertLayer_def split: prod.splits sum.splits)
  have f: "(\<exists>f \<in> set (md_fs dbf). fr_id f = ref \<and> fs_key f = (dg, sz)) \<and> set (md_fs db) \<subseteq> set (md_fs dbf) \<and>
      md_images dbf = md_images db \<and> md_tags dbf = md_tags db \<and> md_files dbf = md_files db \<and> md_layers dbf = md_layers db"
    using rs by (auto simp: resolve_fs_def insert_fs_def Let_def fs_key_def dest!: find_SomeD split: option.splits if_splits)
  let ?f = "\<lambda>r. if layer_key r = (serial, k) then r\<lparr>lr_size := sz, lr_layer := ref\<rparr> else r"
  have key: "layer_key (?f r) = layer_key r" for r by (simp add: layer_key_def)
  consider "(serial, k) \<in> layer_key ` set (md_layers dbf)" "db1 = dbf\<lparr>md_seq_layer := md_seq_layer dbf + 1, md_layers := map ?f (md_layers dbf)\<rparr>"
    | "db1 = dbf\<lparr>md_seq_layer := md_seq_layer dbf + 1, md_layers := md_layers dbf @ [\<lparr>lr_id = md_seq_layer dbf, lr_size = sz,
         lr_image = serial, lr_stackIndex = k, lr_layer = ref\<rparr>]\<rparr>"
    using up by (auto simp: upsert_layer_def Let_def split: option.splits if_splits)
  then show ?thesis
  proof cases
    case 1
    have keys: "layer_key ` ?f ` set (md_layers dbf) = layer_key ` set (md_layers dbf)"
      by (simp only: image_image key)
    obtain l where l: "l \<in> set (md_layers dbf)" "layer_key l = (serial, k)" using 1(1) by auto
    then have "?f l \<in> set (md_layers db1)" "layer_key (?f l) = (serial, k)" "lr_layer (?f l) = ref"
      using 1(2) key [of l] by auto
    then have "\<exists>l \<in> set (md_layers db1). layer_key l = (serial, k) \<and> lr_layer l = ref" by blast
    moreover have "\<forall>l \<in> set (md_layers db). layer_key l \<noteq> (serial, k) \<longrightarrow> l \<in> set (md_layers db1)"
      using f 1(2) by force
    moreover have "layer_key ` set (md_layers db1) = insert (serial, k) (layer_key ` set (md_layers db))"
      using f 1 keys by auto
    ultimately show ?thesis using ex f 1(2) by simp
  next
    case 2
    then show ?thesis using ex f by (simp add: layer_key_def)
  qed
qed

lemma file_rows_files: "(\<lambda>x. (xr_file x, xr_metadata x)) ` set (file_rows i f es) = (\<lambda>(k, v). (k, marshal_entry v)) ` set es"
  by (induction i f es rule: file_rows.induct) auto

lemma InsertFiles_ok:
  assumes "InsertFiles flt fsId es db = (db', Inr ())"
  shows "files_of fsId db' = (\<lambda>(k, v). (k, marshal_entry v)) ` set es" "g \<noteq> fsId \<Longrightarrow> files_of g db' = files_of g db"
    "x \<in> set (md_files db') \<Longrightarrow> xr_fs x = fsId \<Longrightarrow> xr_order x = []"
    "md_layers db' = md_layers db" "md_fs db' = md_fs db" "md_images db' = md_images db" "md_tags db' = md_tags db"
proof -
  have db': "db' = db\<lparr>md_files := filter (\<lambda>r. xr_fs r \<noteq> fsId) (md_files db) @ file_rows (md_seq_file db) fsId es,
      md_seq_file := md_seq_file db + int (length es)\<rparr>"
    using assms by (auto simp: InsertFiles_def Let_def split: option.splits if_splits)
  note fs = file_rows_simps(4) [of _ "md_seq_file db" fsId es]
  have "{x \<in> set (md_files db'). xr_fs x = fsId} = set (file_rows (md_seq_file db) fsId es)"
    using fs by (auto simp: db')
  then show "files_of fsId db' = (\<lambda>(k, v). (k, marshal_entry v)) ` set es"
    unfolding files_of_def by (simp only: file_rows_files)
  show "files_of g db' = files_of g db" if "g \<noteq> fsId"
  proof -
    have "{x \<in> set (md_files db'). xr_fs x = g} = {x \<in> set (md_files db). xr_fs x = g}" using fs that by (auto simp: db')
    then show ?thesis by (simp add: files_of_def)
  qed
  show "x \<in> set (md_files db') \<Longrightarrow> xr_fs x = fsId \<Longrightarrow> xr_order x = []" using fs by (auto simp: db')
  show "md_layers db' = md_layers db" "md_fs db' = md_fs db" "md_images db' = md_images db" "md_tags db' = md_tags db"
    by (simp_all add: db')
qed

lemma saveLayer_Inr:
  assumes "saveLayer renv flt iter now db serial idx layer db = (db', Inr ())" "f_stmt flt ''commit layer'' = None"
  shows "\<exists>sz dg blob lf es db1 ref. vl_Size layer = Inr sz \<and> vl_Digest layer = Inr dg \<and> vl_Compressed layer = Inr blob \<and>
     OpenStargz renv blob = Inr lf \<and> layer_entries lf = Inr es \<and>
     InsertLayer flt now db sz serial idx dg db = (db1, Inr (ref, False)) \<and> InsertFiles flt ref (iter es) db1 = (db', Inr ())"
  using assms InsertLayer_ok
  by (auto simp: saveLayer_def commit_def split: option.splits sum.splits prod.splits failure.splits if_splits) blast+

lemma saveLayer_saves:
  assumes inv: "db_inv db" and run: "saveLayer renv flt iter now db serial idx layer db = (db', Inr ())"
    and com: "f_stmt flt ''commit layer'' = None" and iter: "\<And>es. mset (iter es) = mset es"
  shows "layer_saved renv db' serial idx layer \<and> md_images db' = md_images db \<and> md_tags db' = md_tags db \<and>
    layer_key ` set (md_layers db') = insert (serial, idx) (layer_key ` set (md_layers db))"
    and "layer_saved renv db serial' idx' layer' \<Longrightarrow> (serial', idx') \<noteq> (serial, idx) \<Longrightarrow>
      (vl_Digest layer' = vl_Digest layer \<Longrightarrow> vl_Compressed layer' = vl_Compressed layer) \<Longrightarrow> layer_saved renv db' serial' idx' layer'"
proof -
  obtain sz dg blob lf es db1 ref where lay: "vl_Size layer = Inr sz" "vl_Digest layer = Inr dg" "vl_Compressed layer = Inr blob"
    and open_ok: "OpenStargz renv blob = Inr lf" "layer_entries lf = Inr es"
    and ins: "InsertLayer flt now db sz serial idx dg db = (db1, Inr (ref, False))" and fil: "InsertFiles flt ref (iter es) db1 = (db', Inr ())"
    using saveLayer_Inr [OF run com] by blast
  note L = InsertLayer_ok [OF ins] and F = InsertFiles_ok [OF fil]
  have inv1: "db_inv db1" by (rule InsertLayer_inv [OF inv order_refl ins])
  have set_iter: "set (iter es) = set es" for es using iter mset_eq_setD by blast
  obtain f where f: "f \<in> set (md_fs db1)" "fr_id f = ref" "fs_key f = (dg, sz)" using L by blast
  obtain l where l: "l \<in> set (md_layers db1)" "layer_key l = (serial, idx)" "lr_layer l = ref" using L by blast
  have "files_of ref db' = (\<lambda>(k, v). (k, marshal_entry v)) ` set es" using F(1) by (simp add: set_iter)
  then have "layer_saved renv db' serial idx layer"
    unfolding layer_saved_def using lay open_ok l f F(4,5) by (intro exI [of _ sz] exI [of _ dg] exI [of _ blob] exI [of _ lf]
        exI [of _ es] exI [of _ l] exI [of _ f]) simp
  then show "layer_saved renv db' serial idx layer \<and> md_images db' = md_images db \<and> md_tags db' = md_tags db \<and>
      layer_key ` set (md_layers db') = insert (serial, idx) (layer_key ` set (md_layers db))"
    using L F by simp
  assume old: "layer_saved renv db serial' idx' layer'" and ne: "(serial', idx') \<noteq> (serial, idx)"
    and same: "vl_Digest layer' = vl_Digest layer \<Longrightarrow> vl_Compressed layer' = vl_Compressed layer"
  obtain sz' dg' blob' lf' es' l' f' where o: "vl_Size layer' = Inr sz'" "vl_Digest layer' = Inr dg'" "vl_Compressed layer' = Inr blob'"
    "OpenStargz renv blob' = Inr lf'" "layer_entries lf' = Inr es'" "l' \<in> set (md_layers db)" "f' \<in> set (md_fs db)"
    "layer_key l' = (serial', idx')" "lr_layer l' = fr_id f'" "fs_key f' = (dg', sz')"
    "files_of (fr_id f') db = (\<lambda>(k, v). (k, marshal_entry v)) ` set es'"
    using old unfolding layer_saved_def by (elim exE conjE) (rule that)
  have keep: "\<forall>l \<in> set (md_layers db). layer_key l \<noteq> (serial, idx) \<longrightarrow> l \<in> set (md_layers db1)"
    and more_fs: "set (md_fs db) \<subseteq> set (md_fs db1)" using L by blast+
  have "layer_key l' \<noteq> (serial, idx)" using ne o(8) by simp
  then have l': "l' \<in> set (md_layers db')" unfolding F(4) using keep o(6) by blast
  have f': "f' \<in> set (md_fs db')" unfolding F(5) using more_fs o(7) by blast
  have "files_of (fr_id f') db' = (\<lambda>(k, v). (k, marshal_entry v)) ` set es'"
  proof (cases "fr_id f' = ref")
    case True
    have "f' = f"
      by (rule table_ok_unique [OF db_inv_parts(3) [OF inv1] _ f(1)]) (use f(2) f' True in \<open>simp_all add: F(5)\<close>)
    then have "dg' = dg" using o(10) f(3) by simp
    then have "blob' = blob" using same o lay by simp
    then show ?thesis using o open_ok F(1) True by (simp add: set_iter)
  next
    case False
    then show ?thesis using F(2) L o by (simp add: files_of_def)
  qed
  then show "layer_saved renv db' serial' idx' layer'"
    unfolding layer_saved_def using o l' f' by (intro exI [of _ sz'] exI [of _ dg'] exI [of _ blob'] exI [of _ lf']
        exI [of _ es'] exI [of _ l'] exI [of _ f']) simp
qed

lemma save_layers_saves:
  assumes com: "f_stmt flt ''commit layer'' = None" and iter: "\<And>es. mset (iter es) = mset es"
    and addressed: "\<And>x y. x \<in> L \<Longrightarrow> y \<in> L \<Longrightarrow> vl_Digest x = vl_Digest y \<Longrightarrow> vl_Compressed x = vl_Compressed y"
  shows "save_layers renv flt iter now serial ls db = (db', None) \<Longrightarrow> db_inv db \<Longrightarrow> distinct (map fst ls) \<Longrightarrow> snd ` set ls \<subseteq> L \<Longrightarrow>
    (\<forall>(idx, layer) \<in> set ls. layer_saved renv db' serial (int idx) layer) \<and>
    (\<forall>idx layer. layer \<in> L \<longrightarrow> idx \<notin> fst ` set ls \<longrightarrow> layer_saved renv db serial (int idx) layer \<longrightarrow>
       layer_saved renv db' serial (int idx) layer) \<and>
    md_images db' = md_images db \<and> md_tags db' = md_tags db \<and>
    layer_key ` set (md_layers db') = (\<lambda>(i, x). (serial, int i)) ` set ls \<union> layer_key ` set (md_layers db)"
proof (induction ls arbitrary: db)
  case Nil
  then show ?case by simp
next
  case (Cons x ls)
  obtain idx layer where x: "x = (idx, layer)" by (cases x)
  obtain db1 q where one: "saveLayer renv flt iter now db serial (int idx) layer db = (db1, q)" by fastforce
  have q: "q = Inr ()" and rest: "save_layers renv flt iter now serial ls db1 = (db', None)"
    using Cons.prems(1) unfolding x save_layers.simps one
    by (auto split: sum.splits prod.splits failure.splits option.splits)
  note one = one [unfolded q]
  have inv1: "db_inv db1" by (rule saveLayer_inv [OF Cons.prems(2) order_refl iter one])
  note S = saveLayer_saves [OF Cons.prems(2) one com iter]
  have IH: "(\<forall>(i, y) \<in> set ls. layer_saved renv db' serial (int i) y) \<and>
    (\<forall>i y. y \<in> L \<longrightarrow> i \<notin> fst ` set ls \<longrightarrow> layer_saved renv db1 serial (int i) y \<longrightarrow> layer_saved renv db' serial (int i) y) \<and>
    md_images db' = md_images db1 \<and> md_tags db' = md_tags db1 \<and>
    layer_key ` set (md_layers db') = (\<lambda>(i, x). (serial, int i)) ` set ls \<union> layer_key ` set (md_layers db1)"
    using Cons.IH [OF rest inv1] Cons.prems(3,4) by simp
  have new: "idx \<notin> fst ` set ls" "layer \<in> L" using Cons.prems(3,4) by (auto simp: x)
  have keep: "layer_saved renv db' serial (int i) y" if "y \<in> L" "i \<notin> fst ` set (x # ls)" "layer_saved renv db serial (int i) y" for i y
  proof -
    have "i \<noteq> idx" "i \<notin> fst ` set ls" using that(2) by (simp_all add: x)
    then have "layer_saved renv db1 serial (int i) y"
      using S(2) [OF that(3)] addressed [OF that(1) new(2)] by simp
    then show ?thesis using IH that(1) \<open>i \<notin> fst ` set ls\<close> by blast
  qed
  have this_one: "layer_saved renv db' serial (int idx) layer" using IH S(1) new by blast
  have keys: "layer_key ` set (md_layers db') = (\<lambda>(i, x). (serial, int i)) ` set (x # ls) \<union> layer_key ` set (md_layers db)"
    using IH S(1) by (simp add: x)
  have same: "md_images db' = md_images db" "md_tags db' = md_tags db" using IH S(1) by simp_all
  have all: "\<forall>(i, y) \<in> set (x # ls). layer_saved renv db' serial (int i) y" using IH this_one by (simp add: x)
  show ?case using all keep keys same by blast
qed

lemma image_rows_indices:
  assumes inv: "db_inv db" and keys: "{k. (serial, k) \<in> layer_key ` set (md_layers db)} = int ` {0..<n}"
  shows "map lr_stackIndex (image_rows serial db) = map int [0..<n]"
proof (rule sorted_distinct_set_unique)
  show "set (map lr_stackIndex (image_rows serial db)) = set (map int [0..<n])"
    using keys by (auto simp: image_rows_def layer_key_def image_iff set_eq_iff)
  show "sorted (map lr_stackIndex (image_rows serial db))" by (rule sorted_image_rows)
  show "distinct (map lr_stackIndex (image_rows serial db))" by (rule distinct_image_rows [OF inv])
  show "sorted (map int [0..<n])" by (simp add: sorted_map)
  show "distinct (map int [0..<n])" by (simp add: distinct_map)
qed

lemma GetLayers_saved:
  assumes inv: "db_inv db" and keys: "{k. (serial, k) \<in> layer_key ` set (md_layers db)} = int ` {0..<length layers}"
    and saved: "\<And>i. i < length layers \<Longrightarrow> layer_saved renv db serial (int i) (layers ! i)"
  shows "\<exists>ls. GetLayers no_faults serial db = Inr ls \<and> length ls = length layers \<and>
    (\<forall>i < length layers. il_StackIndex (ls ! i) = int i \<and> vl_Digest (layers ! i) = Inr (il_Hash (ls ! i)) \<and>
       vl_Size (layers ! i) = Inr (il_UncompressedSize (ls ! i)) \<and>
       (\<exists>blob lf es. vl_Compressed (layers ! i) = Inr blob \<and> OpenStargz renv blob = Inr lf \<and> layer_entries lf = Inr es \<and>
          files_of (il_Serial (ls ! i)) db = (\<lambda>(k, v). (k, marshal_entry v)) ` set es))"
proof -
  obtain ls where ls: "GetLayers no_faults serial db = Inr ls" using GetLayers_total [OF inv] by blast
  have idx: "map il_StackIndex ls = map int [0..<length layers]"
    using GetLayers_map(1) [OF ls] image_rows_indices [OF inv keys] by simp
  then have len: "length ls = length layers" using map_eq_imp_length_eq by fastforce
  have rows_len: "length (image_rows serial db) = length layers"
    using image_rows_indices [OF inv keys] map_eq_imp_length_eq by fastforce
  have one: "il_StackIndex (ls ! i) = int i \<and> vl_Digest (layers ! i) = Inr (il_Hash (ls ! i)) \<and>
       vl_Size (layers ! i) = Inr (il_UncompressedSize (ls ! i)) \<and>
       (\<exists>blob lf es. vl_Compressed (layers ! i) = Inr blob \<and> OpenStargz renv blob = Inr lf \<and> layer_entries lf = Inr es \<and>
          files_of (il_Serial (ls ! i)) db = (\<lambda>(k, v). (k, marshal_entry v)) ` set es)" if i: "i < length layers" for i
  proof -
    let ?r = "image_rows serial db ! i"
    have si: "il_StackIndex (ls ! i) = int i" using arg_cong [OF idx, of "\<lambda>xs. xs ! i"] i len by simp
    have ri: "lr_stackIndex ?r = int i" using arg_cong [OF image_rows_indices [OF inv keys], of "\<lambda>xs. xs ! i"] i rows_len by simp
    have r_in: "?r \<in> set (md_layers db)" "lr_image ?r = serial"
      using nth_mem [of i "image_rows serial db"] i rows_len by (auto simp: image_rows_def)
    obtain g where g: "find (\<lambda>f. fr_id f = lr_layer ?r) (md_fs db) = Some g" "ls ! i = layer_of_rows ?r g"
      using list_all2_nthD [OF GetLayers_rows [OF ls], of i] i rows_len by auto
    obtain sz dg blob lf es l f where o: "vl_Size (layers ! i) = Inr sz" "vl_Digest (layers ! i) = Inr dg"
      "vl_Compressed (layers ! i) = Inr blob" "OpenStargz renv blob = Inr lf" "layer_entries lf = Inr es"
      "l \<in> set (md_layers db)" "f \<in> set (md_fs db)" "layer_key l = (serial, int i)" "lr_layer l = fr_id f" "fs_key f = (dg, sz)"
      "files_of (fr_id f) db = (\<lambda>(k, v). (k, marshal_entry v)) ` set es"
      using saved [OF i] unfolding layer_saved_def by (elim exE conjE) (rule that)
    have "l = ?r"
      by (rule table_ok_unique [OF db_inv_parts(2) [OF inv] o(6) r_in(1)]) (use o(8) ri r_in in \<open>simp add: layer_key_def\<close>)
    then have lr: "lr_layer ?r = fr_id f" using o(9) by (simp only:)
    have "g \<in> set (md_fs db)" "fr_id g = fr_id f" using find_SomeD [OF g(1)] lr by auto
    then have "f = g" using table_ok_unique [OF db_inv_parts(3) [OF inv] o(7), of g] by simp
    then have "il_Serial (ls ! i) = fr_id f" "il_Hash (ls ! i) = dg" "il_UncompressedSize (ls ! i) = sz"
      using g(2) o(10) by (simp_all add: layer_of_rows_def fs_key_def)
    then show ?thesis using o(1-5,11) si by simp
  qed
  show ?thesis using ls len one by blast
qed

lemma saveImage_new:
  assumes inv: "db_inv db" and run: "saveImage flt ex img db = (db1, Inr (serial, existing))"
    and dg: "vi_Digest img = Inr dg" and new: "(ex_ParsedName ex, dg) \<notin> image_key ` set (md_images db)"
  shows "existing = False \<and> serial = md_seq_image db \<and> md_layers db1 = md_layers db \<and>
    (\<exists>row. md_images db1 = md_images db @ [row] \<and> ir_id row = serial \<and> image_key row = (ex_ParsedName ex, dg))"
proof -
  have none: "find (\<lambda>r. image_key r = (ex_ParsedName ex, dg)) (md_images db) = None"
    using new by (force simp: find_None_iff)
  show ?thesis
    using run dg new none
    by (auto simp: saveImage_def InsertImage_def InsertImage_select_def InsertImage_insert_def sql_def Let_def image_key_def
        split: sum.splits prod.splits option.splits if_splits)
qed

lemma fresh_serial:
  assumes "db_inv db"
  shows "(md_seq_image db, k) \<notin> layer_key ` set (md_layers db)"
proof
  assume "(md_seq_image db, k) \<in> layer_key ` set (md_layers db)"
  then obtain l where "l \<in> set (md_layers db)" "lr_image l = md_seq_image db" by (auto simp: layer_key_def)
  then have "md_seq_image db \<in> ir_id ` set (md_images db)" using db_inv_parts(5) [OF assms] by metis
  then show False using db_inv_parts(1) [OF assms] by (force simp: table_ok_def)
qed

lemma find_distinct:
  assumes "distinct (map key rows)" "r \<in> set rows" "key r = k"
  shows "find (\<lambda>x. key x = k) rows = Some r"
proof (cases "find (\<lambda>x. key x = k) rows")
  case None
  then show ?thesis using assms find_NoneD by fastforce
next
  case (Some x)
  then have "x \<in> set rows" "key x = k" using find_SomeD by fastforce+
  then show ?thesis using assms Some by (metis distinct_map inj_onD)
qed

lemma set_enumerate: "set (List.enumerate 0 xs) = (\<lambda>i. (i, xs ! i)) ` {0..<length xs}"
proof (rule set_eqI)
  fix p :: "nat \<times> 'a"
  show "p \<in> set (List.enumerate 0 xs) \<longleftrightarrow> p \<in> (\<lambda>i. (i, xs ! i)) ` {0..<length xs}"
    by (cases p) (auto simp: in_set_enumerate_eq simp del: enumerate_eq_zip)
qed

lemma SetImageTag_GetImage:
  assumes inv: "db_inv db" and run: "SetImageTag flt n t p serial db = Inr db'"
  shows "GetImage no_faults n t p db' = Inr serial"
proof -
  let ?f = "\<lambda>r. if tag_key r = (n, t, p) then r\<lparr>tg_imageId := serial\<rparr> else r"
  have "\<exists>r \<in> set (md_tags db'). tag_key r = (n, t, p) \<and> tg_imageId r = serial"
  proof (cases "(n, t, p) \<in> set (map tag_key (md_tags db))")
    case True
    then obtain x where x: "x \<in> set (md_tags db)" "tag_key x = (n, t, p)" by auto
    have "md_tags db' = map ?f (md_tags db)" using run True unfolding SetImageTag_def sql_Inr by auto
    then have "?f x \<in> set (md_tags db')" using x(1) by simp
    moreover have "tag_key (?f x) = (n, t, p)" "tg_imageId (?f x) = serial" using x(2) by (auto simp: tag_key_def)
    ultimately show ?thesis by blast
  next
    case False
    then show ?thesis using run unfolding SetImageTag_def sql_Inr by (auto simp: tag_key_def)
  qed
  then obtain r where r: "r \<in> set (md_tags db')" "tag_key r = (n, t, p)" "tg_imageId r = serial" by blast
  have "distinct (map tag_key (md_tags db'))" using SetImageTag_inv [OF inv run] by (simp add: db_inv_def)
  from find_distinct [OF this r(1,2)] show ?thesis by (simp add: GetImage_def sql_def no_faults_def r(3))
qed

lemma enableImage_digest:
  assumes inv: "db_inv db" and run: "enableImage flt now serial db = Inr db'"
    and row: "row \<in> set (md_images db)" "ir_id row = serial" "image_key row = (n, dg)"
  shows "GetImageByDigest no_faults n dg db' = Inr serial"
proof -
  let ?f = "\<lambda>r. if ir_id r = serial then r\<lparr>ir_ready := Some now\<rparr> else r"
  have imgs: "md_images db' = map ?f (md_images db)"
    using run by (auto simp: enableImage_def SetImageReady_def sql_Inr split: if_splits)
  have r: "?f row \<in> set (md_images db')" "image_key (?f row) = (n, dg)" "ir_ready (?f row) = Some now" "ir_id (?f row) = serial"
    using row by (auto simp: imgs image_key_def)
  have inv': "db_inv db'" using SetImageReady_inv [OF inv] run by (simp add: enableImage_def)
  have "find (\<lambda>r. ir_ready r \<noteq> None \<and> image_key r = (n, dg)) (md_images db') = Some (?f row)"
  proof (cases "find (\<lambda>r. ir_ready r \<noteq> None \<and> image_key r = (n, dg)) (md_images db')")
    case None
    then show ?thesis using r find_NoneD [OF None r(1)] by simp
  next
    case (Some x)
    then have "x = ?f row" using find_SomeD [OF Some] table_ok_unique [OF db_inv_parts(1) [OF inv'] _ r(1), of x] r(2) by simp
    then show ?thesis using Some by simp
  qed
  then show ?thesis by (simp add: GetImageByDigest_def sql_def no_faults_def r(4))
qed

lemma image_saved:
  assumes inv: "db_inv db" and com: "f_stmt flt ''commit layer'' = None"
    and iter: "\<And>es. mset (iter es) = mset es" and order: "\<And>ls. mset (order ls) = mset ls"
    and run: "saveToCPerImage renv flt iter order now ex img plt db = (db', Inr ())"
    and dg: "vi_Digest img = Inr dg" and new: "(ex_ParsedName ex, dg) \<notin> image_key ` set (md_images db)"
    and layers: "vi_Layers img = Inr layers"
    and addressed: "\<And>x y. x \<in> set layers \<Longrightarrow> y \<in> set layers \<Longrightarrow> vl_Digest x = vl_Digest y \<Longrightarrow> vl_Compressed x = vl_Compressed y"
  shows "\<exists>serial ls. GetImage no_faults (ex_ParsedName ex) (ex_ParsedTag ex) (platform_string plt) db' = Inr serial \<and>
    GetImageByDigest no_faults (ex_ParsedName ex) dg db' = Inr serial \<and>
    GetLayers no_faults serial db' = Inr ls \<and> length ls = length layers \<and>
    (\<forall>i < length layers. il_StackIndex (ls ! i) = int i \<and> vl_Digest (layers ! i) = Inr (il_Hash (ls ! i)) \<and>
       vl_Size (layers ! i) = Inr (il_UncompressedSize (ls ! i)) \<and>
       (\<exists>blob lf es. vl_Compressed (layers ! i) = Inr blob \<and> OpenStargz renv blob = Inr lf \<and> layer_entries lf = Inr es \<and>
          files_of (il_Serial (ls ! i)) db' = (\<lambda>(k, v). (k, marshal_entry v)) ` set es))"
proof -
  let ?tasks = "order (List.enumerate 0 layers)"
  obtain db1 serial existing where img: "saveImage flt ex img db = (db1, Inr (serial, existing))"
    using run by (auto simp: saveToCPerImage_def Let_def split: prod.splits sum.splits)
  obtain row where row: "existing = False" "serial = md_seq_image db" "md_layers db1 = md_layers db"
    "md_images db1 = md_images db @ [row]" "ir_id row = serial" "image_key row = (ex_ParsedName ex, dg)"
    using saveImage_new [OF inv img dg new] by blast
  obtain db2 where save: "save_layers renv flt iter now serial ?tasks db1 = (db2, None)"
    using run img row(1) by (auto simp: saveToCPerImage_def Let_def layers split: prod.splits sum.splits option.splits)
  obtain db3 where en: "enableImage flt now serial db2 = Inr db3"
    using run img row(1) save by (auto simp: saveToCPerImage_def Let_def layers split: prod.splits sum.splits)
  have tag: "setImageTag flt ex serial (platform_string plt) db3 = Inr db'"
    using run img row(1) save en by (auto simp: saveToCPerImage_def Let_def layers split: sum.splits)
  have inv1: "db_inv db1"
    using img inv InsertImage_inv [OF inv] by (auto simp: saveImage_def split: sum.splits prod.splits)
  have inv2: "db_inv db2" by (rule save_layers_inv [OF iter inv1 save])
  have inv3: "db_inv db3" using SetImageReady_inv [OF inv2] en by (simp add: enableImage_def)
  have inv': "db_inv db'" using SetImageTag_inv [OF inv3] tag by (simp add: setImageTag_def)
  have tasks: "set ?tasks = (\<lambda>i. (i, layers ! i)) ` {0..<length layers}"
    using mset_eq_setD [OF order, of "List.enumerate 0 layers"] by (simp only: set_enumerate)
  have dist: "distinct (map fst ?tasks)"
    using order [of "List.enumerate 0 layers"] by (metis distinct_enumerate map_fst_enumerate distinct_upt mset_eq_imp_distinct_iff mset_map)
  have sub: "snd ` set ?tasks \<subseteq> set layers" by (auto simp: tasks)
  note saves = save_layers_saves [where L = "set layers", OF com iter addressed save inv1 dist sub]
  have S: "\<forall>(idx, layer) \<in> set ?tasks. layer_saved renv db2 serial (int idx) layer" "md_images db2 = md_images db1"
      "layer_key ` set (md_layers db2) = (\<lambda>(i, x). (serial, int i)) ` set ?tasks \<union> layer_key ` set (md_layers db1)"
    using saves by blast+
  have same: "md_layers db' = md_layers db2" "md_fs db' = md_fs db2" "md_files db' = md_files db2" "md_images db' = md_images db3"
    using en tag unfolding enableImage_def setImageTag_def SetImageReady_def SetImageTag_def sql_Inr
    by (auto split: if_splits)
  have keys: "{k. (serial, k) \<in> layer_key ` set (md_layers db')} = int ` {0..<length layers}"
    using S fresh_serial [OF inv] by (auto simp: same tasks row(2,3))
  have saved: "layer_saved renv db' serial (int i) (layers ! i)" if "i < length layers" for i
  proof -
    have "(i, layers ! i) \<in> set ?tasks" using that tasks by auto
    then have "layer_saved renv db2 serial (int i) (layers ! i)" using S by blast
    then show ?thesis by (simp add: layer_saved_def files_of_def same)
  qed
  have "row \<in> set (md_images db2)" using S row(4) by simp
  then have "GetImageByDigest no_faults (ex_ParsedName ex) dg db3 = Inr serial"
    using enableImage_digest [OF inv2 en _ row(5,6)] by simp
  then have "GetImageByDigest no_faults (ex_ParsedName ex) dg db' = Inr serial"
    by (simp add: GetImageByDigest_def same)
  moreover have "GetImage no_faults (ex_ParsedName ex) (ex_ParsedTag ex) (platform_string plt) db' = Inr serial"
    using SetImageTag_GetImage [OF inv3] tag by (simp add: setImageTag_def)
  ultimately show ?thesis using GetLayers_saved [OF inv' keys saved] by blast
qed

section \<open>Properties\<close>

text \<open>
  C26: The tables keep their constraints. Whatever the registry answers, whatever statements fail, and in whatever order
  the layers are saved, saving the tables of contents of an image or of an index of images leaves the tables with their
  keys and references intact.
\<close>

theorem SaveToC_invariant:
  assumes "db_inv db" and "\<And>es. mset (iter es) = mset es"
  shows "db_inv (fst (SaveToC renv flt iter order now ex desc db))"
  using SaveToC_inv [OF assms(2,1)] by (metis prod.collapse)

text \<open>
  C25: A saved image is found with its layers. When the image is new and is saved without error, its tag and its digest
  both lead to it, and its layers are those of the registry, in order, with their digests and sizes; the files of each
  layer are the entries of the table of contents of its blob.
\<close>

theorem saveToCPerImage_saves:
  assumes inv: "db_inv db" and com: "f_stmt flt ''commit layer'' = None"
    and iter: "\<And>es. mset (iter es) = mset es" and order: "\<And>ls. mset (order ls) = mset ls"
    and run: "saveToCPerImage renv flt iter order now ex img plt db = (db', Inr ())"
    and dg: "vi_Digest img = Inr dg" and new: "(ex_ParsedName ex, dg) \<notin> image_key ` set (md_images db)"
    and layers: "vi_Layers img = Inr layers"
    and addressed: "\<And>x y. x \<in> set layers \<Longrightarrow> y \<in> set layers \<Longrightarrow> vl_Digest x = vl_Digest y \<Longrightarrow> vl_Compressed x = vl_Compressed y"
  shows "\<exists>serial ls. GetImage no_faults (ex_ParsedName ex) (ex_ParsedTag ex) (platform_string plt) db' = Inr serial \<and>
    GetImageByDigest no_faults (ex_ParsedName ex) dg db' = Inr serial \<and>
    GetLayers no_faults serial db' = Inr ls \<and> length ls = length layers \<and>
    (\<forall>i < length layers. il_StackIndex (ls ! i) = int i \<and> vl_Digest (layers ! i) = Inr (il_Hash (ls ! i)) \<and>
       vl_Size (layers ! i) = Inr (il_UncompressedSize (ls ! i)) \<and>
       (\<exists>blob lf es. vl_Compressed (layers ! i) = Inr blob \<and> OpenStargz renv blob = Inr lf \<and> layer_entries lf = Inr es \<and>
          files_of (il_Serial (ls ! i)) db' = (\<lambda>(k, v). (k, marshal_entry v)) ` set es))"
  by (rule image_saved [OF assms])

text \<open>An image of one layer, whose blob is a table of contents and the footer.\<close>

definition toc_reader :: reader_env where
  "toc_reader = \<lparr>re_crc = length, re_gunzip = Inr, re_tar = (\<lambda>p. Inr (TOCTarName, p)),
     re_json = (\<lambda>js. Inr sample_toc_entries), re_digest = string_of, re_ptime = (\<lambda>s. 0)\<rparr>"

definition sample_blob :: "byte list" where
  "sample_blob = (case footerBytes 0 of Inl e \<Rightarrow> [] | Inr foot \<Rightarrow> [7, 8, 9] @ foot)"

definition sample_image :: v1_image where
  "sample_image = \<lparr>vi_Digest = Inr ''sha256:m'', vi_ConfigFile = Inr (Inr ''{}''), vi_Manifest = Inr (Inr ''{}'', 1),
     vi_Layers = Inr [\<lparr>vl_Size = Inr 70, vl_Digest = Inr ''sha256:a'', vl_Compressed = Inr sample_blob\<rparr>]\<rparr>"

definition sample_extractor :: extractor where
  "sample_extractor = \<lparr>ex_Image = ''app:v1'', ex_ParsedName = ''app'', ex_ParsedTag = ''v1''\<rparr>"

definition sample_saved :: "meta_db \<times> unit result" where
  "sample_saved = saveToCPerImage toc_reader no_faults (\<lambda>es. es) (\<lambda>ls. ls) 5 sample_extractor sample_image None InitDatabase"

lemma sample_saved_ok: "sample_saved = (fst sample_saved, Inr ())"
proof -
  have "is_ok (snd sample_saved)" by code_simp
  then have "snd sample_saved = Inr ()" by (auto simp: is_ok_def split: sum.splits)
  then show ?thesis by (metis prod.collapse)
qed

theorem saveToCPerImage_saves_witness:
  "\<exists>serial ls. GetImage no_faults ''app'' ''v1'' ''uni-arch'' (fst sample_saved) = Inr serial \<and>
    GetLayers no_faults serial (fst sample_saved) = Inr ls \<and> length ls = 1 \<and> il_Hash (ls ! 0) = ''sha256:a''"
proof -
  let ?layers = "[\<lparr>vl_Size = Inr 70, vl_Digest = Inr ''sha256:a'', vl_Compressed = Inr sample_blob\<rparr>]"
  have "\<exists>serial ls. GetImage no_faults (ex_ParsedName sample_extractor) (ex_ParsedTag sample_extractor) (platform_string None) (fst sample_saved) = Inr serial \<and>
    GetImageByDigest no_faults (ex_ParsedName sample_extractor) ''sha256:m'' (fst sample_saved) = Inr serial \<and>
    GetLayers no_faults serial (fst sample_saved) = Inr ls \<and> length ls = length ?layers \<and>
    (\<forall>i < length ?layers. il_StackIndex (ls ! i) = int i \<and> vl_Digest (?layers ! i) = Inr (il_Hash (ls ! i)) \<and>
       vl_Size (?layers ! i) = Inr (il_UncompressedSize (ls ! i)) \<and>
       (\<exists>blob lf es. vl_Compressed (?layers ! i) = Inr blob \<and> OpenStargz toc_reader blob = Inr lf \<and> layer_entries lf = Inr es \<and>
          files_of (il_Serial (ls ! i)) (fst sample_saved) = (\<lambda>(k, v). (k, marshal_entry v)) ` set es))"
    by (rule saveToCPerImage_saves [OF InitDatabase_inv, where flt = no_faults and iter = "\<lambda>es. es" and order = "\<lambda>ls. ls" and now = 5
          and img = sample_image])
      (use sample_saved_ok in \<open>auto simp: no_faults_def sample_saved_def sample_image_def InitDatabase_def\<close>)
  then show ?thesis by (auto simp: sample_extractor_def platform_string_def)
qed

theorem SaveToC_invariant_witness:
  "db_inv (fst (SaveToC toc_reader no_faults rev rev 5 sample_extractor (Inr (DockerManifest (Inr sample_image) None)) InitDatabase))"
  by (rule SaveToC_invariant [OF InitDatabase_inv]) simp

text \<open>
  Saving a layer again loses its ranks. \<^verbatim>\<open>InsertLayer\<close> never reports a filesystem as existing, so \<^verbatim>\<open>saveLayer\<close> replaces the
  files of a filesystem that is there already, also when another image with ranks refers to it: when it succeeds, no file
  of the filesystem of the layer has an access order.
\<close>

theorem saveLayer_clears_ranks:
  assumes inv: "db_inv db" and run: "saveLayer renv flt iter now db serial idx layer db = (db', Inr ())"
    and com: "f_stmt flt ''commit layer'' = None"
    and fs: "f \<in> set (md_fs db)" "vl_Digest layer = Inr (fr_digest f)" "vl_Size layer = Inr (fr_size f)"
    and x: "x \<in> set (md_files db')" "xr_fs x = fr_id f"
  shows "xr_order x = []"
proof -
  obtain db1 ref es where ins: "InsertLayer flt now db (fr_size f) serial idx (fr_digest f) db = (db1, Inr (ref, False))"
    and fil: "InsertFiles flt ref (iter es) db1 = (db', Inr ())"
    using saveLayer_Inr [OF run com] fs(2,3) by auto
  have inv1: "db_inv db1" by (rule InsertLayer_inv [OF inv order_refl ins])
  obtain g where g: "g \<in> set (md_fs db1)" "fr_id g = ref" "fs_key g = (fr_digest f, fr_size f)"
    and more_fs: "set (md_fs db) \<subseteq> set (md_fs db1)" using InsertLayer_ok [OF ins] by blast
  have "f = g" using table_ok_unique [OF db_inv_parts(3) [OF inv1], of f g] more_fs fs(1) g by (auto simp: fs_key_def)
  then show ?thesis using InsertFiles_ok(3) [OF fil x(1)] x(2) g(2) by simp
qed

text \<open>
  A failed commit is not reported. \<^verbatim>\<open>defer txn.Commit()\<close> drops the error of the commit: a layer whose commit fails is
  reported as saved although no table has changed.
\<close>

theorem saveLayer_commit_lost:
  assumes "f_stmt flt ''commit layer'' = Some e" "saveLayer renv flt iter now dbc serial idx layer db = (db', r)"
  shows "md_layers db' = md_layers db \<and> md_fs db' = md_fs db \<and> md_files db' = md_files db \<and>
    snd (saveLayer renv (flt\<lparr>f_stmt := (f_stmt flt)(''commit layer'' := None)\<rparr>) iter now dbc serial idx layer db) = r"
proof -
  let ?flt = "flt\<lparr>f_stmt := (f_stmt flt)(''commit layer'' := None)\<rparr>"
  have up: "upsert_layer ?flt = upsert_layer flt" and rs: "resolve_fs ?flt = resolve_fs flt" and fil: "InsertFiles ?flt = InsertFiles flt"
    by (intro ext, simp add: resolve_fs_def insert_fs_def upsert_layer_def InsertFiles_def cong: option.case_cong)+
  have ins: "InsertLayer ?flt = InsertLayer flt" by (intro ext) (simp only: InsertLayer_def up rs)
  have same: "f_stmt ?flt ''begin layer'' = f_stmt flt ''begin layer''" by simp
  show ?thesis
    using assms unfolding saveLayer_def ins fil same
    by (auto simp: commit_def rollback_def split: option.splits sum.splits prod.splits failure.splits)
qed

text \<open>
  An image without layers. \<^verbatim>\<open>saveToCPerImage\<close> drops the error of \<^verbatim>\<open>img.Layers()\<close>: when the layers of a new image cannot be
  listed, the image is saved, enabled and tagged all the same, and has no layer.
\<close>

theorem saveToCPerImage_layers_error:
  assumes inv: "db_inv db" and com: "f_stmt flt ''commit layer'' = None"
    and iter: "\<And>es. mset (iter es) = mset es" and order: "\<And>ls. mset (order ls) = mset ls"
    and run: "saveToCPerImage renv flt iter order now ex img plt db = (db', Inr ())"
    and dg: "vi_Digest img = Inr dg" and new: "(ex_ParsedName ex, dg) \<notin> image_key ` set (md_images db)"
    and layers: "vi_Layers img = Inl e"
  shows "\<exists>serial. GetImage no_faults (ex_ParsedName ex) (ex_ParsedTag ex) (platform_string plt) db' = Inr serial \<and>
    GetImageByDigest no_faults (ex_ParsedName ex) dg db' = Inr serial \<and> GetLayers no_faults serial db' = Inr []"
proof -
  let ?img = "img\<lparr>vi_Layers := Inr []\<rparr>"
  have run': "saveToCPerImage renv flt iter order now ex ?img plt db = (db', Inr ())"
  proof -
    have "saveImage flt ex ?img db = saveImage flt ex img db" by (simp add: saveImage_def cong: sum.case_cong)
    then show ?thesis using run by (simp add: saveToCPerImage_def layers)
  qed
  show ?thesis using image_saved [OF inv com iter order run' _ new, where layers = "[]"] dg by auto
qed

theorem saveToCPerImage_layers_error_witness:
  "\<exists>serial. GetLayers no_faults serial (fst (saveToCPerImage toc_reader no_faults (\<lambda>es. es) (\<lambda>ls. ls) 5 sample_extractor
     (sample_image\<lparr>vi_Layers := Inl (Fail (ExtError ''unauthorized''))\<rparr>) None InitDatabase)) = Inr []"
proof -
  let ?run = "saveToCPerImage toc_reader no_faults (\<lambda>es. es) (\<lambda>ls. ls) 5 sample_extractor
     (sample_image\<lparr>vi_Layers := Inl (Fail (ExtError ''unauthorized''))\<rparr>) None InitDatabase"
  have "is_ok (snd ?run)" by code_simp
  then have ok: "?run = (fst ?run, Inr ())" by (cases ?run) (auto simp: is_ok_def split: sum.splits)
  have "\<exists>serial. GetImage no_faults (ex_ParsedName sample_extractor) (ex_ParsedTag sample_extractor) (platform_string None) (fst ?run) = Inr serial \<and>
    GetImageByDigest no_faults (ex_ParsedName sample_extractor) ''sha256:m'' (fst ?run) = Inr serial \<and>
    GetLayers no_faults serial (fst ?run) = Inr []"
    by (rule saveToCPerImage_layers_error [OF InitDatabase_inv _ _ _ ok])
      (auto simp: no_faults_def sample_image_def InitDatabase_def)
  then show ?thesis by blast
qed

definition sample_layer :: v1_layer where
  "sample_layer = \<lparr>vl_Size = Inr 70, vl_Digest = Inr ''sha256:a'', vl_Compressed = Inr sample_blob\<rparr>"

definition ranked_db :: meta_db where
  "ranked_db = (fst sample_saved)\<lparr>md_files := map (\<lambda>x. x\<lparr>xr_order := [4]\<rparr>) (md_files (fst sample_saved))\<rparr>"

lemma ranked_db_inv: "db_inv ranked_db"
proof -
  have inv: "db_inv (fst sample_saved)"
    by (rule saveToCPerImage_inv [OF _ InitDatabase_inv, of "\<lambda>es. es" toc_reader no_faults "\<lambda>ls. ls" 5 sample_extractor sample_image None _ "snd sample_saved"])
      (simp_all add: sample_saved_def)
  have "table_ok xr_id file_key (map (\<lambda>x. x\<lparr>xr_order := [4]\<rparr>) (md_files (fst sample_saved))) (md_seq_file (fst sample_saved))"
    by (rule table_ok_map [OF db_inv_parts(4) [OF inv]]) (auto simp: file_key_def)
  then show ?thesis using inv by (auto simp: db_inv_def ranked_db_def meta_matches_def)
qed

theorem saveLayer_clears_ranks_witness:
  "(\<exists>x \<in> set (md_files ranked_db). xr_fs x = 1 \<and> xr_order x = [4]) \<and>
   xr_order ` {x \<in> set (md_files (fst (saveLayer toc_reader no_faults (\<lambda>es. es) 6 ranked_db 1 0 sample_layer ranked_db))). xr_fs x = 1} \<subseteq> {[]}"
proof -
  let ?run = "saveLayer toc_reader no_faults (\<lambda>es. es) 6 ranked_db 1 0 sample_layer ranked_db"
  have "is_ok (snd ?run)" by code_simp
  then have ok: "?run = (fst ?run, Inr ())" by (cases ?run) (auto simp: is_ok_def split: sum.splits)
  have before: "\<exists>x \<in> set (md_files ranked_db). xr_fs x = 1 \<and> xr_order x = [4]" by code_simp
  have fs: "find (\<lambda>f. fr_id f = 1) (md_fs ranked_db) = Some \<lparr>fr_id = 1, fr_digest = ''sha256:a'', fr_size = 70, fr_ready = 5\<rparr>" by code_simp
  have "xr_order x = []" if "x \<in> set (md_files (fst ?run))" "xr_fs x = 1" for x
    using saveLayer_clears_ranks [OF ranked_db_inv ok _ conjunct1 [OF find_SomeD [OF fs]] _ _ that(1)] that(2)
    by (simp add: no_faults_def sample_layer_def)
  then show ?thesis using before by blast
qed

definition failing_commit :: faults where
  "failing_commit = no_faults\<lparr>f_stmt := [''commit layer'' \<mapsto> ExtError ''connection lost'']\<rparr>"

theorem saveLayer_commit_lost_witness:
  "snd (saveLayer toc_reader failing_commit (\<lambda>es. es) 6 ranked_db 1 1 (sample_layer\<lparr>vl_Digest := Inr ''sha256:b''\<rparr>) ranked_db) = Inr () \<and>
   md_layers (fst (saveLayer toc_reader failing_commit (\<lambda>es. es) 6 ranked_db 1 1 (sample_layer\<lparr>vl_Digest := Inr ''sha256:b''\<rparr>) ranked_db)) =
     md_layers ranked_db"
proof -
  let ?run = "saveLayer toc_reader failing_commit (\<lambda>es. es) 6 ranked_db 1 1 (sample_layer\<lparr>vl_Digest := Inr ''sha256:b''\<rparr>) ranked_db"
  have "is_ok (snd ?run)" by code_simp
  then have ok: "?run = (fst ?run, Inr ())" by (cases ?run) (auto simp: is_ok_def split: sum.splits)
  have "f_stmt failing_commit ''commit layer'' = Some (ExtError ''connection lost'')" by (simp add: failing_commit_def)
  from saveLayer_commit_lost [OF this ok] show ?thesis by (metis ok snd_conv)
qed

end
