(* ===== verification/Programs.thy ===== *)
theory Programs
  imports Cli Client_Core Proxy_Server Snapshotter
begin

text \<open>
  The programs starlight-daemon and starlight-proxy: their configurations are loaded from a file, and the options that are given
  override them; then the client or the server is made. Listening on the sockets is left out.
\<close>

section \<open>starlight-daemon\<close>

definition override :: "string \<Rightarrow> (string \<Rightarrow> 'c \<Rightarrow> 'c) \<Rightarrow> 'c \<Rightarrow> 'c" where
  "override v set_it cfg = (if v \<noteq> [] then set_it v cfg else cfg)"

text \<open>A proxy that cannot be parsed is logged and skipped. The map of proxies is taken to be there: a file that sets it to null is not modelled.\<close>

definition add_proxy :: "string \<Rightarrow> configuration \<Rightarrow> configuration" where
  "add_proxy v cfg = (case ParseProxyStrings v of Inl e \<Rightarrow> cfg | Inr (k, p) \<Rightarrow> cfg\<lparr>cf_Proxies := AList.update k p (cf_Proxies cfg)\<rparr>)"

definition daemon_overrides :: "cli_context \<Rightarrow> configuration \<Rightarrow> configuration" where
  "daemon_overrides cx cfg =
     fold add_proxy (cx_StringSlice cx ''proxy'')
      (override (cx_String cx ''default'') (\<lambda>v c. c\<lparr>cf_DefaultProxy := v\<rparr>)
       (override (cx_String cx ''fs-root'') (\<lambda>v c. c\<lparr>cf_FileSystemRoot := v\<rparr>)
        (override (cx_String cx ''socket'') (\<lambda>v c. c\<lparr>cf_Socket := v\<rparr>)
         (override (cx_String cx ''metadata'') (\<lambda>v c. c\<lparr>cf_Metadata := v\<rparr>)
          (override (cx_String cx ''id'') (\<lambda>v c. c\<lparr>cf_ClientId := v\<rparr>) cfg)))))"

text \<open>A configuration that cannot be loaded is fatal: the process exits. The level of the log is set first.\<close>

definition daemon_DefaultAction :: "os \<Rightarrow> config_json \<Rightarrow> string \<Rightarrow> string \<Rightarrow> cli_context \<Rightarrow> disk \<Rightarrow> disk \<times> log_level \<times> client option" where
  "daemon_DefaultAction os js etcPath uuid cx d =
     (case client_LoadConfig os js etcPath uuid (cx_String cx ''config'') d of (d1, cfg, p, ne, err) \<Rightarrow>
       (let cfg1 = override (cx_String cx ''log-level'') (\<lambda>v c. c\<lparr>cf_LogLevel := v\<rparr>) cfg;
            level = ConfigLoggerWithLevel (cf_LogLevel cfg1)
        in case err of Some e \<Rightarrow> (d1, level, None)
         | None \<Rightarrow> (case NewClient os (daemon_overrides cx cfg1) d1 of (c, d2) \<Rightarrow> (d2, level, Some c))))"

text \<open>The two services of the daemon: the directories of their sockets are made, and old sockets are removed.\<close>

definition prepare_socket :: "os \<Rightarrow> string \<Rightarrow> disk \<Rightarrow> disk \<times> unit result" where
  "prepare_socket os sock d =
     (case MkdirAll os (path_dir sock) d of
        (d1, Some e) \<Rightarrow> (d1, Inl (Fail (Wrapf e (''failed to create directory '' @ path_dir sock @ '' for socket''))))
      | (d1, None) \<Rightarrow>
         (case RemoveAll os sock d1 of
            (d2, Some e) \<Rightarrow> (d2, Inl (Fail (Wrapf e (''failed to remove '' @ sock))))
          | (d2, None) \<Rightarrow> (d2, Inr ())))"

definition InitSnapshotter :: "os \<Rightarrow> (string \<Rightarrow> 'm result) \<Rightarrow> client \<times> 'ct \<Rightarrow> host \<Rightarrow> host \<times> ('m, client \<times> 'ct) plugin result" where
  "InitSnapshotter os open_store c h =
     (case NewPlugin os open_store c h (cf_Metadata (cl_cfg (fst c))) of
        (h1, Inl e) \<Rightarrow> (h1, Inl (wrap ''failed to create snapshotter'' e))
      | (h1, Inr pg) \<Rightarrow>
         (case prepare_socket os (cf_Socket (cl_cfg (fst c))) (ho_disk h1) of
            (d, Inl e) \<Rightarrow> (h1\<lparr>ho_disk := d\<rparr>, Inl e)
          | (d, Inr u) \<Rightarrow> (h1\<lparr>ho_disk := d\<rparr>, Inr (pg\<lparr>pg_host := h1\<lparr>ho_disk := d\<rparr>\<rparr>))))"

definition InitCLIServer :: "os \<Rightarrow> client \<Rightarrow> disk \<Rightarrow> disk \<times> unit result" where
  "InitCLIServer os c d =
     (if take 4 (cf_DaemonType (cl_cfg c)) = ''unix'' then prepare_socket os (cf_Daemon (cl_cfg c)) d else (d, Inr ()))"

section \<open>starlight-proxy\<close>

text \<open>\<^verbatim>\<open>:(.*)@\<close>: on each line, from the first colon to the last at sign after it.\<close>

definition protect_line :: "string \<Rightarrow> string" where
  "protect_line l =
     (let before = takeWhile (\<lambda>c. c \<noteq> CHR '':'') l; rest = dropWhile (\<lambda>c. c \<noteq> CHR '':'') l
      in if CHR ''@'' \<in> set rest then before @ '':********@'' @ rev (takeWhile (\<lambda>c. c \<noteq> CHR ''@'') (rev rest)) else l)"

definition ProtectPassword :: "string \<Rightarrow> string" where
  "ProtectPassword c = join_with [CHR 0x0A] (map protect_line (split_on (CHR 0x0A) c))"

definition proxy_overrides :: "cli_context \<Rightarrow> proxy_config \<Rightarrow> proxy_config" where
  "proxy_overrides cx cfg =
     override (cx_String cx ''registry'') (\<lambda>v c. c\<lparr>pcf_DefaultRegistry := v\<rparr>)
      (override (cx_String cx ''postgres'') (\<lambda>v c. c\<lparr>pcf_PostgresConnectionString := v\<rparr>)
       (override (cx_String cx ''host'') (\<lambda>v c. c\<lparr>pcf_ListenAddress := v\<rparr>)
        (if cx_Int cx ''port'' \<noteq> 0 then cfg\<lparr>pcf_ListenPort := cx_Int cx ''port''\<rparr> else cfg)))"

text \<open>The error of making the server is dropped: the process waits without one.\<close>

definition proxy_DefaultAction :: "proxy_config config_env \<Rightarrow> (nat \<Rightarrow> go_error option) \<Rightarrow> (nat \<Rightarrow> go_error option) \<Rightarrow> meta_db \<Rightarrow> cache_sys \<Rightarrow> cli_context
    \<Rightarrow> log_level \<times> server result option" where
  "proxy_DefaultAction env tries inits db cache0 cx =
     (case LoadConfig env (cx_String cx ''config'') of (cfg, p, ne, err) \<Rightarrow>
       (let cfg1 = override (cx_String cx ''log-level'') (\<lambda>v c. c\<lparr>pcf_LogLevel := v\<rparr>) cfg;
            level = ConfigLoggerWithLevel (pcf_LogLevel cfg1)
        in case err of Some e \<Rightarrow> (level, None)
         | None \<Rightarrow> (level, Some (NewServer (proxy_overrides cx cfg1) tries inits db cache0))))"

end
