(* ===== verification/Programs_Laws.thy ===== *)
theory Programs_Laws
  imports Programs
begin

text \<open>What the daemon starts with: the layers that the scan of its disk takes for complete, and the options that override its file.\<close>

section \<open>Scanning the disk\<close>

text \<open>A layer below \<open>fsroot\<close> whose directory has the mark of completion.\<close>

definition marked :: "string \<Rightarrow> disk \<Rightarrow> string \<Rightarrow> bool" where
  "marked fsroot d h \<longleftrightarrow> (\<exists>ds. length ds = 4 \<and> h = ''sha256:'' @ concat ds \<and>
     (let p = path_join [path_join (fsroot # ''layers'' # ds), ''completed.json''] in file_at d p \<noteq> None \<or> p \<in> set (dk_dirs d)))"

text \<open>A scan only removes from the disk, and only adds layers that are marked on it.\<close>

definition scanned :: "client \<Rightarrow> disk \<Rightarrow> client \<times> disk \<times> bool \<Rightarrow> bool" where
  "scanned c0 d0 s \<longleftrightarrow> (case s of (c, d, x) \<Rightarrow> cl_cfg c = cl_cfg c0 \<and> cl_managers c = cl_managers c0 \<and>
     (\<forall>q bs. file_at d q = Some bs \<longrightarrow> file_at d0 q = Some bs) \<and> set (dk_dirs d) \<subseteq> set (dk_dirs d0) \<and>
     (\<forall>h. map_of (cl_layerMap c) h \<noteq> None \<longrightarrow> map_of (cl_layerMap c0) h \<noteq> None \<or> marked (GetFilesystemRoot c0) d0 h))"

lemma RemoveAll_removes:
  assumes "RemoveAll os p d = (d', r)"
  shows "set (dk_dirs d') \<subseteq> set (dk_dirs d)" "file_at d' q = Some bs \<Longrightarrow> file_at d q = Some bs"
proof -
  have filt: "map_of (filter (\<lambda>(q, _). \<not> below p q) fs) q = (if below p q then None else map_of fs q)" for fs :: "(string \<times> byte list) list" and q
    by (induction fs) auto
  show "set (dk_dirs d') \<subseteq> set (dk_dirs d)" using assms by (auto simp: RemoveAll_def split: option.splits)
  show "file_at d' q = Some bs \<Longrightarrow> file_at d q = Some bs"
    using assms by (auto simp: RemoveAll_def file_at_def filt split: option.splits if_splits)
qed

lemma scanned_remove:
  assumes "scanned c0 d0 (c, d, x)"
  shows "scanned c0 d0 (c, fst (RemoveAll os p d), y)"
proof -
  obtain d' r where r: "RemoveAll os p d = (d', r)" by (cases "RemoveAll os p d")
  show ?thesis using assms RemoveAll_removes [OF r] unfolding scanned_def r by auto
qed

lemma scanned_flag: "scanned c0 d0 (c, d, x) \<Longrightarrow> scanned c0 d0 (c, d, y)"
  by (simp add: scanned_def)

lemma scan_layer_scanned:
  assumes s: "scanned c0 d0 s" and ds: "length ds = 3"
  shows "scanned c0 d0 (scan_layer os ds d4 s)"
proof -
  obtain c d x where [simp]: "s = (c, d, x)" by (cases s)
  let ?p = "layers_path c (ds @ [fst d4])"
  have cfg: "cl_cfg c = cl_cfg c0" using s by (simp add: scanned_def)
  have mark: "marked (GetFilesystemRoot c0) d0 (''sha256:'' @ concat (ds @ [fst d4]))"
    if "file_at d (path_join [?p, ''completed.json'']) \<noteq> None \<or> path_join [?p, ''completed.json''] \<in> set (dk_dirs d)"
    unfolding marked_def
    using that s ds cfg by (intro exI [of _ "ds @ [fst d4]"]) (auto simp: scanned_def layers_path_def GetFilesystemRoot_def Let_def)
  have "scanned c0 d0 (AddCompletedLayers (''sha256:'' @ concat (ds @ [fst d4])) c, d, True)"
    if "file_at d (path_join [?p, ''completed.json'']) \<noteq> None \<or> path_join [?p, ''completed.json''] \<in> set (dk_dirs d)"
    using s mark [OF that] by (auto simp: scanned_def AddCompletedLayers_def update_conv' split: if_splits)
  then show ?thesis using s scanned_remove [of c0 d0 c d x os ?p x] by (auto simp: scan_layer_def Let_def)
qed

lemma scan_level_scanned: "scanned c0 d0 s \<Longrightarrow> length ds + length ns = 3 \<Longrightarrow> scanned c0 d0 (scan_level os ns ds dir s)"
proof (induction ns arbitrary: ds dir s)
  case Nil
  then show ?case by (simp add: scan_layer_scanned)
next
  case (Cons n ns)
  obtain c d x where s: "s = (c, d, x)" by (cases s)
  let ?p = "layers_path c (ds @ [fst dir])"
  define go where "go = (if snd dir \<and> length (fst dir) = n
                  then (case ReadDir os ?p d of
                          Inl e \<Rightarrow> None
                        | Inr entries \<Rightarrow> Some (fold (scan_level os ns (ds @ [fst dir])) entries (c, d, False)))
                  else Some (c, d, False))"
  have len: "length (ds @ [fst dir]) + length ns = 3" using Cons.prems(2) by simp
  have start: "scanned c0 d0 (c, d, False)" using Cons.prems(1) by (simp add: s scanned_def)
  have fold: "scanned c0 d0 (fold (scan_level os ns (ds @ [fst dir])) entries (c, d, False))" for entries
    by (rule fold_invariant [where Q = "\<lambda>_. True"], simp, rule start, rule Cons.IH, assumption, rule len)
  have step: "scanned c0 d0 t" if "go = Some t" for t
    using that start fold by (auto simp: go_def split: if_splits sum.splits)
  have "scanned c0 d0 (case go of None \<Rightarrow> s | Some (c1, d1, found) \<Rightarrow> if found then (c1, d1, True) else (c1, fst (RemoveAll os ?p d1), x))"
  proof (cases go)
    case None
    then show ?thesis using Cons.prems(1) by simp
  next
    case (Some t)
    obtain c1 d1 found where t: "t = (c1, d1, found)" by (cases t)
    have "scanned c0 d0 (c1, d1, found)" using step [OF Some] unfolding t .
    then show ?thesis using Some t scanned_flag [of c0 d0 c1 d1 found True] scanned_remove [of c0 d0 c1 d1 found os ?p x] by simp
  qed
  then show ?case unfolding go_def s by (simp only: scan_level.simps prod.case Let_def)
qed

lemma NewClient_scanned:
  assumes "NewClient os cfg d = (c, d')"
  shows "cl_cfg c = cfg \<and> cl_managers c = [] \<and> (\<forall>q bs. file_at d' q = Some bs \<longrightarrow> file_at d q = Some bs) \<and> set (dk_dirs d') \<subseteq> set (dk_dirs d) \<and>
    (\<forall>h. map_of (cl_layerMap c) h \<noteq> None \<longrightarrow> marked (cf_FileSystemRoot cfg) d h)"
proof -
  have start: "scanned (new_client cfg) d (new_client cfg, d, False)" by (simp add: scanned_def)
  have len: "length ([] :: string list) + length [1, 2, 2 :: nat] = 3" by simp
  have fold: "scanned (new_client cfg) d (fold (scan_level os [1, 2, 2] []) entries (new_client cfg, d, False))" for entries
    by (rule fold_invariant [where Q = "\<lambda>_. True"], simp, rule start, rule scan_level_scanned, assumption, rule len)
  have "\<exists>x. scanned (new_client cfg) d (c, d', x)"
  proof (cases "ReadDir os (layers_path (new_client cfg) []) d")
    case (Inl e)
    then show ?thesis using assms start by (auto simp: NewClient_def ScanExistingFilesystems_def)
  next
    case (Inr entries)
    obtain c1 d1 x where t: "fold (scan_level os [1, 2, 2] []) entries (new_client cfg, d, False) = (c1, d1, x)"
      by (cases "fold (scan_level os [1, 2, 2] []) entries (new_client cfg, d, False)")
    have "c1 = c \<and> d1 = d'" using assms unfolding NewClient_def ScanExistingFilesystems_def Inr sum.case t prod.case by (simp only: prod.inject)
    then show ?thesis using fold [of entries] unfolding t by blast
  qed
  then show ?thesis by (auto simp: scanned_def new_client_def GetFilesystemRoot_def)
qed

text \<open>
  C38: The client starts from the marked layers only. \<^verbatim>\<open>NewClient\<close> creates nothing on the disk, has no manager, and every layer that it takes
  for complete had the mark of a finished extraction in its directory.
\<close>

theorem NewClient_scans:
  assumes "NewClient os cfg d = (c, d')"
  shows "cl_cfg c = cfg \<and> cl_managers c = [] \<and> (\<forall>q bs. file_at d' q = Some bs \<longrightarrow> file_at d q = Some bs) \<and> set (dk_dirs d') \<subseteq> set (dk_dirs d) \<and>
    (\<forall>h. map_of (cl_layerMap c) h \<noteq> None \<longrightarrow> marked (cf_FileSystemRoot cfg) d h)"
  by (rule NewClient_scanned [OF assms])

section \<open>Options override the file\<close>

definition given_proxies :: "string list \<Rightarrow> (string \<times> proxy_settings) list" where
  "given_proxies vs = concat (map (\<lambda>v. case ParseProxyStrings v of Inl e \<Rightarrow> [] | Inr p \<Rightarrow> [p]) vs)"

lemma fold_add_proxy:
  "map_of (cf_Proxies (fold add_proxy vs cfg)) = map_of (cf_Proxies cfg) ++ map_of (rev (given_proxies vs)) \<and>
     fold add_proxy vs cfg = cfg\<lparr>cf_Proxies := cf_Proxies (fold add_proxy vs cfg)\<rparr>"
proof (induction vs arbitrary: cfg)
  case Nil
  then show ?case by (simp add: given_proxies_def)
next
  case (Cons v vs)
  let ?cfg = "add_proxy v cfg"
  have same: "?cfg = cfg\<lparr>cf_Proxies := cf_Proxies ?cfg\<rparr>" by (simp add: add_proxy_def split: sum.splits)
  have one: "map_of (cf_Proxies ?cfg) ++ map_of (rev (given_proxies vs)) = map_of (cf_Proxies cfg) ++ map_of (rev (given_proxies (v # vs)))"
    by (auto simp: add_proxy_def given_proxies_def update_conv' map_add_def fun_eq_iff split: sum.splits option.splits)
  define r where "r = fold add_proxy vs ?cfg"
  have "r = ?cfg\<lparr>cf_Proxies := cf_Proxies r\<rparr>" using Cons.IH [of ?cfg] unfolding r_def by blast
  moreover have "?cfg\<lparr>cf_Proxies := x\<rparr> = cfg\<lparr>cf_Proxies := x\<rparr>" for x by (subst same) simp
  ultimately have "r = cfg\<lparr>cf_Proxies := cf_Proxies r\<rparr>" by (simp only:)
  moreover have "map_of (cf_Proxies r) = map_of (cf_Proxies cfg) ++ map_of (rev (given_proxies (v # vs)))"
    using Cons.IH [of ?cfg] one unfolding r_def by (simp only:)
  ultimately show ?case unfolding fold_simps r_def by blast
qed

text \<open>What an option gives, or what the file has when the option is not given.\<close>

definition given :: "cli_context \<Rightarrow> string \<Rightarrow> string \<Rightarrow> string" where
  "given cx opt v = (if cx_String cx opt \<noteq> [] then cx_String cx opt else v)"

lemma override_given:
  "override (cx_String cx opt) (\<lambda>v c. c\<lparr>cf_LogLevel := v\<rparr>) cfg = cfg\<lparr>cf_LogLevel := given cx opt (cf_LogLevel cfg)\<rparr>"
  "override (cx_String cx opt) (\<lambda>v c. c\<lparr>cf_ClientId := v\<rparr>) cfg = cfg\<lparr>cf_ClientId := given cx opt (cf_ClientId cfg)\<rparr>"
  "override (cx_String cx opt) (\<lambda>v c. c\<lparr>cf_Metadata := v\<rparr>) cfg = cfg\<lparr>cf_Metadata := given cx opt (cf_Metadata cfg)\<rparr>"
  "override (cx_String cx opt) (\<lambda>v c. c\<lparr>cf_Socket := v\<rparr>) cfg = cfg\<lparr>cf_Socket := given cx opt (cf_Socket cfg)\<rparr>"
  "override (cx_String cx opt) (\<lambda>v c. c\<lparr>cf_FileSystemRoot := v\<rparr>) cfg = cfg\<lparr>cf_FileSystemRoot := given cx opt (cf_FileSystemRoot cfg)\<rparr>"
  "override (cx_String cx opt) (\<lambda>v c. c\<lparr>cf_DefaultProxy := v\<rparr>) cfg = cfg\<lparr>cf_DefaultProxy := given cx opt (cf_DefaultProxy cfg)\<rparr>"
  by (simp_all add: override_def given_def)

text \<open>
  C39: The options of starlight-daemon override its file. When the daemon starts, its client has the values of the options that are given and
  those of the loaded file for the others; the proxies of the file are kept but for those that a proxy option names, of
  which the last one counts. A file that cannot be loaded stops it.
\<close>

theorem daemon_options_override:
  assumes "daemon_DefaultAction os js etcPath uuid cx d = (d', level, Some c)"
  shows "\<exists>d1 cfg p ne. client_LoadConfig os js etcPath uuid (cx_String cx ''config'') d = (d1, cfg, p, ne, None) \<and>
    level = ConfigLoggerWithLevel (given cx ''log-level'' (cf_LogLevel cfg)) \<and>
    cl_cfg c = cfg\<lparr>cf_LogLevel := given cx ''log-level'' (cf_LogLevel cfg), cf_ClientId := given cx ''id'' (cf_ClientId cfg),
      cf_Metadata := given cx ''metadata'' (cf_Metadata cfg), cf_Socket := given cx ''socket'' (cf_Socket cfg),
      cf_FileSystemRoot := given cx ''fs-root'' (cf_FileSystemRoot cfg), cf_DefaultProxy := given cx ''default'' (cf_DefaultProxy cfg),
      cf_Proxies := cf_Proxies (cl_cfg c)\<rparr> \<and>
    map_of (cf_Proxies (cl_cfg c)) = map_of (cf_Proxies cfg) ++ map_of (rev (given_proxies (cx_StringSlice cx ''proxy'')))"
proof -
  obtain d1 cfg p ne err where l: "client_LoadConfig os js etcPath uuid (cx_String cx ''config'') d = (d1, cfg, p, ne, err)"
    by (cases "client_LoadConfig os js etcPath uuid (cx_String cx ''config'') d")
  define cfg1 where "cfg1 = override (cx_String cx ''log-level'') (\<lambda>v c. c\<lparr>cf_LogLevel := v\<rparr>) cfg"
  have run: "(case err of Some e \<Rightarrow> (d1, ConfigLoggerWithLevel (cf_LogLevel cfg1), None)
      | None \<Rightarrow> (case NewClient os (daemon_overrides cx cfg1) d1 of (c, d2) \<Rightarrow> (d2, ConfigLoggerWithLevel (cf_LogLevel cfg1), Some c))) = (d', level, Some c)"
    using assms unfolding daemon_DefaultAction_def l prod.case Let_def cfg1_def .
  then have err: "err = None" by (cases err) simp_all
  obtain c1 d2 where n1: "NewClient os (daemon_overrides cx cfg1) d1 = (c1, d2)" by (cases "NewClient os (daemon_overrides cx cfg1) d1")
  have level: "level = ConfigLoggerWithLevel (cf_LogLevel cfg1)" and n: "NewClient os (daemon_overrides cx cfg1) d1 = (c, d')"
    using run n1 unfolding err option.case n1 prod.case by simp_all
  let ?base = "cfg\<lparr>cf_LogLevel := given cx ''log-level'' (cf_LogLevel cfg), cf_ClientId := given cx ''id'' (cf_ClientId cfg),
      cf_Metadata := given cx ''metadata'' (cf_Metadata cfg), cf_Socket := given cx ''socket'' (cf_Socket cfg),
      cf_FileSystemRoot := given cx ''fs-root'' (cf_FileSystemRoot cfg), cf_DefaultProxy := given cx ''default'' (cf_DefaultProxy cfg)\<rparr>"
  have cfg: "cl_cfg c = daemon_overrides cx cfg1" using NewClient_scanned [OF n] by blast
  have base: "daemon_overrides cx cfg1 = fold add_proxy (cx_StringSlice cx ''proxy'') ?base"
    by (simp add: daemon_overrides_def cfg1_def override_given)
  note f = fold_add_proxy [of "cx_StringSlice cx ''proxy''" ?base]
  have "cl_cfg c = ?base\<lparr>cf_Proxies := cf_Proxies (cl_cfg c)\<rparr>" using f unfolding cfg base by blast
  moreover have "map_of (cf_Proxies (cl_cfg c)) = map_of (cf_Proxies cfg) ++ map_of (rev (given_proxies (cx_StringSlice cx ''proxy'')))"
    using f unfolding cfg base by simp
  moreover have "cf_LogLevel cfg1 = given cx ''log-level'' (cf_LogLevel cfg)" by (simp add: cfg1_def override_given)
  ultimately show ?thesis using l level by (simp add: err)
qed

end
