(* ===== verification/Snapshot_Sample.thy ===== *)
theory Snapshot_Sample
  imports Client_Mounts Client_Sample
begin

text \<open>
  A small metadata store with a Starlight snapshot and two snapshots above it, and a client whose containerd has the image of
  \<^verbatim>\<open>Client_Sample\<close>; the properties of the snapshotter and the client are applied to them.
\<close>

section \<open>A metadata store\<close>

type_synonym sample_db = "(string \<times> string \<times> sn_info) list"

definition not_there :: "'a result" where "not_there = Inl (Fail (ExtError ''snapshot does not exist''))"

definition sample_store :: "sample_db meta_store" where
  "sample_store = \<lparr>
     ms_begin = (\<lambda>writable. None), ms_commit = (\<lambda>db. None),
     ms_GetInfo = (\<lambda>db key. case map_of db key of None \<Rightarrow> not_there | Some (ssId, i) \<Rightarrow> Inr (ssId, i, 0, 0)),
     ms_CreateSnapshot = (\<lambda>db kind key parent opts. case apply_opts opts \<lparr>sn_Kind = kind, sn_Name = key, sn_Parent = parent, sn_Labels = []\<rparr> of
        Inl e \<Rightarrow> Inl e | Inr i \<Rightarrow> Inr ((key, itoa (int (length db) + 1), i) # db, itoa (int (length db) + 1))),
     ms_CommitActive = (\<lambda>db key nam u opts. case map_of db key of None \<Rightarrow> not_there
        | Some (ssId, i) \<Rightarrow> Inr ((nam, ssId, i\<lparr>sn_Kind := KindCommitted, sn_Name := nam\<rparr>) # AList.delete key db)),
     ms_Remove = (\<lambda>db key. if list_ex (\<lambda>(k, s, i). sn_Parent i = key) db then (db, Inl (Fail (ExtError ''cannot remove snapshot with child'')))
        else (AList.delete key db, Inr ())),
     ms_UpdateInfo = (\<lambda>db info fs. case map_of db (sn_Name info) of None \<Rightarrow> not_there
        | Some (ssId, i) \<Rightarrow> Inr (AList.update (sn_Name info) (ssId, info) db, info)),
     ms_WalkInfo = (\<lambda>db fs. Inr (map (\<lambda>(k, s, i). i) db))\<rparr>"

definition sample_snapshot :: "string \<Rightarrow> string \<Rightarrow> (string \<times> string) list \<Rightarrow> sn_info" where
  "sample_snapshot nam parent labels = \<lparr>sn_Kind = KindCommitted, sn_Name = nam, sn_Parent = parent, sn_Labels = labels\<rparr>"

definition sample_image_labels :: "(string \<times> string) list" where
  "sample_image_labels = snapshot_labels (sample_digest (CHR ''f'')) (sample_digest (CHR ''a'')) 0"

definition sample_db :: sample_db where
  "sample_db = [(''c1'', ''1'', sample_snapshot ''c1'' [] sample_image_labels), (''c2'', ''2'', sample_snapshot ''c2'' ''c1'' []),
     (''c3'', ''3'', sample_snapshot ''c3'' ''c2'' [])]"

definition sample_get :: "string \<Rightarrow> (string \<times> sn_info \<times> usage) result" where
  "sample_get = ms_GetInfo sample_store sample_db"

definition sample_rank :: "string \<Rightarrow> nat" where
  "sample_rank key = (if key = ''c1'' then 1 else if key = ''c2'' then 2 else if key = ''c3'' then 3 else 0)"

definition sample_active :: sn_info where
  "sample_active = \<lparr>sn_Kind = KindActive, sn_Name = ''k8s.io/4/x'', sn_Parent = ''c3'', sn_Labels = []\<rparr>"

lemma sample_getD: "sample_get key = Inr (ssId, i, u) \<Longrightarrow>
    key = ''c1'' \<and> i = sample_snapshot ''c1'' [] sample_image_labels \<or> key = ''c2'' \<and> i = sample_snapshot ''c2'' ''c1'' [] \<or>
    key = ''c3'' \<and> i = sample_snapshot ''c3'' ''c2'' []"
  by (auto simp: sample_get_def sample_store_def sample_db_def not_there_def split: if_splits option.splits)

lemma sample_ranked: "sample_get key = Inr (ssId, i, u) \<Longrightarrow> sn_Parent i \<noteq> [] \<Longrightarrow> sample_rank (sn_Parent i) < sample_rank key"
  by (drule sample_getD) (auto simp: sample_snapshot_def sample_rank_def)

definition sample_stack :: "snapshot_item list" where
  "sample_stack = [\<lparr>si_ssId = ''3'', si_inf = sample_snapshot ''c3'' ''c2'' []\<rparr>, \<lparr>si_ssId = ''2'', si_inf = sample_snapshot ''c2'' ''c1'' []\<rparr>,
     \<lparr>si_ssId = ''1'', si_inf = sample_snapshot ''c1'' [] sample_image_labels\<rparr>]"

lemma sample_getFsStack: "getFsStack sample_get sample_active [] = Some (Inr sample_stack)"
  by code_simp

theorem getFsStack_chain_witness:
  "getFsStack sample_get sample_active [] = Some (Inr sample_stack) \<and> parent_chain sample_get sample_active sample_stack"
  using getFsStack_chain [of sample_get sample_rank sample_active, OF sample_ranked] sample_getFsStack by simp

section \<open>A client\<close>

definition sample_env :: environment where
  "sample_env = \<lparr>en_os = (\<lambda>op path. None), en_fuse = \<lparr>fe_stat = (\<lambda>p. None), fe_unmount = (\<lambda>p. None), fe_server = (\<lambda>p. None)\<rparr>,
     en_usage = (\<lambda>d p. Inr (1, 1))\<rparr>"

definition sample_containerd :: "unit containerd" where
  "sample_containerd = \<lparr>ct_ListImages = (\<lambda>flt ct. Inr []), ct_Delete = (\<lambda>n ct. (ct, Inr ())), ct_Create = (\<lambda>i ct. (ct, Inr i)),
     ct_Update = (\<lambda>i f ct. (ct, Inr i)),
     ct_Info = (\<lambda>md ct. if md = sample_digest (CHR ''f'') then Inr [(ContentLabelContainerdGC @ ''.starlight'', ''b'')] else not_there),
     ct_UpdateInfo = (\<lambda>d l ct. (ct, Inr ())), ct_ReadBlob = (\<lambda>d ct. Inr []), ct_WriteBlob = (\<lambda>r b l ct. (ct, Inr ()))\<rparr>"

definition sample_ce :: "unit client_env" where
  "sample_ce = \<lparr>ce_env = sample_env, ce_manifest = (\<lambda>b. Inr \<lparr>vm_Config = ''c'', vm_LayerSizes = []\<rparr>), ce_config = (\<lambda>b. Inr []),
     ce_bundle = (\<lambda>b. Inr sample_bundle), ce_address = (\<lambda>i. word_of_nat (100 + i)), ce_ptime = (\<lambda>t. 0), ce_iter = (\<lambda>ks. ks),
     ce_open_log = None, ce_now = 0, ce_rfc3339 = [], ce_randId = (\<lambda>i. ''r''), ce_ChainIDs = (\<lambda>ds. ds),
     ce_connect = (\<lambda>ns. Inr sample_containerd)\<rparr>"

definition sample_cfg :: configuration where
  "sample_cfg = (client_NewConfig ''id'')\<lparr>cf_FileSystemRoot := ''/sl'', cf_TracesDir := ''/tr''\<rparr>"

text \<open>The scan of the disk has found the layer of the image.\<close>

definition sample_client :: client where
  "sample_client = (new_client sample_cfg)\<lparr>cl_layerMap := [(sample_digest (CHR ''a''), new_mount_point None (- 1))]\<rparr>"

definition sample_host :: host where "sample_host = \<lparr>ho_disk = sample_disk, ho_mounts = []\<rparr>"

definition sample_plugin :: "(sample_db, client \<times> unit) plugin" where
  "sample_plugin = \<lparr>pg_db = sample_db, pg_writing = False, pg_client = (sample_client, ()), pg_host = sample_host\<rparr>"

lemma sample_invs: "client_inv sample_ce sample_client" "images_inv sample_ce sample_client"
  by (simp_all add: client_inv_def images_inv_def sample_client_def new_client_def new_mount_point_def)

lemma sample_LoadImage: "snd (LoadImage sample_ce sample_containerd (sample_digest (CHR ''f'')) () sample_client) = Inr 0"
  by code_simp

theorem LoadImage_links_witness:
  "\<exists>c'. LoadImage sample_ce sample_containerd (sample_digest (CHR ''f'')) () sample_client = (c', Inr 0) \<and>
    client_inv sample_ce c' \<and> map_of (cl_managerMap c') (sample_digest (CHR ''f'')) = Some 0 \<and> linked c' 0"
proof -
  obtain c' where c': "LoadImage sample_ce sample_containerd (sample_digest (CHR ''f'')) () sample_client = (c', Inr 0)"
    using sample_LoadImage by (metis prod.collapse)
  show ?thesis using LoadImage_links [OF sample_invs(1) c'] c' by (intro exI [of _ c']) simp
qed

section \<open>Mounting its snapshots\<close>

lemma sample_stored:
  "sample_digest (CHR ''a'') \<in> stored_layers sample_ce (sample_digest (CHR ''f''))" "d \<in> stored_layers sample_ce []"
proof -
  show "d \<in> stored_layers sample_ce []"
    by (simp add: stored_layers_def sample_ce_def sample_containerd_def sample_digest_def not_there_def)
  show "sample_digest (CHR ''a'') \<in> stored_layers sample_ce (sample_digest (CHR ''f''))"
    unfolding stored_layers_def
  proof (intro CollectI allI impI)
    fix namespace labels c dfs and ctr :: "unit containerd" and ct b m
    assume conn: "ce_connect sample_ce namespace = Inr ctr" and "ct_Info ctr (sample_digest (CHR ''f'')) ct = Inr labels"
      and rd: "read_json ctr (ce_bundle sample_ce) (find_label labels (ContentLabelContainerdGC @ ''.starlight'')) ct = Inr b"
      and ini: "init_manager sample_ce c True dfs (sample_digest (CHR ''f'')) b = Inr m"
    have "ctr = sample_containerd" using conn by (simp add: sample_ce_def)
    then have b: "b = sample_bundle" using rd by (simp add: read_json_def sample_ce_def sample_containerd_def)
    obtain m2 b2 files' where m2: "init_layers (unmarshal_manager sample_bundle\<lparr>mg_FileSystemRoot := cf_FileSystemRoot (cl_cfg c), mg_TracesDir := cf_TracesDir (cl_cfg c),
        mg_layers := [], mg_stackSerialMap := [], mg_fs := [], mg_DiffIDs := dfs, mg_manifestDigest := sample_digest (CHR ''f'')\<rparr>) = Inr m2"
      and m: "m = m2\<lparr>mg_bundle := b2\<lparr>rb_RequestedFiles := files'\<rparr>, mg_fileLookUpMap := mg_fileLookUpMap m\<rparr>"
      by (rule Init_Inr [OF ini [unfolded init_manager_def b]]) blast
    have "mg_stackSerialMap m2 = [7] \<and> layer_hash m2 7 = Inr (sample_digest (CHR ''a''))"
      using m2 by (auto simp: init_layers_def unmarshal_manager_def sample_bundle_def layer_hash_def split: sum.splits)
    moreover have "mg_stackSerialMap m = mg_stackSerialMap m2" "layer_hash m = layer_hash m2" by (subst m, simp add: layer_hash_def fun_eq_iff)+
    ultimately show "sample_digest (CHR ''a'') \<in> manager_layers m" by (simp add: manager_layers_def)
  qed
qed

lemma sample_has:
  assumes "sample_get key = Inr (ssId, i, u)" "sample_get key' = Inr (ssId', i', u')" "IsStarlightFS \<lparr>si_ssId = ssId', si_inf = i'\<rparr>"
  shows "label i' SnapshotLabelRefUncompressed \<in> stored_layers sample_ce (label i SnapshotLabelRefImage)"
proof -
  have i': "label i' SnapshotLabelRefUncompressed = sample_digest (CHR ''a'')"
    using sample_getD [OF assms(2)] assms(3)
    by (auto simp: IsStarlightFS_def has_label_def label_def sample_snapshot_def sample_image_labels_def snapshot_labels_def
        SnapshotLabelRefUncompressed_def SnapshotLabelRefImage_def SnapshotLabelRefLayer_def)
  have "label i SnapshotLabelRefImage = sample_digest (CHR ''f'') \<or> label i SnapshotLabelRefImage = []"
    using sample_getD [OF assms(1)]
    by (auto simp: label_def sample_snapshot_def sample_image_labels_def snapshot_labels_def)
  then show ?thesis using sample_stored i' by auto
qed


definition sample_overlay :: sn_mount where
  "sample_overlay = \<lparr>mt_Type = ''overlay'', mt_Source = ''overlay'',
     mt_Options = [''workdir=/sl/mnt/4/work'', ''upperdir=/sl/mnt/4/upper'', ''lowerdir=/sl/mnt/1/slfs:/sl/mnt/2/upper:/sl/mnt/3/upper'']\<rparr>"

lemma sample_mounts:
  "map_option snd (plugin_mounts (client_plugin sample_ce) sample_get ''k8s.io'' ''4'' sample_active ((sample_client, ()), sample_host)) =
     Some (Inr [sample_overlay])"
  by code_simp

theorem mounts_overlay_witness:
  "\<exists>cs' lower. plugin_mounts (client_plugin sample_ce) sample_get ''k8s.io'' ''4'' sample_active ((sample_client, ()), sample_host) =
      Some (cs', Inr [sample_overlay]) \<and> list_all2 (lower_dir (client_plugin sample_ce)) (rev sample_stack) lower \<and>
      last (mt_Options sample_overlay) = ''lowerdir='' @ join_with '':'' lower"
proof -
  obtain cs' where run: "plugin_mounts (client_plugin sample_ce) sample_get ''k8s.io'' ''4'' sample_active ((sample_client, ()), sample_host) = Some (cs', Inr [sample_overlay])"
    using sample_mounts by auto
  have "sample_stack \<noteq> []" by (simp add: sample_stack_def)
  from mounts_overlay [OF sample_getFsStack this run] run show ?thesis by (elim exE) (auto simp: sample_overlay_def)
qed

text \<open>An image in memory, and a snapshot of another image below, whose layer was only found on the disk.\<close>

definition sample_hang_client :: client where
  "sample_hang_client = sample_client\<lparr>cl_managers := [sample_manager], cl_managerMap := [(sample_digest (CHR ''1''), 0)]\<rparr>"

definition sample_hang_get :: "string \<Rightarrow> (string \<times> sn_info \<times> usage) result" where
  "sample_hang_get = ms_GetInfo sample_store [(''c1'', ''1'', sample_snapshot ''c1'' [] sample_image_labels),
     (''c3'', ''3'', sample_snapshot ''c3'' ''c1'' (snapshot_labels (sample_digest (CHR ''1'')) (sample_digest (CHR ''2'')) 1))]"

theorem mounts_hang_witness:
  "plugin_mounts (client_plugin sample_ce) sample_hang_get ''k8s.io'' ''4'' sample_active ((sample_hang_client, ()), sample_host) = None"
proof -
  let ?c1 = "\<lparr>si_ssId = ''1'', si_inf = sample_snapshot ''c1'' [] sample_image_labels\<rparr>"
  let ?c3 = "\<lparr>si_ssId = ''3'', si_inf = sample_snapshot ''c3'' ''c1'' (snapshot_labels (sample_digest (CHR ''1'')) (sample_digest (CHR ''2'')) 1)\<rparr>"
  have s: "getFsStack sample_hang_get sample_active [] = Some (Inr [?c3, ?c1])" by code_simp
  have b: "IsStarlightFS (last [?c3, ?c1])"
    "map_of (cl_layerMap sample_hang_client) (label (si_inf (last [?c3, ?c1])) SnapshotLabelRefUncompressed) = Some (new_mount_point None (- 1))"
    "map_of (cl_managerMap sample_hang_client) (label (si_inf ?c3) SnapshotLabelRefImage) = Some 0"
    by code_simp+
  show ?thesis
    by (rule mounts_hang [OF s b(1,2) _ _ b(3), where ctr = sample_containerd]) (simp_all add: new_mount_point_def sample_ce_def)
qed

section \<open>The snapshotter on them\<close>

lemma sample_Prepare_run:
  "map_option snd (write_op sample_store (client_plugin sample_ce) sample_env (WPrepare ''k8s.io/4/x'' ''c3'' []) sample_plugin) = Some (Inr ())"
  by code_simp

lemma sample_Commit_run:
  "map_option snd (write_op sample_store (client_plugin sample_ce) sample_env (WCommit ''c4'' ''c9'' []) sample_plugin) = Some not_there"
  by code_simp

theorem write_atomic_witness:
  "(\<exists>pg'. write_op sample_store (client_plugin sample_ce) sample_env (WPrepare ''k8s.io/4/x'' ''c3'' []) sample_plugin = Some (pg', Inr ()) \<and> \<not> pg_writing pg') \<and>
   (\<exists>pg'. write_op sample_store (client_plugin sample_ce) sample_env (WCommit ''c4'' ''c9'' []) sample_plugin = Some (pg', not_there) \<and> pg_db pg' = sample_db)"
proof -
  obtain p1 where p1: "write_op sample_store (client_plugin sample_ce) sample_env (WPrepare ''k8s.io/4/x'' ''c3'' []) sample_plugin = Some (p1, Inr ())"
    using sample_Prepare_run by auto
  obtain p2 where p2: "write_op sample_store (client_plugin sample_ce) sample_env (WCommit ''c4'' ''c9'' []) sample_plugin = Some (p2, not_there)"
    using sample_Commit_run by auto
  have "pg_db p2 = sample_db" using write_atomic [OF p2] by (simp add: not_there_def sample_plugin_def)
  then show ?thesis using write_atomic [OF p1] p1 p2 by auto
qed

text \<open>Before the layer is on the client the mount of its snapshot fails.\<close>

definition sample_empty_plugin :: "(sample_db, client \<times> unit) plugin" where
  "sample_empty_plugin = sample_plugin\<lparr>pg_client := (new_client sample_cfg, ())\<rparr>"

definition sample_no_layer :: failure where
  "sample_no_layer = Fail (Errorf ''layer incomplete or not found. remove and pull again'')"

lemma sample_dirs: "snd (make_dirs (client_plugin sample_ce) sample_env ''4'' (sample_empty_plugin\<lparr>pg_writing := True\<rparr>)) = Inr ()"
  by code_simp

lemma sample_created:
  "ms_CreateSnapshot sample_store (pg_db sample_empty_plugin) KindActive ''k8s.io/4/x'' ''c3'' [] = Inr ((''k8s.io/4/x'', ''4'', sample_active) # sample_db, ''4'')"
  "ms_GetInfo sample_store ((''k8s.io/4/x'', ''4'', sample_active) # sample_db) ''k8s.io/4/x'' = Inr (''4'', sample_active, 0, 0)"
  "hd (split_on slash ''k8s.io/4/x'') = ''k8s.io''"
  by code_simp+

lemma sample_mount_fails:
  "map_option snd (plugin_mounts (client_plugin sample_ce) (ms_GetInfo sample_store ((''k8s.io/4/x'', ''4'', sample_active) # sample_db)) ''k8s.io'' ''4'' sample_active
     ((new_client sample_cfg, ()), h)) = Some (Inl sample_no_layer)"
proof -
  have s: "getFsStack (ms_GetInfo sample_store ((''k8s.io/4/x'', ''4'', sample_active) # sample_db)) sample_active [] = Some (Inr sample_stack)" by code_simp
  have r: "rev sample_stack = \<lparr>si_ssId = ''1'', si_inf = sample_snapshot ''c1'' [] sample_image_labels\<rparr> # tl (rev sample_stack)" "sample_stack \<noteq> []"
    "IsStarlightFS \<lparr>si_ssId = ''1'', si_inf = sample_snapshot ''c1'' [] sample_image_labels\<rparr>"
    by code_simp+
  show ?thesis
    unfolding plugin_mounts_def s option.case sum.case
    by (subst r(1)) (simp add: r(2,3) mount_layer.simps client_plugin_def Mount_def new_client_def sample_no_layer_def)
qed

theorem failed_mount_blocks_witness:
  "\<exists>pg'. plugin_Prepare sample_store (client_plugin sample_ce) sample_env ''k8s.io/4/x'' ''c3'' [] sample_empty_plugin = Some (pg', Inl sample_no_layer) \<and>
    plugin_Stat sample_store ''c3'' pg' = Inr (sample_snapshot ''c3'' ''c2'' []) \<and>
    write_op sample_store (client_plugin sample_ce) sample_env (WRemove ''c3'') pg' = None"
proof -
  obtain pg2 where d: "make_dirs (client_plugin sample_ce) sample_env ''4'' (sample_empty_plugin\<lparr>pg_writing := True\<rparr>) = (pg2, Inr ())"
    using sample_dirs by (metis prod.collapse)
  have c2: "pg_client pg2 = (new_client sample_cfg, ())"
    using make_dirs_db [OF d] by (simp add: sample_empty_plugin_def)
  obtain cs where m: "plugin_mounts (client_plugin sample_ce) (ms_GetInfo sample_store ((''k8s.io/4/x'', ''4'', sample_active) # sample_db)) ''k8s.io'' ''4'' sample_active
      (pg_client pg2, pg_host pg2) = Some (cs, Inl sample_no_layer)"
    using sample_mount_fails [of "pg_host pg2"] c2 by auto
  have i: "\<not> pg_writing sample_empty_plugin" "ms_begin sample_store True = None" "apply_opts [] zero_info = Inr zero_info"
    by (simp_all add: sample_empty_plugin_def sample_plugin_def sample_store_def)
  have st: "plugin_Stat sample_store ''c3'' sample_empty_plugin = Inr (sample_snapshot ''c3'' ''c2'' [])" by code_simp
  have m': "plugin_mounts (client_plugin sample_ce) (ms_GetInfo sample_store ((''k8s.io/4/x'', ''4'', sample_active) # sample_db)) (hd (split_on slash ''k8s.io/4/x''))
      ''4'' (fst (snd (''4'', sample_active, 0, 0))) (pg_client pg2, pg_host pg2) = Some (cs, Inl sample_no_layer)"
    unfolding sample_created(3) fst_conv snd_conv by (rule m)
  obtain pg' where "plugin_Prepare sample_store (client_plugin sample_ce) sample_env ''k8s.io/4/x'' ''c3'' [] sample_empty_plugin = Some (pg', Inl sample_no_layer)"
    "\<forall>k. plugin_Stat sample_store k pg' = plugin_Stat sample_store k sample_empty_plugin" "\<forall>w. write_op sample_store (client_plugin sample_ce) sample_env w pg' = None"
    using failed_mount_blocks [OF i sample_created(1) d sample_created(2) m'] by (elim exE conjE) (rule that)
  then show ?thesis using st by (intro exI [of _ pg']) simp
qed

theorem Remove_drops_error_witness:
  "\<exists>pg'. plugin_Remove sample_store (client_plugin sample_ce) sample_env ''c2'' sample_plugin = Some (pg', Inr ()) \<and>
    plugin_Stat sample_store ''c2'' pg' = Inr (sample_snapshot ''c2'' ''c1'' []) \<and> file_at (ho_disk (pg_host pg')) ''/sl/mnt/2/upper'' = None"
proof -
  have i: "\<not> pg_writing sample_plugin" "ms_begin sample_store True = None"
    by (simp_all add: sample_plugin_def sample_store_def)
  have g: "ms_GetInfo sample_store (pg_db sample_plugin) ''c2'' = Inr (''2'', sample_snapshot ''c2'' ''c1'' [], (0, 0))"
    "ms_Remove sample_store (pg_db sample_plugin) ''c2'' = (pg_db sample_plugin, Inl (Fail (ExtError ''cannot remove snapshot with child'')))"
    "\<not> has_label (sample_snapshot ''c2'' ''c1'' []) SnapshotLabelRefUncompressed"
    "below (getMountingPoint (client_plugin sample_ce) (pg_client sample_plugin) ''2'') ''/sl/mnt/2/upper''"
    "plugin_Stat sample_store ''c2'' sample_plugin = Inr (sample_snapshot ''c2'' ''c1'' [])"
    by code_simp+
  have c: "ms_commit sample_store (pg_db sample_plugin) = None" by (simp add: sample_store_def)
  have "en_os sample_env = (\<lambda>op path. None)" by (simp add: sample_env_def)
  from Remove_drops_error [OF i g(1,2) c g(3) this, of "client_plugin sample_ce"] g(4,5) show ?thesis by auto
qed

section \<open>Unmounting a layer\<close>

definition sample_mounted :: mount_point where
  "sample_mounted = \<lparr>mp_fs = Some sample_inst, mp_manager = Some 0, mp_stack = 0, mp_snapshots = [(''c1'', sample_snapshot ''c1'' [] sample_image_labels)]\<rparr>"

theorem Unmount_stale_witness:
  "\<exists>c' h'. Unmount sample_env (sample_digest (CHR ''a'')) ''c1'' (sample_client\<lparr>cl_layerMap := [(sample_digest (CHR ''a''), sample_mounted)]\<rparr>,
      sample_host\<lparr>ho_mounts := [''/mnt'']\<rparr>) = ((c', h'), Inr ()) \<and> ''/mnt'' \<notin> set (ho_mounts h') \<and>
    (\<exists>c2. Mount sample_env (sample_digest (CHR ''a'')) ''1'' sample_active (c', h') = ((c2, h'), Inr ''/mnt''))"
proof -
  let ?c = "sample_client\<lparr>cl_layerMap := [(sample_digest (CHR ''a''), sample_mounted)]\<rparr>" and ?h = "sample_host\<lparr>ho_mounts := [''/mnt'']\<rparr>"
  have mp: "map_of (cl_layerMap ?c) (sample_digest (CHR ''a'')) = Some sample_mounted" "mp_fs sample_mounted = Some sample_inst"
    "mp_snapshots sample_mounted = [(''c1'', sample_snapshot ''c1'' [] sample_image_labels)]"
    by (simp_all add: sample_mounted_def)
  have um: "fe_unmount (en_fuse sample_env) (in_mountPoint sample_inst) = None" "in_mountPoint sample_inst \<notin> set (remove1 (in_mountPoint sample_inst) (ho_mounts ?h))"
    "en_os sample_env = (\<lambda>op path. None)"
    by (simp_all add: sample_env_def sample_inst_def)
  show ?thesis using Unmount_stale [OF mp um] by (auto simp: sample_inst_def)
qed

end
