(* ===== verification/Programs_Sample.thy ===== *)
theory Programs_Sample
  imports Programs_Laws Snapshot_Sample
begin

text \<open>A daemon that starts on a disk with one complete layer, with options.\<close>

definition marked_disk :: disk where
  "marked_disk = sample_disk\<lparr>dk_files := [(sample_local @ ''/completed.json'', [9])]\<rparr>"

definition scanned_client :: "client \<times> disk" where "scanned_client = NewClient no_os_faults sample_cfg marked_disk"

lemma scanned_layer: "map_of (cl_layerMap (fst scanned_client)) (sample_digest (CHR ''a'')) \<noteq> None \<and> cf_FileSystemRoot sample_cfg = ''/sl''"
  by code_simp

theorem NewClient_scans_witness:
  "map_of (cl_layerMap (fst scanned_client)) (sample_digest (CHR ''a'')) \<noteq> None \<and> marked ''/sl'' marked_disk (sample_digest (CHR ''a''))"
  using NewClient_scans [of no_os_faults sample_cfg marked_disk "fst scanned_client" "snd scanned_client"] scanned_layer
  by (simp add: scanned_client_def)

definition sample_json :: config_json where
  "sample_json = \<lparr>cj_marshal = (\<lambda>c. [1]), cj_unmarshal = (\<lambda>b c. (c\<lparr>cf_Socket := ''/s''\<rparr>, None))\<rparr>"

definition daemon_flags :: cli_context where
  "daemon_flags = \<lparr>cx_String = (\<lambda>s. if s = ''config'' then ''/etc/sl.json'' else if s = ''fs-root'' then ''/data'' else []), cx_Bool = (\<lambda>s. False), cx_Int = (\<lambda>s. 0),
     cx_StringSlice = (\<lambda>s. if s = ''proxy'' then [''p,https,h'', ''bad''] else []), cx_Args = []\<rparr>"

definition config_disk :: disk where "config_disk = \<lparr>dk_files = [(''/etc/sl.json'', [1])], dk_dirs = [''/etc'']\<rparr>"

lemma daemon_started: "case daemon_DefaultAction no_os_faults sample_json ''/etc'' ''id'' daemon_flags config_disk of (d, l, c) \<Rightarrow> c \<noteq> None"
  by code_simp

lemma daemon_file: "case client_LoadConfig no_os_faults sample_json ''/etc'' ''id'' ''/etc/sl.json'' config_disk of (d, cfg, r) \<Rightarrow> cf_Socket cfg = ''/s''"
  by code_simp

lemma daemon_proxies: "map_of (rev (given_proxies [''p,https,h'', ''bad''])) ''p'' = Some \<lparr>px_Protocol = ''https'', px_Address = ''h'', px_Username = [], px_Password = []\<rparr>"
  by code_simp

theorem daemon_options_override_witness:
  "\<exists>d' level c. daemon_DefaultAction no_os_faults sample_json ''/etc'' ''id'' daemon_flags config_disk = (d', level, Some c) \<and>
    cf_FileSystemRoot (cl_cfg c) = ''/data'' \<and> cf_Socket (cl_cfg c) = ''/s'' \<and>
    map_of (cf_Proxies (cl_cfg c)) ''p'' = Some \<lparr>px_Protocol = ''https'', px_Address = ''h'', px_Username = [], px_Password = []\<rparr>"
proof -
  obtain d' level c where run: "daemon_DefaultAction no_os_faults sample_json ''/etc'' ''id'' daemon_flags config_disk = (d', level, Some c)"
    using daemon_started by (auto split: prod.splits)
  have flags: "cx_String daemon_flags ''config'' = ''/etc/sl.json''" "given daemon_flags ''fs-root'' v = ''/data''" "given daemon_flags ''socket'' v = v"
    "cx_StringSlice daemon_flags ''proxy'' = [''p,https,h'', ''bad'']" for v
    by (simp_all add: daemon_flags_def given_def)
  obtain d1 cfg p ne where l: "client_LoadConfig no_os_faults sample_json ''/etc'' ''id'' ''/etc/sl.json'' config_disk = (d1, cfg, p, ne, None)"
    and c: "cl_cfg c = cfg\<lparr>cf_LogLevel := given daemon_flags ''log-level'' (cf_LogLevel cfg), cf_ClientId := given daemon_flags ''id'' (cf_ClientId cfg),
      cf_Metadata := given daemon_flags ''metadata'' (cf_Metadata cfg), cf_Socket := cf_Socket cfg,
      cf_FileSystemRoot := ''/data'', cf_DefaultProxy := given daemon_flags ''default'' (cf_DefaultProxy cfg),
      cf_Proxies := cf_Proxies (cl_cfg c)\<rparr>"
    and p: "map_of (cf_Proxies (cl_cfg c)) = map_of (cf_Proxies cfg) ++ map_of (rev (given_proxies [''p,https,h'', ''bad'']))"
    using daemon_options_override [OF run, unfolded flags] by (elim exE conjE) (rule that)
  have "cf_Socket cfg = ''/s''" using daemon_file l by simp
  moreover have "cf_FileSystemRoot (cl_cfg c) = ''/data''" "cf_Socket (cl_cfg c) = cf_Socket cfg" by (subst c, simp)+
  moreover have "map_of (cf_Proxies (cl_cfg c)) ''p'' = Some \<lparr>px_Protocol = ''https'', px_Address = ''h'', px_Username = [], px_Password = []\<rparr>"
    unfolding p using daemon_proxies by (simp add: map_add_def)
  ultimately show ?thesis using run by (intro exI [of _ d'] exI [of _ level] exI [of _ c]) simp
qed

end
