(* ===== verification/Pull_Delivers.thy ===== *)
theory Pull_Delivers
  imports Client_Pull Client_Ready Delta_Protocol
begin

text \<open>
  A pull from end to end: what the proxy writes for a builder reaches the files of the client. The header is read
  and stored, the manager is made, the directories and snapshots are prepared, and the contents are extracted.
\<close>

section \<open>Managers of the same image\<close>

definition same_image :: "manager \<Rightarrow> manager \<Rightarrow> bool" where
  "same_image m m' \<longleftrightarrow> mg_dest_layers m' = mg_dest_layers m \<and> length (mg_contents m') = length (mg_contents m) \<and>
     (\<forall>j < length (mg_contents m). same_content (mg_contents m ! j) (mg_contents m' ! j))"

lemma same_imageD:
  assumes "same_image m m'"
  shows "mg_dest_layers m' = mg_dest_layers m" "length (mg_contents m') = length (mg_contents m)"
    "j < length (mg_contents m) \<Longrightarrow> rc_Stack (mg_contents m' ! j) = rc_Stack (mg_contents m ! j)"
    "j < length (mg_contents m) \<Longrightarrow> rc_Digest (mg_contents m' ! j) = rc_Digest (mg_contents m ! j)"
    "j < length (mg_contents m) \<Longrightarrow> rc_Chunks (mg_contents m' ! j) = rc_Chunks (mg_contents m ! j)"
    "j < length (mg_contents m) \<Longrightarrow> total_compressed (mg_contents m' ! j) = total_compressed (mg_contents m ! j)"
  using assms by (auto simp: same_image_def same_content_def total_compressed_def)

lemma same_image_offset:
  assumes "same_image m m'"
  shows "body_offset m' i = body_offset m i"
proof -
  note s = same_imageD [OF assms]
  have "map (\<lambda>c. nat (total_compressed c)) (mg_contents m') = map (\<lambda>c. nat (total_compressed c)) (mg_contents m)"
    by (rule nth_equalityI) (simp_all add: s(2,6))
  then show ?thesis by (simp add: body_offset_def take_map [symmetric])
qed

lemma same_image_content:
  assumes "same_image m m'" "i < length (mg_contents m)"
  shows "content_comps rs m' i = content_comps rs m i" "content_data gz m' body i = content_data gz m body i"
  using same_imageD [OF assms(1)] assms(2) by (simp_all add: content_comps_def content_data_def same_image_offset [OF assms(1)])

lemma same_image_room: "same_image m m' \<Longrightarrow> fresh_room rs lm m d \<Longrightarrow> fresh_room rs lm m' d"
  using same_imageD(1,2) [of m m'] same_image_content(1) [of m m'] unfolding fresh_room_def by simp

lemma same_image_readable:
  assumes "same_image m m'" "body_readable gz m body" "mg_completedStack m' = mg_completedStack m"
  shows "body_readable gz m' body"
proof -
  note s = same_imageD [OF assms(1)]
  have "completed m' i = completed m i" if "i < length (mg_contents m)" for i using s(3) [OF that] assms(3) by (simp add: completed_def)
  then show ?thesis using assms(2) s unfolding body_readable_def same_image_offset [OF assms(1)] by simp
qed

text \<open>The fields that preparing an image changes.\<close>

definition prepared :: "manager \<Rightarrow> bool list \<Rightarrow> manager \<Rightarrow> bool" where
  "prepared m cs m' \<longleftrightarrow> (\<exists>tr fs. m' = m\<lparr>mg_completedStack := cs, mg_tracer := tr, mg_fs := fs\<rparr>)"

lemma prepared_layout:
  assumes "prepared m cs m'" "image_layout rs m"
  shows "image_layout rs m'"
proof -
  obtain tr fs where m': "m' = m\<lparr>mg_completedStack := cs, mg_tracer := tr, mg_fs := fs\<rparr>" using assms(1) by (auto simp: prepared_def)
  show ?thesis using assms(2) unfolding image_layout_def m' by (simp add: GetPathBySerial_def)
qed

lemma prepared_fields:
  assumes "prepared m cs m'"
  shows "same_image m m'" "mg_contents m' = mg_contents m" "mg_completedStack m' = cs" "mg_dest_layers m' = mg_dest_layers m"
    "mg_stackSerialMap m' = mg_stackSerialMap m" "mg_layers m' = mg_layers m" "mg_DiffIDs m' = mg_DiffIDs m"
  using assms by (auto simp: prepared_def same_image_def same_content_def)

lemma prepared_trans: "prepared m cs m' \<Longrightarrow> prepared m' cs' m'' \<Longrightarrow> prepared m cs' m''"
  unfolding prepared_def by (elim exE, intro exI) simp

lemma prepared_disk:
  assumes "prepared m cs m'"
  shows "disk_room rs m' d = disk_room rs m d"
  using prepared_fields(2,4) [OF assms] by (simp add: disk_room_def content_comps_def)

section \<open>Services that work\<close>

text \<open>containerd takes what it is given.\<close>

definition containerd_works :: "'ct containerd \<Rightarrow> bool" where
  "containerd_works ctr \<longleftrightarrow> (\<forall>d t ls ct. is_ok (snd (ct_WriteBlob ctr d t ls ct))) \<and> (\<forall>i ct. is_ok (snd (ct_Create ctr i ct))) \<and>
     (\<forall>i f ct. is_ok (snd (ct_Update ctr i f ct))) \<and> (\<forall>d ct. is_ok (ct_Info ctr d ct)) \<and> (\<forall>d ls ct. is_ok (snd (ct_UpdateInfo ctr d ls ct)))"

lemma ok_pair: "is_ok (snd p) \<Longrightarrow> \<exists>s v. p = (s, Inr v)"
  by (cases p) (auto simp: is_ok_def split: sum.splits)

lemma containerd_worksD:
  assumes "containerd_works ctr"
  shows "is_ok (snd (ct_WriteBlob ctr d t ls ct))" "\<exists>ct' img. ct_Create ctr i ct = (ct', Inr img)" "\<exists>ct' img. ct_Update ctr i f ct = (ct', Inr img)"
    "\<exists>ls. ct_Info ctr d ct = Inr ls" "\<exists>ct' u. ct_UpdateInfo ctr d ls ct = (ct', Inr u)"
proof -
  have *: "\<forall>d t ls ct. is_ok (snd (ct_WriteBlob ctr d t ls ct))" "\<forall>i ct. is_ok (snd (ct_Create ctr i ct))"
     "\<forall>i f ct. is_ok (snd (ct_Update ctr i f ct))" "\<forall>d ct. is_ok (ct_Info ctr d ct)" "\<forall>d ls ct. is_ok (snd (ct_UpdateInfo ctr d ls ct))"
    using assms unfolding containerd_works_def by blast+
  show "is_ok (snd (ct_WriteBlob ctr d t ls ct))" using *(1) by blast
  show "\<exists>ct' img. ct_Create ctr i ct = (ct', Inr img)" using *(2) by (intro ok_pair) blast
  show "\<exists>ct' img. ct_Update ctr i f ct = (ct', Inr img)" using *(3) by (intro ok_pair) blast
  show "\<exists>ls. ct_Info ctr d ct = Inr ls" using spec [OF spec [OF *(4)], of d ct] by (auto simp: is_ok_def split: sum.splits)
  show "\<exists>ct' u. ct_UpdateInfo ctr d ls ct = (ct', Inr u)" using *(5) by (intro ok_pair) blast
qed

text \<open>Adding a snapshot succeeds, and leaves the manager and the room for its image alone; it may mount it.\<close>

definition undisturbed :: "nat \<Rightarrow> 'ct world \<Rightarrow> 'ct world \<Rightarrow> bool" where
  "undisturbed i w w' \<longleftrightarrow> (i < length (cl_managers (fst (fst w))) \<longrightarrow> i < length (cl_managers (fst (fst w'))) \<and>
       prepared (cl_managers (fst (fst w)) ! i) (mg_completedStack (cl_managers (fst (fst w)) ! i)) (cl_managers (fst (fst w')) ! i)) \<and>
     (\<forall>rs m. disk_room rs m (ho_disk (snd w)) \<longrightarrow> disk_room rs m (ho_disk (snd w')))"

definition snapshots_work :: "nat \<Rightarrow> 'ct world snapshot_service \<Rightarrow> bool" where
  "snapshots_work i sn \<longleftrightarrow> (\<forall>randId nam parent dg d stack w. is_ok (snd (AddSnapshot sn randId nam parent dg d stack w)) \<and>
     undisturbed i w (fst (AddSnapshot sn randId nam parent dg d stack w)))"

lemma prepared_refl [simp]: "prepared m (mg_completedStack m) m"
  unfolding prepared_def by (intro exI [of _ "mg_tracer m"] exI [of _ "mg_fs m"]) simp

lemma undisturbed_refl: "undisturbed i w w"
  by (simp add: undisturbed_def)

lemma undisturbed_trans:
  assumes "undisturbed i w w'" "undisturbed i w' w''"
  shows "undisturbed i w w''"
  unfolding undisturbed_def
proof (intro conjI impI allI)
  assume i: "i < length (cl_managers (fst (fst w)))"
  then have a: "i < length (cl_managers (fst (fst w')))"
    "prepared (cl_managers (fst (fst w)) ! i) (mg_completedStack (cl_managers (fst (fst w)) ! i)) (cl_managers (fst (fst w')) ! i)"
    using assms(1) by (simp_all add: undisturbed_def)
  then have b: "i < length (cl_managers (fst (fst w'')))"
    "prepared (cl_managers (fst (fst w')) ! i) (mg_completedStack (cl_managers (fst (fst w')) ! i)) (cl_managers (fst (fst w'')) ! i)"
    using assms(2) by (simp_all add: undisturbed_def)
  show "i < length (cl_managers (fst (fst w'')))" by (fact b(1))
  show "prepared (cl_managers (fst (fst w)) ! i) (mg_completedStack (cl_managers (fst (fst w)) ! i)) (cl_managers (fst (fst w'')) ! i)"
    using prepared_trans [OF a(2) b(2)] prepared_fields(3) [OF a(2)] by simp
qed (use assms in \<open>simp add: undisturbed_def\<close>)

lemma link_mount_point_managers [simp]: "cl_managers (link_mount_point i stack d c) = cl_managers c"
  by (simp add: link_mount_point_def set_mount_point_def split: option.splits)

lemma create_snapshots_run:
  assumes sn: "snapshots_work i sn" and i: "i < length (cl_managers (fst (fst w)))"
    and len: "idx + length chs \<le> length (mg_stackSerialMap (cl_managers (fst (fst w)) ! i))"
    and layers: "\<forall>s \<in> set (mg_stackSerialMap (cl_managers (fst (fst w)) ! i)). map_of (mg_layers (cl_managers (fst (fst w)) ! i)) s \<noteq> None"
  shows "\<exists>w'. create_snapshots sn randId i idx prev chs w = (w', Inr ()) \<and> undisturbed i w w'"
  using i len layers
proof (induction chs arbitrary: idx prev w)
  case Nil
  then show ?case by (simp add: undisturbed_refl)
next
  case (Cons chain chs)
  obtain c ct h where w: "w = ((c, ct), h)" by (cases w) auto
  let ?m = "cl_managers c ! i"
  have idx: "idx < length (mg_stackSerialMap ?m)" and len: "Suc idx + length chs \<le> length (mg_stackSerialMap ?m)" using Cons.prems(2) by (simp_all add: w)
  then obtain l where l: "map_of (mg_layers ?m) (mg_stackSerialMap ?m ! idx) = Some l"
    using bspec [OF Cons.prems(3), of "mg_stackSerialMap ?m ! idx"] nth_mem [OF idx] by (auto simp: w)
  let ?w = "((link_mount_point i (int idx) (rl_Hash l) c, ct), h)"
  obtain w1 info where w1: "AddSnapshot sn (randId idx) chain prev (mg_manifestDigest ?m) (rl_Hash l) (int idx) ?w = (w1, Inr info)"
    and u: "undisturbed i ?w w1"
    using sn ok_pair [of "AddSnapshot sn (randId idx) chain prev (mg_manifestDigest ?m) (rl_Hash l) (int idx) ?w"]
    unfolding snapshots_work_def by (metis fst_conv)
  have same: "undisturbed i w w1" using u by (simp add: w undisturbed_def)
  then have i1: "i < length (cl_managers (fst (fst w1)))" "prepared ?m (mg_completedStack ?m) (cl_managers (fst (fst w1)) ! i)"
    using Cons.prems(1) by (simp_all add: undisturbed_def w)
  note f = prepared_fields(5,6) [OF i1(2)]
  obtain w' where w': "create_snapshots sn randId i (Suc idx) chain chs w1 = (w', Inr ())" "undisturbed i w1 w'"
    using Cons.IH [OF i1(1), of "Suc idx" chain] len Cons.prems(3) by (auto simp: f w)
  have "create_snapshots sn randId i idx prev (chain # chs) w = (w', Inr ())"
    using idx l w1 w'(1) by (simp add: w at_index_def layer_hash_def Let_def)
  then show ?case using undisturbed_trans [OF same w'(2)] by blast
qed

section \<open>Reading the header\<close>

lemma take_stream_run:
  assumes "readBody body sz = Inr (buf, rest)" "handle buf = Inr (v, text)" "\<forall>ct. is_ok (snd (store v text ct))"
  shows "\<exists>ct'. take_stream baseRef what body sz handle store ((c, ct), h) = (((c, ct'), h), Inr (v, text, rest))"
proof -
  obtain ct' u where "store v text ct = (ct', Inr u)" using spec [OF assms(3), of ct] by (cases "store v text ct") (auto simp: is_ok_def split: sum.splits)
  then show ?thesis using assms(1,2) by (simp add: take_stream_def)
qed

lemma store_blob_ok:
  assumes "containerd_works ctr"
  shows "is_ok (snd (store_blob ctr what d text labels ct))"
  using ok_pair [OF containerd_worksD(1) [OF assms, of d "text" labels ct]] by (auto simp: store_blob_def)

lemma receive_header_run:
  assumes ctr: "containerd_works ctr"
    and "readBody body (dm_ManifestSize res) = Inr (z1, r1)" "handleManifest cd (ce_manifest ce) z1 = Inr (vm, man)"
    and "readBody r1 (dm_ConfigSize res) = Inr (z2, r2)" "handleConfig cd (ce_config ce) z2 = Inr (diffIDs, con)"
    and "readBody r2 (dm_StarlightHeaderSize res) = Inr (z3, rest)" "handleStarlightHeader cd (ce_bundle ce) z3 = Inr (star, sta)"
  shows "\<exists>ct' img res1. receive_header ce cd ctr pcn baseRef ref body res ((c, ct), h) = (((c, ct'), h), Inr (img, res1, diffIDs, star, rest)) \<and>
    dm_Digest res1 = dm_Digest res"
proof -
  let ?s1 = "\<lambda>m. storeManifest ctr pcn (dm_Digest res) ref (vm_Config m) (dm_StarlightDigest res)"
  let ?s2 = "\<lambda>_. storeConfig ctr pcn ref (vm_Config vm)" and ?s3 = "\<lambda>_. storeStarlightHeader ctr pcn ref (dm_StarlightDigest res)"
  obtain ct1 where t1: "take_stream baseRef ''manifest'' body (dm_ManifestSize res) (handleManifest cd (ce_manifest ce))
      ?s1 ((c, ct), h) = (((c, ct1), h), Inr (vm, man, r1))"
    using take_stream_run [where handle = "handleManifest cd (ce_manifest ce)" and store = ?s1, OF assms(2,3)]
      store_blob_ok [OF ctr] unfolding storeManifest_def by blast
  obtain ct2 where t2: "take_stream baseRef ''config'' r1 (dm_ConfigSize res) (handleConfig cd (ce_config ce))
      ?s2 ((c, ct1), h) = (((c, ct2), h), Inr (diffIDs, con, r2))"
    using take_stream_run [where handle = "handleConfig cd (ce_config ce)" and store = ?s2, OF assms(4,5)]
      store_blob_ok [OF ctr] unfolding storeConfig_def by blast
  obtain ct3 where t3: "take_stream baseRef ''starlight header'' r2 (dm_StarlightHeaderSize res) (handleStarlightHeader cd (ce_bundle ce))
      ?s3 ((c, ct2), h) = (((c, ct3), h), Inr (star, sta, rest))"
    using take_stream_run [where handle = "handleStarlightHeader cd (ce_bundle ce)" and store = ?s3, OF assms(6,7)]
      store_blob_ok [OF ctr] unfolding storeStarlightHeader_def by blast
  let ?img = "\<lparr>ci_Name = ref, ci_Digest = dm_Digest res, ci_Size = int (length man),
             ci_Labels = [(ImageLabelPuller, ''starlight''), (ImageLabelStarlightMetadata, dm_StarlightDigest res)], ci_CreatedAt = ce_now ce\<rparr>"
  obtain ct4 img where "ct_Create ctr ?img ct3 = (ct4, Inr img)" using containerd_worksD(2) [OF ctr] by blast
  then show ?thesis
    using t1 t2 t3 by (intro exI [of _ ct4] exI [of _ img] exI [of _ "original_length res vm"]) (simp add: receive_header_def original_length_def)
qed

section \<open>Preparing the image\<close>

lemma default_optimizer_run:
  assumes "ce_open_log ce = None" "i < length (cl_managers c)"
  shows "\<exists>c'. default_optimizer ce i c = (c', Inr ()) \<and> cl_layerMap c' = cl_layerMap c \<and> length (cl_managers c') = length (cl_managers c) \<and>
    prepared (cl_managers c ! i) (mg_completedStack (cl_managers c ! i)) (cl_managers c' ! i)"
proof (cases "cl_defaultOptimizer c \<and> mg_tracer (cl_managers c ! i) = None")
  case False
  have "(cl_managers c)[i := cl_managers c ! i] = cl_managers c" by simp
  then show ?thesis using False by (intro exI [of _ c]) (auto simp: default_optimizer_def SetOptimizerOn_def set_manager_def)
next
  case True
  let ?m = "cl_managers c ! i"
  let ?t = "NewTracer (cl_defaultOptimizeGroup c) (mg_manifestDigest ?m) (ce_now ce)"
  have "prepared ?m (mg_completedStack ?m) (?m\<lparr>mg_tracer := Some ?t\<rparr>)"
    unfolding prepared_def by (intro exI [of _ "Some ?t"] exI [of _ "mg_fs ?m"]) simp
  then show ?thesis using assms True
    by (intro exI [of _ "set_manager i (?m\<lparr>mg_tracer := Some ?t\<rparr>) c"]) (simp add: default_optimizer_def SetOptimizerOn_def set_manager_def Let_def)
qed

lemma prepare_image_run:
  assumes env: "en_os (ce_env ce) = no_os_faults" "ce_open_log ce = None" and sn: "snapshots_work i sn"
    and i: "i < length (cl_managers c)" and lay: "image_layout rs (cl_managers c ! i)"
    and fresh: "fresh_room rs (map_of (cl_layerMap c)) (cl_managers c ! i) (ho_disk h)"
    and len: "length (ce_ChainIDs ce (mg_DiffIDs (cl_managers c ! i))) \<le> length (mg_dest_layers (cl_managers c ! i))"
  shows "\<exists>c' ct' h' chainIds. prepare_image ce sn baseRef i ((c, ct), h) = (((c', ct'), h'), Inr chainIds) \<and> i < length (cl_managers c') \<and>
    prepared (cl_managers c ! i) (map (\<lambda>l. map_of (cl_layerMap c) (rl_Hash l) \<noteq> None) (mg_dest_layers (cl_managers c ! i))) (cl_managers c' ! i) \<and>
    disk_room rs (cl_managers c' ! i) (ho_disk h')"
proof -
  let ?m = "cl_managers c ! i"
  let ?lm = "map_of (cl_layerMap c)"
  obtain c1 where c1: "default_optimizer ce i c = (c1, Inr ())" "cl_layerMap c1 = cl_layerMap c" "length (cl_managers c1) = length (cl_managers c)"
    "prepared ?m (mg_completedStack ?m) (cl_managers c1 ! i)" using default_optimizer_run [OF env(2) i] by blast
  note p1 = prepared_fields [OF c1(4)]
  let ?cs = "map (\<lambda>l. ?lm (rl_Hash l) \<noteq> None) (mg_dest_layers ?m)"
  have lay1: "image_layout rs (cl_managers c1 ! i)" by (rule prepared_layout [OF c1(4) lay])
  obtain d2 where d2: "PrepareDirectories no_os_faults ?lm (cl_managers c1 ! i) (ho_disk h) = (((cl_managers c1 ! i)\<lparr>mg_completedStack := ?cs\<rparr>, d2), Inr ())"
    "disk_room rs (cl_managers c1 ! i) d2"
    using PrepareDirectories_run [OF lay1 same_image_room [OF p1(1) fresh]] unfolding p1(4) by blast
  let ?m2 = "(cl_managers c1 ! i)\<lparr>mg_completedStack := ?cs\<rparr>"
  let ?c2 = "set_manager i ?m2 c1" and ?h2 = "h\<lparr>ho_disk := d2\<rparr>"
  have "prepared (cl_managers c1 ! i) ?cs ?m2" unfolding prepared_def by (intro exI [of _ "mg_tracer (cl_managers c1 ! i)"] exI [of _ "mg_fs (cl_managers c1 ! i)"]) simp
  then have m2: "prepared ?m ?cs ?m2" by (rule prepared_trans [OF c1(4)])
  note p2 = prepared_fields [OF m2]
  have i2: "i < length (cl_managers ?c2)" "cl_managers ?c2 ! i = ?m2" using i c1(3) by (simp_all add: set_manager_def)
  have serials: "mg_stackSerialMap ?m = map rl_Serial (mg_dest_layers ?m)" "\<forall>l \<in> set (mg_dest_layers ?m). GetPathBySerial ?m (rl_Serial l) = Inr (rl_Local l)"
    using lay by (simp_all add: image_layout_def)
  have "map_of (mg_layers ?m) s \<noteq> None" if "s \<in> set (mg_stackSerialMap ?m)" for s
    using that serials by (auto simp: GetPathBySerial_def split: option.splits)
  then have ex: "\<forall>s \<in> set (mg_stackSerialMap ?m2). map_of (mg_layers ?m2) s \<noteq> None" unfolding p2(5,6) by blast
  have chs: "0 + length (ce_ChainIDs ce (mg_DiffIDs ?m2)) \<le> length (mg_stackSerialMap ?m2)" using len unfolding p2(5,7) serials(1) by simp
  obtain w3 where w3: "create_snapshots sn (ce_randId ce) i 0 [] (ce_ChainIDs ce (mg_DiffIDs ?m2)) ((?c2, ct), ?h2) = (w3, Inr ())" "undisturbed i ((?c2, ct), ?h2) w3"
    using create_snapshots_run [OF sn, of "((?c2, ct), ?h2)" 0 "ce_ChainIDs ce (mg_DiffIDs ?m2)" "ce_randId ce" "[]"] i2 chs ex by auto
  obtain c3 ct3 h3 where w: "w3 = ((c3, ct3), h3)" by (cases w3) auto
  have u: "i < length (cl_managers c3)" "prepared ?m2 (mg_completedStack ?m2) (cl_managers c3 ! i)" "disk_room rs (cl_managers c1 ! i) (ho_disk h3)"
    using w3(2) i2 d2(2) by (simp_all add: undisturbed_def w)
  have m3: "prepared ?m ?cs (cl_managers c3 ! i)" using prepared_trans [OF m2 u(2)] p2(3) by simp
  have "disk_room rs (cl_managers c3 ! i) (ho_disk h3)" using u(3) unfolding prepared_disk [OF m3] prepared_disk [OF c1(4)] .
  moreover have "prepare_image ce sn baseRef i ((c, ct), h) = (((c3, ct3), h3), Inr (ce_ChainIDs ce (mg_DiffIDs ?m2)))"
    using c1(1,2) d2(1) w3(1) i2(2) by (simp add: prepare_image_def CreateSnapshots_def env(1) Let_def w)
  ultimately show ?thesis using u(1) m3 by blast
qed

section \<open>Extracting the contents\<close>

lemma finish_image_run:
  assumes env: "en_os (ce_env ce) = no_os_faults" and ctr: "containerd_works ctr" and i: "i < length (cl_managers c)"
    and lay: "image_layout rs (cl_managers c ! i)" and room: "disk_room rs (cl_managers c ! i) (ho_disk h)"
    and len: "length (mg_completedStack (cl_managers c ! i)) = length (mg_dest_layers (cl_managers c ! i))"
    and good: "body_readable gz (cl_managers c ! i) body"
    and sig: "\<forall>k < length (mg_contents (cl_managers c ! i)). rc_Signal (mg_contents (cl_managers c ! i) ! k) = OpenChan"
  shows "\<exists>c' ct' h' msg. finish_image ce gz stamp ctr baseRef img res chainIds i body ((c, ct), h) = (((c', ct'), h'), [msg], Inr ()) \<and> pm_err msg = None \<and>
    (\<forall>k < length (mg_contents (cl_managers c ! i)). completed (cl_managers c ! i) k \<or>
       (\<exists>path. content_file (cl_managers c ! i) (mg_contents (cl_managers c ! i) ! k) = Inr path \<and>
          file_at (ho_disk h') path = Some (content_data gz (cl_managers c ! i) body k))) \<and>
    (\<forall>l \<in> set (mg_dest_layers (cl_managers c ! i)). file_at (ho_disk h') (mark_file l) = Some stamp)"
proof -
  obtain m' d' s' where ex: "Extract no_os_faults gz stamp (cl_managers c ! i) (ho_disk h) (Some (body, None)) = ((m', d', s'), Inr ())"
    and stored: "\<forall>k < length (mg_contents (cl_managers c ! i)). completed (cl_managers c ! i) k \<or>
       (\<exists>path. content_file (cl_managers c ! i) (mg_contents (cl_managers c ! i) ! k) = Inr path \<and>
          file_at d' path = Some (content_data gz (cl_managers c ! i) body k))"
    and marks: "\<forall>l \<in> set (mg_dest_layers (cl_managers c ! i)). file_at d' (mark_file l) = Some stamp"
    using Extract_stored [OF lay room len good sig, of stamp None] by (elim exE conjE) (rule that)
  let ?img = "img\<lparr>ci_Labels := AList.update ContentLabelCompletion (ce_rfc3339 ce) (ci_Labels img)\<rparr>"
  obtain ct1 img2 where ct1: "ct_Update ctr ?img (''labels.'' @ ContentLabelCompletion) ct = (ct1, Inr img2)"
    using containerd_worksD(3) [OF ctr] by blast
  obtain ls where ls: "ct_Info ctr (dm_Digest res) ct1 = Inr ls" using containerd_worksD(4) [OF ctr] by blast
  obtain ct2 u where ct2: "ct_UpdateInfo ctr (dm_Digest res) (gc_labels chainIds (AList.update ContentLabelCompletion (ce_rfc3339 ce) ls)) ct1 = (ct2, Inr u)"
    using containerd_worksD(5) [OF ctr] by blast
  have "finish_image ce gz stamp ctr baseRef img res chainIds i body ((c, ct), h) =
      (((set_manager i m' c, ct2), h\<lparr>ho_disk := d'\<rparr>), [\<lparr>pm_img = Some img2, pm_meta = Some res, pm_base = baseRef, pm_err = None\<rparr>], Inr ())"
    using ex ct1 ls ct2 by (simp add: finish_image_def env updateManifest_def Let_def)
  then show ?thesis using stored marks by (intro exI conjI) (assumption | simp)+
qed

section \<open>The whole pull\<close>

text \<open>The image that a bundle describes, with the directories of its layers below \<open>rs\<close>; \<open>present\<close> are the layers of the client.\<close>

definition bundle_manager :: "string list \<Rightarrow> (string \<Rightarrow> bool) \<Rightarrow> rbundle \<Rightarrow> manager" where
  "bundle_manager rs present b = (unmarshal_manager (b\<lparr>rb_Destination := (rb_Destination b)\<lparr>ri_Layers := map (located rs) (ri_Layers (rb_Destination b))\<rparr>\<rparr>))
     \<lparr>mg_completedStack := map (\<lambda>l. present (rl_Hash l)) (ri_Layers (rb_Destination b))\<rparr>"

lemma bundle_manager_simps [simp]: "mg_dest_layers (bundle_manager rs present b) = map (located rs) (ri_Layers (rb_Destination b))"
    "mg_contents (bundle_manager rs present b) = rb_Contents b"
    "mg_completedStack (bundle_manager rs present b) = map (\<lambda>l. present (rl_Hash l)) (ri_Layers (rb_Destination b))"
  by (simp_all add: bundle_manager_def unmarshal_manager_def)

text \<open>What is on the disk after a pull.\<close>

definition delivered :: "string list \<Rightarrow> (string \<Rightarrow> bool) \<Rightarrow> gunzip \<Rightarrow> byte list \<Rightarrow> byte list \<Rightarrow> rbundle \<Rightarrow> disk \<Rightarrow> bool" where
  "delivered rs present gz stamp body b d \<longleftrightarrow>
     (\<forall>k < length (rb_Contents b). present (rl_Hash (ri_Layers (rb_Destination b) ! nat (rc_Stack (rb_Contents b ! k)))) \<or>
        file_at d (abs_path (content_comps rs (bundle_manager rs present b) k)) = Some (content_data gz (bundle_manager rs present b) body k)) \<and>
     (\<forall>l \<in> set (ri_Layers (rb_Destination b)). file_at d (abs_path (layer_comps rs l @ [''completed.json''])) = Some stamp)"

lemma finish_delivers:
  assumes lay: "image_layout rs m" and same: "same_image (bundle_manager rs present b) m" and len: "mg_completedStack m = mg_completedStack (bundle_manager rs present b)"
    and stored: "\<forall>k < length (mg_contents m). completed m k \<or>
       (\<exists>path. content_file m (mg_contents m ! k) = Inr path \<and> file_at d path = Some (content_data gz m body k))"
    and marks: "\<forall>l \<in> set (mg_dest_layers m). file_at d (mark_file l) = Some stamp"
  shows "delivered rs present gz stamp body b d"
  unfolding delivered_def
proof (intro conjI allI impI ballI)
  note s = same_imageD [OF same, simplified]
  fix k assume k: "k < length (rb_Contents b)"
  then have km: "k < length (mg_contents m)" by (simp add: s(2))
  note c = image_layout_content [OF lay km]
  have n: "nat (rc_Stack (mg_contents m ! k)) < length (ri_Layers (rb_Destination b))" using c(6,7) by (simp add: s(1))
  have "completed m k = present (rl_Hash (ri_Layers (rb_Destination b) ! nat (rc_Stack (rb_Contents b ! k))))"
    using n s(3) [OF k] by (simp add: completed_def len)
  moreover have "content_file m (mg_contents m ! k) = Inr (abs_path (content_comps rs (bundle_manager rs present b) k))"
    using content_file_layout [OF lay km] same_image_content(1) [OF same, of k rs] k by simp
  moreover have "content_data gz m body k = content_data gz (bundle_manager rs present b) body k"
    using same_image_content(2) [OF same, of k gz body] k by simp
  ultimately show "present (rl_Hash (ri_Layers (rb_Destination b) ! nat (rc_Stack (rb_Contents b ! k)))) \<or>
        file_at d (abs_path (content_comps rs (bundle_manager rs present b) k)) = Some (content_data gz (bundle_manager rs present b) body k)"
    using stored km by auto
next
  fix l assume "l \<in> set (ri_Layers (rb_Destination b))"
  then have l: "located rs l \<in> set (mg_dest_layers m)" using same_imageD(1) [OF same] by simp
  then show "file_at d (abs_path (layer_comps rs l @ [''completed.json''])) = Some stamp"
    using marks mark_file_layout(1) [OF lay l] by auto
qed

lemma Init_DiffIDs:
  assumes "Init address ptime iter fsroot traces ready dfs dg m = Inr m'"
  shows "mg_DiffIDs m' = dfs"
proof -
  obtain m2 where m2: "init_layers (m\<lparr>mg_FileSystemRoot := fsroot, mg_TracesDir := traces, mg_layers := [], mg_stackSerialMap := [], mg_fs := [],
       mg_DiffIDs := dfs, mg_manifestDigest := dg\<rparr>) = Inr m2" and m': "mg_DiffIDs m' = mg_DiffIDs m2"
    by (rule Init_Inr [OF assms]) (erule that, erule ssubst, simp)
  have "mg_DiffIDs m2 = mg_DiffIDs m1" if "init_layers m1 = Inr m2" for m1
    using that by (auto simp: init_layers_def Let_def split: sum.splits option.splits)
  from this [OF m2] m' show ?thesis by simp
qed

text \<open>The client below \<open>rs\<close>, with services that work.\<close>

definition client_ready :: "'ct client_env \<Rightarrow> 'ct containerd \<Rightarrow> 'ct world snapshot_service \<Rightarrow> string list \<Rightarrow> client \<Rightarrow> bool" where
  "client_ready ce ctr sn rs c \<longleftrightarrow> en_os (ce_env ce) = no_os_faults \<and> ce_open_log ce = None \<and> containerd_works ctr \<and>
     snapshots_work (length (cl_managers c)) sn \<and> cf_FileSystemRoot (cl_cfg c) = abs_path rs \<and> rs \<noteq> [] \<and> (\<forall>x \<in> set rs. normal_comp x)"

text \<open>A bundle that is well formed, whose contents can be read from the body, and for which there is room.\<close>

definition bundle_fits :: "'ct client_env \<Rightarrow> string list \<Rightarrow> (string \<rightharpoonup> mount_point) \<Rightarrow> gunzip \<Rightarrow> string list \<Rightarrow> byte list \<Rightarrow> rbundle \<Rightarrow> disk \<Rightarrow> bool" where
  "bundle_fits ce rs lm gz diffIDs body b d \<longleftrightarrow> bundle_ok b \<and> length (ce_ChainIDs ce diffIDs) \<le> length (ri_Layers (rb_Destination b)) \<and>
     fresh_room rs lm (bundle_manager rs (\<lambda>x. lm x \<noteq> None) b) d \<and> body_readable gz (bundle_manager rs (\<lambda>x. lm x \<noteq> None) b) body"

text \<open>From the manager that is made to the files on the disk.\<close>

lemma extract_delivers:
  assumes ready: "client_ready ce ctr sn rs c" and fits: "bundle_fits ce rs (map_of (cl_layerMap c)) gz diffIDs body star (ho_disk h)"
    and init: "init_manager ce c False diffIDs dg star = Inr m" and c1: "cl_layerMap c1 = cl_layerMap c" "cl_managers c1 = cl_managers c @ [m]"
  shows "\<exists>w chainIds c' ct' h' msg. prepare_image ce sn baseRef (length (cl_managers c)) ((c1, ct), h) = (w, Inr chainIds) \<and>
    finish_image ce gz stamp ctr baseRef img res chainIds (length (cl_managers c)) body w = (((c', ct'), h'), [msg], Inr ()) \<and> pm_err msg = None \<and>
    delivered rs (\<lambda>x. map_of (cl_layerMap c) x \<noteq> None) gz stamp body star (ho_disk h')"
proof -
  let ?i = "length (cl_managers c)" and ?lm = "map_of (cl_layerMap c)"
  let ?bm = "bundle_manager rs (\<lambda>x. ?lm x \<noteq> None) star"
  have env: "en_os (ce_env ce) = no_os_faults" "ce_open_log ce = None" and ctr: "containerd_works ctr" and sn: "snapshots_work ?i sn"
    and rs: "cf_FileSystemRoot (cl_cfg c) = abs_path rs" "rs \<noteq> []" "\<forall>x \<in> set rs. normal_comp x"
    using ready unfolding client_ready_def by blast+
  have ok: "bundle_ok star" and chs: "length (ce_ChainIDs ce diffIDs) \<le> length (ri_Layers (rb_Destination star))"
    and fresh: "fresh_room rs ?lm ?bm (ho_disk h)" and good: "body_readable gz ?bm body"
    using fits unfolding bundle_fits_def by blast+
  note run = init [unfolded init_manager_def rs(1)]
  note lay = Init_layout [OF run ok rs(2,3)]
  have same: "same_image ?bm m" using lay(2,3,4) by (simp add: same_image_def)
  have i: "?i < length (cl_managers c1)" "cl_managers c1 ! ?i = m" using c1(2) by simp_all
  have len: "length (ce_ChainIDs ce (mg_DiffIDs m)) \<le> length (mg_dest_layers m)" using chs Init_DiffIDs [OF run] lay(2) by simp
  obtain c2 ct2 h2 chainIds where prep: "prepare_image ce sn baseRef ?i ((c1, ct), h) = (((c2, ct2), h2), Inr chainIds)" "?i < length (cl_managers c2)"
    "prepared m (map (\<lambda>l. ?lm (rl_Hash l) \<noteq> None) (mg_dest_layers m)) (cl_managers c2 ! ?i)" "disk_room rs (cl_managers c2 ! ?i) (ho_disk h2)"
    using prepare_image_run [OF env sn i(1), of rs h baseRef ct] lay(1) same_image_room [OF same fresh] len unfolding i(2) c1(1) by blast
  note p = prepared_fields [OF prep(3)]
  have stack: "mg_completedStack (cl_managers c2 ! ?i) = mg_completedStack ?bm" using p(3) lay(2) by simp
  have same2: "same_image ?bm (cl_managers c2 ! ?i)"
    using same p(2,4) by (simp add: same_image_def)
  have lay2: "image_layout rs (cl_managers c2 ! ?i)" by (rule prepared_layout [OF prep(3) lay(1)])
  have sig: "\<forall>k < length (mg_contents (cl_managers c2 ! ?i)). rc_Signal (mg_contents (cl_managers c2 ! ?i) ! k) = OpenChan"
    using lay(3,4) p(2) by simp
  have good2: "body_readable gz (cl_managers c2 ! ?i) body" by (rule same_image_readable [OF same2 good stack])
  have len2: "length (mg_completedStack (cl_managers c2 ! ?i)) = length (mg_dest_layers (cl_managers c2 ! ?i))" using p(3,4) by simp
  obtain c' ct' h' msg where fin: "finish_image ce gz stamp ctr baseRef img res chainIds ?i body ((c2, ct2), h2) = (((c', ct'), h'), [msg], Inr ())" "pm_err msg = None"
    and st: "\<forall>k < length (mg_contents (cl_managers c2 ! ?i)). completed (cl_managers c2 ! ?i) k \<or>
       (\<exists>path. content_file (cl_managers c2 ! ?i) (mg_contents (cl_managers c2 ! ?i) ! k) = Inr path \<and>
          file_at (ho_disk h') path = Some (content_data gz (cl_managers c2 ! ?i) body k))"
    and marks: "\<forall>l \<in> set (mg_dest_layers (cl_managers c2 ! ?i)). file_at (ho_disk h') (mark_file l) = Some stamp"
    using finish_image_run [OF env(1) ctr prep(2) lay2 prep(4) len2 good2 sig, of stamp baseRef img res chainIds ct2] by (elim exE conjE) (rule that)
  have "delivered rs (\<lambda>x. ?lm x \<noteq> None) gz stamp body star (ho_disk h')" by (rule finish_delivers [OF lay2 same2 stack st marks])
  with prep(1) fin show ?thesis by blast
qed


end
