(* ===== verification/Pull_Sample.thy ===== *)
theory Pull_Sample
  imports Snapshot_Sample Pull_Delivers
begin

text \<open>The image of \<^verbatim>\<open>Client_Sample\<close> is pulled by a new client from a proxy that sends it as it is.\<close>

definition pull_builder :: builder where
  "pull_builder = sample_builder\<lparr>b_manifest := ''m'', b_config := ''c'', b_manifestDigest := sample_digest (CHR ''f''), db_BodyLength := 5\<rparr>"

definition pull_answer :: http_response where
  "pull_answer = (case WriteHeader plain_codec pull_builder of Inr r \<Rightarrow> r | Inl e \<Rightarrow> \<lparr>hr_Code = 500, hr_Header = [], hr_Body = []\<rparr>)"

definition pull_http :: http where
  "pull_http rq = Inr (pull_answer\<lparr>hr_Body := hr_Body pull_answer @ sample_body\<rparr>)"

definition pull_containerd :: "unit containerd" where
  "pull_containerd = sample_containerd\<lparr>ct_Info := \<lambda>d ct. Inr []\<rparr>"

definition pull_snapshots :: "unit world snapshot_service" where
  "pull_snapshots = \<lparr>ss_Stat = (\<lambda>k w. (w, Inr zero_info)), ss_Prepare = (\<lambda>k p l w. (w, Inr ())), ss_Commit = (\<lambda>n k l w. (w, Inr ()))\<rparr>"

definition pull_ce :: "unit client_env" where
  "pull_ce = sample_ce\<lparr>ce_config := \<lambda>b. Inr [''diff'']\<rparr>"

definition pull_client :: client where "pull_client = new_client sample_cfg"

definition pull_host :: host where "pull_host = \<lparr>ho_disk = \<lparr>dk_files = [], dk_dirs = []\<rparr>, ho_mounts = []\<rparr>"

lemma pull_ready: "client_ready pull_ce pull_containerd pull_snapshots [''sl''] pull_client"
proof -
  have "containerd_works pull_containerd" by (simp add: containerd_works_def pull_containerd_def sample_containerd_def)
  moreover have "snapshots_work i pull_snapshots" for i
    by (simp add: snapshots_work_def pull_snapshots_def AddSnapshot_def undisturbed_refl)
  moreover have "en_os (ce_env pull_ce) = no_os_faults" by (simp add: pull_ce_def sample_ce_def sample_env_def no_os_faults_def)
  moreover have "cf_FileSystemRoot (cl_cfg pull_client) = abs_path [''sl'']" by code_simp
  ultimately show ?thesis by (simp add: client_ready_def pull_ce_def sample_ce_def normal_comp_def)
qed

lemma pull_fits: "bundle_fits pull_ce [''sl''] (map_of (cl_layerMap pull_client)) sample_gz [''diff''] sample_body sample_bundle (ho_disk pull_host)"
proof -
  let ?m = "bundle_manager [''sl''] (\<lambda>x. map_of (cl_layerMap pull_client) x \<noteq> None) sample_bundle"
  have "bundle_ok sample_bundle" by code_simp
  moreover have "body_readable sample_gz ?m sample_body" by code_simp
  moreover have "map_of (cl_layerMap pull_client) = Map.empty" by (simp add: pull_client_def new_client_def)
  then have "fresh_room [''sl''] (map_of (cl_layerMap pull_client)) ?m (ho_disk pull_host)"
    by (simp add: fresh_room_def pull_host_def file_at_def)
  moreover have "length (ce_ChainIDs pull_ce [''diff'']) \<le> length (ri_Layers (rb_Destination sample_bundle))" by code_simp
  ultimately show ?thesis by (simp add: bundle_fits_def)
qed

lemma pull_header: "int64 (int (length (streams plain_codec pull_builder ''5'')))" "int64 (int (length (streams plain_codec pull_builder ''5'')) + db_BodyLength pull_builder)"
    "cd_marshal plain_codec pull_builder = Inr ''5''" "cd_digest plain_codec ''5'' \<noteq> []" "is_ok (WriteHeader plain_codec pull_builder)"
  by code_simp+

lemma pull_proxy: "is_ok (proxy_of (cl_cfg pull_client) [])"
  by code_simp

lemma pull_init: "is_ok (init_manager pull_ce pull_client False [''diff''] (sample_digest (CHR ''f'')) sample_bundle)"
  by code_simp

lemma pull_paths: "delivered [''sl''] (\<lambda>x. map_of (cl_layerMap pull_client) x \<noteq> None) sample_gz [9] sample_body sample_bundle d \<longleftrightarrow>
    file_at d (sample_path (CHR ''b'')) = Some [1, 2] \<and> file_at d (sample_path (CHR ''c'')) = Some [3, 4, 5] \<and> file_at d (sample_local @ ''/completed.json'') = Some [9]"
proof -
  let ?m = "bundle_manager [''sl''] (\<lambda>x. map_of (cl_layerMap pull_client) x \<noteq> None) sample_bundle"
  have "abs_path (content_comps [''sl''] ?m 0) = sample_path (CHR ''b'')" "abs_path (content_comps [''sl''] ?m 1) = sample_path (CHR ''c'')"
    "content_data sample_gz ?m sample_body 0 = [1, 2]" "content_data sample_gz ?m sample_body 1 = [3, 4, 5]"
    by code_simp+
  moreover have "length (rb_Contents sample_bundle) = 2" "length (ri_Layers (rb_Destination sample_bundle)) = 1" by code_simp+
  moreover have "abs_path (layer_comps [''sl''] (ri_Layers (rb_Destination sample_bundle) ! 0) @ [''completed.json'']) = sample_local @ ''/completed.json''" by code_simp
  moreover have "map_of (cl_layerMap pull_client) x = None" for x by (simp add: pull_client_def new_client_def)
  ultimately show ?thesis by (auto simp: delivered_def less_Suc_eq numeral_2_eq_2 all_set_conv_all_nth)
qed


end
