(* ===== verification/Spec2Isabelle.thy ===== *)
theory Spec2Isabelle
  imports Cli Cli_Host Client_Config Client_Core Client_Files Client_Mounts Client_Pull Client_Ready Client_Sample Convert_Sample Convertor Convertor_Index Convertor_Laws Daemon_API Delta_Builder Delta_Data Delta_Protocol Digest_Path Fs_Node Go_Path Index_Sample Layer_Cache Local_Disk Manager Manager_Extract Manager_Store Manager_Tree Meta_DB Programs Programs_Laws Programs_Sample Proxy_Extractor Proxy_Server Pull_Delivers Pull_Sample SL_Prelude Snapshot_Sample Snapshotter Snapshotter_Laws Stargz_Reader Stargz_Writer Toc Tracer Util
begin

text \<open>
  Starlight: container images that start before they are pulled. The proxy keeps the tables of contents of
  images in a database and sends a client that has one image the difference to another, ordered by the ranks of the files;
  the client writes the contents to its disk while a FUSE file system serves the image.

  The parts of the program and their theories. Each theory opens with what it holds; the definitions have the names of the
  code, receivers are the first argument, and the order of the files is the order below.

    \<^item> \<^verbatim>\<open>SL_Prelude\<close>, \<^verbatim>\<open>Go_Path\<close>, \<^verbatim>\<open>Local_Disk\<close>: Go errors and panics as values (\<open>result\<close>), maps, orders and sorting as
      locales, and the parts of \<^verbatim>\<open>path\<close>, \<^verbatim>\<open>os\<close> and \<^verbatim>\<open>io\<close> that the sources use.
    \<^item> \<^verbatim>\<open>Toc\<close> (util/common/toc.go), \<^verbatim>\<open>Stargz_Reader\<close>, \<^verbatim>\<open>Stargz_Writer\<close> (util/common/stargz.go): entries of tables of contents, and
      blobs with such a table: the tree of the entries, chunks, the footer, and the writer.
    \<^item> \<^verbatim>\<open>Tracer\<close> (client/fs/tracer.go), \<^verbatim>\<open>Layer_Cache\<close> (util/common/cache.go): traces of file accesses with their ranks, and the
      cache of layers on the proxy with its subscribers.
    \<^item> \<^verbatim>\<open>Delta_Data\<close> (util/send, util/receive): the delta bundle as it is sent and received.
    \<^item> \<^verbatim>\<open>Meta_DB\<close> (proxy/database.go), \<^verbatim>\<open>Proxy_Extractor\<close> (proxy/extractor.go, proxy/config.go): the tables, whose statements may
      fail, with their constraints, and the saving of images into them.
    \<^item> \<^verbatim>\<open>Delta_Builder\<close> (proxy/builder.go): which contents a client needs, their order and offsets, and the body.
    \<^item> \<^verbatim>\<open>Delta_Protocol\<close> (proxy/api.go, the reading part of client/client.go), \<^verbatim>\<open>Proxy_Server\<close> (proxy/server.go): the requests, the
      response with its streams, and the handlers of the server.
    \<^item> \<^verbatim>\<open>Fs_Node\<close> (client/fs/fs.go, instance.go), \<^verbatim>\<open>Manager\<close> (client/manager.go): the nodes of the file system over the interface
      \<^verbatim>\<open>ImageManager\<close>, and the manager that provides it: it links the files to trees and extracts the contents.
      \<^verbatim>\<open>Manager_Extract\<close>, \<^verbatim>\<open>Digest_Path\<close>, \<^verbatim>\<open>Manager_Store\<close>, \<^verbatim>\<open>Manager_Tree\<close> and \<^verbatim>\<open>Client_Files\<close> have their properties, and
      \<^verbatim>\<open>Client_Sample\<close> an image that the properties are applied to.
    \<^item> \<^verbatim>\<open>Snapshotter\<close> (client/snapshotter/plugin.go, operator.go): the snapshotter that containerd calls, over a metadata store and the
      interface \<^verbatim>\<open>PluginClient\<close>. \<^verbatim>\<open>Snapshotter_Laws\<close> has its transactions, the stack and the overlay of a snapshot, and
      the laws of the interface, under which mounting returns.
    \<^item> \<^verbatim>\<open>Client_Config\<close> (client/config.go), \<^verbatim>\<open>Client_Core\<close>, \<^verbatim>\<open>Client_Pull\<close> (client/client.go), \<^verbatim>\<open>Daemon_API\<close> (client/grpc.go): the
      client that provides the interface: its layers, images and managers, the scan of the disk, pulling, and the service of the
      daemon. \<^verbatim>\<open>Client_Mounts\<close> has the invariant that links layers to managers and discharges the laws;
      \<^verbatim>\<open>Snapshot_Sample\<close> has the examples.
    \<^item> \<^verbatim>\<open>Client_Ready\<close>, \<^verbatim>\<open>Pull_Delivers\<close>: the parts of a pull put together, from the response that the builder writes, over the streams,
      the manager, its directories and snapshots, to the files that the client serves; \<^verbatim>\<open>Pull_Sample\<close> pulls an image.
    \<^item> \<^verbatim>\<open>Convertor\<close> (util/convertor.go): converting an image or an index of images. \<^verbatim>\<open>Convertor_Laws\<close> and \<^verbatim>\<open>Convertor_Index\<close> show
      that the goroutines of the layers may run in any order, that the blobs open again, and which entries an index has;
      \<^verbatim>\<open>Convert_Sample\<close> and \<^verbatim>\<open>Index_Sample\<close> have the examples.
    \<^item> \<^verbatim>\<open>Util\<close> (util/log.go, random.go, db.go, json.go, writer.go, config.go): levels, identifiers, numbers as bytes, the project root.
    \<^item> \<^verbatim>\<open>Cli\<close>, \<^verbatim>\<open>Cli_Host\<close> (cmd/ctr-starlight): the commands, as functions of their flags and of the daemon they call, and
      the two that change the host, install and reset. \<^verbatim>\<open>Programs\<close> (cmd/starlight-daemon, cmd/starlight-proxy, the two services in
      client/client.go): what the processes start with; \<^verbatim>\<open>Programs_Laws\<close> and \<^verbatim>\<open>Programs_Sample\<close> have the properties and examples.

  How state is modelled. A struct is a record. A pointer that is shared is an index into the list that owns the object, or an
  address of a store (the entries of a table of contents); a Go map is an association list or a map, and where Go
  iterates over one in any order, the order is a parameter \<open>iter\<close> that the theorems take to be any permutation. What
  is not in the repository (the registry, PostgreSQL, gzip, JSON, SHA-256, the kernel, go-fuse, times) is a parameter, whose
  documented behaviour is a named hypothesis of the theorems that need it. Every error and panic is a branch of the result.
  Concurrency is modelled where a property depends on it: the subscribers of a cached layer, and extracting, a
  relation of steps that other calls may come between.

  Bounds and fuel. \<^verbatim>\<open>init_loop\<close> is bounded by the number of attempts of the source; the loops of the snapshotter that need not end are
  partial functions to an option, where \<open>None\<close> is a call that never returns; recursion is structural elsewhere or has a
  measure. Integers are unbounded where the code only adds sizes, and words where it converts or shifts.

  Not modelled: the generated gRPC code; the tables of command line flags with their help texts, and the library that parses them;
  how the printed lines are formatted and logging; listening on sockets and the signals of the processes; opening the Bolt
  database; locks that no property depends on; and the transport of HTTP and of FUSE. These are calls of libraries whose effect is outside
  of the repository, or texts.
\<close>

end
